(* ===== verification/Prelude.thy ===== *)
theory Prelude
  imports Main "HOL-Library.Word" "HOL-Library.Char_ord" "HOL-Library.List_Lexorder"
begin

text \<open>
  Shared vocabulary of the development.

  Go values: a Go \<open>string\<close> and a Go \<open>[]byte\<close> are both byte sequences, so both are \<open>string\<close> here
  (an Isabelle \<open>char\<close> is one byte). A \<open>time.Time\<close> is the number of nanoseconds since Go's zero
  time, so \<open>IsZero\<close> is \<open>t = 0\<close>. A UUID is a 128-bit word and \<open>uuid.Nil\<close> is 0.

  Effects: a fallible computation returns \<open>'e + 'a\<close> (\<open>Inl\<close> is the error). A computation that reads
  and writes the database is an \<open>action\<close>: it maps the state to a result and the state left behind,
  so a failing computation can still have written. \<open>within_tx\<close> is \<open>database.WithTx\<close>.

  The theory also holds the regular expressions of Go's \<open>regexp\<close> that the sources use, with a
  derivative matcher and its correctness, \<open>strings.TrimSpace\<close>, and association tables with a
  key, the model of a PostgreSQL table.
\<close>

named_theorems res_elims \<open>what a successful result says about its parts\<close>
named_theorems act_simps \<open>running a database action\<close>

type_synonym bytes = string
type_synonym time = int
type_synonym duration = int
type_synonym uuid = "128 word"
type_synonym ('s, 'e, 'a) action = "'s \<Rightarrow> ('e + 'a) \<times> 's"

abbreviation uuid_Nil :: uuid where "uuid_Nil \<equiv> 0"

section \<open>Results\<close>

fun res_bind :: "'e + 'a \<Rightarrow> ('a \<Rightarrow> 'e + 'b) \<Rightarrow> 'e + 'b" where
  "res_bind (Inl e) f = Inl e"
| "res_bind (Inr x) f = f x"

definition check_err :: "'e option \<Rightarrow> 'e + unit" where
  "check_err r = (case r of None \<Rightarrow> Inr () | Some e \<Rightarrow> Inl e)"

definition of_option :: "'e \<Rightarrow> 'a option \<Rightarrow> 'e + 'a" where
  "of_option e r = (case r of None \<Rightarrow> Inl e | Some x \<Rightarrow> Inr x)"

definition lift_err :: "('e \<Rightarrow> 'f) \<Rightarrow> 'e + 'a \<Rightarrow> 'f + 'a" where
  "lift_err w r = map_sum w id r"

section \<open>Database actions\<close>

definition act_return :: "'a \<Rightarrow> ('s, 'e, 'a) action" where
  "act_return x = (\<lambda>s. (Inr x, s))"

definition act_fail :: "'e \<Rightarrow> ('s, 'e, 'a) action" where
  "act_fail e = (\<lambda>s. (Inl e, s))"

definition act_bind :: "('s, 'e, 'a) action \<Rightarrow> ('a \<Rightarrow> ('s, 'e, 'b) action) \<Rightarrow> ('s, 'e, 'b) action" where
  "act_bind m f = (\<lambda>s. case m s of (Inl e, s') \<Rightarrow> (Inl e, s') | (Inr x, s') \<Rightarrow> f x s')"

text \<open>\<open>act_try\<close> hands the outcome, error or value, to the code that inspects it.\<close>

definition act_try :: "('s, 'e, 'a) action \<Rightarrow> ('e + 'a \<Rightarrow> ('s, 'f, 'b) action) \<Rightarrow> ('s, 'f, 'b) action" where
  "act_try m f = (\<lambda>s. case m s of (r, s') \<Rightarrow> f r s')"

definition act_lift :: "'e + 'a \<Rightarrow> ('s, 'e, 'a) action" where
  "act_lift r = (\<lambda>s. (r, s))"

definition act_read :: "('s \<Rightarrow> 'e + 'a) \<Rightarrow> ('s, 'e, 'a) action" where
  "act_read f = (\<lambda>s. (f s, s))"

definition act_write :: "('s \<Rightarrow> 'e + ('a \<times> 's)) \<Rightarrow> ('s, 'e, 'a) action" where
  "act_write f = (\<lambda>s. case f s of Inl e \<Rightarrow> (Inl e, s) | Inr (x, s') \<Rightarrow> (Inr x, s'))"

text \<open>\<open>database.WithTx\<close>: the callback's writes are kept only when it returns no error; the
  deferred rollback restores the state otherwise.\<close>

definition within_tx :: "('s, 'e, 'a) action \<Rightarrow> ('s, 'e, 'a) action" where
  "within_tx f = (\<lambda>s. case f s of (Inl e, _) \<Rightarrow> (Inl e, s) | (Inr x, s') \<Rightarrow> (Inr x, s'))"

section \<open>Bytes, white space and time\<close>

definition byte_val :: "char \<Rightarrow> nat" where
  "byte_val c = of_char c"

definition in_range :: "nat \<Rightarrow> nat \<Rightarrow> char \<Rightarrow> bool" where
  "in_range lo hi c \<longleftrightarrow> lo \<le> byte_val c \<and> byte_val c \<le> hi"

definition is_digit :: "char \<Rightarrow> bool" where
  "is_digit c \<longleftrightarrow> in_range 48 57 c"

definition is_lower :: "char \<Rightarrow> bool" where
  "is_lower c \<longleftrightarrow> in_range 97 122 c"

definition is_upper :: "char \<Rightarrow> bool" where
  "is_upper c \<longleftrightarrow> in_range 65 90 c"

definition is_hex :: "char \<Rightarrow> bool" where
  "is_hex c \<longleftrightarrow> is_digit c \<or> in_range 97 102 c"

text \<open>\<open>unicode.IsSpace\<close> on UTF-8 bytes: the ASCII spaces, U+0085, U+00A0, U+1680, U+2000 to U+200A,
  U+2028, U+2029, U+202F, U+205F and U+3000. \<open>space_width\<close> is the width of the white-space rune that
  starts the string (0 for none), \<open>space_width_rev\<close> that of the one that ends it, read on the
  reversed string.\<close>

definition space1 :: "nat \<Rightarrow> bool" where
  "space1 a \<longleftrightarrow> 9 \<le> a \<and> a \<le> 13 \<or> a = 32"

definition space2 :: "nat \<Rightarrow> nat \<Rightarrow> bool" where
  "space2 a b \<longleftrightarrow> a = 194 \<and> (b = 133 \<or> b = 160)"

definition space3 :: "nat \<Rightarrow> nat \<Rightarrow> nat \<Rightarrow> bool" where
  "space3 a b c \<longleftrightarrow> a = 225 \<and> b = 154 \<and> c = 128
     \<or> a = 226 \<and> b = 128 \<and> (128 \<le> c \<and> c \<le> 138 \<or> c = 168 \<or> c = 169 \<or> c = 175)
     \<or> a = 226 \<and> b = 129 \<and> c = 159
     \<or> a = 227 \<and> b = 128 \<and> c = 128"

fun space_width :: "string \<Rightarrow> nat" where
  "space_width [] = 0"
| "space_width [a] = (if space1 (byte_val a) then 1 else 0)"
| "space_width [a, b] =
     (if space1 (byte_val a) then 1 else if space2 (byte_val a) (byte_val b) then 2 else 0)"
| "space_width (a # b # c # _) =
     (if space1 (byte_val a) then 1
      else if space2 (byte_val a) (byte_val b) then 2
      else if space3 (byte_val a) (byte_val b) (byte_val c) then 3 else 0)"

fun space_width_rev :: "string \<Rightarrow> nat" where
  "space_width_rev [] = 0"
| "space_width_rev [a] = (if space1 (byte_val a) then 1 else 0)"
| "space_width_rev [a, b] =
     (if space1 (byte_val a) then 1 else if space2 (byte_val b) (byte_val a) then 2 else 0)"
| "space_width_rev (a # b # c # _) =
     (if space1 (byte_val a) then 1
      else if space2 (byte_val b) (byte_val a) then 2
      else if space3 (byte_val c) (byte_val b) (byte_val a) then 3 else 0)"

function strip :: "(string \<Rightarrow> nat) \<Rightarrow> string \<Rightarrow> string" where
  "strip w s = (if w s = 0 \<or> s = [] then s else strip w (drop (w s) s))"
  by pat_completeness auto
termination
  by (relation "measure (\<lambda>(w, s). length s)") auto

declare strip.simps [simp del]

definition trim_left :: "string \<Rightarrow> string" where
  "trim_left s = strip space_width s"

definition trim_right :: "string \<Rightarrow> string" where
  "trim_right s = rev (strip space_width_rev (rev s))"

definition trim_space :: "string \<Rightarrow> string" where
  "trim_space s = trim_right (trim_left s)"

text \<open>A range loop over a Go string yields a rune below 0x80 exactly at every byte below 0x80, so
  looking for control characters rune by rune is looking for them byte by byte.\<close>

definition containsControl :: "string \<Rightarrow> bool" where
  "containsControl s \<longleftrightarrow> list_ex (\<lambda>c. byte_val c < 32 \<or> byte_val c = 127) s"

text \<open>\<open>strings.ToLower\<close> as far as ASCII text is compared with the result: ASCII capitals, and the two
  other runes whose lower case is ASCII, U+0130 (bytes C4 B0) and U+212A (bytes E2 84 AA).\<close>

definition lower_char :: "char \<Rightarrow> char" where
  "lower_char c = (if is_upper c then char_of (byte_val c + 32) else c)"

function to_lower :: "string \<Rightarrow> string" where
  "to_lower s = (case s of [] \<Rightarrow> []
     | c # r \<Rightarrow>
        if map byte_val (take 2 s) = [196, 176] then CHR ''i'' # to_lower (drop 2 s)
        else if map byte_val (take 3 s) = [226, 132, 170] then CHR ''k'' # to_lower (drop 3 s)
        else lower_char c # to_lower r)"
  by pat_completeness auto
termination
  by (relation "measure length") auto

declare to_lower.simps [simp del]

definition microsecond :: duration where "microsecond = 1000"
definition second_ns :: duration where "second_ns = 1000000000"

text \<open>\<open>t.Truncate(d)\<close> rounds down to a multiple of \<open>d\<close> since the zero time.\<close>

definition truncate_time :: "duration \<Rightarrow> time \<Rightarrow> time" where
  "truncate_time d t = t - t mod d"

section \<open>Regular expressions\<close>

datatype regex =
    Never
  | Epsilon
  | Cls "char \<Rightarrow> bool"
  | Cat regex regex
  | Alt regex regex
  | Star regex

fun nullable :: "regex \<Rightarrow> bool" where
  "nullable Never = False"
| "nullable Epsilon = True"
| "nullable (Cls p) = False"
| "nullable (Cat r s) = (nullable r \<and> nullable s)"
| "nullable (Alt r s) = (nullable r \<or> nullable s)"
| "nullable (Star r) = True"

fun deriv :: "char \<Rightarrow> regex \<Rightarrow> regex" where
  "deriv c Never = Never"
| "deriv c Epsilon = Never"
| "deriv c (Cls p) = (if p c then Epsilon else Never)"
| "deriv c (Cat r s) =
     (if nullable r then Alt (Cat (deriv c r) s) (deriv c s) else Cat (deriv c r) s)"
| "deriv c (Alt r s) = Alt (deriv c r) (deriv c s)"
| "deriv c (Star r) = Cat (deriv c r) (Star r)"

fun matches :: "regex \<Rightarrow> string \<Rightarrow> bool" where
  "matches r [] = nullable r"
| "matches r (c # s) = matches (deriv c r) s"

fun rep :: "regex \<Rightarrow> nat \<Rightarrow> regex" where
  "rep r 0 = Epsilon"
| "rep r (Suc n) = Cat r (rep r n)"

fun rep_upto :: "regex \<Rightarrow> nat \<Rightarrow> regex" where
  "rep_upto r 0 = Epsilon"
| "rep_upto r (Suc n) = Alt Epsilon (Cat r (rep_upto r n))"

definition opt :: "regex \<Rightarrow> regex" where
  "opt r = Alt Epsilon r"

definition plus_re :: "regex \<Rightarrow> regex" where
  "plus_re r = Cat r (Star r)"

definition rep_between :: "regex \<Rightarrow> nat \<Rightarrow> nat \<Rightarrow> regex" where
  "rep_between r lo hi = Cat (rep r lo) (rep_upto r (hi - lo))"

definition chr_re :: "char \<Rightarrow> regex" where
  "chr_re a = Cls (\<lambda>c. c = a)"

inductive_set star_lang :: "string set \<Rightarrow> string set" for A where
  star_nil: "[] \<in> star_lang A"
| star_step: "x \<in> A \<Longrightarrow> y \<in> star_lang A \<Longrightarrow> x @ y \<in> star_lang A"

fun lang :: "regex \<Rightarrow> string set" where
  "lang Never = {}"
| "lang Epsilon = {[]}"
| "lang (Cls p) = {[c] | c. p c}"
| "lang (Cat r s) = {x @ y | x y. x \<in> lang r \<and> y \<in> lang s}"
| "lang (Alt r s) = lang r \<union> lang s"
| "lang (Star r) = star_lang (lang r)"

section \<open>Tables with a key\<close>

definition tbl_get :: "('r \<Rightarrow> 'k) \<Rightarrow> 'r list \<Rightarrow> 'k \<Rightarrow> 'r option" where
  "tbl_get k rows x = find (\<lambda>r. k r = x) rows"

definition tbl_put :: "('r \<Rightarrow> 'k) \<Rightarrow> 'r \<Rightarrow> 'r list \<Rightarrow> 'r list" where
  "tbl_put k row rows = map (\<lambda>r. if k r = k row then row else r) rows"

definition tbl_has :: "('r \<Rightarrow> 'k) \<Rightarrow> 'r list \<Rightarrow> 'k \<Rightarrow> bool" where
  "tbl_has k rows x \<longleftrightarrow> list_ex (\<lambda>r. k r = x) rows"

section \<open>Lemmas on results and actions\<close>

lemma res_bind_Inr [res_elims]:
  "res_bind m f = Inr y \<longleftrightarrow> (\<exists>x. m = Inr x \<and> f x = Inr y)"
  by (cases m) auto

lemma res_bind_Inl [res_elims]:
  "res_bind m f = Inl e \<longleftrightarrow> m = Inl e \<or> (\<exists>x. m = Inr x \<and> f x = Inl e)"
  by (cases m) auto

lemma check_err_Inr [simp]: "check_err r = Inr u \<longleftrightarrow> r = None"
  by (simp add: check_err_def split: option.split)

lemma check_err_Inl [simp]: "check_err r = Inl e \<longleftrightarrow> r = Some e"
  by (simp add: check_err_def split: option.split)

lemma check_err_None [simp]: "check_err None = Inr ()"
  by (simp add: check_err_def)

lemma check_err_Some [simp]: "check_err (Some e) = Inl e"
  by (simp add: check_err_def)

lemma of_option_Inr [simp]: "of_option e r = Inr x \<longleftrightarrow> r = Some x"
  by (simp add: of_option_def split: option.split)

lemma of_option_Inl [simp]: "of_option e r = Inl f \<longleftrightarrow> r = None \<and> f = e"
  by (auto simp add: of_option_def split: option.split)

lemma of_option_simps [simp]: "of_option e None = Inl e" "of_option e (Some x) = Inr x"
  by (simp_all add: of_option_def)

lemma lift_err_simps [simp]: "lift_err w (Inl e) = Inl (w e)" "lift_err w (Inr x) = Inr x"
  by (simp_all add: lift_err_def)

lemma lift_err_Inr [simp]: "lift_err w r = Inr x \<longleftrightarrow> r = Inr x"
  by (cases r) simp_all

lemma Inr_lift_err [simp]: "Inr x = lift_err w r \<longleftrightarrow> r = Inr x"
  by (cases r) auto

lemma Inl_lift_err [simp]: "Inl f = lift_err w r \<longleftrightarrow> (\<exists>e. r = Inl e \<and> f = w e)"
  by (cases r) auto

lemma lift_err_Inl [simp]: "lift_err w r = Inl f \<longleftrightarrow> (\<exists>e. r = Inl e \<and> f = w e)"
  by (cases r) auto

lemma act_return_run [act_simps]: "act_return x s = (Inr x, s)"
  by (simp add: act_return_def)

lemma act_fail_run [act_simps]: "act_fail e s = (Inl e, s)"
  by (simp add: act_fail_def)

lemma act_lift_run [act_simps]: "act_lift r s = (r, s)"
  by (simp add: act_lift_def)

lemma act_read_run [act_simps]: "act_read f s = (f s, s)"
  by (simp add: act_read_def)

lemma act_bind_Inr [act_simps]:
  "act_bind m f s = (Inr y, s') \<longleftrightarrow> (\<exists>x t. m s = (Inr x, t) \<and> f x t = (Inr y, s'))"
  by (cases "m s"; cases "fst (m s)") (auto simp: act_bind_def)

lemma act_bind_Inl [act_simps]:
  "act_bind m f s = (Inl e, s') \<longleftrightarrow>
     m s = (Inl e, s') \<or> (\<exists>x t. m s = (Inr x, t) \<and> f x t = (Inl e, s'))"
  by (cases "m s"; cases "fst (m s)") (auto simp: act_bind_def)

lemma act_try_run [act_simps]:
  "act_try m f s = (r, s') \<longleftrightarrow> (\<exists>e t. m s = (Inl e, t) \<and> f (Inl e) t = (r, s'))
     \<or> (\<exists>x t. m s = (Inr x, t) \<and> f (Inr x) t = (r, s'))"
  by (cases "m s"; cases "fst (m s)") (auto simp: act_try_def)

lemma act_write_Inr [act_simps]: "act_write f s = (Inr x, s') \<longleftrightarrow> f s = Inr (x, s')"
  by (auto simp: act_write_def split: sum.splits prod.splits)

lemma act_write_Inl [act_simps]: "act_write f s = (Inl e, s') \<longleftrightarrow> f s = Inl e \<and> s' = s"
  by (auto simp: act_write_def split: sum.splits prod.splits)

lemma within_tx_Inr [act_simps]: "within_tx f s = (Inr x, s') \<longleftrightarrow> f s = (Inr x, s')"
  by (auto simp: within_tx_def split: sum.splits prod.splits)

lemma within_tx_Inl [act_simps]:
  "within_tx f s = (Inl e, s') \<longleftrightarrow> s' = s \<and> (\<exists>t. f s = (Inl e, t))"
  by (auto simp: within_tx_def split: sum.splits prod.splits)

text \<open>The contract of a transactor: it never changes the outcome of the callback, keeps the
  writes of a callback that succeeds and none of one that fails.\<close>

locale transactor =
  fixes run :: "('s, 'e, 'a) action \<Rightarrow> ('s, 'e, 'a) action"
  assumes run_result: "fst (run f s) = fst (f s)"
    and run_commit: "fst (f s) = Inr x \<Longrightarrow> snd (run f s) = snd (f s)"
    and run_rollback: "fst (f s) = Inl e \<Longrightarrow> snd (run f s) = s"
begin

lemma run_preserves:
  assumes inv: "I s" and body: "\<And>x. fst (f s) = Inr x \<Longrightarrow> I (snd (f s))"
  shows "I (snd (run f s))"
  by (cases "fst (f s)") (auto simp: run_commit run_rollback inv body)

lemma run_atomic: "snd (run f s) = s \<or> (\<exists>x. fst (run f s) = Inr x \<and> run f s = f s)"
  by (cases "fst (f s)") (auto simp: run_commit run_rollback run_result prod_eq_iff)

end

interpretation tx: transactor within_tx
  by unfold_locales (auto simp: within_tx_def split: sum.splits prod.splits)

text \<open>\<open>keeps R m\<close>: every run of \<open>m\<close>, successful or not, relates its start to its end by \<open>R\<close>. When \<open>R\<close> is
  reflexive and transitive it is enough to know this of the parts.\<close>

definition keeps :: "('s \<Rightarrow> 's \<Rightarrow> bool) \<Rightarrow> ('s, 'e, 'a) action \<Rightarrow> bool" where
  "keeps R m \<longleftrightarrow> (\<forall>s r s'. m s = (r, s') \<longrightarrow> R s s')"

lemma keepsI: "(\<And>s r s'. m s = (r, s') \<Longrightarrow> R s s') \<Longrightarrow> keeps R m"
  by (auto simp: keeps_def)

lemma keepsD: "keeps R m \<Longrightarrow> m s = (r, s') \<Longrightarrow> R s s'"
  by (auto simp: keeps_def)

locale evolution =
  fixes R :: "'s \<Rightarrow> 's \<Rightarrow> bool"
  assumes R_refl: "R s s" and R_trans: "R s t \<Longrightarrow> R t v \<Longrightarrow> R s v"
begin

lemma keeps_basic:
  "keeps R (act_return x)" "keeps R (act_fail e)" "keeps R (act_lift r)" "keeps R (act_read f)"
  by (auto intro!: keepsI simp: act_simps R_refl)

lemma keeps_write: "(\<And>s x s'. f s = Inr (x, s') \<Longrightarrow> R s s') \<Longrightarrow> keeps R (act_write f)"
  by (auto intro!: keepsI simp: act_write_def R_refl split: sum.splits)

lemma keeps_bind:
  assumes "keeps R m" "\<And>x. keeps R (f x)"
  shows "keeps R (act_bind m f)"
proof (rule keepsI)
  fix s r s' assume run: "act_bind m f s = (r, s')"
  obtain q t where m: "m s = (q, t)" by (cases "m s")
  then have "R s t" using assms(1) by (rule keepsD [rotated])
  then show "R s s'"
    using run m assms(2) by (cases q) (auto simp: act_bind_def dest: keepsD intro: R_trans)
qed

lemma keeps_try: "keeps R m \<Longrightarrow> (\<And>x. keeps R (f x)) \<Longrightarrow> keeps R (act_try m f)"
  by (rule keepsI) (auto simp: act_try_def dest: keepsD intro: R_trans split: prod.splits)

lemma keeps_tx: "keeps R m \<Longrightarrow> keeps R (within_tx m)"
  by (rule keepsI) (auto simp: within_tx_def R_refl dest: keepsD split: prod.splits sum.splits)

text \<open>The same at one state, when what follows depends on what was read.\<close>

lemma bind_at:
  assumes "act_bind m f s = (r, s')" "\<And>q t. m s = (q, t) \<Longrightarrow> R s t"
    "\<And>x t. m s = (Inr x, t) \<Longrightarrow> f x t = (r, s') \<Longrightarrow> R t s'"
  shows "R s s'"
  using assms by (cases r) (auto simp: act_simps intro: R_trans)

lemmas keeps_rules = keeps_basic keeps_bind keeps_try keeps_tx

lemma keeps_star: "(\<And>s t. step s t \<Longrightarrow> R s t) \<Longrightarrow> step\<^sup>*\<^sup>* s t \<Longrightarrow> R s t"
  by (rotate_tac 1, induction rule: rtranclp_induct) (auto intro: R_refl R_trans)

end

section \<open>Lemmas on trimming\<close>

lemma strip_width: "strip w s = [] \<or> w (strip w s) = 0"
proof (induction w s rule: strip.induct)
  case (1 w s)
  then show ?case by (cases "w s = 0 \<or> s = []") (auto simp: strip.simps [of w s])
qed

lemma strip_suffix: "\<exists>u. s = u @ strip w s"
proof (induction w s rule: strip.induct)
  case (1 w s)
  show ?case
  proof (cases "w s = 0 \<or> s = []")
    case True
    then show ?thesis by (simp add: strip.simps [of w s])
  next
    case False
    with "1.IH" obtain u where "drop (w s) s = u @ strip w (drop (w s) s)" by auto
    then have "s = (take (w s) s @ u) @ strip w s"
      using False by (metis append_assoc append_take_drop_id strip.simps)
    then show ?thesis by blast
  qed
qed

lemma strip_done: "w s = 0 \<Longrightarrow> strip w s = s"
  by (simp add: strip.simps [of w s])

lemma space_width_prefix:
  assumes "space_width p \<noteq> 0" shows "space_width (p @ q) = space_width p"
proof (cases p rule: space_width.cases)
  case (2 a) with assms show ?thesis
    by (cases "a # q" rule: space_width.cases) (auto split: if_splits)
next
  case (3 a b) with assms show ?thesis
    by (cases "a # b # q" rule: space_width.cases) (auto split: if_splits)
qed (use assms in auto)

lemma trim_left_width: "space_width (trim_left s) = 0"
  using strip_width [of space_width s] by (auto simp: trim_left_def)

lemma trim_right_width: "space_width_rev (rev (trim_right s)) = 0"
  using strip_width [of space_width_rev "rev s"] by (auto simp: trim_right_def)

lemma trim_right_prefix: "\<exists>v. s = trim_right s @ v"
proof -
  obtain u where "rev s = u @ strip space_width_rev (rev s)" using strip_suffix by blast
  then have "s = trim_right s @ rev u"
    by (metis rev_append rev_rev_ident trim_right_def)
  then show ?thesis by blast
qed

lemma trim_right_keeps_left:
  assumes "space_width s = 0" shows "space_width (trim_right s) = 0"
  using trim_right_prefix [of s] space_width_prefix [of "trim_right s"] assms by metis

lemma trim_space_idem [simp]: "trim_space (trim_space s) = trim_space s"
proof -
  have "space_width (trim_space s) = 0"
    by (simp add: trim_space_def trim_right_keeps_left trim_left_width)
  then have left: "trim_left (trim_space s) = trim_space s"
    by (simp add: trim_left_def strip_done)
  have "space_width_rev (rev (trim_space s)) = 0"
    by (simp add: trim_space_def trim_right_width)
  then have "trim_right (trim_space s) = trim_space s"
    by (simp add: trim_right_def strip_done)
  then show ?thesis using left by (simp add: trim_space_def)
qed

lemma trim_space_Nil [simp]: "trim_space [] = []"
  by (simp add: trim_space_def trim_left_def trim_right_def strip_done)

text \<open>Printable ASCII without blanks is left alone.\<close>

definition graphic :: "char \<Rightarrow> bool" where
  "graphic c \<longleftrightarrow> in_range 33 126 c"

lemma graphic_width:
  "list_all graphic s \<Longrightarrow> space_width s = 0" "list_all graphic s \<Longrightarrow> space_width_rev s = 0"
  by (cases s rule: space_width.cases;
      auto simp: graphic_def in_range_def space1_def space2_def space3_def)+

lemma trim_space_graphic [simp]: "list_all graphic s \<Longrightarrow> trim_space s = s"
  by (simp add: trim_space_def trim_left_def trim_right_def strip_done graphic_width)

lemma graphic_class:
  "is_lower c \<Longrightarrow> graphic c" "is_digit c \<Longrightarrow> graphic c" "is_upper c \<Longrightarrow> graphic c" "is_hex c \<Longrightarrow> graphic c"
  by (auto simp: graphic_def is_lower_def is_digit_def is_upper_def is_hex_def in_range_def)

lemmas trim_eval = trim_space_def trim_left_def trim_right_def strip.simps space1_def space2_def
  space3_def byte_val_def

lemma to_lower_Nil [simp]: "to_lower [] = []"
  by (simp add: to_lower.simps)

lemma to_lower_Cons:
  "to_lower (c # s) =
     (if map byte_val (take 2 (c # s)) = [196, 176] then CHR ''i'' # to_lower (tl s)
      else if map byte_val (take 3 (c # s)) = [226, 132, 170] then CHR ''k'' # to_lower (tl (tl s))
      else lower_char c # to_lower s)"
  by (subst to_lower.simps) (simp add: drop_Suc numeral_2_eq_2 numeral_3_eq_3)

text \<open>ASCII text without capitals is its own lower case.\<close>

lemma to_lower_id:
  "list_all (\<lambda>c. byte_val c < 128 \<and> \<not> is_upper c) s \<Longrightarrow> to_lower s = s"
  by (induction s) (auto simp: to_lower_Cons lower_char_def)

section \<open>Lemmas on regular expressions\<close>

lemma nullable_lang: "nullable r \<longleftrightarrow> [] \<in> lang r"
  by (induction r) (auto intro: star_nil)

lemma star_lang_Cons:
  "c # s \<in> star_lang A \<longleftrightarrow> (\<exists>x y. s = x @ y \<and> c # x \<in> A \<and> y \<in> star_lang A)"
proof
  have "t \<in> star_lang A \<Longrightarrow> t = c # s \<Longrightarrow> \<exists>x y. s = x @ y \<and> c # x \<in> A \<and> y \<in> star_lang A" for t
  proof (induction arbitrary: s rule: star_lang.induct)
    case star_nil
    then show ?case by simp
  next
    case (star_step x y)
    then show ?case by (cases x) auto
  qed
  then show "c # s \<in> star_lang A \<Longrightarrow> \<exists>x y. s = x @ y \<and> c # x \<in> A \<and> y \<in> star_lang A" by blast
next
  assume "\<exists>x y. s = x @ y \<and> c # x \<in> A \<and> y \<in> star_lang A"
  then show "c # s \<in> star_lang A" using star_step [of "c # _" A] by auto
qed

lemma deriv_lang: "lang (deriv c r) = {s. c # s \<in> lang r}"
proof (induction r)
  case (Cat r s)
  then show ?case by (auto simp: nullable_lang Cons_eq_append_conv)
next
  case (Star r)
  then show ?case by (auto simp: star_lang_Cons)
qed auto

lemma matches_lang: "matches r s \<longleftrightarrow> s \<in> lang r"
  by (induction s arbitrary: r) (auto simp: nullable_lang deriv_lang)

lemma lang_Cat_Cls: "s \<in> lang (Cat (Cls p) r) \<longleftrightarrow> (\<exists>c t. s = c # t \<and> p c \<and> t \<in> lang r)"
proof
  assume "\<exists>c t. s = c # t \<and> p c \<and> t \<in> lang r"
  then obtain c t where "s = [c] @ t" "p c" "t \<in> lang r" by auto
  then show "s \<in> lang (Cat (Cls p) r)" unfolding lang.simps by blast
qed auto

lemma lang_rep_Cls: "s \<in> lang (rep (Cls p) n) \<longleftrightarrow> length s = n \<and> list_all p s"
proof (induction n arbitrary: s)
  case 0
  then show ?case by auto
next
  case (Suc n)
  have "s \<in> lang (rep (Cls p) (Suc n)) \<longleftrightarrow> (\<exists>c t. s = c # t \<and> p c \<and> t \<in> lang (rep (Cls p) n))"
    by (simp only: rep.simps lang_Cat_Cls)
  then show ?case using Suc by (cases s) auto
qed

lemma lang_rep_upto_Cls: "s \<in> lang (rep_upto (Cls p) n) \<longleftrightarrow> length s \<le> n \<and> list_all p s"
proof (induction n arbitrary: s)
  case 0
  then show ?case by auto
next
  case (Suc n)
  have "s \<in> lang (rep_upto (Cls p) (Suc n)) \<longleftrightarrow>
      s = [] \<or> (\<exists>c t. s = c # t \<and> p c \<and> t \<in> lang (rep_upto (Cls p) n))"
    by (simp only: rep_upto.simps lang.simps(2,5) Un_iff lang_Cat_Cls singleton_iff)
  then show ?case using Suc by (cases s) auto
qed

lemma lang_rep_between_Cls:
  assumes "lo \<le> hi"
  shows "s \<in> lang (rep_between (Cls p) lo hi) \<longleftrightarrow> lo \<le> length s \<and> length s \<le> hi \<and> list_all p s"
proof
  assume "s \<in> lang (rep_between (Cls p) lo hi)"
  then show "lo \<le> length s \<and> length s \<le> hi \<and> list_all p s"
    using assms by (auto simp: rep_between_def lang_rep_Cls lang_rep_upto_Cls)
next
  assume s: "lo \<le> length s \<and> length s \<le> hi \<and> list_all p s"
  then have "take lo s \<in> lang (rep (Cls p) lo)" "drop lo s \<in> lang (rep_upto (Cls p) (hi - lo))"
    by (auto simp: lang_rep_Cls lang_rep_upto_Cls list_all_iff dest: in_set_takeD in_set_dropD)
  then show "s \<in> lang (rep_between (Cls p) lo hi)"
    unfolding rep_between_def using append_take_drop_id [of lo s]
    by (metis (mono_tags, lifting) lang.simps(4) mem_Collect_eq)
qed

text \<open>Every byte of a matched string lies in the classes of the expression.\<close>

fun over :: "(char \<Rightarrow> bool) \<Rightarrow> regex \<Rightarrow> bool" where
  "over p (Cls q) \<longleftrightarrow> (\<forall>c. q c \<longrightarrow> p c)"
| "over p (Cat r s) \<longleftrightarrow> over p r \<and> over p s"
| "over p (Alt r s) \<longleftrightarrow> over p r \<and> over p s"
| "over p (Star r) \<longleftrightarrow> over p r"
| "over p _ \<longleftrightarrow> True"

lemma star_lang_all:
  "s \<in> star_lang A \<Longrightarrow> (\<And>x. x \<in> A \<Longrightarrow> list_all p x) \<Longrightarrow> list_all p s"
  by (induction rule: star_lang.induct) auto

lemma lang_over: "over p r \<Longrightarrow> s \<in> lang r \<Longrightarrow> list_all p s"
proof (induction r arbitrary: s)
  case (Star r)
  then show ?case by (auto intro: star_lang_all)
qed auto

lemma matches_over: "matches r s \<Longrightarrow> over p r \<Longrightarrow> list_all p s"
  by (simp add: matches_lang lang_over)

text \<open>The four shapes of class patterns the sources use, read directly.\<close>

lemma matches_rep_Cls [simp]: "matches (rep (Cls p) n) s \<longleftrightarrow> length s = n \<and> list_all p s"
  by (simp add: matches_lang lang_rep_Cls)

lemma matches_head_between:
  assumes "lo \<le> hi"
  shows "matches (Cat (Cls p) (rep_between (Cls q) lo hi)) s \<longleftrightarrow>
    (\<exists>c t. s = c # t \<and> p c \<and> lo \<le> length t \<and> length t \<le> hi \<and> list_all q t)"
  by (simp only: matches_lang lang_Cat_Cls lang_rep_between_Cls [OF assms])

section \<open>Lemmas on tables\<close>

lemma in_drop: "x \<in> set xs \<Longrightarrow> x \<notin> set (take n xs) \<Longrightarrow> x \<in> set (drop n xs)"
  using set_append [of "take n xs" "drop n xs"] by simp

lemma sorted_split:
  assumes "sorted (map k xs)" "a \<in> set (take n xs)" "b \<in> set (drop n xs)"
  shows "k a \<le> k b"
proof -
  have "sorted (map k (take n xs) @ map k (drop n xs))"
    using assms(1) by (simp only: map_append [symmetric] append_take_drop_id)
  then show ?thesis using assms(2,3) unfolding sorted_append by simp
qed

lemma filter_below_nth:
  fixes k :: "'a \<Rightarrow> 'b :: linorder"
  assumes "sorted (map k xs)" "distinct (map k xs)" "m < length xs"
  shows "filter (\<lambda>x. k x < k (xs ! m)) xs = take m xs"
proof -
  have strict: "sorted_wrt (<) (map k xs)" using assms(1,2) by (simp add: strict_sorted_iff)
  have lt: "k (xs ! i) < k (xs ! j)" if "i < j" "j < length xs" for i j
    using sorted_wrt_nth_less [OF strict that(1)] that by simp
  have "filter (\<lambda>x. k x < k (xs ! m)) (take m xs) = take m xs"
    using lt assms(3) by (auto simp: filter_id_conv in_set_conv_nth)
  moreover have "filter (\<lambda>x. k x < k (xs ! m)) (drop m xs) = []"
  proof -
    have "\<not> k (xs ! (m + i)) < k (xs ! m)" if "m + i < length xs" for i
      using lt [of m "m + i"] that by (cases i) auto
    then show ?thesis by (auto simp: filter_empty_conv in_set_conv_nth)
  qed
  ultimately show ?thesis by (metis append_take_drop_id append_Nil2 filter_append)
qed

lemma tbl_get_Some: "tbl_get k rows x = Some r \<Longrightarrow> r \<in> set rows \<and> k r = x"
  by (auto simp: tbl_get_def find_Some_iff)

lemma tbl_get_key: "tbl_get k rows x = Some r \<Longrightarrow> k r = x"
  by (auto simp: tbl_get_def find_Some_iff)

lemma tbl_get_None: "tbl_get k rows x = None \<longleftrightarrow> x \<notin> k ` set rows"
  by (auto simp: tbl_get_def find_None_iff)

lemma tbl_has_get: "tbl_has k rows x \<longleftrightarrow> tbl_get k rows x \<noteq> None"
  by (auto simp: tbl_has_def tbl_get_None list_ex_iff)

lemma tbl_put_keys [simp]: "map k (tbl_put k row rows) = map k rows"
  by (induction rows) (auto simp: tbl_put_def)

lemma tbl_get_put_same:
  "tbl_get k rows (k row) \<noteq> None \<Longrightarrow> tbl_get k (tbl_put k row rows) (k row) = Some row"
  by (induction rows) (auto simp: tbl_get_def tbl_put_def)

lemma tbl_get_put_other:
  "x \<noteq> k row \<Longrightarrow> tbl_get k (tbl_put k row rows) x = tbl_get k rows x"
  by (induction rows) (auto simp: tbl_get_def tbl_put_def)

lemma tbl_get_put:
  "tbl_get k (tbl_put k row rows) x =
     (if x = k row then (if tbl_get k rows x = None then None else Some row) else tbl_get k rows x)"
proof (cases "x = k row \<and> tbl_get k rows x = None")
  case True
  then have "tbl_get k (tbl_put k row rows) x = None"
    by (metis (no_types, lifting) image_set tbl_get_None tbl_put_keys)
  with True show ?thesis by auto
next
  case False
  then show ?thesis by (auto simp: tbl_get_put_same tbl_get_put_other)
qed

lemma tbl_get_snoc:
  "tbl_get k (rows @ [row]) x =
     (case tbl_get k rows x of Some r \<Rightarrow> Some r | None \<Rightarrow> if k row = x then Some row else None)"
  by (induction rows) (auto simp: tbl_get_def)

lemma tbl_put_length [simp]: "length (tbl_put k row rows) = length rows"
  by (simp add: tbl_put_def)

lemma set_tbl_put: "set (tbl_put k row rows) \<subseteq> insert row {r \<in> set rows. k r \<noteq> k row}"
  by (auto simp: tbl_put_def)

lemma tbl_get_unique:
  assumes "distinct (map k rows)" "r \<in> set rows"
  shows "tbl_get k rows (k r) = Some r"
proof -
  obtain r' where r': "tbl_get k rows (k r) = Some r'"
    using assms(2) by (cases "tbl_get k rows (k r)") (auto simp: tbl_get_None)
  then have "r' \<in> set rows" "k r' = k r" by (auto dest: tbl_get_Some)
  with assms have "r' = r" by (auto simp: distinct_map inj_on_def)
  with r' show ?thesis by simp
qed

lemmas tbl_simps = tbl_get_put tbl_get_snoc

end
