(* ===== verification/GoJson.thy ===== *)
theory GoJson
  imports Prelude
begin

text \<open>
  The parts of Go's \<open>unicode/utf8\<close> and \<open>encoding/json\<close> the sources use: UTF-8 validity, the token
  reader of \<open>json.Decoder\<close> (\<open>Token\<close> and \<open>More\<close>, with its state and stack), the scalar scanner with
  string unquoting, reading a whole value, and the string writer of \<open>json.Marshal\<close>.

  Reading a whole value is recursive over the token stream and carries fuel; every token consumes
  at least one byte, so two units per byte and two more are always enough (\<open>read_value_fuel\<close>).
\<close>

section \<open>UTF-8\<close>

definition cont :: "nat \<Rightarrow> nat \<Rightarrow> nat \<Rightarrow> bool" where
  "cont lo hi b \<longleftrightarrow> lo \<le> b \<and> b \<le> hi"

text \<open>The width of the valid UTF-8 sequence a byte string starts with, 0 for none.\<close>

definition width2 :: "nat \<Rightarrow> nat \<Rightarrow> bool" where
  "width2 a b \<longleftrightarrow> cont 194 223 a \<and> cont 128 191 b"

definition width3 :: "nat \<Rightarrow> nat \<Rightarrow> nat \<Rightarrow> bool" where
  "width3 a b c \<longleftrightarrow> cont 128 191 c \<and>
     (a = 224 \<and> cont 160 191 b \<or> cont 225 236 a \<and> cont 128 191 b
      \<or> a = 237 \<and> cont 128 159 b \<or> cont 238 239 a \<and> cont 128 191 b)"

definition width4 :: "nat \<Rightarrow> nat \<Rightarrow> nat \<Rightarrow> nat \<Rightarrow> bool" where
  "width4 a b c d \<longleftrightarrow> cont 128 191 c \<and> cont 128 191 d \<and>
     (a = 240 \<and> cont 144 191 b \<or> cont 241 243 a \<and> cont 128 191 b \<or> a = 244 \<and> cont 128 143 b)"

definition utf8_width :: "bytes \<Rightarrow> nat" where
  "utf8_width s = (case map byte_val (take 4 s) of
       [] \<Rightarrow> 0
     | a # r \<Rightarrow> if a < 128 then 1
         else (case r of [] \<Rightarrow> 0
           | b # r' \<Rightarrow> if width2 a b then 2
               else (case r' of [] \<Rightarrow> 0
                 | c # r'' \<Rightarrow> if width3 a b c then 3
                     else (case r'' of [] \<Rightarrow> 0 | d # _ \<Rightarrow> if width4 a b c d then 4 else 0))))"

function utf8_valid :: "bytes \<Rightarrow> bool" where
  "utf8_valid s = (if s = [] then True
     else if utf8_width s = 0 then False else utf8_valid (drop (utf8_width s) s))"
  by pat_completeness auto
termination
  by (relation "measure length") auto

declare utf8_valid.simps [simp del]

definition byte_of :: "nat \<Rightarrow> char" where
  "byte_of n = char_of n"

text \<open>\<open>utf8.AppendRune\<close>: surrogates and values above U+10FFFF become U+FFFD.\<close>

definition encode_rune :: "nat \<Rightarrow> bytes" where
  "encode_rune r =
     (let r = (if r > 1114111 \<or> 55296 \<le> r \<and> r \<le> 57343 then 65533 else r)
      in if r < 128 then [byte_of r]
         else if r < 2048 then [byte_of (192 + r div 64), byte_of (128 + r mod 64)]
         else if r < 65536 then
           [byte_of (224 + r div 4096), byte_of (128 + r div 64 mod 64), byte_of (128 + r mod 64)]
         else [byte_of (240 + r div 262144), byte_of (128 + r div 4096 mod 64),
               byte_of (128 + r div 64 mod 64), byte_of (128 + r mod 64)])"

definition rune_error :: bytes where
  "rune_error = encode_rune 65533"

section \<open>Tokens\<close>

datatype tokenState =
    TopValue | ArrayStart | ArrayValue | ArrayComma
  | ObjectStart | ObjectKey | ObjectColon | ObjectValue | ObjectComma

datatype token = Delim char | TNum string | TStr bytes | TBool bool | TNull

datatype json_error = JEOF | JSyntax | JFuel

record decoder =
  d_buf :: bytes
  d_state :: tokenState
  d_stack :: "tokenState list"

definition new_decoder :: "bytes \<Rightarrow> decoder" where
  "new_decoder s = \<lparr>d_buf = s, d_state = TopValue, d_stack = []\<rparr>"

definition is_json_space :: "char \<Rightarrow> bool" where
  "is_json_space c \<longleftrightarrow> byte_val c = 32 \<or> byte_val c = 9 \<or> byte_val c = 10 \<or> byte_val c = 13"

definition skip_space :: "bytes \<Rightarrow> bytes" where
  "skip_space s = dropWhile is_json_space s"

definition tokenValueAllowed :: "tokenState \<Rightarrow> bool" where
  "tokenValueAllowed st \<longleftrightarrow> st = TopValue \<or> st = ArrayStart \<or> st = ArrayValue \<or> st = ObjectValue"

definition tokenValueEnd :: "tokenState \<Rightarrow> tokenState" where
  "tokenValueEnd st = (case st of ArrayStart \<Rightarrow> ArrayComma | ArrayValue \<Rightarrow> ArrayComma
     | ObjectValue \<Rightarrow> ObjectComma | _ \<Rightarrow> st)"

text \<open>Numbers, by the scanner's automaton: the longest run it accepts, or an error when the run
  breaks off after a sign, a point or an exponent mark.\<close>

definition digits_of :: "bytes \<Rightarrow> bytes" where
  "digits_of s = takeWhile is_digit s"

definition scan_int :: "bytes \<Rightarrow> (bytes \<times> bytes) option" where
  "scan_int s = (case s of [] \<Rightarrow> None
     | c # r \<Rightarrow> if c = CHR ''0'' then Some ([c], r)
                else if is_digit c then Some (digits_of s, drop (length (digits_of s)) s)
                else None)"

definition scan_frac :: "bytes \<Rightarrow> (bytes \<times> bytes) option" where
  "scan_frac s = (case s of [] \<Rightarrow> Some ([], s)
     | c # r \<Rightarrow> if c = CHR ''.'' then
           (if digits_of r = [] then None
            else Some (c # digits_of r, drop (length (digits_of r)) r))
         else Some ([], s))"

definition scan_exp :: "bytes \<Rightarrow> (bytes \<times> bytes) option" where
  "scan_exp s = (case s of [] \<Rightarrow> Some ([], s)
     | c # r \<Rightarrow> if c = CHR ''e'' \<or> c = CHR ''E'' then
           (let (sg, r') = (case r of [] \<Rightarrow> ([], r)
                 | x # xs \<Rightarrow> if x = CHR ''+'' \<or> x = CHR ''-'' then ([x], xs) else ([], r))
            in if digits_of r' = [] then None
               else Some (c # sg @ digits_of r', drop (length (digits_of r')) r'))
         else Some ([], s))"

definition scan_number :: "bytes \<Rightarrow> json_error + (token \<times> bytes)" where
  "scan_number s =
     (let (sg, s1) = (case s of [] \<Rightarrow> ([], s)
            | c # r \<Rightarrow> if c = CHR ''-'' then ([c], r) else ([], s))
      in case scan_int s1 of None \<Rightarrow> Inl JSyntax
         | Some (i, s2) \<Rightarrow> (case scan_frac s2 of None \<Rightarrow> Inl JSyntax
           | Some (f, s3) \<Rightarrow> (case scan_exp s3 of None \<Rightarrow> Inl JSyntax
             | Some (e, s4) \<Rightarrow> Inr (TNum (sg @ i @ f @ e), s4))))"

definition hex_digit :: "char \<Rightarrow> nat option" where
  "hex_digit c = (if is_digit c then Some (byte_val c - 48)
     else if in_range 97 102 c then Some (byte_val c - 87)
     else if in_range 65 70 c then Some (byte_val c - 55) else None)"

definition hex4 :: "bytes \<Rightarrow> nat option" where
  "hex4 s = (case s of a # b # c # d # _ \<Rightarrow>
       (case (hex_digit a, hex_digit b, hex_digit c, hex_digit d) of
          (Some w, Some x, Some y, Some z) \<Rightarrow> Some (w * 4096 + x * 256 + y * 16 + z)
        | _ \<Rightarrow> None)
     | _ \<Rightarrow> None)"

text \<open>The low half of a surrogate pair that follows, if there is one (\<open>getu4\<close> and
  \<open>utf16.DecodeRune\<close>).\<close>

definition low_surrogate :: "nat \<Rightarrow> bytes \<Rightarrow> nat option" where
  "low_surrogate hi s =
     (if 55296 \<le> hi \<and> hi < 56320 \<and> take 2 s = [CHR 0x5C, CHR ''u''] then
        (case hex4 (drop 2 s) of
           Some lo \<Rightarrow> if 56320 \<le> lo \<and> lo \<le> 57343
             then Some (65536 + (hi - 55296) * 1024 + (lo - 56320)) else None
         | None \<Rightarrow> None)
      else None)"

definition simple_escape :: "char \<Rightarrow> char option" where
  "simple_escape c =
     (if c = CHR 0x22 \<or> c = CHR 0x5C \<or> c = CHR ''/'' then Some c
      else if c = CHR ''b'' then Some (byte_of 8)
      else if c = CHR ''f'' then Some (byte_of 12)
      else if c = CHR ''n'' then Some (byte_of 10)
      else if c = CHR ''r'' then Some (byte_of 13)
      else if c = CHR ''t'' then Some (byte_of 9)
      else None)"

text \<open>The bytes after the opening quote: the unquoted contents and what follows the closing quote.
  Invalid UTF-8 becomes U+FFFD, as \<open>unquote\<close> does.\<close>

function scan_string :: "bytes \<Rightarrow> json_error + (bytes \<times> bytes)" where
  "scan_string s = (case s of
       [] \<Rightarrow> Inl JSyntax
     | c # r \<Rightarrow>
        if c = CHR 0x22 then Inr ([], r)
        else if byte_val c < 32 then Inl JSyntax
        else if c = CHR 0x5C then
          (case r of [] \<Rightarrow> Inl JSyntax
           | e # r' \<Rightarrow>
             if e = CHR ''u'' then
               (case hex4 r' of None \<Rightarrow> Inl JSyntax
                | Some hi \<Rightarrow>
                  (case low_surrogate hi (drop 4 r') of
                     Some cp \<Rightarrow> res_bind (scan_string (drop 10 r')) (\<lambda>(t, q). Inr (encode_rune cp @ t, q))
                   | None \<Rightarrow> res_bind (scan_string (drop 4 r')) (\<lambda>(t, q). Inr (encode_rune hi @ t, q))))
             else (case simple_escape e of None \<Rightarrow> Inl JSyntax
                | Some x \<Rightarrow> res_bind (scan_string r') (\<lambda>(t, q). Inr (x # t, q))))
        else if utf8_width s = 0 then res_bind (scan_string r) (\<lambda>(t, q). Inr (rune_error @ t, q))
        else res_bind (scan_string (drop (utf8_width s) s))
               (\<lambda>(t, q). Inr (take (utf8_width s) s @ t, q)))"
  by pat_completeness auto
termination
  by (relation "measure length") auto

declare scan_string.simps [simp del]

definition scan_literal :: "string \<Rightarrow> token \<Rightarrow> bytes \<Rightarrow> json_error + (token \<times> bytes)" where
  "scan_literal word tok s =
     (if take (length word) s = word then Inr (tok, drop (length word) s) else Inl JSyntax)"

definition scan_scalar :: "bytes \<Rightarrow> json_error + (token \<times> bytes)" where
  "scan_scalar s = (case s of [] \<Rightarrow> Inl JSyntax
     | c # r \<Rightarrow>
        if c = CHR 0x22 then res_bind (scan_string r) (\<lambda>(t, q). Inr (TStr t, q))
        else if c = CHR ''t'' then scan_literal ''true'' (TBool True) s
        else if c = CHR ''f'' then scan_literal ''false'' (TBool False) s
        else if c = CHR ''n'' then scan_literal ''null'' TNull s
        else if c = CHR ''-'' \<or> is_digit c then scan_number s
        else Inl JSyntax)"

lemma skip_space_shrinks: "skip_space s = c # r \<Longrightarrow> length r < length s"
  using length_dropWhile_le [of is_json_space s] by (simp add: skip_space_def)

text \<open>\<open>Decoder.Token\<close>. A colon or a comma in the right state is consumed and the loop goes on.\<close>

function Token :: "decoder \<Rightarrow> json_error + (token \<times> decoder)" where
  "Token d = (case skip_space (d_buf d) of
       [] \<Rightarrow> Inl JEOF
     | c # r \<Rightarrow>
        if c = CHR ''['' then
          (if tokenValueAllowed (d_state d)
           then Inr (Delim c, \<lparr>d_buf = r, d_state = ArrayStart, d_stack = d_state d # d_stack d\<rparr>)
           else Inl JSyntax)
        else if c = CHR '']'' then
          (if d_state d \<noteq> ArrayStart \<and> d_state d \<noteq> ArrayComma then Inl JSyntax
           else (case d_stack d of [] \<Rightarrow> Inl JSyntax
                 | st # sts \<Rightarrow> Inr (Delim c, \<lparr>d_buf = r, d_state = tokenValueEnd st, d_stack = sts\<rparr>)))
        else if c = CHR ''{'' then
          (if tokenValueAllowed (d_state d)
           then Inr (Delim c, \<lparr>d_buf = r, d_state = ObjectStart, d_stack = d_state d # d_stack d\<rparr>)
           else Inl JSyntax)
        else if c = CHR ''}'' then
          (if d_state d \<noteq> ObjectStart \<and> d_state d \<noteq> ObjectComma then Inl JSyntax
           else (case d_stack d of [] \<Rightarrow> Inl JSyntax
                 | st # sts \<Rightarrow> Inr (Delim c, \<lparr>d_buf = r, d_state = tokenValueEnd st, d_stack = sts\<rparr>)))
        else if c = CHR '':'' then
          (if d_state d \<noteq> ObjectColon then Inl JSyntax
           else Token (d\<lparr>d_buf := r, d_state := ObjectValue\<rparr>))
        else if c = CHR '','' then
          (if d_state d = ArrayComma then Token (d\<lparr>d_buf := r, d_state := ArrayValue\<rparr>)
           else if d_state d = ObjectComma then Token (d\<lparr>d_buf := r, d_state := ObjectKey\<rparr>)
           else Inl JSyntax)
        else if c = CHR 0x22 \<and> (d_state d = ObjectStart \<or> d_state d = ObjectKey) then
          res_bind (scan_string r) (\<lambda>(t, q). Inr (TStr t, d\<lparr>d_buf := q, d_state := ObjectColon\<rparr>))
        else if \<not> tokenValueAllowed (d_state d) then Inl JSyntax
        else res_bind (scan_scalar (c # r))
               (\<lambda>(t, q). Inr (t, d\<lparr>d_buf := q, d_state := tokenValueEnd (d_state d)\<rparr>)))"
  by pat_completeness auto
termination
  by (relation "measure (\<lambda>d. length (d_buf d))") (auto dest: skip_space_shrinks)

declare Token.simps [simp del]

definition More :: "decoder \<Rightarrow> bool" where
  "More d = (case skip_space (d_buf d) of [] \<Rightarrow> False
     | c # _ \<Rightarrow> c \<noteq> CHR '']'' \<and> c \<noteq> CHR ''}'')"

section \<open>Values\<close>

datatype json =
    JNull
  | JBool bool
  | JNum string
  | JStr bytes
  | JArr "json list"
  | JObj "(bytes \<times> json) list"

fun scalar_value :: "token \<Rightarrow> json" where
  "scalar_value (TNum n) = JNum n"
| "scalar_value (TStr t) = JStr t"
| "scalar_value (TBool b) = JBool b"
| "scalar_value TNull = JNull"
| "scalar_value (Delim c) = JNull"

fun read_value :: "nat \<Rightarrow> decoder \<Rightarrow> json_error + (json \<times> decoder)"
and read_members :: "nat \<Rightarrow> decoder \<Rightarrow> json_error + ((bytes \<times> json) list \<times> decoder)"
and read_elements :: "nat \<Rightarrow> decoder \<Rightarrow> json_error + (json list \<times> decoder)" where
  "read_value 0 d = Inl JFuel"
| "read_value (Suc n) d = res_bind (Token d) (\<lambda>(tok, d1).
     if tok = Delim (CHR ''{'') then
       res_bind (read_members n d1) (\<lambda>(ms, d2).
       res_bind (Token d2) (\<lambda>(c, d3).
         if c = Delim (CHR ''}'') then Inr (JObj ms, d3) else Inl JSyntax))
     else if tok = Delim (CHR ''['') then
       res_bind (read_elements n d1) (\<lambda>(es, d2).
       res_bind (Token d2) (\<lambda>(c, d3).
         if c = Delim (CHR '']'') then Inr (JArr es, d3) else Inl JSyntax))
     else (case tok of Delim _ \<Rightarrow> Inl JSyntax | _ \<Rightarrow> Inr (scalar_value tok, d1)))"
| "read_members 0 d = Inl JFuel"
| "read_members (Suc n) d =
     (if \<not> More d then Inr ([], d)
      else res_bind (Token d) (\<lambda>(k, d1).
        case k of TStr key \<Rightarrow>
            res_bind (read_value n d1) (\<lambda>(v, d2).
            res_bind (read_members n d2) (\<lambda>(ms, d3). Inr ((key, v) # ms, d3)))
          | _ \<Rightarrow> Inl JSyntax))"
| "read_elements 0 d = Inl JFuel"
| "read_elements (Suc n) d =
     (if \<not> More d then Inr ([], d)
      else res_bind (read_value n d) (\<lambda>(v, d1).
           res_bind (read_elements n d1) (\<lambda>(vs, d2). Inr (v # vs, d2))))"

fun json_depth :: "json \<Rightarrow> nat" where
  "json_depth (JArr es) = Suc (fold max (map json_depth es) 0)"
| "json_depth (JObj ms) = Suc (fold max (map (\<lambda>m. json_depth (snd m)) ms) 0)"
| "json_depth v = 0"

text \<open>\<open>json.Unmarshal\<close> of one document: a value, nothing but white space after it, and at most
  10000 levels of nesting.\<close>

definition fuel_for :: "bytes \<Rightarrow> nat" where
  "fuel_for s = 2 * length s + 2"

definition parse_json :: "bytes \<Rightarrow> json option" where
  "parse_json s = (case read_value (fuel_for s) (new_decoder s) of
       Inl e \<Rightarrow> None
     | Inr (v, d) \<Rightarrow> if skip_space (d_buf d) = [] \<and> json_depth v \<le> 10000 then Some v else None)"

section \<open>Writing strings\<close>

definition hex_char :: "nat \<Rightarrow> char" where
  "hex_char n = (if n < 10 then byte_of (48 + n) else byte_of (87 + n))"

text \<open>\<open>appendString\<close> with HTML escaping, as \<open>json.Marshal\<close> calls it.\<close>

definition marshal_ascii :: "char \<Rightarrow> bytes" where
  "marshal_ascii c =
     (if c = CHR 0x22 \<or> c = CHR 0x5C then [CHR 0x5C, c]
      else if byte_val c = 8 then [CHR 0x5C, CHR ''b'']
      else if byte_val c = 12 then [CHR 0x5C, CHR ''f'']
      else if byte_val c = 10 then [CHR 0x5C, CHR ''n'']
      else if byte_val c = 13 then [CHR 0x5C, CHR ''r'']
      else if byte_val c = 9 then [CHR 0x5C, CHR ''t'']
      else if byte_val c < 32 \<or> c = CHR ''<'' \<or> c = CHR ''>'' \<or> c = CHR 0x26 then
        CHR 0x5C # ''u00'' @ [hex_char (byte_val c div 16), hex_char (byte_val c mod 16)]
      else [c])"

function marshal_body :: "bytes \<Rightarrow> bytes" where
  "marshal_body s = (case s of [] \<Rightarrow> []
     | c # r \<Rightarrow>
        if byte_val c < 128 then marshal_ascii c @ marshal_body r
        else if utf8_width s = 0 then CHR 0x5C # ''ufffd'' @ marshal_body r
        else if map byte_val (take 3 s) = [226, 128, 168] then CHR 0x5C # ''u2028'' @ marshal_body (drop 3 s)
        else if map byte_val (take 3 s) = [226, 128, 169] then CHR 0x5C # ''u2029'' @ marshal_body (drop 3 s)
        else take (utf8_width s) s @ marshal_body (drop (utf8_width s) s))"
  by pat_completeness auto
termination
  by (relation "measure length") auto

declare marshal_body.simps [simp del]

definition marshal_string :: "bytes \<Rightarrow> bytes" where
  "marshal_string s = CHR 0x22 # marshal_body s @ [CHR 0x22]"

fun join_comma :: "bytes list \<Rightarrow> bytes" where
  "join_comma [] = []"
| "join_comma [x] = x"
| "join_comma (x # y # xs) = x @ '','' @ join_comma (y # xs)"

definition marshal_string_list :: "bytes list \<Rightarrow> bytes" where
  "marshal_string_list xs = ''['' @ join_comma (map marshal_string xs) @ '']''"

text \<open>\<open>json.Marshal\<close> of a \<open>map[string]string\<close>: the keys sorted.\<close>

definition marshal_string_map :: "(string \<times> string) list \<Rightarrow> bytes" where
  "marshal_string_map kvs =
     ''{'' @ join_comma (map (\<lambda>kv. marshal_string (fst kv) @ '':'' @ marshal_string (snd kv))
        (sort_key fst kvs)) @ ''}''"


section \<open>Every token consumes input\<close>

lemma scan_int_shrinks: "scan_int s = Some (t, q) \<Longrightarrow> length q < length s"
  by (auto simp: scan_int_def digits_of_def split: list.splits if_splits)

lemma scan_frac_shrinks: "scan_frac s = Some (t, q) \<Longrightarrow> length q \<le> length s"
  by (auto simp: scan_frac_def split: list.splits if_splits)

lemma scan_exp_shrinks: "scan_exp s = Some (t, q) \<Longrightarrow> length q \<le> length s"
  by (auto simp: scan_exp_def Let_def split: list.splits if_splits)

lemma scan_number_shrinks: "scan_number s = Inr (t, q) \<Longrightarrow> length q < length s"
  by (auto simp: scan_number_def Let_def split: list.splits if_splits option.splits
      dest!: scan_int_shrinks scan_frac_shrinks scan_exp_shrinks)

lemma scan_string_shrinks: "scan_string s = Inr (t, q) \<Longrightarrow> length q < length s"
proof (induction s arbitrary: t q rule: measure_induct_rule [where f = length])
  case (less s)
  have IH: "scan_string y = Inr (t', q') \<Longrightarrow> length y < length s \<Longrightarrow> length q' < length s" for y t' q'
    using less.IH less_trans by blast
  from less.prems show ?case
    by (subst (asm) scan_string.simps)
      (auto simp: res_elims split: if_splits list.splits option.splits dest: IH)
qed

lemma scan_literal_shrinks:
  "scan_literal w tok s = Inr (t, q) \<Longrightarrow> w \<noteq> [] \<Longrightarrow> length q < length s"
  by (cases s) (auto simp: scan_literal_def split: if_splits)

lemma scan_scalar_shrinks: "scan_scalar s = Inr (t, q) \<Longrightarrow> length q < length s"
  by (auto simp: scan_scalar_def res_elims split: list.splits if_splits
      dest: scan_string_shrinks scan_number_shrinks scan_literal_shrinks)

lemma Token_shrinks: "Token d = Inr (t, d') \<Longrightarrow> length (d_buf d') < length (d_buf d)"
proof (induction d arbitrary: t d' rule: measure_induct_rule [where f = "\<lambda>d. length (d_buf d)"])
  case (less d)
  show ?case
  proof (cases "skip_space (d_buf d)")
    case Nil
    with less.prems show ?thesis by (simp add: Token.simps)
  next
    case (Cons c r)
    have len: "length r < length (d_buf d)" by (rule skip_space_shrinks [OF Cons])
    have IH: "Token y = Inr (t', y') \<Longrightarrow> d_buf y = r \<Longrightarrow> length (d_buf y') < length (d_buf d)" for y t' y'
      using less.IH [of y] len less_trans by fastforce
    have "d_buf d' = r \<or> (\<exists>y. Token y = Inr (t, d') \<and> d_buf y = r)
        \<or> (\<exists>x. scan_string r = Inr (x, d_buf d')) \<or> scan_scalar (c # r) = Inr (t, d_buf d')"
      using less.prems unfolding Token.simps [of d] Cons
      by (fastforce simp: res_elims split: if_splits list.splits)
    then show ?thesis
      using len IH scan_string_shrinks scan_scalar_shrinks by (fastforce dest: less_trans)
  qed
qed

text \<open>\<open>Token\<close> itself never runs out of anything, and reading with enough fuel neither.\<close>

lemma scan_string_no_fuel: "scan_string s \<noteq> Inl JFuel"
proof (induction s rule: measure_induct_rule [where f = length])
  case (less s)
  have IH: "scan_string y = Inl JFuel \<Longrightarrow> length y < length s \<Longrightarrow> False" for y
    using less.IH by blast
  show ?case
    by (subst scan_string.simps)
      (auto simp: res_elims split: list.splits option.splits dest: IH)
qed

lemma scan_scalar_no_fuel: "scan_scalar s \<noteq> Inl JFuel"
  by (auto simp: scan_scalar_def res_elims scan_string_no_fuel scan_literal_def scan_number_def Let_def
      split: list.splits option.splits prod.splits)

lemma Token_no_fuel: "Token d \<noteq> Inl JFuel"
proof (induction d rule: measure_induct_rule [where f = "\<lambda>d. length (d_buf d)"])
  case (less d)
  show ?case
  proof (cases "skip_space (d_buf d)")
    case Nil
    then show ?thesis by (simp add: Token.simps)
  next
    case (Cons c r)
    have "d_buf y = r \<Longrightarrow> Token y \<noteq> Inl JFuel" for y
      using less.IH [of y] skip_space_shrinks [OF Cons] by simp
    then show ?thesis
      unfolding Token.simps [of d] Cons
      by (auto simp: res_elims scan_string_no_fuel scan_scalar_no_fuel split: list.splits)
  qed
qed

text \<open>One round of the member loop, by the kind of token it reads.\<close>

lemma read_members_Inr:
  assumes "read_members (Suc n) d = Inr (ms, d')"
  shows "d' = d \<or> (\<exists>key d1 v d2 ms'. Token d = Inr (TStr key, d1)
     \<and> read_value n d1 = Inr (v, d2) \<and> read_members n d2 = Inr (ms', d'))"
proof (cases "Token d")
  case (Inr r)
  obtain k d1 where "r = (k, d1)" by (cases r)
  with Inr assms show ?thesis by (cases k) (auto simp: res_elims split: if_splits)
qed (use assms in \<open>auto split: if_splits\<close>)

lemma read_members_fuel:
  assumes "read_members (Suc n) d = Inl JFuel"
  shows "\<exists>key d1. Token d = Inr (TStr key, d1) \<and> (read_value n d1 = Inl JFuel
     \<or> (\<exists>v d2. read_value n d1 = Inr (v, d2) \<and> read_members n d2 = Inl JFuel))"
proof (cases "Token d")
  case (Inl e)
  with assms Token_no_fuel [of d] show ?thesis by (auto split: if_splits)
next
  case (Inr r)
  obtain k d1 where "r = (k, d1)" by (cases r)
  with Inr assms show ?thesis by (cases k) (auto simp: res_elims split: if_splits)
qed

text \<open>What each reader leaves unread, by one induction on the fuel.\<close>

lemma read_shrinks:
  "(\<forall>d v d'. read_value n d = Inr (v, d') \<longrightarrow> length (d_buf d') < length (d_buf d))
   \<and> (\<forall>d ms d'. read_members n d = Inr (ms, d') \<longrightarrow> length (d_buf d') \<le> length (d_buf d))
   \<and> (\<forall>d vs d'. read_elements n d = Inr (vs, d') \<longrightarrow> length (d_buf d') \<le> length (d_buf d))"
proof (induction n)
  case 0
  then show ?case by simp
next
  case (Suc n)
  then have IHv: "read_value n d = Inr (v, d') \<Longrightarrow> length (d_buf d') < length (d_buf d)"
    and IHm: "read_members n d = Inr (ms, d') \<Longrightarrow> length (d_buf d') \<le> length (d_buf d)"
    and IHe: "read_elements n d = Inr (vs, d') \<Longrightarrow> length (d_buf d') \<le> length (d_buf d)" for d v d' ms vs
    by blast+
  have "length (d_buf d') < length (d_buf d)" if "read_value (Suc n) d = Inr (v, d')" for d v d'
    using that
    by (fastforce simp: res_elims split: if_splits token.splits dest!: Token_shrinks IHm IHe)
  moreover have "length (d_buf d') \<le> length (d_buf d)" if "read_members (Suc n) d = Inr (ms, d')" for d ms d'
    using read_members_Inr [OF that] by (fastforce dest!: Token_shrinks IHv IHm)
  moreover have "length (d_buf d') \<le> length (d_buf d)" if "read_elements (Suc n) d = Inr (vs, d')" for d vs d'
    using that by (fastforce simp: res_elims split: if_splits dest!: IHv IHe)
  ultimately show ?case by blast
qed

lemmas read_value_shrinks = read_shrinks [THEN conjunct1, rule_format]

lemma read_fuel:
  "(\<forall>d. 2 * length (d_buf d) < n \<longrightarrow> read_value n d \<noteq> Inl JFuel)
   \<and> (\<forall>d. 2 * length (d_buf d) + 1 < n \<longrightarrow> read_members n d \<noteq> Inl JFuel)
   \<and> (\<forall>d. 2 * length (d_buf d) + 1 < n \<longrightarrow> read_elements n d \<noteq> Inl JFuel)"
proof (induction n)
  case 0
  then show ?case by simp
next
  case (Suc n)
  then have IHv: "read_value n d = Inl JFuel \<Longrightarrow> n \<le> 2 * length (d_buf d)"
    and IHm: "read_members n d = Inl JFuel \<Longrightarrow> n \<le> 2 * length (d_buf d) + 1"
    and IHe: "read_elements n d = Inl JFuel \<Longrightarrow> n \<le> 2 * length (d_buf d) + 1" for d
    by (meson not_le)+
  have "n < 2 * length (d_buf d)" if "read_value (Suc n) d = Inl JFuel" for d
    using that
    by (auto simp: res_elims Token_no_fuel split: if_splits token.splits
        dest!: Token_shrinks IHm IHe)
  moreover have "n \<le> 2 * length (d_buf d)" if "read_members (Suc n) d = Inl JFuel" for d
    using read_members_fuel [OF that] by (auto dest!: Token_shrinks IHm IHv read_value_shrinks)
  moreover have "n \<le> 2 * length (d_buf d)" if "read_elements (Suc n) d = Inl JFuel" for d
    using that
    by (auto simp: res_elims split: if_splits dest!: IHv IHe read_value_shrinks)
  ultimately show ?case by (intro conjI allI impI notI) fastforce+
qed

lemma read_value_fuel: "read_value (fuel_for s) (new_decoder s) \<noteq> Inl JFuel"
  using read_fuel [of "fuel_for s"] by (simp add: fuel_for_def new_decoder_def)

end
