(* ===== verification/GoStd.thy ===== *)
theory GoStd
  imports GoJson
begin

text \<open>
  Further parts of Go's standard library that the sources call: SHA-256 (\<open>crypto/sha256\<close>) and
  \<open>hex.EncodeToString\<close>, \<open>Format(time.RFC3339Nano)\<close>, decimal numbers, \<open>strings.Contains\<close>, the accept
  condition of \<open>netip.ParseAddr\<close>, \<open>filepath.Base\<close> and \<open>mime.ParseMediaType\<close>.
\<close>

unbundle bit_operations_syntax

section \<open>SHA-256\<close>

text \<open>The constants are the first 32 bits of the fractional parts of the cube roots of the first 64
  primes and of the square roots of the first 8.\<close>

definition root_floor :: "nat \<Rightarrow> nat \<Rightarrow> nat" where
  "root_floor k n = foldl (\<lambda>r b. if (r + 2 ^ b) ^ k \<le> n then r + 2 ^ b else r) 0 (rev [0..<38])"

definition small_primes :: "nat \<Rightarrow> nat list" where
  "small_primes n = filter (\<lambda>p. list_all (\<lambda>d. p mod d \<noteq> 0) [2..<p]) [2..<n]"

definition sha_k :: "32 word list" where
  "sha_k = map (\<lambda>p. of_nat (root_floor 3 (p * 2 ^ 96) mod 2 ^ 32)) (small_primes 312)"

definition sha_init :: "32 word list" where
  "sha_init = map (\<lambda>p. of_nat (root_floor 2 (p * 2 ^ 64) mod 2 ^ 32)) (small_primes 20)"

definition word_of_bytes :: "char list \<Rightarrow> 32 word" where
  "word_of_bytes bs = foldl (\<lambda>w c. push_bit 8 w OR of_nat (byte_val c)) 0 bs"

definition bytes_of_nat :: "nat \<Rightarrow> nat \<Rightarrow> bytes" where
  "bytes_of_nat k n = map (\<lambda>i. byte_of (n div 256 ^ (k - 1 - i) mod 256)) [0..<k]"

definition sha_pad :: "bytes \<Rightarrow> bytes" where
  "sha_pad m = m @ [byte_of 128] @ replicate ((119 - length m mod 64) mod 64) (byte_of 0)
     @ bytes_of_nat 8 (8 * length m mod 2 ^ 64)"

fun chunks :: "nat \<Rightarrow> nat \<Rightarrow> 'a list \<Rightarrow> 'a list list" where
  "chunks 0 k xs = []"
| "chunks (Suc n) k xs = take k xs # chunks n k (drop k xs)"

fun sha_schedule :: "nat \<Rightarrow> 32 word list \<Rightarrow> 32 word list" where
  "sha_schedule 0 w = w"
| "sha_schedule (Suc n) w =
     (let t = length w; a = w ! (t - 15); b = w ! (t - 2);
          s0 = word_rotr 7 a XOR word_rotr 18 a XOR drop_bit 3 a;
          s1 = word_rotr 17 b XOR word_rotr 19 b XOR drop_bit 10 b
      in sha_schedule n (w @ [w ! (t - 16) + s0 + w ! (t - 7) + s1]))"

type_synonym sha_state =
  "32 word \<times> 32 word \<times> 32 word \<times> 32 word \<times> 32 word \<times> 32 word \<times> 32 word \<times> 32 word"

fun sha_round :: "32 word \<times> 32 word \<Rightarrow> sha_state \<Rightarrow> sha_state" where
  "sha_round (k, w) (a, b, c, d, e, f, g, h) =
     (let s1 = word_rotr 6 e XOR word_rotr 11 e XOR word_rotr 25 e;
          ch = (e AND f) XOR (NOT e AND g);
          t1 = h + s1 + ch + k + w;
          s0 = word_rotr 2 a XOR word_rotr 13 a XOR word_rotr 22 a;
          maj = (a AND b) XOR (a AND c) XOR (b AND c)
      in (t1 + s0 + maj, a, b, c, d + t1, e, f, g))"

definition sha_block :: "sha_state \<Rightarrow> bytes \<Rightarrow> sha_state" where
  "sha_block st block =
     (case (st, fold sha_round (zip sha_k (sha_schedule 48 (map word_of_bytes (chunks 16 4 block)))) st) of
        ((a, b, c, d, e, f, g, h), (a', b', c', d', e', f', g', h')) \<Rightarrow>
          (a + a', b + b', c + c', d + d', e + e', f + f', g + g', h + h'))"

definition sha_start :: sha_state where
  "sha_start = (sha_init ! 0, sha_init ! 1, sha_init ! 2, sha_init ! 3,
                sha_init ! 4, sha_init ! 5, sha_init ! 6, sha_init ! 7)"

text \<open>\<open>sha256.Sum256\<close>: 32 bytes.\<close>

definition Sum256 :: "bytes \<Rightarrow> bytes" where
  "Sum256 m = (case foldl sha_block sha_start (chunks (length (sha_pad m) div 64) 64 (sha_pad m)) of
     (a, b, c, d, e, f, g, h) \<Rightarrow> concat (map (\<lambda>w. bytes_of_nat 4 (unat w)) [a, b, c, d, e, f, g, h]))"

text \<open>\<open>hex.EncodeToString\<close>; \<open>hex_char\<close> writes one digit in lower case.\<close>

definition EncodeToString :: "bytes \<Rightarrow> string" where
  "EncodeToString bs = concat (map (\<lambda>c. [hex_char (byte_val c div 16), hex_char (byte_val c mod 16)]) bs)"

definition sha256_hex :: "bytes \<Rightarrow> string" where
  "sha256_hex m = EncodeToString (Sum256 m)"

section \<open>base64.RawURLEncoding\<close>

definition b64_char :: "nat \<Rightarrow> char" where
  "b64_char n = (if n < 26 then byte_of (65 + n) else if n < 52 then byte_of (71 + n)
     else if n < 62 then byte_of (n - 4) else if n = 62 then CHR ''-'' else CHR ''_'')"

fun RawURLEncode :: "bytes \<Rightarrow> string" where
  "RawURLEncode [] = []"
| "RawURLEncode [a] = (let n = byte_val a * 16 in [b64_char (n div 64), b64_char (n mod 64)])"
| "RawURLEncode [a, b] = (let n = (byte_val a * 256 + byte_val b) * 4 in
     [b64_char (n div 4096), b64_char (n div 64 mod 64), b64_char (n mod 64)])"
| "RawURLEncode (a # b # c # r) = (let n = (byte_val a * 256 + byte_val b) * 256 + byte_val c in
     [b64_char (n div 262144), b64_char (n div 4096 mod 64), b64_char (n div 64 mod 64), b64_char (n mod 64)]
     @ RawURLEncode r)"

section \<open>Decimal numbers and dates\<close>

function dec_nat :: "nat \<Rightarrow> string" where
  "dec_nat n = (if n < 10 then [byte_of (48 + n)] else dec_nat (n div 10) @ [byte_of (48 + n mod 10)])"
  by pat_completeness auto
termination
  by (relation "measure id") auto

declare dec_nat.simps [simp del]

definition dec_int :: "int \<Rightarrow> string" where
  "dec_int i = (if i < 0 then CHR ''-'' # dec_nat (nat (- i)) else dec_nat (nat i))"

definition pad_left :: "nat \<Rightarrow> string \<Rightarrow> string" where
  "pad_left k s = replicate (k - length s) (CHR ''0'') @ s"

definition leap_year :: "nat \<Rightarrow> bool" where
  "leap_year y \<longleftrightarrow> y mod 4 = 0 \<and> (y mod 100 \<noteq> 0 \<or> y mod 400 = 0)"

text \<open>The year and the day of the year of a number of days since January 1, year 1.\<close>

definition year_of_days :: "nat \<Rightarrow> nat \<times> nat" where
  "year_of_days d =
     (let a = d div 146097; d = d mod 146097;
          b = d div 36524; b = b - b div 4; d = d - 36524 * b;
          c = d div 1461; d = d - 1461 * c;
          e = d div 365; e = e - e div 4; d = d - 365 * e
      in (400 * a + 100 * b + 4 * c + e + 1, d))"

fun month_day :: "nat list \<Rightarrow> nat \<Rightarrow> nat \<Rightarrow> nat \<times> nat" where
  "month_day [] m d = (m, d + 1)"
| "month_day (n # ns) m d = (if d < n then (m, d + 1) else month_day ns (m + 1) (d - n))"

definition month_lengths :: "nat \<Rightarrow> nat list" where
  "month_lengths y = [31, if leap_year y then 29 else 28, 31, 30, 31, 30, 31, 31, 30, 31, 30]"

text \<open>The fraction of a second without trailing zeros, and nothing when it is zero.\<close>

definition nano_fraction :: "nat \<Rightarrow> string" where
  "nano_fraction n = (if n = 0 then []
     else CHR ''.'' # rev (dropWhile (\<lambda>c. c = CHR ''0'') (rev (pad_left 9 (dec_nat n)))))"

text \<open>\<open>t.UTC().Format(time.RFC3339Nano)\<close> for an instant from year 1 on.\<close>

definition format_time :: "time \<Rightarrow> string" where
  "format_time t =
     (let secs = nat (t div second_ns); ns = nat (t mod second_ns);
          days = secs div 86400; s = secs mod 86400
      in case year_of_days days of (y, yd) \<Rightarrow> case month_day (month_lengths y) 1 yd of (m, d) \<Rightarrow>
        pad_left 4 (dec_nat y) @ ''-'' @ pad_left 2 (dec_nat m) @ ''-'' @ pad_left 2 (dec_nat d) @ ''T''
        @ pad_left 2 (dec_nat (s div 3600)) @ '':'' @ pad_left 2 (dec_nat (s mod 3600 div 60)) @ '':''
        @ pad_left 2 (dec_nat (s mod 60)) @ nano_fraction ns @ ''Z'')"

section \<open>Substrings and addresses\<close>

definition has_prefix :: "string \<Rightarrow> string \<Rightarrow> bool" where
  "has_prefix s p \<longleftrightarrow> take (length p) s = p"

definition has_suffix :: "string \<Rightarrow> string \<Rightarrow> bool" where
  "has_suffix s p \<longleftrightarrow> length p \<le> length s \<and> drop (length s - length p) s = p"

fun contains_sub :: "string \<Rightarrow> string \<Rightarrow> bool" where
  "contains_sub [] p = (p = [])"
| "contains_sub (c # s) p = (has_prefix (c # s) p \<or> contains_sub s p)"

definition before_char :: "char \<Rightarrow> string \<Rightarrow> string" where
  "before_char c s = takeWhile (\<lambda>x. x \<noteq> c) s"

definition after_char :: "char \<Rightarrow> string \<Rightarrow> string option" where
  "after_char c s = (case dropWhile (\<lambda>x. x \<noteq> c) s of [] \<Rightarrow> None | _ # r \<Rightarrow> Some r)"

fun split_on :: "char \<Rightarrow> string \<Rightarrow> string list" where
  "split_on c [] = [[]]"
| "split_on c (x # xs) = (if x = c then [] # split_on c xs
     else (case split_on c xs of [] \<Rightarrow> [[x]] | y # ys \<Rightarrow> (x # y) # ys))"

text \<open>A dotted quad: four decimal fields up to 255 without leading zeros.\<close>

definition dec_value :: "string \<Rightarrow> nat" where
  "dec_value s = foldl (\<lambda>v c. 10 * v + (byte_val c - 48)) 0 s"

definition ipv4_field :: "string \<Rightarrow> bool" where
  "ipv4_field f \<longleftrightarrow> f \<noteq> [] \<and> list_all is_digit f \<and> (length f = 1 \<or> hd f \<noteq> CHR ''0'') \<and> dec_value f \<le> 255"

definition parse_ipv4 :: "string \<Rightarrow> bool" where
  "parse_ipv4 s \<longleftrightarrow> (let fs = split_on (CHR ''.'') s in length fs = 4 \<and> list_all ipv4_field fs)"

definition ipv6_group :: "string \<Rightarrow> bool" where
  "ipv6_group f \<longleftrightarrow> 1 \<le> length f \<and> length f \<le> 4
     \<and> list_all (\<lambda>c. is_hex c \<or> in_range 65 70 c) f"

text \<open>The sixteen-bit units a list of groups stands for; only the last of the whole address may be a
  dotted quad, which stands for two.\<close>

fun ipv6_units :: "bool \<Rightarrow> string list \<Rightarrow> nat option" where
  "ipv6_units final [] = Some 0"
| "ipv6_units final [g] = (if ipv6_group g then Some 1 else if final \<and> parse_ipv4 g then Some 2 else None)"
| "ipv6_units final (g # gs) = (if ipv6_group g then map_option Suc (ipv6_units final gs) else None)"

fun split_ellipsis :: "string \<Rightarrow> (string \<times> string) option" where
  "split_ellipsis [] = None"
| "split_ellipsis (c # s) =
     (if has_prefix (c # s) ''::'' then Some ([], tl s)
      else map_option (\<lambda>(a, b). (c # a, b)) (split_ellipsis s))"

definition groups_of :: "string \<Rightarrow> string list" where
  "groups_of s = (if s = [] then [] else split_on (CHR '':'') s)"

text \<open>Sixteen-bit groups with at most one ellipsis, which stands for at least one zero group.\<close>

definition parse_ipv6 :: "string \<Rightarrow> bool" where
  "parse_ipv6 s = (case split_ellipsis s of
       None \<Rightarrow> s \<noteq> [] \<and> ipv6_units True (split_on (CHR '':'') s) = Some 8
     | Some (a, b) \<Rightarrow> (case (ipv6_units False (groups_of a), ipv6_units True (groups_of b)) of
           (Some m, Some n) \<Rightarrow> m + n \<le> 7
         | _ \<Rightarrow> False))"

text \<open>\<open>netip.ParseAddr\<close> succeeds: the first of dot, colon and percent decides; an IPv6 address may
  carry a zone, which is not empty.\<close>

definition ParseAddr_ok :: "string \<Rightarrow> bool" where
  "ParseAddr_ok s =
     (case dropWhile (\<lambda>c. c \<noteq> CHR ''.'' \<and> c \<noteq> CHR '':'' \<and> c \<noteq> CHR ''%'') s of
        [] \<Rightarrow> False
      | c # _ \<Rightarrow>
         if c = CHR ''.'' then parse_ipv4 s
         else if c = CHR '':'' then
           (case after_char (CHR ''%'') s of
              None \<Rightarrow> parse_ipv6 s
            | Some zone \<Rightarrow> zone \<noteq> [] \<and> parse_ipv6 (before_char (CHR ''%'') s))
         else False)"

section \<open>Numbers, paths and media types\<close>

text \<open>\<open>strconv.ParseInt(s, 10, 64)\<close>: an optional sign, digits, in range.\<close>

definition parse_digits :: "string \<Rightarrow> int option" where
  "parse_digits s = (if s \<noteq> [] \<and> list_all is_digit s then Some (int (dec_value s)) else None)"

definition ParseInt64 :: "string \<Rightarrow> int option" where
  "ParseInt64 s =
     (let magnitude = (case s of [] \<Rightarrow> None
            | c # r \<Rightarrow> if c = CHR ''-'' then map_option uminus (parse_digits r)
                       else if c = CHR ''+'' then parse_digits r else parse_digits s)
      in case magnitude of None \<Rightarrow> None
         | Some n \<Rightarrow> if - (2 ^ 63) \<le> n \<and> n < 2 ^ 63 then Some n else None)"

text \<open>\<open>strings.Trim(s, c)\<close> for one character.\<close>

definition trim_char :: "char \<Rightarrow> string \<Rightarrow> string" where
  "trim_char c s = rev (dropWhile (\<lambda>x. x = c) (rev (dropWhile (\<lambda>x. x = c) s)))"

text \<open>\<open>filepath.Base\<close> on Unix.\<close>

definition filepath_Base :: "string \<Rightarrow> string" where
  "filepath_Base path =
     (if path = [] then ''.''
      else let stripped = rev (dropWhile (\<lambda>c. c = CHR ''/'') (rev path));
               base = rev (takeWhile (\<lambda>c. c \<noteq> CHR ''/'') (rev stripped))
           in if base = [] then ''/'' else base)"

text \<open>\<open>mime.ParseMediaType\<close>: the media type when the text parses. Parameters and continued parameters
  (a name with a star) are kept under their whole name, so one list of pairs stands for both maps.\<close>

definition is_tspecial :: "char \<Rightarrow> bool" where
  "is_tspecial c \<longleftrightarrow> c \<in> set ''()<>@,;:[]?=/'' \<or> byte_val c = 34 \<or> byte_val c = 92"

definition is_token_char :: "char \<Rightarrow> bool" where
  "is_token_char c \<longleftrightarrow> 32 < byte_val c \<and> byte_val c < 127 \<and> \<not> is_tspecial c"

definition consumeToken :: "string \<Rightarrow> string \<times> string" where
  "consumeToken v = (takeWhile is_token_char v, dropWhile is_token_char v)"

definition checkMediaTypeDisposition :: "string \<Rightarrow> bool" where
  "checkMediaTypeDisposition s = (case consumeToken s of (typ, rest) \<Rightarrow>
     if typ = [] then False
     else if rest = [] then True
     else if hd rest \<noteq> CHR ''/'' then False
     else (case consumeToken (tl rest) of (subtype, rest') \<Rightarrow> subtype \<noteq> [] \<and> rest' = []))"

fun consume_quoted :: "string \<Rightarrow> string \<Rightarrow> (string \<times> string) option" where
  "consume_quoted buffer [] = None"
| "consume_quoted buffer (r # rest) =
     (if byte_val r = 34 then Some (rev buffer, rest)
      else if byte_val r = 92 \<and> rest \<noteq> [] \<and> is_tspecial (hd rest)
      then (case rest of [] \<Rightarrow> None | e # rest' \<Rightarrow> consume_quoted (e # buffer) rest')
      else if byte_val r = 13 \<or> byte_val r = 10 then None
      else consume_quoted (r # buffer) rest)"

definition consumeValue :: "string \<Rightarrow> string \<times> string" where
  "consumeValue v = (case v of [] \<Rightarrow> ([], [])
     | c # rest \<Rightarrow> if byte_val c \<noteq> 34 then consumeToken v
                  else (case consume_quoted [] rest of None \<Rightarrow> ([], v) | Some r \<Rightarrow> r))"

text \<open>\<open>None\<close> is the empty key.\<close>

definition consumeMediaParam :: "string \<Rightarrow> (string \<times> string \<times> string) option" where
  "consumeMediaParam v = (case trim_left v of [] \<Rightarrow> None
     | c # rest \<Rightarrow>
        if c \<noteq> CHR '';'' then None
        else (case consumeToken (trim_left rest) of (param, rest) \<Rightarrow>
          if param = [] then None
          else (case trim_left rest of [] \<Rightarrow> None
            | c # rest \<Rightarrow>
               if c \<noteq> CHR ''='' then None
               else (case consumeValue (trim_left rest) of (v', rest2) \<Rightarrow>
                 if v' = [] \<and> rest2 = trim_left rest then None
                 else Some (to_lower param, v', rest2)))))"

text \<open>Every parameter consumes input, so the length of the text is enough fuel.\<close>

fun media_params :: "nat \<Rightarrow> (string \<times> string) list \<Rightarrow> string \<Rightarrow> bool" where
  "media_params 0 params v = (trim_left v = [])"
| "media_params (Suc n) params v =
     (let v = trim_left v in
      if v = [] then True
      else (case consumeMediaParam v of
          None \<Rightarrow> trim_space v = '';''
        | Some (key, v', rest) \<Rightarrow>
            if (case map_of params key of Some old \<Rightarrow> old \<noteq> v' | None \<Rightarrow> False) then False
            else media_params n ((key, v') # params) rest))"

definition ParseMediaType :: "string \<Rightarrow> string option" where
  "ParseMediaType v =
     (let base = before_char (CHR '';'') v; mediatype = trim_space (to_lower base) in
      if checkMediaTypeDisposition mediatype \<and> media_params (length v) [] (drop (length base) v)
      then Some mediatype else None)"

section \<open>Lemmas\<close>

lemma bytes_of_nat_length [simp]: "length (bytes_of_nat k n) = k"
  by (simp add: bytes_of_nat_def)

lemma Sum256_length [simp]: "length (Sum256 m) = 32"
  by (simp add: Sum256_def split: prod.splits)

lemma EncodeToString_length [simp]: "length (EncodeToString bs) = 2 * length bs"
  by (induction bs) (auto simp: EncodeToString_def)

lemma hex_char_hex: "n < 16 \<Longrightarrow> is_hex (hex_char n)"
  by (auto simp: hex_char_def is_hex_def is_digit_def in_range_def byte_val_def byte_of_def)

lemma byte_val_less [simp]: "byte_val c < 256"
  by (simp add: byte_val_def of_char_def)

lemma EncodeToString_hex: "list_all is_hex (EncodeToString bs)"
proof -
  have "byte_val c div 16 < 16" for c using byte_val_less [of c] by linarith
  then show ?thesis by (auto simp: EncodeToString_def list_all_iff hex_char_hex)
qed

lemma sha256_hex_length [simp]: "length (sha256_hex m) = 64"
  by (simp add: sha256_hex_def)

lemma sha256_hex_hex: "list_all is_hex (sha256_hex m)"
  by (simp add: sha256_hex_def EncodeToString_hex)

end
