(* ===== verification/JsonText.thy ===== *)
theory JsonText
  imports GoStd
begin

text \<open>
  Reading back what the encoders write. \<open>quotes s b\<close> says that \<open>b\<close> is a quoted form of the string \<open>s\<close>,
  \<open>prints b v\<close> that \<open>b\<close> is a compact text of the JSON value \<open>v\<close>; the token reader of \<open>encoding/json\<close>
  recovers \<open>v\<close> from \<open>b\<close> whatever the choice of escapes (\<open>prints_read\<close>). The encoder of \<open>json.Marshal\<close> is
  an instance here, the canonical encoder of the catalog one in its own theory.
\<close>

section \<open>Strings\<close>

inductive quotes :: "bytes \<Rightarrow> bytes \<Rightarrow> bool" where
  quotes_Nil: "quotes [] []"
| quotes_plain: "utf8_width u = length u \<Longrightarrow> u \<noteq> [] \<Longrightarrow> 32 \<le> byte_val (hd u) \<Longrightarrow> hd u \<noteq> CHR 0x22 \<Longrightarrow>
    hd u \<noteq> CHR 0x5C \<Longrightarrow> quotes s b \<Longrightarrow> quotes (u @ s) (u @ b)"
| quotes_escape: "simple_escape e = Some x \<Longrightarrow> quotes s b \<Longrightarrow> quotes (x # s) (CHR 0x5C # e # b)"
| quotes_unicode: "length h = 4 \<Longrightarrow> hex4 h = Some r \<Longrightarrow> r < 55296 \<Longrightarrow> quotes s b \<Longrightarrow>
    quotes (encode_rune r @ s) (CHR 0x5C # CHR ''u'' # h @ b)"

lemma utf8_width_prefix:
  assumes "utf8_width u = length u" "u \<noteq> []"
  shows "utf8_width (u @ t) = length u"
proof -
  have "length u \<le> 4"
    using assms by (auto simp: utf8_width_def split: list.splits if_splits)
  then consider a where "u = [a]" | a b where "u = [a, b]" | a b c where "u = [a, b, c]"
    | a b c d where "u = [a, b, c, d]"
    using assms(2) by (cases u; cases "tl u"; cases "tl (tl u)"; cases "tl (tl (tl u))") auto
  then show ?thesis
    using assms(1) by cases (auto simp: utf8_width_def split: if_splits)
qed

lemma utf8_width_unfold:
  "utf8_width [] = 0"
  "utf8_width [a] = (if byte_val a < 128 then 1 else 0)"
  "utf8_width [a, b] = (if byte_val a < 128 then 1 else if width2 (byte_val a) (byte_val b) then 2 else 0)"
  "utf8_width [a, b, c] = (if byte_val a < 128 then 1 else if width2 (byte_val a) (byte_val b) then 2
     else if width3 (byte_val a) (byte_val b) (byte_val c) then 3 else 0)"
  "utf8_width (a # b # c # d # r) = (if byte_val a < 128 then 1 else if width2 (byte_val a) (byte_val b) then 2
     else if width3 (byte_val a) (byte_val b) (byte_val c) then 3
     else if width4 (byte_val a) (byte_val b) (byte_val c) (byte_val d) then 4 else 0)"
  by (simp_all add: utf8_width_def)

lemma utf8_width_take:
  assumes "0 < utf8_width s"
  shows "utf8_width (take (utf8_width s) s) = utf8_width s" "utf8_width s \<le> length s"
proof -
  consider "s = []" | a where "s = [a]" | a b where "s = [a, b]" | a b c where "s = [a, b, c]"
    | a b c d r where "s = a # b # c # d # r"
    by (cases s; cases "tl s"; cases "tl (tl s)"; cases "tl (tl (tl s))") auto
  then have "utf8_width (take (utf8_width s) s) = utf8_width s \<and> utf8_width s \<le> length s"
    using assms by cases (simp_all add: utf8_width_unfold split: if_splits)
  then show "utf8_width (take (utf8_width s) s) = utf8_width s" "utf8_width s \<le> length s" by auto
qed

lemma hex4_prefix: "length h = 4 \<Longrightarrow> hex4 (h @ t) = hex4 h"
  by (auto simp: hex4_def length_Suc_conv eval_nat_numeral)

lemma scan_quoted: "quotes s b \<Longrightarrow> scan_string (b @ CHR 0x22 # q) = Inr (s, q)"
proof (induction rule: quotes.induct)
  case quotes_Nil
  then show ?case by (simp add: scan_string.simps)
next
  case (quotes_plain u s b)
  then have w: "utf8_width (u @ b @ CHR 0x22 # q) = length u" by (intro utf8_width_prefix)
  obtain c r where u: "u = c # r" using quotes_plain.hyps(2) by (cases u) auto
  show ?case
    using quotes_plain w unfolding u by (subst scan_string.simps) (auto simp del: One_nat_def)
next
  case (quotes_escape e x s b)
  moreover have "e \<noteq> CHR ''u''" using quotes_escape.hyps(1) by (auto simp: simple_escape_def)
  moreover have "\<not> byte_val (CHR 0x5C) < 32" by (simp add: byte_val_def)
  ultimately show ?case by (subst scan_string.simps) auto
next
  case (quotes_unicode h r s b)
  moreover have "\<not> byte_val (CHR 0x5C) < 32" by (simp add: byte_val_def)
  moreover have "low_surrogate r t = None" for t using quotes_unicode.hyps(3) by (simp add: low_surrogate_def)
  ultimately show ?case by (subst scan_string.simps) (auto simp: hex4_prefix)
qed

text \<open>The encoder of \<open>json.Marshal\<close> on valid UTF-8.\<close>

lemma hex_digit_char: "n < 16 \<Longrightarrow> hex_digit (hex_char n) = Some n"
  by (auto simp: hex_digit_def hex_char_def is_digit_def in_range_def byte_val_def byte_of_def)

lemma hex_digit_zero: "hex_digit (CHR ''0'') = Some 0"
  by (simp add: hex_digit_def is_digit_def in_range_def byte_val_def)

lemma byte_of_val [simp]: "byte_of (byte_val c) = c"
  by (simp add: byte_of_def byte_val_def)

lemma quotes_control:
  assumes "byte_val c < 128" "quotes s b"
  shows "quotes (c # s) (CHR 0x5C # ''u00'' @ [hex_char (byte_val c div 16), hex_char (byte_val c mod 16)] @ b)"
proof -
  let ?h = "[CHR ''0'', CHR ''0'', hex_char (byte_val c div 16), hex_char (byte_val c mod 16)]"
  have "hex4 ?h = Some (byte_val c)"
    using assms(1) by (simp add: hex4_def hex_digit_zero hex_digit_char)
  from quotes_unicode [OF _ this _ assms(2)] assms(1) show ?thesis
    by (simp add: encode_rune_def)
qed

lemma quotes_ascii:
  assumes "byte_val c < 128" "32 \<le> byte_val c" "c \<noteq> CHR 0x22" "c \<noteq> CHR 0x5C" "quotes s b"
  shows "quotes (c # s) (c # b)"
  using quotes_plain [of "[c]" s b] assms by (simp add: utf8_width_unfold)

lemma quotes_rune:
  assumes "128 \<le> byte_val (hd s)" "0 < utf8_width s" "quotes (drop (utf8_width s) s) b"
  shows "quotes s (take (utf8_width s) s @ b)"
proof -
  have ne: "s \<noteq> []" using assms(2) by (auto simp: utf8_width_unfold)
  have "quotes (take (utf8_width s) s @ drop (utf8_width s) s) (take (utf8_width s) s @ b)"
    using assms ne utf8_width_take [OF assms(2)]
    by (intro quotes_plain) (auto simp: hd_take byte_val_def)
  then show ?thesis by simp
qed

lemma simple_escapes:
  "simple_escape (CHR 0x22) = Some (CHR 0x22)" "simple_escape (CHR 0x5C) = Some (CHR 0x5C)"
  "byte_val c = 8 \<Longrightarrow> simple_escape (CHR ''b'') = Some c" "byte_val c = 12 \<Longrightarrow> simple_escape (CHR ''f'') = Some c"
  "byte_val c = 10 \<Longrightarrow> simple_escape (CHR ''n'') = Some c" "byte_val c = 13 \<Longrightarrow> simple_escape (CHR ''r'') = Some c"
  "byte_val c = 9 \<Longrightarrow> simple_escape (CHR ''t'') = Some c"
  using byte_of_val [of c] by (simp_all add: simple_escape_def)

lemma quotes_marshal_ascii: "byte_val c < 128 \<Longrightarrow> quotes s b \<Longrightarrow> quotes (c # s) (marshal_ascii c @ b)"
  using quotes_control [of c s b] quotes_ascii [of c s b]
  by (auto simp: marshal_ascii_def intro!: quotes_escape simple_escapes)

lemma utf8_valid_step:
  assumes "utf8_valid s" "s \<noteq> []"
  shows "0 < utf8_width s" "utf8_valid (drop (utf8_width s) s)"
  using assms by (subst (asm) utf8_valid.simps; simp split: if_splits)+

lemma separator_bytes:
  assumes "map byte_val (take 3 s) = [226, 128, x]" "x = 168 \<or> x = 169"
  shows "s = [byte_of 226, byte_of 128, byte_of x] @ drop 3 s" "utf8_width s = 3"
proof -
  obtain a b c r where s: "s = a # b # c # r"
    using assms(1) by (cases s; cases "tl s"; cases "tl (tl s)") auto
  have bytes: "byte_val a = 226" "byte_val b = 128" "byte_val c = x" using assms(1) unfolding s by simp_all
  show "s = [byte_of 226, byte_of 128, byte_of x] @ drop 3 s"
    using byte_of_val [of a] byte_of_val [of b] byte_of_val [of c] bytes unfolding s by simp
  show "utf8_width s = 3"
    using assms(2) bytes unfolding s
    by (cases r) (auto simp: utf8_width_unfold width2_def width3_def cont_def)
qed

lemma quotes_separator:
  assumes "map byte_val (take 3 s) = [226, 128, x]" "x = 168 \<and> h = ''2028'' \<or> x = 169 \<and> h = ''2029''" "quotes (drop 3 s) b"
  shows "quotes s (CHR 0x5C # CHR ''u'' # h @ b)"
proof -
  have "s = [byte_of 226, byte_of 128, byte_of x] @ drop 3 s"
    using separator_bytes [OF assms(1)] assms(2) by blast
  moreover have "hex4 h = Some (8064 + x)"
    using assms(2) by (auto simp: hex4_def hex_digit_def is_digit_def in_range_def byte_val_def)
  ultimately show ?thesis
    using quotes_unicode [of h "8064 + x" "drop 3 s" b] assms(2,3)
    by (elim disjE conjE) (simp_all add: encode_rune_def)
qed

lemma quotes_marshal: "utf8_valid s \<Longrightarrow> quotes s (marshal_body s)"
proof (induction s rule: measure_induct_rule [where f = length])
  case (less s)
  show ?case
  proof (cases s)
    case Nil
    then show ?thesis by (simp add: marshal_body.simps quotes_Nil)
  next
    case (Cons c r)
    note w = utf8_valid_step [OF less.prems]
    have IH: "quotes (drop (utf8_width s) s) (marshal_body (drop (utf8_width s) s))"
      using less.IH [of "drop (utf8_width s) s"] w Cons by simp
    show ?thesis
    proof (cases "byte_val c < 128")
      case True
      then have "utf8_width s = 1" by (simp add: utf8_width_def Cons)
      then show ?thesis using True IH Cons by (subst marshal_body.simps) (simp add: quotes_marshal_ascii)
    next
      case False
      let ?sep = "\<lambda>x. map byte_val (take 3 s) = [226, 128, x]"
      have body: "marshal_body s = (if ?sep 168 then CHR 0x5C # ''u2028'' @ marshal_body (drop 3 s)
          else if ?sep 169 then CHR 0x5C # ''u2029'' @ marshal_body (drop 3 s)
          else take (utf8_width s) s @ marshal_body (drop (utf8_width s) s))"
        using False Cons w(1) by (subst marshal_body.simps) simp
      consider x where "?sep x" "x = 168 \<or> x = 169" | "\<not> ?sep 168" "\<not> ?sep 169" by metis
      then show ?thesis
      proof cases
        case 1
        have "quotes (drop 3 s) (marshal_body (drop 3 s))" using IH separator_bytes(2) [OF 1] by simp
        with 1 show ?thesis using quotes_separator [OF 1(1)] by (auto simp: body)
      next
        case 2
        then have "marshal_body s = take (utf8_width s) s @ marshal_body (drop (utf8_width s) s)"
          by (intro trans [OF body]) (simp only: if_False)
        moreover have "128 \<le> byte_val (hd s)" "s \<noteq> []" using False Cons by simp_all
        ultimately show ?thesis using quotes_rune [OF _ w(1) IH] by simp
      qed
    qed
  qed
qed

section \<open>More fuel reads the same\<close>

lemma read_stable_step:
  "(\<forall>d m. read_value n d \<noteq> Inl JFuel \<longrightarrow> n \<le> m \<longrightarrow> read_value m d = read_value n d)
   \<and> (\<forall>d m. read_members n d \<noteq> Inl JFuel \<longrightarrow> n \<le> m \<longrightarrow> read_members m d = read_members n d)
   \<and> (\<forall>d m. read_elements n d \<noteq> Inl JFuel \<longrightarrow> n \<le> m \<longrightarrow> read_elements m d = read_elements n d)"
proof (induction n)
  case 0
  then show ?case by simp
next
  case (Suc n)
  then have v: "read_value n d \<noteq> Inl JFuel \<Longrightarrow> n \<le> m \<Longrightarrow> read_value m d = read_value n d"
    and ms: "read_members n d \<noteq> Inl JFuel \<Longrightarrow> n \<le> m \<Longrightarrow> read_members m d = read_members n d"
    and es: "read_elements n d \<noteq> Inl JFuel \<Longrightarrow> n \<le> m \<Longrightarrow> read_elements m d = read_elements n d" for d m
    by blast+
  have "read_value m d = read_value (Suc n) d" if "read_value (Suc n) d \<noteq> Inl JFuel" "Suc n \<le> m" for d m
  proof -
    obtain k where m: "m = Suc k" "n \<le> k" using \<open>Suc n \<le> m\<close> by (cases m) auto
    have "read_members n d1 \<noteq> Inl JFuel" if "Token d = Inr (Delim (CHR ''{''), d1)" for d1
      using \<open>read_value (Suc n) d \<noteq> Inl JFuel\<close> that by auto
    moreover have "read_elements n d1 \<noteq> Inl JFuel" if "Token d = Inr (Delim (CHR ''[''), d1)" for d1
      using \<open>read_value (Suc n) d \<noteq> Inl JFuel\<close> that by auto
    ultimately show ?thesis
      using m(1) ms [of _ k] es [of _ k] m(2) by (cases "Token d") auto
  qed
  moreover have "read_members m d = read_members (Suc n) d" if "read_members (Suc n) d \<noteq> Inl JFuel" "Suc n \<le> m" for d m
  proof -
    obtain k where m: "m = Suc k" "n \<le> k" using \<open>Suc n \<le> m\<close> by (cases m) auto
    show ?thesis
    proof (cases "More d \<and> (\<exists>key d1. Token d = Inr (TStr key, d1))")
      case True
      then obtain key d1 where t: "More d" "Token d = Inr (TStr key, d1)" by blast
      have rv: "read_value n d1 \<noteq> Inl JFuel" using that(1) t by auto
      moreover have "read_members n d2 \<noteq> Inl JFuel" if "read_value n d1 = Inr (x, d2)" for x d2
        using \<open>read_members (Suc n) d \<noteq> Inl JFuel\<close> t that by auto
      ultimately show ?thesis using t m(1) v [OF rv m(2)] ms [OF _ m(2)] by (cases "read_value n d1") auto
    next
      case False
      then show ?thesis using m by (cases "Token d") (auto split: token.splits)
    qed
  qed
  moreover have "read_elements m d = read_elements (Suc n) d" if "read_elements (Suc n) d \<noteq> Inl JFuel" "Suc n \<le> m" for d m
  proof -
    obtain k where m: "m = Suc k" "n \<le> k" using \<open>Suc n \<le> m\<close> by (cases m) auto
    have "More d \<Longrightarrow> read_value n d \<noteq> Inl JFuel" using that(1) by auto
    moreover have "read_elements n d2 \<noteq> Inl JFuel" if "More d" "read_value n d = Inr (x, d2)" for x d2
      using \<open>read_elements (Suc n) d \<noteq> Inl JFuel\<close> that by auto
    ultimately show ?thesis using m(1) v [OF _ m(2)] es [OF _ m(2)] by (cases "read_value n d") auto
  qed
  ultimately show ?case by blast
qed

lemma read_stable: "read_value n d \<noteq> Inl JFuel \<Longrightarrow> n \<le> m \<Longrightarrow> read_value m d = read_value n d"
  using read_stable_step by blast

section \<open>Printed values\<close>

text \<open>An integer as a JSON number, and a compact text of a value.\<close>

definition int_text :: "string \<Rightarrow> bool" where
  "int_text n \<longleftrightarrow> (let m = (case n of c # r \<Rightarrow> if c = CHR ''-'' then r else n | [] \<Rightarrow> n)
     in m = ''0'' \<or> m \<noteq> [] \<and> hd m \<noteq> CHR ''0'' \<and> list_all is_digit m)"

abbreviation quoted :: "bytes \<Rightarrow> bytes" where
  "quoted b \<equiv> CHR 0x22 # b @ [CHR 0x22]"

inductive prints :: "bytes \<Rightarrow> json \<Rightarrow> bool" where
  prints_null: "prints ''null'' JNull"
| prints_true: "prints ''true'' (JBool True)"
| prints_false: "prints ''false'' (JBool False)"
| prints_num: "int_text n \<Longrightarrow> prints n (JNum n)"
| prints_str: "quotes s b \<Longrightarrow> prints (quoted b) (JStr s)"
| prints_arr: "list_all2 prints bs vs \<Longrightarrow> prints (''['' @ join_comma bs @ '']'') (JArr vs)"
| prints_obj: "list_all2 (\<lambda>b m. \<exists>kb vb. b = quoted kb @ '':'' @ vb \<and> quotes (fst m) kb \<and> prints vb (snd m)) bs ms \<Longrightarrow>
    prints (''{'' @ join_comma bs @ ''}'') (JObj ms)"

text \<open>Where a value ends: at the end of the text or before a separator.\<close>

definition ends :: "bytes \<Rightarrow> bool" where
  "ends q \<longleftrightarrow> (case q of [] \<Rightarrow> True | c # _ \<Rightarrow> c = CHR '','' \<or> c = CHR '']'' \<or> c = CHR ''}'')"

definition reads :: "decoder \<Rightarrow> json \<Rightarrow> decoder \<Rightarrow> bool" where
  "reads d v d' \<longleftrightarrow> (\<exists>N. \<forall>n. read_value (N + n) d = Inr (v, d'))"

definition reads_elements :: "decoder \<Rightarrow> json list \<Rightarrow> decoder \<Rightarrow> bool" where
  "reads_elements d vs d' \<longleftrightarrow> (\<exists>N. \<forall>n. read_elements (N + n) d = Inr (vs, d'))"

definition reads_members :: "decoder \<Rightarrow> (bytes \<times> json) list \<Rightarrow> decoder \<Rightarrow> bool" where
  "reads_members d ms d' \<longleftrightarrow> (\<exists>N. \<forall>n. read_members (N + n) d = Inr (ms, d'))"

lemma readsI: "(\<And>n. read_value (Suc n) d = Inr (v, d')) \<Longrightarrow> reads d v d'"
  unfolding reads_def by (rule exI [of _ 1]) simp

lemma reads_object:
  assumes "Token d = Inr (Delim (CHR ''{''), d1)" "reads_members d1 ms d2" "Token d2 = Inr (Delim (CHR ''}''), d3)"
  shows "reads d (JObj ms) d3"
proof -
  obtain N where "\<forall>n. read_members (N + n) d1 = Inr (ms, d2)" using assms(2) by (auto simp: reads_members_def)
  then have "read_value (Suc N + n) d = Inr (JObj ms, d3)" for n using assms(1,3) by simp
  then show ?thesis unfolding reads_def by blast
qed

lemma reads_array:
  assumes "Token d = Inr (Delim (CHR ''[''), d1)" "reads_elements d1 vs d2" "Token d2 = Inr (Delim (CHR '']''), d3)"
  shows "reads d (JArr vs) d3"
proof -
  obtain N where "\<forall>n. read_elements (N + n) d1 = Inr (vs, d2)" using assms(2) by (auto simp: reads_elements_def)
  then have "read_value (Suc N + n) d = Inr (JArr vs, d3)" for n using assms(1,3) by simp
  then show ?thesis unfolding reads_def by blast
qed

lemma reads_no_elements: "\<not> More d \<Longrightarrow> reads_elements d [] d"
  unfolding reads_elements_def by (rule exI [of _ 1]) simp

lemma reads_no_members: "\<not> More d \<Longrightarrow> reads_members d [] d"
  unfolding reads_members_def by (rule exI [of _ 1]) simp

lemma reads_element:
  assumes "More d" "reads d v d1" "reads_elements d1 vs d2"
  shows "reads_elements d (v # vs) d2"
proof -
  obtain N M where "\<forall>n. read_value (N + n) d = Inr (v, d1)" "\<forall>n. read_elements (M + n) d1 = Inr (vs, d2)"
    using assms(2,3) by (auto simp: reads_def reads_elements_def)
  then have "read_value (N + M + n) d = Inr (v, d1)" "read_elements (N + M + n) d1 = Inr (vs, d2)" for n
    by (metis add.assoc add.commute)+
  then have "read_elements (Suc (N + M) + n) d = Inr (v # vs, d2)" for n using assms(1) by simp
  then show ?thesis unfolding reads_elements_def by blast
qed

lemma reads_member:
  assumes "More d" "Token d = Inr (TStr key, d1)" "reads d1 v d2" "reads_members d2 ms d3"
  shows "reads_members d ((key, v) # ms) d3"
proof -
  obtain N M where "\<forall>n. read_value (N + n) d1 = Inr (v, d2)" "\<forall>n. read_members (M + n) d2 = Inr (ms, d3)"
    using assms(3,4) by (auto simp: reads_def reads_members_def)
  then have "read_value (N + M + n) d1 = Inr (v, d2)" "read_members (N + M + n) d2 = Inr (ms, d3)" for n
    by (metis add.assoc add.commute)+
  then have "read_members (Suc (N + M) + n) d = Inr ((key, v) # ms, d3)" for n using assms(1,2) by simp
  then show ?thesis unfolding reads_members_def by blast
qed

text \<open>Separators: a value is read after its comma or colon.\<close>

lemma reads_Token: "Token d = Token e \<Longrightarrow> reads e v d' \<Longrightarrow> reads d v d'"
proof -
  assume eq: "Token d = Token e" and "reads e v d'"
  then obtain N where N: "\<forall>n. read_value (N + n) e = Inr (v, d')" by (auto simp: reads_def)
  have "read_value (N + n) d = read_value (N + n) e" for n
  proof (cases "N + n")
    case 0
    with N have False by (metis Inl_Inr_False read_value.simps(1))
    then show ?thesis ..
  qed (simp add: eq)
  with N show ?thesis unfolding reads_def by (metis (no_types))
qed

lemma reads_members_Token:
  assumes "Token d = Token e" "More d" "More e" "reads_members e ms d'"
  shows "reads_members d ms d'"
proof -
  obtain N where N: "\<forall>n. read_members (N + n) e = Inr (ms, d')" using assms(4) by (auto simp: reads_members_def)
  have "read_members (Suc N + n) d = Inr (ms, d')" for n
    using N [rule_format, of "Suc n"] assms(1-3) by simp
  then show ?thesis unfolding reads_members_def by blast
qed

lemma json_space_simps:
  "\<not> is_json_space (CHR '','')" "\<not> is_json_space (CHR '':'')" "\<not> is_json_space (CHR ''['')" "\<not> is_json_space (CHR '']'')"
  "\<not> is_json_space (CHR ''{'')" "\<not> is_json_space (CHR ''}'')" "\<not> is_json_space (CHR 0x22)" "\<not> is_json_space (CHR ''n'')"
  "\<not> is_json_space (CHR ''t'')" "\<not> is_json_space (CHR ''f'')" "\<not> is_json_space (CHR ''-'')"
  "is_digit c \<Longrightarrow> \<not> is_json_space c"
  by (auto simp: is_json_space_def byte_val_def is_digit_def in_range_def)

lemma skip_space_Cons: "\<not> is_json_space c \<Longrightarrow> skip_space (c # r) = c # r"
  by (simp add: skip_space_def)

lemmas token_eval = skip_space_Cons json_space_simps

lemma Token_comma:
  "d_buf d = CHR '','' # r \<Longrightarrow> d_state d = ArrayComma \<Longrightarrow> Token d = Token (d\<lparr>d_buf := r, d_state := ArrayValue\<rparr>)"
  "d_buf d = CHR '','' # r \<Longrightarrow> d_state d = ObjectComma \<Longrightarrow> Token d = Token (d\<lparr>d_buf := r, d_state := ObjectKey\<rparr>)"
  "d_buf d = CHR '':'' # r \<Longrightarrow> d_state d = ObjectColon \<Longrightarrow> Token d = Token (d\<lparr>d_buf := r, d_state := ObjectValue\<rparr>)"
  by (subst Token.simps, simp add: token_eval)+

lemma Token_key:
  assumes "quotes key kb" "d_buf d = quoted kb @ r" "d_state d = ObjectStart \<or> d_state d = ObjectKey"
  shows "Token d = Inr (TStr key, d\<lparr>d_buf := r, d_state := ObjectColon\<rparr>)"
  using assms scan_quoted [OF assms(1)] by (subst Token.simps) (simp add: token_eval)

lemma Token_open:
  "d_buf d = CHR ''['' # r \<Longrightarrow> tokenValueAllowed (d_state d) \<Longrightarrow>
    Token d = Inr (Delim (CHR ''[''), \<lparr>d_buf = r, d_state = ArrayStart, d_stack = d_state d # d_stack d\<rparr>)"
  "d_buf d = CHR ''{'' # r \<Longrightarrow> tokenValueAllowed (d_state d) \<Longrightarrow>
    Token d = Inr (Delim (CHR ''{''), \<lparr>d_buf = r, d_state = ObjectStart, d_stack = d_state d # d_stack d\<rparr>)"
  by (subst Token.simps, simp add: token_eval)+

lemma Token_close:
  "d_buf d = CHR '']'' # r \<Longrightarrow> d_state d = ArrayStart \<or> d_state d = ArrayComma \<Longrightarrow> d_stack d = st # sts \<Longrightarrow>
    Token d = Inr (Delim (CHR '']''), \<lparr>d_buf = r, d_state = tokenValueEnd st, d_stack = sts\<rparr>)"
  "d_buf d = CHR ''}'' # r \<Longrightarrow> d_state d = ObjectStart \<or> d_state d = ObjectComma \<Longrightarrow> d_stack d = st # sts \<Longrightarrow>
    Token d = Inr (Delim (CHR ''}''), \<lparr>d_buf = r, d_state = tokenValueEnd st, d_stack = sts\<rparr>)"
  by (subst Token.simps, simp add: token_eval)+

abbreviation after :: "decoder \<Rightarrow> bytes \<Rightarrow> decoder" where
  "after d q \<equiv> d\<lparr>d_buf := q, d_state := tokenValueEnd (d_state d)\<rparr>"

text \<open>The bytes that are no white space and no separator, and those that start a number.\<close>

definition starts_value :: "char \<Rightarrow> bool" where
  "starts_value c \<longleftrightarrow> \<not> is_json_space c \<and> c \<noteq> CHR '']'' \<and> c \<noteq> CHR ''}'' \<and> c \<noteq> CHR '':'' \<and> c \<noteq> CHR '',''"

definition number_byte :: "char \<Rightarrow> bool" where
  "number_byte c \<longleftrightarrow> c = CHR ''-'' \<or> is_digit c"

lemma starts_value_simps:
  "starts_value (CHR ''['')" "starts_value (CHR ''{'')" "starts_value (CHR 0x22)" "starts_value (CHR ''n'')"
  "starts_value (CHR ''t'')" "starts_value (CHR ''f'')"
  by (simp_all add: starts_value_def json_space_simps)

lemma other_bytes:
  "\<not> number_byte (CHR ''['')" "\<not> number_byte (CHR ''{'')" "\<not> number_byte (CHR 0x22)" "\<not> number_byte (CHR ''n'')"
  "\<not> number_byte (CHR ''t'')" "\<not> number_byte (CHR ''f'')" "\<not> number_byte (CHR '']'')" "\<not> number_byte (CHR ''}'')"
  "\<not> number_byte (CHR '':'')" "\<not> number_byte (CHR '','')"
  by (simp_all add: number_byte_def is_digit_def in_range_def byte_val_def)

lemma number_byte_other: "number_byte c \<Longrightarrow> \<not> number_byte x \<Longrightarrow> c \<noteq> x"
  by blast

lemmas number_byte_ne = number_byte_other [OF _ other_bytes(1)] number_byte_other [OF _ other_bytes(2)]
  number_byte_other [OF _ other_bytes(3)] number_byte_other [OF _ other_bytes(4)] number_byte_other [OF _ other_bytes(5)]
  number_byte_other [OF _ other_bytes(6)] number_byte_other [OF _ other_bytes(7)] number_byte_other [OF _ other_bytes(8)]
  number_byte_other [OF _ other_bytes(9)] number_byte_other [OF _ other_bytes(10)]

lemma number_byte_starts: "number_byte c \<Longrightarrow> starts_value c"
  unfolding starts_value_def using number_byte_ne(7-10) [of c] json_space_simps(12) [of c]
  by (auto simp: number_byte_def json_space_simps)

lemma reads_scalar:
  assumes "d_buf d = c # r" "starts_value c" "c \<noteq> CHR ''[''" "c \<noteq> CHR ''{''"
    "tokenValueAllowed (d_state d)" "scan_scalar (c # r) = Inr (tok, q)" "\<forall>x. tok \<noteq> Delim x"
  shows "reads d (scalar_value tok) (after d q)"
proof (rule readsI)
  have "d_state d \<noteq> ObjectStart" "d_state d \<noteq> ObjectKey" using assms(5) by (auto simp: tokenValueAllowed_def)
  then have "Token d = Inr (tok, after d q)"
    using assms(1-6) by (subst Token.simps) (simp add: skip_space_Cons starts_value_def)
  then show "read_value (Suc n) d = Inr (scalar_value tok, after d q)" for n
    using assms(7) by (cases tok) auto
qed

lemma ends_stops:
  assumes "ends q"
  shows "digits_of q = []" "scan_frac q = Some ([], q)" "scan_exp q = Some ([], q)"
  using assms
  by (auto simp: ends_def digits_of_def scan_frac_def scan_exp_def is_digit_def in_range_def byte_val_def split: list.splits)

lemma digits_of_append: "list_all is_digit m \<Longrightarrow> ends q \<Longrightarrow> digits_of (m @ q) = m"
  using ends_stops(1) [of q] by (simp add: digits_of_def list_all_iff takeWhile_append)

lemma scan_int_text:
  assumes "m = ''0'' \<or> m \<noteq> [] \<and> hd m \<noteq> CHR ''0'' \<and> list_all is_digit m" "ends q"
  shows "scan_int (m @ q) = Some (m, q)"
proof (cases "m = ''0''")
  case False
  with assms obtain c r where m: "m = c # r" "c \<noteq> CHR ''0''" "is_digit c" "list_all is_digit m" by (cases m) auto
  from digits_of_append [OF m(4) assms(2)] m show ?thesis by (simp add: scan_int_def)
qed (simp add: scan_int_def)

lemma scan_number_text: "int_text n \<Longrightarrow> ends q \<Longrightarrow> scan_number (n @ q) = Inr (TNum n, q)"
proof -
  assume n: "int_text n" and q: "ends q"
  obtain c r where nc: "n = c # r" using n by (cases n) (auto simp: int_text_def)
  show ?thesis
  proof (cases "c = CHR ''-''")
    case True
    then show ?thesis
      using n nc scan_int_text [of r q] ends_stops [OF q] q by (simp add: int_text_def scan_number_def)
  next
    case False
    then show ?thesis
      using n nc scan_int_text [of n q] ends_stops [OF q] q by (simp add: int_text_def scan_number_def)
  qed
qed

lemma int_text_start: "int_text n \<Longrightarrow> \<exists>c r. n = c # r \<and> number_byte c"
proof -
  assume n: "int_text n"
  have "is_digit (CHR ''0'')" by (simp add: is_digit_def in_range_def byte_val_def)
  with n show ?thesis by (cases n) (auto simp: int_text_def number_byte_def split: if_splits)
qed

text \<open>The first byte of a printed value.\<close>

lemma prints_start:
  assumes "prints b v"
  shows "\<exists>c r. b = c # r \<and> starts_value c"
  using assms
proof cases
  case prints_num
  then show ?thesis using int_text_start [of b] number_byte_starts by metis
qed (simp_all add: starts_value_simps)

lemma More_value: "prints b v \<Longrightarrow> d_buf d = b @ q \<Longrightarrow> More d"
  using prints_start [of b v] by (auto simp: More_def starts_value_def skip_space_Cons)

lemma More_byte:
  "d_buf d = CHR 0x22 # q \<Longrightarrow> More d" "d_buf d = CHR '','' # q \<Longrightarrow> More d"
  "d_buf d = CHR '']'' # q \<Longrightarrow> \<not> More d" "d_buf d = CHR ''}'' # q \<Longrightarrow> \<not> More d"
  by (simp_all add: More_def token_eval)

lemma join_comma_Cons: "join_comma (x # xs) = x @ concat (map (\<lambda>y. CHR '','' # y) xs)"
  by (induction xs arbitrary: x) auto

text \<open>What the reader does after a printed value, as one predicate for the induction.\<close>

definition readable :: "bytes \<Rightarrow> json \<Rightarrow> bool" where
  "readable b v \<longleftrightarrow> (\<forall>d q. d_buf d = b @ q \<longrightarrow> tokenValueAllowed (d_state d) \<longrightarrow> ends q \<longrightarrow> reads d v (after d q))"

lemma readableD: "readable b v \<Longrightarrow> d_buf d = b @ q \<Longrightarrow> tokenValueAllowed (d_state d) \<Longrightarrow> ends q \<Longrightarrow> reads d v (after d q)"
  by (simp add: readable_def)

abbreviation tail_text :: "bytes list \<Rightarrow> bytes" where
  "tail_text bs \<equiv> concat (map (\<lambda>y. CHR '','' # y) bs)"

lemma ends_tail: "ends (tail_text bs @ CHR '']'' # q)" "ends (tail_text bs @ CHR ''}'' # q)"
  by (cases bs; simp add: ends_def)+

lemma reads_more_elements:
  assumes "list_all2 readable bs vs" "d_buf d = tail_text bs @ CHR '']'' # q" "d_state d = ArrayComma"
  shows "reads_elements d vs (d\<lparr>d_buf := CHR '']'' # q\<rparr>)"
  using assms
proof (induction bs vs arbitrary: d rule: list_all2_induct)
  case Nil
  then show ?case using reads_no_elements [of d] by (cases d) (simp add: More_byte)
next
  case (Cons b bs v vs)
  let ?rest = "tail_text bs @ CHR '']'' # q"
  let ?d = "d\<lparr>d_buf := b @ ?rest, d_state := ArrayValue\<rparr>" and ?e = "d\<lparr>d_buf := ?rest, d_state := ArrayComma\<rparr>"
  have "reads ?d v (after ?d ?rest)"
    by (rule readableD [OF Cons(1)]) (simp_all add: tokenValueAllowed_def ends_tail)
  then have "reads ?d v ?e" by (simp add: tokenValueEnd_def)
  moreover have "Token d = Token ?d" using Cons.prems by (intro Token_comma(1)) simp_all
  ultimately have "reads d v ?e" by (rule reads_Token [rotated])
  moreover have "reads_elements ?e vs (?e\<lparr>d_buf := CHR '']'' # q\<rparr>)" by (rule Cons.IH) simp_all
  moreover have "More d" using Cons.prems by (simp add: More_byte)
  ultimately show ?case using reads_element [of d v ?e vs] Cons.prems(2) by (cases d) simp
qed

lemma readable_array:
  assumes "list_all2 readable bs vs" "\<And>b. b \<in> set bs \<Longrightarrow> \<exists>v. prints b v"
  shows "readable (''['' @ join_comma bs @ '']'') (JArr vs)"
  unfolding readable_def
proof (intro allI impI)
  fix d :: decoder and q assume buf: "d_buf d = (''['' @ join_comma bs @ '']'') @ q" and st: "tokenValueAllowed (d_state d)"
  let ?d = "\<lparr>d_buf = join_comma bs @ CHR '']'' # q, d_state = ArrayStart, d_stack = d_state d # d_stack d\<rparr>"
  have "\<exists>s. reads_elements ?d vs (?d\<lparr>d_buf := CHR '']'' # q, d_state := s\<rparr>) \<and> (s = ArrayStart \<or> s = ArrayComma)"
  proof (cases bs)
    case Nil
    with assms(1) show ?thesis using reads_no_elements [of ?d] by (intro exI [of _ ArrayStart]) (simp add: More_byte)
  next
    case (Cons b bs')
    with assms(1) obtain v vs' where vs: "vs = v # vs'" "readable b v" "list_all2 readable bs' vs'" by (auto simp: list_all2_Cons1)
    let ?rest = "tail_text bs' @ CHR '']'' # q"
    let ?e = "?d\<lparr>d_buf := ?rest, d_state := ArrayComma\<rparr>"
    have "reads ?d v (after ?d ?rest)"
      by (rule readableD [OF vs(2)]) (simp_all add: Cons join_comma_Cons tokenValueAllowed_def ends_tail)
    then have "reads ?d v ?e" by (simp add: tokenValueEnd_def)
    moreover have "reads_elements ?e vs' (?e\<lparr>d_buf := CHR '']'' # q\<rparr>)" by (rule reads_more_elements [OF vs(3)]) simp_all
    moreover have "More ?d" using assms(2) [of b] More_value [of b _ ?d] by (auto simp: Cons join_comma_Cons)
    ultimately show ?thesis using reads_element [of ?d v ?e vs'] vs(1) by auto
  qed
  then obtain s where s: "reads_elements ?d vs (?d\<lparr>d_buf := CHR '']'' # q, d_state := s\<rparr>)" "s = ArrayStart \<or> s = ArrayComma" by blast
  have "Token d = Inr (Delim (CHR ''[''), ?d)" using buf st by (intro Token_open) simp_all
  from reads_array [OF this s(1) Token_close(1)] s(2) show "reads d (JArr vs) (after d q)" by (cases d) simp
qed

text \<open>Members, with their keys.\<close>

definition readable_member :: "bytes \<Rightarrow> bytes \<times> json \<Rightarrow> bool" where
  "readable_member b m \<longleftrightarrow> (\<exists>kb vb. b = quoted kb @ '':'' @ vb \<and> quotes (fst m) kb \<and> readable vb (snd m))"

lemma reads_one_member:
  assumes "readable_member b m" "d_buf d = b @ q" "d_state d = ObjectStart \<or> d_state d = ObjectKey" "ends q"
    "reads_members (d\<lparr>d_buf := q, d_state := ObjectComma\<rparr>) ms d'"
  shows "reads_members d (m # ms) d'"
proof -
  obtain kb vb where b: "b = quoted kb @ '':'' @ vb" "quotes (fst m) kb" "readable vb (snd m)"
    using assms(1) by (auto simp: readable_member_def)
  let ?d = "d\<lparr>d_buf := CHR '':'' # vb @ q, d_state := ObjectColon\<rparr>"
  let ?v = "d\<lparr>d_buf := vb @ q, d_state := ObjectValue\<rparr>"
  have key: "Token d = Inr (TStr (fst m), ?d)" using Token_key [OF b(2)] assms(2,3) b(1) by simp
  have "reads ?v (snd m) (after ?v q)" by (rule readableD [OF b(3)]) (simp_all add: tokenValueAllowed_def assms(4))
  moreover have "Token ?d = Token ?v" using Token_comma(3) [of ?d "vb @ q"] by simp
  ultimately have "reads ?d (snd m) (after ?v q)" by (rule reads_Token [rotated])
  then have val: "reads ?d (snd m) (d\<lparr>d_buf := q, d_state := ObjectComma\<rparr>)" by (simp add: tokenValueEnd_def)
  have "More d" using assms(2) b(1) by (simp add: More_byte)
  from reads_member [OF this key val assms(5)] show "reads_members d (m # ms) d'" by simp
qed

lemma reads_more_members:
  assumes "list_all2 readable_member bs ms" "d_buf d = tail_text bs @ CHR ''}'' # q" "d_state d = ObjectComma"
  shows "reads_members d ms (d\<lparr>d_buf := CHR ''}'' # q\<rparr>)"
  using assms
proof (induction bs ms arbitrary: d rule: list_all2_induct)
  case Nil
  then show ?case using reads_no_members [of d] by (cases d) (simp add: More_byte)
next
  case (Cons b bs m ms)
  let ?rest = "tail_text bs @ CHR ''}'' # q"
  let ?d = "d\<lparr>d_buf := b @ ?rest, d_state := ObjectKey\<rparr>" and ?e = "d\<lparr>d_buf := ?rest, d_state := ObjectComma\<rparr>"
  have "reads_members ?e ms (?e\<lparr>d_buf := CHR ''}'' # q\<rparr>)" by (rule Cons.IH) simp_all
  then have "reads_members ?d (m # ms) (?e\<lparr>d_buf := CHR ''}'' # q\<rparr>)"
    by (intro reads_one_member [OF Cons(1)]) (simp_all add: ends_tail)
  moreover have "Token d = Token ?d" using Cons.prems by (intro Token_comma(2)) simp_all
  moreover have "More d" using Cons.prems by (simp add: More_byte)
  moreover have "More ?d" using Cons(1) by (auto simp: readable_member_def More_byte)
  ultimately have "reads_members d (m # ms) (?e\<lparr>d_buf := CHR ''}'' # q\<rparr>)" by (auto intro: reads_members_Token)
  then show ?case using Cons.prems(2) by (cases d) simp
qed

lemma readable_object:
  assumes "list_all2 readable_member bs ms"
  shows "readable (''{'' @ join_comma bs @ ''}'') (JObj ms)"
  unfolding readable_def
proof (intro allI impI)
  fix d :: decoder and q assume buf: "d_buf d = (''{'' @ join_comma bs @ ''}'') @ q" and st: "tokenValueAllowed (d_state d)"
  let ?d = "\<lparr>d_buf = join_comma bs @ CHR ''}'' # q, d_state = ObjectStart, d_stack = d_state d # d_stack d\<rparr>"
  have "\<exists>s. reads_members ?d ms (?d\<lparr>d_buf := CHR ''}'' # q, d_state := s\<rparr>) \<and> (s = ObjectStart \<or> s = ObjectComma)"
  proof (cases bs)
    case Nil
    with assms show ?thesis using reads_no_members [of ?d] by (intro exI [of _ ObjectStart]) (simp add: More_byte)
  next
    case (Cons b bs')
    with assms obtain m ms' where ms: "ms = m # ms'" "readable_member b m" "list_all2 readable_member bs' ms'"
      by (auto simp: list_all2_Cons1)
    let ?rest = "tail_text bs' @ CHR ''}'' # q"
    let ?e = "?d\<lparr>d_buf := ?rest, d_state := ObjectComma\<rparr>"
    have "reads_members ?e ms' (?e\<lparr>d_buf := CHR ''}'' # q\<rparr>)" by (rule reads_more_members [OF ms(3)]) simp_all
    then have "reads_members ?d (m # ms') (?e\<lparr>d_buf := CHR ''}'' # q\<rparr>)"
      by (intro reads_one_member [OF ms(2)]) (simp_all add: Cons join_comma_Cons ends_tail)
    then show ?thesis using ms(1) by auto
  qed
  then obtain s where s: "reads_members ?d ms (?d\<lparr>d_buf := CHR ''}'' # q, d_state := s\<rparr>)" "s = ObjectStart \<or> s = ObjectComma" by blast
  have "Token d = Inr (Delim (CHR ''{''), ?d)" using buf st by (intro Token_open) simp_all
  from reads_object [OF this s(1) Token_close(2)] s(2) show "reads d (JObj ms) (after d q)" by (cases d) simp
qed

lemma readable_scalar:
  assumes "b = c # r" "starts_value c" "c \<noteq> CHR ''[''" "c \<noteq> CHR ''{''"
    "\<And>q. ends q \<Longrightarrow> scan_scalar (b @ q) = Inr (tok, q)" "\<forall>x. tok \<noteq> Delim x"
  shows "readable b (scalar_value tok)"
  unfolding readable_def
proof (intro allI impI)
  fix d :: decoder and q assume "d_buf d = b @ q" "tokenValueAllowed (d_state d)" "ends q"
  with assms show "reads d (scalar_value tok) (after d q)" by (intro reads_scalar [of d c "r @ q"]) simp_all
qed

lemma readable_literals: "readable ''null'' JNull" "readable ''true'' (JBool True)" "readable ''false'' (JBool False)"
  using readable_scalar [of "''null''" "CHR ''n''" "''ull''" TNull] readable_scalar [of "''true''" "CHR ''t''" "''rue''" "TBool True"]
    readable_scalar [of "''false''" "CHR ''f''" "''alse''" "TBool False"]
  by (simp_all add: starts_value_simps scan_scalar_def scan_literal_def)

lemma readable_number: "int_text n \<Longrightarrow> readable n (JNum n)"
proof -
  assume n: "int_text n"
  then obtain c r where c: "n = c # r" "number_byte c" using int_text_start by blast
  have "scan_scalar (n @ q) = Inr (TNum n, q)" if "ends q" for q
    using scan_number_text [OF n that] c number_byte_ne(3-6) [OF c(2)]
    by (simp add: scan_scalar_def number_byte_def)
  from readable_scalar [OF c(1) number_byte_starts [OF c(2)] number_byte_ne(1,2) [OF c(2)] this]
  show ?thesis by simp
qed

lemma readable_string: "quotes s b \<Longrightarrow> readable (quoted b) (JStr s)"
  using readable_scalar [of "quoted b" "CHR 0x22" "b @ [CHR 0x22]" "TStr s"] scan_quoted [of s b]
  by (simp add: starts_value_simps scan_scalar_def)

lemma prints_readable: "prints b v \<Longrightarrow> readable b v"
proof (induction rule: prints.induct)
  case (prints_arr bs vs)
  then have "list_all2 readable bs vs" "\<And>b. b \<in> set bs \<Longrightarrow> \<exists>v. prints b v"
    by (auto simp: list_all2_conv_all_nth in_set_conv_nth)
  then show ?case by (rule readable_array)
next
  case (prints_obj bs ms)
  then have "list_all2 readable_member bs ms"
    unfolding readable_member_def by (rule list_all2_mono) blast
  then show ?case by (rule readable_object)
qed (simp_all add: readable_literals readable_number readable_string)

text \<open>The whole text is read with the fuel of its length.\<close>

theorem prints_read:
  assumes "prints b v"
  shows "read_value (fuel_for b) (new_decoder b) = Inr (v, new_decoder [])"
proof -
  have "reads (new_decoder b) v (after (new_decoder b) [])"
    by (rule readableD [OF prints_readable [OF assms]]) (simp_all add: new_decoder_def tokenValueAllowed_def ends_def)
  then obtain N where N: "\<forall>n. read_value (N + n) (new_decoder b) = Inr (v, new_decoder [])"
    by (auto simp: reads_def new_decoder_def tokenValueEnd_def)
  from read_stable [OF read_value_fuel [of b], of "N + fuel_for b"] N show ?thesis by simp
qed

text \<open>Code equations by the shape of the text.\<close>

lemma utf8_valid_code [code]:
  "utf8_valid [] = True"
  "utf8_valid (c # r) = (if utf8_width (c # r) = 0 then False else utf8_valid (drop (utf8_width (c # r)) (c # r)))"
  by (subst utf8_valid.simps, simp)+

end
