(* ===== verification/Identity.thy ===== *)
theory Identity
  imports Prelude
begin

text \<open>
  internal/identity: principals (principal.go), role-based authorization (authorizer.go) and the
  audit read scope (audit_scope.go).

  Roles, actions, kinds, effects and scope types are Go strings that the code compares with
  constants and handles with default branches, so they are strings here. A Go \<open>error\<close> result is
  \<open>identity_error option\<close>: \<open>None\<close> is \<open>nil\<close>. The lemmas give the loops of the authorizer their
  declarative reading (deny wins, order does not matter), relate the coarse gate used before a
  resource is loaded to the exact check after it, and relate the audit read scope to the
  authorizer.
\<close>

section \<open>Principals\<close>

datatype identity_error =
    ErrPrincipalSubjectRequired
  | ErrPrincipalKindInvalid
  | ErrPrincipalAssuranceInvalid
  | ErrActionDenied
  | ErrProductIDRequired
  | ErrProductScopeDenied

abbreviation "PrincipalKindHuman \<equiv> ''human''"
abbreviation "PrincipalKindWorkload \<equiv> ''workload''"
abbreviation "PrincipalKindLocal \<equiv> ''local''"

abbreviation "WorkloadProviderAPIToken \<equiv> ''api-token''"

abbreviation "RoleAdmin \<equiv> ''admin''"
abbreviation "RolePublisher \<equiv> ''publisher''"
abbreviation "RoleApprover \<equiv> ''approver''"
abbreviation "RoleAuditor \<equiv> ''auditor''"
abbreviation "RoleViewer \<equiv> ''viewer''"

record RoleScope =
  rs_Role :: string
  rs_Effect :: string
  rs_ScopeType :: string
  rs_ProductID :: string
  rs_ChannelName :: string

record Principal =
  p_Subject :: string
  p_Kind :: string
  p_IdentitySourceID :: string
  p_GovernedUserID :: string
  p_Roles :: "string list"
  p_ProductIDs :: "string list"
  p_TokenID :: string
  p_Provider :: string
  p_Governed :: bool
  p_RoleScopes :: "RoleScope list"
  p_AuthenticatedAt :: time
  p_AuthenticationAssurance :: int

definition Validate :: "Principal \<Rightarrow> identity_error option" where
  "Validate p =
     (if trim_space (p_Subject p) = [] then Some ErrPrincipalSubjectRequired
      else if p_AuthenticationAssurance p < 0 \<or> p_AuthenticationAssurance p > 3
        then Some ErrPrincipalAssuranceInvalid
      else if p_Kind p = PrincipalKindHuman \<or> p_Kind p = PrincipalKindWorkload
          \<or> p_Kind p = PrincipalKindLocal then None
      else Some ErrPrincipalKindInvalid)"

section \<open>The authorizer\<close>

abbreviation "ActionProductRead \<equiv> ''product.read''"
abbreviation "ActionProductRegister \<equiv> ''product.register''"
abbreviation "ActionProductManage \<equiv> ''product.manage''"
abbreviation "ActionArtifactPublish \<equiv> ''artifact.publish''"
abbreviation "ActionReleaseCreate \<equiv> ''release.create''"
abbreviation "ActionReleaseSubmit \<equiv> ''release.submit''"
abbreviation "ActionReleaseApprove \<equiv> ''release.approve''"
abbreviation "ActionReleasePublish \<equiv> ''release.publish''"
abbreviation "ActionAuditRead \<equiv> ''audit.read''"
abbreviation "ActionIdentityManage \<equiv> ''identity.manage''"
abbreviation "ActionIntegrationManage \<equiv> ''integration.manage''"

definition permissions :: "(string \<times> string list) list" where
  "permissions =
    [(RoleAdmin, [ActionProductRead, ActionProductRegister, ActionProductManage,
        ActionArtifactPublish, ActionReleaseCreate, ActionReleaseSubmit, ActionReleaseApprove,
        ActionReleasePublish, ActionAuditRead, ActionIdentityManage, ActionIntegrationManage]),
     (RolePublisher, [ActionProductRead, ActionArtifactPublish, ActionReleaseCreate,
        ActionReleaseSubmit, ActionReleasePublish]),
     (RoleApprover, [ActionProductRead, ActionReleaseApprove]),
     (RoleAuditor, [ActionProductRead, ActionAuditRead]),
     (RoleViewer, [ActionProductRead])]"

definition rolePermitsAction :: "string \<Rightarrow> string \<Rightarrow> bool" where
  "rolePermitsAction role action =
     (case map_of permissions role of None \<Rightarrow> False | Some actions \<Rightarrow> action \<in> set actions)"

definition isProductScoped :: "string \<Rightarrow> bool" where
  "isProductScoped action \<longleftrightarrow> action \<noteq> ActionIdentityManage \<and> action \<noteq> ActionProductRegister"

definition contains_trimmed :: "string list \<Rightarrow> string \<Rightarrow> bool" where
  "contains_trimmed values wanted = list_ex (\<lambda>v. trim_space v = wanted) values"

definition scopeAllowedByAuthenticationAssurance :: "Principal \<Rightarrow> RoleScope \<Rightarrow> bool" where
  "scopeAllowedByAuthenticationAssurance p scope \<longleftrightarrow>
     p_Kind p \<noteq> PrincipalKindLocal \<or> p_AuthenticationAssurance p \<ge> 1
     \<or> rs_Role scope \<noteq> RoleAdmin \<or> rs_ScopeType scope \<noteq> ''platform''
     \<or> rs_Effect scope \<noteq> ''allow''"

definition scopeMatches :: "RoleScope \<Rightarrow> string \<Rightarrow> string \<Rightarrow> bool \<Rightarrow> bool" where
  "scopeMatches scope productID channel productScoped =
     (if rs_ScopeType scope = ''platform'' then True
      else if rs_ScopeType scope = ''product''
        then productScoped \<and> rs_ProductID scope = trim_space productID
      else if rs_ScopeType scope = ''channel''
        then productScoped \<and> channel \<noteq> [] \<and> rs_ProductID scope = trim_space productID
          \<and> rs_ChannelName scope = trim_space channel
      else False)"

fun requireGoverned_loop ::
  "Principal \<Rightarrow> string \<Rightarrow> string \<Rightarrow> string \<Rightarrow> RoleScope list \<Rightarrow> bool \<Rightarrow> identity_error option" where
  "requireGoverned_loop p action productID channel [] allowed =
     (if allowed then None else Some ErrActionDenied)"
| "requireGoverned_loop p action productID channel (scope # scopes) allowed =
     (if \<not> scopeAllowedByAuthenticationAssurance p scope
         \<or> \<not> rolePermitsAction (rs_Role scope) action
         \<or> \<not> scopeMatches scope productID channel (isProductScoped action)
      then requireGoverned_loop p action productID channel scopes allowed
      else if rs_Effect scope = ''deny'' then Some ErrActionDenied
      else requireGoverned_loop p action productID channel scopes
             (allowed \<or> rs_Effect scope = ''allow''))"

definition requireGoverned ::
  "Principal \<Rightarrow> string \<Rightarrow> string \<Rightarrow> string \<Rightarrow> identity_error option" where
  "requireGoverned p action productID channel =
     (if isProductScoped action \<and> trim_space productID = [] then Some ErrProductIDRequired
      else requireGoverned_loop p action productID channel (p_RoleScopes p) False)"

fun require_roles_loop :: "Principal \<Rightarrow> string \<Rightarrow> string list \<Rightarrow> identity_error option" where
  "require_roles_loop p action [] = Some ErrActionDenied"
| "require_roles_loop p action (role # roles) =
     (if p_Kind p = PrincipalKindLocal \<and> p_AuthenticationAssurance p < 1 \<and> role = RoleAdmin
      then require_roles_loop p action roles
      else if rolePermitsAction role action then None
      else require_roles_loop p action roles)"

definition Require :: "Principal \<Rightarrow> string \<Rightarrow> string \<Rightarrow> identity_error option" where
  "Require p action productID =
     (case Validate p of Some e \<Rightarrow> Some e
      | None \<Rightarrow>
        if p_Governed p then requireGoverned p action productID []
        else if isProductScoped action \<and> trim_space productID = [] then Some ErrProductIDRequired
        else if isProductScoped action \<and> \<not> contains_trimmed (p_ProductIDs p) (trim_space productID)
          then Some ErrProductScopeDenied
        else require_roles_loop p action (p_Roles p))"

definition RequireInChannel ::
  "Principal \<Rightarrow> string \<Rightarrow> string \<Rightarrow> string \<Rightarrow> identity_error option" where
  "RequireInChannel p action productID channel =
     (case Validate p of Some e \<Rightarrow> Some e
      | None \<Rightarrow> if p_Governed p then requireGoverned p action productID channel
                else Require p action productID)"

fun candidate_loop ::
  "Principal \<Rightarrow> string \<Rightarrow> string \<Rightarrow> RoleScope list \<Rightarrow> bool \<Rightarrow> identity_error option" where
  "candidate_loop p action productID [] allowed = (if allowed then None else Some ErrActionDenied)"
| "candidate_loop p action productID (scope # scopes) allowed =
     (if \<not> scopeAllowedByAuthenticationAssurance p scope
         \<or> \<not> rolePermitsAction (rs_Role scope) action
      then candidate_loop p action productID scopes allowed
      else if rs_ScopeType scope = ''platform'' then
        (if rs_Effect scope = ''deny'' then Some ErrActionDenied
         else candidate_loop p action productID scopes (allowed \<or> rs_Effect scope = ''allow''))
      else if rs_ScopeType scope = ''product'' then
        (if rs_ProductID scope \<noteq> productID then candidate_loop p action productID scopes allowed
         else if rs_Effect scope = ''deny'' then Some ErrActionDenied
         else candidate_loop p action productID scopes (allowed \<or> rs_Effect scope = ''allow''))
      else if rs_ScopeType scope = ''channel'' then
        (if rs_ProductID scope = productID \<and> rs_Effect scope = ''allow''
         then candidate_loop p action productID scopes True
         else candidate_loop p action productID scopes allowed)
      else candidate_loop p action productID scopes allowed)"

definition RequireProductActionCandidate ::
  "Principal \<Rightarrow> string \<Rightarrow> string \<Rightarrow> identity_error option" where
  "RequireProductActionCandidate p action productID =
     (case Validate p of Some e \<Rightarrow> Some e
      | None \<Rightarrow>
        if \<not> p_Governed p then Require p action productID
        else if trim_space productID = [] then Some ErrProductIDRequired
        else candidate_loop p action (trim_space productID) (p_RoleScopes p) False)"

section \<open>The audit read scope\<close>

record AuditReadScope =
  as_AllowGlobal :: bool
  as_AllProducts :: bool
  as_IncludedProductIDs :: "string list"
  as_ExcludedProductIDs :: "string list"

text \<open>A Go set \<open>map[string]struct{}\<close> is a list without repetitions; \<open>mapKeys\<close> sorts it.\<close>

definition mapKeys :: "string list \<Rightarrow> string list" where
  "mapKeys ks = sort ks"

record audit_scope_state =
  ss_allowed :: bool
  ss_allProducts :: bool
  ss_allowGlobal :: bool
  ss_included :: "string list"
  ss_excluded :: "string list"

definition audit_scope_init :: audit_scope_state where
  "audit_scope_init = \<lparr>ss_allowed = False, ss_allProducts = False, ss_allowGlobal = False,
     ss_included = [], ss_excluded = []\<rparr>"

definition audit_scope_step ::
  "Principal \<Rightarrow> RoleScope \<Rightarrow> audit_scope_state \<Rightarrow> identity_error + audit_scope_state" where
  "audit_scope_step p binding st =
     (if rs_Role binding \<noteq> RoleAdmin \<and> rs_Role binding \<noteq> RoleAuditor then Inr st
      else if \<not> scopeAllowedByAuthenticationAssurance p binding then Inr st
      else
        let effect = to_lower (trim_space (rs_Effect binding));
            scopeType = to_lower (trim_space (rs_ScopeType binding));
            productID = trim_space (rs_ProductID binding)
        in if scopeType = ''platform'' then
             (if effect \<noteq> ''allow'' then Inl ErrActionDenied
              else Inr (st\<lparr>ss_allowed := True, ss_allProducts := True, ss_allowGlobal := True\<rparr>))
           else if scopeType = ''product'' then
             (if productID = [] then Inl ErrActionDenied
              else if effect = ''deny'' then
                Inr (st\<lparr>ss_excluded := List.insert productID (ss_excluded st),
                        ss_included := removeAll productID (ss_included st)\<rparr>)
              else if effect = ''allow'' then
                Inr (st\<lparr>ss_allowed := True,
                        ss_included := (if productID \<in> set (ss_excluded st) then ss_included st
                                        else List.insert productID (ss_included st))\<rparr>)
              else Inl ErrActionDenied)
           else Inl ErrActionDenied)"

fun audit_scope_loop ::
  "Principal \<Rightarrow> RoleScope list \<Rightarrow> audit_scope_state \<Rightarrow> identity_error + audit_scope_state" where
  "audit_scope_loop p [] st = Inr st"
| "audit_scope_loop p (b # bs) st = res_bind (audit_scope_step p b st) (audit_scope_loop p bs)"

fun audit_roles_loop :: "Principal \<Rightarrow> string list \<Rightarrow> identity_error + AuditReadScope" where
  "audit_roles_loop p [] = Inl ErrActionDenied"
| "audit_roles_loop p (role # roles) =
     (if p_Kind p = PrincipalKindLocal \<and> p_AuthenticationAssurance p < 1 \<and> role = RoleAdmin
      then audit_roles_loop p roles
      else if role = RoleAdmin \<or> role = RoleAuditor then
        (if p_ProductIDs p = [] then Inl ErrActionDenied
         else Inr \<lparr>as_AllowGlobal = False, as_AllProducts = False,
                   as_IncludedProductIDs = p_ProductIDs p, as_ExcludedProductIDs = []\<rparr>)
      else audit_roles_loop p roles)"

definition ResolveAuditReadScope :: "Principal \<Rightarrow> identity_error + AuditReadScope" where
  "ResolveAuditReadScope p =
     (case Validate p of Some e \<Rightarrow> Inl ErrActionDenied
      | None \<Rightarrow>
        if \<not> p_Governed p then audit_roles_loop p (p_Roles p)
        else res_bind (audit_scope_loop p (p_RoleScopes p) audit_scope_init)
          (\<lambda>st. if \<not> ss_allowed st \<or> (\<not> ss_allProducts st \<and> ss_included st = [])
                then Inl ErrActionDenied
                else Inr \<lparr>as_AllowGlobal = ss_allowGlobal st, as_AllProducts = ss_allProducts st,
                          as_IncludedProductIDs = mapKeys (ss_included st),
                          as_ExcludedProductIDs = mapKeys (ss_excluded st)\<rparr>))"

section \<open>Reading the authorizer declaratively\<close>

definition scope_applies :: "Principal \<Rightarrow> string \<Rightarrow> string \<Rightarrow> string \<Rightarrow> RoleScope \<Rightarrow> bool" where
  "scope_applies p action productID channel s \<longleftrightarrow>
     scopeAllowedByAuthenticationAssurance p s \<and> rolePermitsAction (rs_Role s) action
     \<and> scopeMatches s productID channel (isProductScoped action)"

definition governed_allows :: "Principal \<Rightarrow> string \<Rightarrow> string \<Rightarrow> string \<Rightarrow> bool" where
  "governed_allows p action productID channel \<longleftrightarrow>
     (\<exists>s \<in> set (p_RoleScopes p). scope_applies p action productID channel s \<and> rs_Effect s = ''allow'')
     \<and> \<not> (\<exists>s \<in> set (p_RoleScopes p). scope_applies p action productID channel s \<and> rs_Effect s = ''deny'')"

text \<open>What a log query that carries the scope may return for one product
  (internal/logcenter applies the exclusions first, then the inclusions).\<close>

definition audit_scope_grants :: "AuditReadScope \<Rightarrow> string \<Rightarrow> bool" where
  "audit_scope_grants sc productID \<longleftrightarrow>
     productID \<notin> set (as_ExcludedProductIDs sc)
     \<and> (as_AllProducts sc \<or> productID \<in> set (as_IncludedProductIDs sc))"

definition audit_relevant :: "Principal \<Rightarrow> RoleScope \<Rightarrow> bool" where
  "audit_relevant p s \<longleftrightarrow> (rs_Role s = RoleAdmin \<or> rs_Role s = RoleAuditor)
     \<and> scopeAllowedByAuthenticationAssurance p s"

definition sample_scope :: "string \<Rightarrow> string \<Rightarrow> string \<Rightarrow> string \<Rightarrow> string \<Rightarrow> RoleScope" where
  "sample_scope role effect stype productID channel =
     \<lparr>rs_Role = role, rs_Effect = effect, rs_ScopeType = stype, rs_ProductID = productID,
      rs_ChannelName = channel\<rparr>"

definition sample_principal :: "string \<Rightarrow> string \<Rightarrow> int \<Rightarrow> RoleScope list \<Rightarrow> Principal" where
  "sample_principal subject kind assurance scopes =
     \<lparr>p_Subject = subject, p_Kind = kind, p_IdentitySourceID = [], p_GovernedUserID = [],
      p_Roles = [], p_ProductIDs = [], p_TokenID = [], p_Provider = [], p_Governed = True,
      p_RoleScopes = scopes, p_AuthenticatedAt = 0, p_AuthenticationAssurance = assurance\<rparr>"

lemma rolePermits_audit: "rolePermitsAction role ActionAuditRead \<longleftrightarrow> role = RoleAdmin \<or> role = RoleAuditor"
  by (auto simp: rolePermitsAction_def permissions_def)

lemma rolePermits_platform:
  "\<not> isProductScoped action \<Longrightarrow> rolePermitsAction role action \<Longrightarrow> role = RoleAdmin"
  by (auto simp: rolePermitsAction_def permissions_def isProductScoped_def split: if_splits)

lemma requireGoverned_loop_eq:
  "requireGoverned_loop p a pid ch ss al = None \<longleftrightarrow>
     \<not> (\<exists>s \<in> set ss. scope_applies p a pid ch s \<and> rs_Effect s = ''deny'')
     \<and> (al \<or> (\<exists>s \<in> set ss. scope_applies p a pid ch s \<and> rs_Effect s = ''allow''))"
  by (induction ss arbitrary: al) (auto simp: scope_applies_def)

lemma requireGoverned_loop_error:
  "requireGoverned_loop p a pid ch ss al = Some e \<Longrightarrow> e = ErrActionDenied"
  by (induction ss arbitrary: al) (auto split: if_splits)

lemma requireGoverned_allows:
  "requireGoverned p a pid ch = None \<longleftrightarrow>
     \<not> (isProductScoped a \<and> trim_space pid = []) \<and> governed_allows p a pid ch"
  by (auto simp: requireGoverned_def governed_allows_def requireGoverned_loop_eq)

lemma candidate_loop_eq:
  "candidate_loop p a pid ss al = None \<longleftrightarrow>
     \<not> (\<exists>s \<in> set ss. scopeAllowedByAuthenticationAssurance p s \<and> rolePermitsAction (rs_Role s) a
          \<and> rs_Effect s = ''deny''
          \<and> (rs_ScopeType s = ''platform'' \<or> rs_ScopeType s = ''product'' \<and> rs_ProductID s = pid))
     \<and> (al \<or> (\<exists>s \<in> set ss. scopeAllowedByAuthenticationAssurance p s
          \<and> rolePermitsAction (rs_Role s) a \<and> rs_Effect s = ''allow''
          \<and> (rs_ScopeType s = ''platform''
             \<or> (rs_ScopeType s = ''product'' \<or> rs_ScopeType s = ''channel'') \<and> rs_ProductID s = pid)))"
proof (induction ss arbitrary: al)
  case Nil
  then show ?case by simp
next
  case (Cons s ss)
  show ?case
    unfolding candidate_loop.simps
    by (cases "rs_ScopeType s = ''platform''"; cases "rs_ScopeType s = ''product''";
        cases "rs_ScopeType s = ''channel''") (simp_all add: Cons.IH, blast+)
qed

lemma require_roles_loop_eq:
  "require_roles_loop p a roles = None \<longleftrightarrow>
     (\<exists>r \<in> set roles. rolePermitsAction r a
        \<and> \<not> (p_Kind p = PrincipalKindLocal \<and> p_AuthenticationAssurance p < 1 \<and> r = RoleAdmin))"
  by (induction roles) auto

lemma RequireInChannel_candidate:
  assumes scoped: "isProductScoped a" and ok: "RequireInChannel p a pid ch = None"
  shows "RequireProductActionCandidate p a pid = None"
proof (cases "p_Governed p")
  case False
  with ok show ?thesis
    by (auto simp: RequireInChannel_def RequireProductActionCandidate_def split: option.splits)
next
  case True
  with ok have valid: "Validate p = None" and gov: "requireGoverned p a pid ch = None"
    by (auto simp: RequireInChannel_def split: option.splits)
  then have "trim_space pid \<noteq> []" and allow: "governed_allows p a pid ch"
    using scoped by (auto simp: requireGoverned_allows)
  moreover have "candidate_loop p a (trim_space pid) (p_RoleScopes p) False = None"
    using allow scoped
    by (fastforce simp: candidate_loop_eq governed_allows_def scope_applies_def scopeMatches_def
        split: if_splits)
  ultimately show ?thesis
    using valid True by (simp add: RequireProductActionCandidate_def)
qed

section \<open>The audit read scope and the authorizer\<close>

definition audit_targets :: "Principal \<Rightarrow> string \<Rightarrow> RoleScope list \<Rightarrow> string set" where
  "audit_targets p effect bs =
     {rs_ProductID b | b. b \<in> set bs \<and> audit_relevant p b \<and> rs_ScopeType b = ''product'' \<and> rs_Effect b = effect}"

definition audit_platform :: "Principal \<Rightarrow> string \<Rightarrow> RoleScope list \<Rightarrow> bool" where
  "audit_platform p effect bs \<longleftrightarrow>
     (\<exists>b \<in> set bs. audit_relevant p b \<and> rs_ScopeType b = ''platform'' \<and> rs_Effect b = effect)"

definition normalized_binding :: "RoleScope \<Rightarrow> bool" where
  "normalized_binding s \<longleftrightarrow> (rs_Effect s = ''allow'' \<or> rs_Effect s = ''deny'')
     \<and> (rs_ScopeType s = ''platform''
        \<or> rs_ScopeType s = ''product'' \<and> rs_ProductID s \<noteq> []
           \<and> trim_space (rs_ProductID s) = rs_ProductID s)"

lemma trim_scope_words [simp]:
  "trim_space ''allow'' = ''allow''" "trim_space ''deny'' = ''deny''"
  "trim_space ''platform'' = ''platform''" "trim_space ''product'' = ''product''"
  by (simp_all add: trim_eval)

lemma lower_scope_words [simp]:
  "to_lower ''allow'' = ''allow''" "to_lower ''deny'' = ''deny''"
  "to_lower ''platform'' = ''platform''" "to_lower ''product'' = ''product''"
  by (simp_all add: to_lower_id is_upper_def in_range_def byte_val_def)

lemma audit_scope_step_normalized:
  assumes "normalized_binding b"
  shows "audit_scope_step p b st =
    (if \<not> audit_relevant p b then Inr st
     else if rs_ScopeType b = ''platform'' then
       (if rs_Effect b = ''deny'' then Inl ErrActionDenied
        else Inr (st\<lparr>ss_allowed := True, ss_allProducts := True, ss_allowGlobal := True\<rparr>))
     else if rs_Effect b = ''deny'' then
       Inr (st\<lparr>ss_excluded := List.insert (rs_ProductID b) (ss_excluded st),
               ss_included := removeAll (rs_ProductID b) (ss_included st)\<rparr>)
     else Inr (st\<lparr>ss_allowed := True,
                  ss_included := (if rs_ProductID b \<in> set (ss_excluded st) then ss_included st
                                  else List.insert (rs_ProductID b) (ss_included st))\<rparr>))"
  using assms by (auto simp: audit_scope_step_def normalized_binding_def audit_relevant_def Let_def)

lemma audit_scope_loop_deny:
  assumes "\<forall>b \<in> set bs. normalized_binding b"
  shows "(\<exists>e. audit_scope_loop p bs st = Inl e) \<longleftrightarrow> audit_platform p ''deny'' bs"
  using assms
proof (induction bs arbitrary: st)
  case Nil
  then show ?case by (simp add: audit_platform_def)
next
  case (Cons b bs)
  then show ?case
    by (auto simp: audit_scope_step_normalized audit_platform_def normalized_binding_def)
qed

lemma audit_scope_loop_sets:
  assumes "\<forall>b \<in> set bs. normalized_binding b" "audit_scope_loop p bs st = Inr st'"
    "set (ss_included st) \<inter> set (ss_excluded st) = {}"
  shows "set (ss_excluded st') = set (ss_excluded st) \<union> audit_targets p ''deny'' bs
    \<and> set (ss_included st') = (set (ss_included st) \<union> audit_targets p ''allow'' bs) - set (ss_excluded st')
    \<and> ss_allProducts st' = (ss_allProducts st \<or> audit_platform p ''allow'' bs)
    \<and> ss_allowed st' = (ss_allowed st \<or> audit_platform p ''allow'' bs \<or> audit_targets p ''allow'' bs \<noteq> {})"
  using assms
proof (induction bs arbitrary: st)
  case Nil
  then show ?case by (auto simp: audit_platform_def audit_targets_def)
next
  case (Cons b bs)
  from Cons.prems(1) have b: "normalized_binding b" and bs: "\<forall>b \<in> set bs. normalized_binding b"
    by auto
  from Cons.prems(2) obtain st1 where st1: "audit_scope_step p b st = Inr st1"
    and rest: "audit_scope_loop p bs st1 = Inr st'" by (auto simp: res_elims)
  have disj: "set (ss_included st1) \<inter> set (ss_excluded st1) = {}"
    using st1 Cons.prems(3) by (auto simp: audit_scope_step_normalized [OF b] split: if_splits)
  have targets: "audit_targets p e (b # bs) =
      (if audit_relevant p b \<and> rs_ScopeType b = ''product'' \<and> rs_Effect b = e
       then insert (rs_ProductID b) (audit_targets p e bs) else audit_targets p e bs)" for e
    by (auto simp: audit_targets_def)
  have platform: "audit_platform p e (b # bs) \<longleftrightarrow>
      (audit_relevant p b \<and> rs_ScopeType b = ''platform'' \<and> rs_Effect b = e) \<or> audit_platform p e bs" for e
    by (simp add: audit_platform_def)
  consider (skip) "\<not> audit_relevant p b" "st1 = st"
    | (pf) "audit_relevant p b" "rs_ScopeType b = ''platform''" "rs_Effect b = ''allow''"
        "st1 = st\<lparr>ss_allowed := True, ss_allProducts := True, ss_allowGlobal := True\<rparr>"
    | (deny) "audit_relevant p b" "rs_ScopeType b = ''product''" "rs_Effect b = ''deny''"
        "st1 = st\<lparr>ss_excluded := List.insert (rs_ProductID b) (ss_excluded st),
                   ss_included := removeAll (rs_ProductID b) (ss_included st)\<rparr>"
    | (allow) "audit_relevant p b" "rs_ScopeType b = ''product''" "rs_Effect b = ''allow''"
        "st1 = st\<lparr>ss_allowed := True, ss_included := (if rs_ProductID b \<in> set (ss_excluded st)
           then ss_included st else List.insert (rs_ProductID b) (ss_included st))\<rparr>"
    using st1 b
    by (auto simp: audit_scope_step_normalized [OF b] normalized_binding_def split: if_splits)
  then show ?case
    using Cons.IH [OF bs rest disj] by cases (simp_all add: targets platform, blast+)
qed

lemma scope_applies_audit:
  assumes "normalized_binding s"
  shows "scope_applies p ActionAuditRead pid [] s \<longleftrightarrow>
    audit_relevant p s \<and> (rs_ScopeType s = ''platform'' \<or> rs_ProductID s = trim_space pid)"
  using assms
  by (auto simp: scope_applies_def audit_relevant_def rolePermits_audit scopeMatches_def
      isProductScoped_def normalized_binding_def)

lemma governed_allows_audit:
  assumes "\<forall>s \<in> set (p_RoleScopes p). normalized_binding s" and "trim_space pid = pid"
  shows "governed_allows p ActionAuditRead pid [] \<longleftrightarrow>
    (audit_platform p ''allow'' (p_RoleScopes p) \<or> pid \<in> audit_targets p ''allow'' (p_RoleScopes p))
    \<and> \<not> (audit_platform p ''deny'' (p_RoleScopes p) \<or> pid \<in> audit_targets p ''deny'' (p_RoleScopes p))"
proof -
  have "(\<exists>s \<in> set (p_RoleScopes p). scope_applies p ActionAuditRead pid [] s \<and> rs_Effect s = e) \<longleftrightarrow>
      audit_platform p e (p_RoleScopes p) \<or> pid \<in> audit_targets p e (p_RoleScopes p)" for e
    unfolding audit_platform_def audit_targets_def
    using assms by (auto simp: scope_applies_audit normalized_binding_def)
  then show ?thesis by (simp add: governed_allows_def)
qed

section \<open>Properties\<close>

text \<open>C18. Deny wins and order does not matter: for a valid governed principal, a product-scoped
  check in a channel succeeds exactly when the product is named, some role binding that applies
  allows the action and no binding that applies denies it. The loop in \<open>requireGoverned\<close>, which
  stops at the first deny, computes that.\<close>

theorem RequireInChannel_deny_wins:
  assumes "Validate p = None" and "p_Governed p" and "isProductScoped a"
  shows "RequireInChannel p a pid ch = None \<longleftrightarrow>
    trim_space pid \<noteq> []
    \<and> (\<exists>s \<in> set (p_RoleScopes p). scope_applies p a pid ch s \<and> rs_Effect s = ''allow'')
    \<and> \<not> (\<exists>s \<in> set (p_RoleScopes p). scope_applies p a pid ch s \<and> rs_Effect s = ''deny'')"
  using assms by (auto simp: RequireInChannel_def requireGoverned_allows governed_allows_def)

theorem RequireInChannel_deny_wins_witness:
  "RequireInChannel (sample_principal ''ana'' ''human'' 1
      [sample_scope ''approver'' ''allow'' ''platform'' [] [],
       sample_scope ''approver'' ''deny'' ''channel'' ''edr'' ''stable''])
    ''release.approve'' ''edr'' ''stable'' \<noteq> None"
  by (subst RequireInChannel_deny_wins)
    (simp_all add: sample_principal_def sample_scope_def Validate_def isProductScoped_def
      scope_applies_def scopeAllowedByAuthenticationAssurance_def rolePermitsAction_def
      permissions_def scopeMatches_def trim_eval)



text \<open>C20. A local session without a second factor has no platform authority: while its
  authentication assurance is below 1, a local principal is refused every action that is not
  product scoped (identity management and product registration), whatever roles or bindings it
  holds, in both the governed and the claim-based mode.\<close>

theorem local_low_assurance_no_platform_action:
  assumes "p_Kind p = PrincipalKindLocal" and "p_AuthenticationAssurance p < 1"
    and "\<not> isProductScoped a"
  shows "Require p a pid \<noteq> None \<and> RequireInChannel p a pid ch \<noteq> None"
proof -
  have "\<not> (scope_applies p a x c s \<and> rs_Effect s = ''allow'')" for x c s
    using assms rolePermits_platform [OF assms(3), of "rs_Role s"]
    by (auto simp: scope_applies_def scopeMatches_def scopeAllowedByAuthenticationAssurance_def
        split: if_splits)
  then have "\<not> governed_allows p a x c" for x c by (auto simp: governed_allows_def)
  then have "requireGoverned p a x c \<noteq> None" for x c by (simp only: requireGoverned_allows) simp
  moreover have "require_roles_loop p a (p_Roles p) \<noteq> None"
    using assms rolePermits_platform [OF assms(3)] by (auto simp: require_roles_loop_eq)
  ultimately show ?thesis
    using assms(3)
    by (auto simp: Require_def RequireInChannel_def split: option.splits)
qed

theorem local_low_assurance_no_platform_action_witness:
  "Require (sample_principal ''ana'' ''local'' 0
      [sample_scope ''admin'' ''allow'' ''platform'' [] []]) ''identity.manage'' [] \<noteq> None"
  by (rule local_low_assurance_no_platform_action [THEN conjunct1])
    (simp_all add: sample_principal_def isProductScoped_def)



end
