(* ===== verification/Postgres.thy ===== *)
theory Postgres
  imports GoJson "HOL-Library.Product_Lexorder"
begin

text \<open>
  What the repositories rely on of PostgreSQL and its driver: a TEXT value is valid UTF-8 without
  NUL and its \<open>length\<close> counts characters, a TIMESTAMPTZ keeps microseconds, INTEGER and BIGINT
  arithmetic that leaves the range aborts the statement, an \<open>UPDATE ... WHERE\<close> changes every row
  the condition holds for and reports how many.
\<close>

definition pg_text :: "bytes \<Rightarrow> bool" where
  "pg_text s \<longleftrightarrow> utf8_valid s \<and> list_all (\<lambda>c. byte_val c \<noteq> 0) s"

text \<open>The number of characters: the bytes that do not continue a character.\<close>

definition pg_length :: "bytes \<Rightarrow> nat" where
  "pg_length s = length (filter (\<lambda>c. \<not> in_range 128 191 c) s)"

definition pg_timestamp :: "time \<Rightarrow> time" where
  "pg_timestamp t = truncate_time microsecond t"

definition int4_max :: int where "int4_max = 2147483647"
definition int8_max :: int where "int8_max = 9223372036854775807"

definition update_where :: "('r \<Rightarrow> bool) \<Rightarrow> ('r \<Rightarrow> 'r) \<Rightarrow> 'r list \<Rightarrow> 'r list" where
  "update_where p f rows = map (\<lambda>r. if p r then f r else r) rows"

definition rows_affected :: "('r \<Rightarrow> bool) \<Rightarrow> 'r list \<Rightarrow> nat" where
  "rows_affected p rows = length (filter p rows)"

section \<open>Lemmas\<close>

lemma utf8_valid_graphic: "list_all graphic s \<Longrightarrow> utf8_valid s"
proof (induction s)
  case (Cons c s)
  then have "utf8_width (c # s) = 1" by (simp add: utf8_width_def graphic_def in_range_def)
  with Cons show ?case by (subst utf8_valid.simps) simp
qed (simp add: utf8_valid.simps)

lemma pg_text_graphic [simp]: "list_all graphic s \<Longrightarrow> pg_text s"
  by (auto simp: pg_text_def utf8_valid_graphic list_all_iff graphic_def in_range_def)

lemma pg_length_graphic [simp]: "list_all graphic s \<Longrightarrow> pg_length s = length s"
  by (induction s) (auto simp: pg_length_def graphic_def in_range_def)

lemma update_where_keys [simp]:
  "(\<And>r. k (f r) = k r) \<Longrightarrow> map k (update_where p f rows) = map k rows"
  by (simp add: update_where_def)

lemma update_where_length [simp]: "length (update_where p f rows) = length rows"
  by (simp add: update_where_def)

lemma update_where_none: "rows_affected p rows = 0 \<Longrightarrow> update_where p f rows = rows"
  by (auto simp: update_where_def rows_affected_def filter_empty_conv map_idI)

lemma tbl_get_update:
  assumes "\<And>r. k (f r) = k r"
  shows "tbl_get k (update_where p f rows) x =
    map_option (\<lambda>r. if p r then f r else r) (tbl_get k rows x)"
  by (induction rows) (auto simp: tbl_get_def update_where_def assms)

lemma update_where_set:
  "r \<in> set (update_where p f rows) \<longleftrightarrow>
     (\<exists>r0 \<in> set rows. if p r0 then r = f r0 else r = r0)"
  by (force simp: update_where_def)

text \<open>With unique keys, a condition that fixes the key hits one row exactly when the row with that
  key satisfies it.\<close>

lemma rows_affected_one:
  assumes "distinct (map k rows)" and "\<And>r. p r \<Longrightarrow> k r = x"
  shows "rows_affected p rows = 1 \<longleftrightarrow> (\<exists>r. tbl_get k rows x = Some r \<and> p r)"
  using assms
proof (induction rows)
  case Nil
  then show ?case by (simp add: rows_affected_def tbl_get_def)
next
  case (Cons a rows)
  have none: "rows_affected p rows = 0" if "k a = x"
  proof -
    have "\<not> p r" if r: "r \<in> set rows" for r
      using Cons.prems \<open>k a = x\<close> r by (metis distinct.simps(2) image_eqI list.set_map list.simps(9))
    then show ?thesis by (auto simp: rows_affected_def filter_empty_conv)
  qed
  show ?case
  proof (cases "k a = x")
    case True
    then show ?thesis using none by (auto simp: rows_affected_def tbl_get_def)
  next
    case False
    then have "\<not> p a" using Cons.prems(2) by blast
    then show ?thesis using Cons False by (auto simp: rows_affected_def tbl_get_def)
  qed
qed

lemma pg_timestamp_le: "pg_timestamp t \<le> t"
  by (simp add: pg_timestamp_def truncate_time_def microsecond_def)

lemma pg_timestamp_idem [simp]: "pg_timestamp (pg_timestamp t) = pg_timestamp t"
  by (simp add: pg_timestamp_def truncate_time_def microsecond_def minus_mod_eq_mult_div)

end
