(* ===== verification/Jobs.thy ===== *)
theory Jobs
  imports Postgres
begin

text \<open>
  The transactional outbox of \<open>internal/platform/jobs\<close>: creating a job (\<open>model.go\<close>), the handler
  registries and error codes (\<open>handlers.go\<close>), the table \<open>outbox_jobs\<close> with its operations
  (\<open>postgres_repository.go\<close> and migration 000001) and the worker (\<open>worker.go\<close>).

  The table is a list of rows. \<open>now\<close> is \<open>clock_timestamp()\<close> of the statement, \<open>locked\<close> the rows other
  transactions hold locked when \<open>Lease\<close> runs (\<open>SKIP LOCKED\<close>). The worker runs on the table and the
  rest of the database \<open>'d\<close>, which the dead-letter handlers change. The goroutines of \<open>process\<close> are
  a step function over the events its \<open>select\<close> receives, and \<open>RunOnce\<close> runs the steps of all leased
  jobs in the order of an arbitrary schedule.
\<close>

section \<open>Jobs\<close>

datatype job_status = StatusPending | StatusLeased | StatusCompleted | StatusDeadLetter

datatype 'e job_error =
    ErrKindRequired | ErrAggregateIDInvalid | ErrPayloadInvalid | ErrAvailableAtInvalid
  | UUIDUnavailable
  | ErrLeaseOwnerRequired | ErrLeaseInvalid | ErrLeaseLimitInvalid | ErrLeaseNotOwned
  | ErrWorkerConfiguration
  | ErrLeaseLost "'e job_error"
  | ContextCancelled
  | DeadLetterNotConfigured | DeadLetterNotRegistered
  | JobDomain 'e
  | JobDatabase

record Job =
  j_ID :: uuid
  j_Kind :: string
  j_AggregateID :: uuid
  j_Payload :: bytes
  j_Status :: job_status
  j_Attempts :: int
  j_AvailableAt :: time
  j_LeaseOwner :: string
  j_LeaseExpiresAt :: "time option"
  j_LastErrorCode :: string
  j_CreatedAt :: time
  j_UpdatedAt :: time

text \<open>\<open>jid\<close> is what \<open>uuid.NewV7\<close> returns.\<close>

definition json_object :: "bytes \<Rightarrow> bool" where
  "json_object payload = (case parse_json payload of Some (JObj _) \<Rightarrow> True | _ \<Rightarrow> False)"

definition New :: "uuid option \<Rightarrow> string \<Rightarrow> uuid \<Rightarrow> bytes \<Rightarrow> time \<Rightarrow> 'e job_error + Job" where
  "New jid kind aggregateID payload availableAt =
     (let kind = trim_space kind in
      if kind = [] \<or> length kind > 128 then Inl ErrKindRequired
      else if aggregateID = uuid_Nil then Inl ErrAggregateIDInvalid
      else if \<not> json_object payload then Inl ErrPayloadInvalid
      else if availableAt = 0 then Inl ErrAvailableAtInvalid
      else res_bind (of_option UUIDUnavailable jid) (\<lambda>i.
        Inr \<lparr>j_ID = i, j_Kind = kind, j_AggregateID = aggregateID, j_Payload = payload,
             j_Status = StatusPending, j_Attempts = 0, j_AvailableAt = availableAt,
             j_LeaseOwner = [], j_LeaseExpiresAt = None, j_LastErrorCode = [],
             j_CreatedAt = 0, j_UpdatedAt = 0\<rparr>))"

section \<open>Error codes and registries\<close>

text \<open>\<open>^[a-z][a-z0-9]*(?:_[a-z0-9]+)*$\<close>\<close>

abbreviation code_char :: "char \<Rightarrow> bool" where
  "code_char c \<equiv> is_lower c \<or> is_digit c"

definition errorCodePattern :: regex where
  "errorCodePattern = Cat (Cls is_lower) (Cat (Star (Cls code_char))
     (Star (Cat (chr_re (CHR ''_'')) (plus_re (Cls code_char)))))"

text \<open>A Go error as far as \<open>errors.As\<close> looks at it: a leaf, a wrapped error, a coded error.\<close>

datatype go_error = ErrorString string | Wrapped go_error | codedError string go_error

definition NewCodedError :: "string \<Rightarrow> go_error option \<Rightarrow> go_error" where
  "NewCodedError code err =
     (let code = trim_space code;
          err = (case err of None \<Rightarrow> ErrorString ''job handler failed'' | Some e \<Rightarrow> e);
          code = (if \<not> matches errorCodePattern code \<or> length code > 128
                  then ''job_handler_failed'' else code)
      in codedError code err)"

fun carrier_code :: "go_error \<Rightarrow> string option" where
  "carrier_code (ErrorString _) = None"
| "carrier_code (Wrapped e) = carrier_code e"
| "carrier_code (codedError c _) = Some c"

definition ErrorCode :: "go_error option \<Rightarrow> string" where
  "ErrorCode err = (case err of None \<Rightarrow> []
     | Some e \<Rightarrow> (case carrier_code e of
           Some c \<Rightarrow> if matches errorCodePattern c \<and> length c \<le> 128 then c else ''job_handler_failed''
         | None \<Rightarrow> ''job_handler_failed''))"

text \<open>A registry is built from the pairs of a Go map in the order the range loop visits them;
  a nil handler is \<open>None\<close>, and a later pair with the same trimmed kind replaces an earlier one.\<close>

fun registry_of :: "(string \<times> 'h option) list \<Rightarrow> (string \<rightharpoonup> 'h) \<Rightarrow> (string \<rightharpoonup> 'h)" where
  "registry_of [] reg = reg"
| "registry_of ((kind, handler) # rest) reg =
     (let kind = trim_space kind in
      registry_of rest (case handler of
          Some h \<Rightarrow> if kind \<noteq> [] then reg(kind \<mapsto> h) else reg
        | None \<Rightarrow> reg))"

definition NewHandlerRegistry :: "(string \<times> 'h option) list \<Rightarrow> (string \<rightharpoonup> 'h)" where
  "NewHandlerRegistry handlers = registry_of handlers Map.empty"

definition Resolve :: "(string \<rightharpoonup> 'h) option \<Rightarrow> string \<Rightarrow> 'h option" where
  "Resolve registry kind = (case registry of None \<Rightarrow> None | Some reg \<Rightarrow> reg (trim_space kind))"

text \<open>A \<open>DeadLetterHandler\<close> and what its dynamic type implements beside it:
  \<open>TransactionalDeadLetterHandler\<close> and \<open>TransactionalDeadLetterResolver\<close>.\<close>

type_synonym ('d, 'e) dead_letter_fun = "Job \<Rightarrow> string \<Rightarrow> ('d, 'e job_error, unit) action"

record ('d, 'e) DeadLetterHandler =
  HandleDeadLetter :: "('d, 'e) dead_letter_fun"
  HandleDeadLetterTx :: "('d, 'e) dead_letter_fun option"
  ResolveTransactionalDeadLetter :: "(string \<Rightarrow> ('d, 'e) dead_letter_fun option) option"

definition NewDeadLetterRegistry ::
  "(string \<times> ('d, 'e) DeadLetterHandler option) list \<Rightarrow> (string \<rightharpoonup> ('d, 'e) DeadLetterHandler)" where
  "NewDeadLetterRegistry handlers = registry_of handlers Map.empty"

text \<open>The registry is itself a \<open>DeadLetterHandler\<close> and a resolver, but not transactional.\<close>

definition registry_HandleDeadLetter ::
  "(string \<rightharpoonup> ('d, 'e) DeadLetterHandler) option \<Rightarrow> ('d, 'e) dead_letter_fun" where
  "registry_HandleDeadLetter registry job code = (case registry of
       None \<Rightarrow> act_fail DeadLetterNotConfigured
     | Some reg \<Rightarrow> (case reg (trim_space (j_Kind job)) of
           None \<Rightarrow> act_fail DeadLetterNotRegistered
         | Some h \<Rightarrow> HandleDeadLetter h job code))"

definition registry_Resolve ::
  "(string \<rightharpoonup> ('d, 'e) DeadLetterHandler) option \<Rightarrow> string \<Rightarrow> ('d, 'e) dead_letter_fun option" where
  "registry_Resolve registry kind = (case registry of
       None \<Rightarrow> None
     | Some reg \<Rightarrow> (case reg (trim_space kind) of None \<Rightarrow> None | Some h \<Rightarrow> HandleDeadLetterTx h))"

definition DeadLetterRegistry ::
  "(string \<rightharpoonup> ('d, 'e) DeadLetterHandler) option \<Rightarrow> ('d, 'e) DeadLetterHandler" where
  "DeadLetterRegistry registry =
     \<lparr>HandleDeadLetter = registry_HandleDeadLetter registry, HandleDeadLetterTx = None,
      ResolveTransactionalDeadLetter = Some (registry_Resolve registry)\<rparr>"

section \<open>The table outbox_jobs\<close>

record job_row =
  r_id :: uuid
  r_kind :: string
  r_aggregate_id :: uuid
  r_payload :: bytes
  r_status :: job_status
  r_attempts :: int
  r_available_at :: time
  r_lease_owner :: "string option"
  r_lease_expires_at :: "time option"
  r_last_error_code :: "string option"
  r_created_at :: time
  r_updated_at :: time

type_synonym outbox = "job_row list"

definition coalesce_text :: "string option \<Rightarrow> string" where
  "coalesce_text v = (case v of None \<Rightarrow> [] | Some s \<Rightarrow> s)"

definition scanJob :: "job_row \<Rightarrow> Job" where
  "scanJob r = \<lparr>j_ID = r_id r, j_Kind = r_kind r, j_AggregateID = r_aggregate_id r,
     j_Payload = r_payload r, j_Status = r_status r, j_Attempts = r_attempts r,
     j_AvailableAt = r_available_at r, j_LeaseOwner = coalesce_text (r_lease_owner r),
     j_LeaseExpiresAt = r_lease_expires_at r, j_LastErrorCode = coalesce_text (r_last_error_code r),
     j_CreatedAt = r_created_at r, j_UpdatedAt = r_updated_at r\<rparr>"

text \<open>The insert fails on a duplicate id, on a kind that is no TEXT of 1 to 128 characters and on a
  payload that is no JSON object.\<close>

definition Enqueue :: "time \<Rightarrow> Job \<Rightarrow> (outbox, 'e job_error, unit) action" where
  "Enqueue now job = act_write (\<lambda>rows.
     if tbl_has r_id rows (j_ID job) \<or> \<not> pg_text (j_Kind job)
        \<or> pg_length (j_Kind job) < 1 \<or> pg_length (j_Kind job) > 128
        \<or> \<not> json_object (j_Payload job)
     then Inl JobDatabase
     else Inr ((), rows @ [\<lparr>r_id = j_ID job, r_kind = j_Kind job,
        r_aggregate_id = j_AggregateID job, r_payload = j_Payload job, r_status = StatusPending,
        r_attempts = 0, r_available_at = pg_timestamp (j_AvailableAt job), r_lease_owner = None,
        r_lease_expires_at = None, r_last_error_code = None, r_created_at = now,
        r_updated_at = now\<rparr>]))"

definition millisecond :: duration where "millisecond = 1000000"
definition hour_ns :: duration where "hour_ns = 3600 * second_ns"

definition Milliseconds :: "duration \<Rightarrow> int" where
  "Milliseconds d = d div millisecond"

definition leaseable :: "time \<Rightarrow> job_row \<Rightarrow> bool" where
  "leaseable now r \<longleftrightarrow>
     r_status r = StatusPending \<and> r_available_at r \<le> now
     \<or> r_status r = StatusLeased \<and> (case r_lease_expires_at r of None \<Rightarrow> False | Some e \<Rightarrow> e \<le> now)"

definition lease_candidates :: "time \<Rightarrow> uuid set \<Rightarrow> nat \<Rightarrow> outbox \<Rightarrow> job_row list" where
  "lease_candidates now locked limit rows =
     take limit (filter (\<lambda>r. r_id r \<notin> locked)
       (sort_key (\<lambda>r. (r_available_at r, r_created_at r)) (filter (leaseable now) rows)))"

definition lease_row :: "time \<Rightarrow> string \<Rightarrow> duration \<Rightarrow> job_row \<Rightarrow> job_row" where
  "lease_row now owner lease r = r\<lparr>r_status := StatusLeased, r_attempts := r_attempts r + 1,
     r_lease_owner := Some owner,
     r_lease_expires_at := Some (now + Milliseconds lease * millisecond), r_updated_at := now\<rparr>"

definition Lease :: "time \<Rightarrow> uuid set \<Rightarrow> string \<Rightarrow> int \<Rightarrow> duration \<Rightarrow>
    (outbox, 'e job_error, Job list) action" where
  "Lease now locked owner limit lease = act_write (\<lambda>rows.
     let owner = trim_space owner in
     if owner = [] then Inl ErrLeaseOwnerRequired
     else if limit \<le> 0 \<or> limit > 1000 then Inl ErrLeaseLimitInvalid
     else if lease \<le> 0 \<or> lease > 24 * hour_ns then Inl ErrLeaseInvalid
     else
       let candidates = lease_candidates now locked (nat limit) rows;
           hit = (\<lambda>r. r_id r \<in> set (map r_id candidates))
       in if \<not> pg_text owner \<or> list_ex (\<lambda>r. hit r \<and> r_attempts r \<ge> int4_max) rows
          then Inl JobDatabase
          else Inr (map scanJob (map (lease_row now owner lease) candidates),
                    update_where hit (lease_row now owner lease) rows))"

definition owned :: "uuid \<Rightarrow> string \<Rightarrow> job_row \<Rightarrow> bool" where
  "owned jid owner r \<longleftrightarrow>
     r_id r = jid \<and> r_status r = StatusLeased \<and> r_lease_owner r = Some owner"

text \<open>The parameters are TEXT values, so a statement with one that is no TEXT fails.\<close>

definition job_transition ::
  "string \<Rightarrow> uuid \<Rightarrow> bool \<Rightarrow> (job_row \<Rightarrow> job_row) \<Rightarrow> (outbox, 'e job_error, unit) action" where
  "job_transition owner jid arguments_ok f = act_write (\<lambda>rows.
     let owner = trim_space owner in
     if owner = [] then Inl ErrLeaseOwnerRequired
     else if \<not> pg_text owner \<or> \<not> arguments_ok then Inl JobDatabase
     else if rows_affected (owned jid owner) rows \<noteq> 1 then Inl ErrLeaseNotOwned
     else Inr ((), update_where (owned jid owner) f rows))"

definition release_lease :: "time \<Rightarrow> job_status \<Rightarrow> job_row \<Rightarrow> job_row" where
  "release_lease now status r = r\<lparr>r_status := status, r_lease_owner := None,
     r_lease_expires_at := None, r_updated_at := now\<rparr>"

definition Complete :: "time \<Rightarrow> string \<Rightarrow> uuid \<Rightarrow> (outbox, 'e job_error, unit) action" where
  "Complete now owner jid = job_transition owner jid True (release_lease now StatusCompleted)"

definition Renew :: "time \<Rightarrow> string \<Rightarrow> uuid \<Rightarrow> duration \<Rightarrow> (outbox, 'e job_error, unit) action" where
  "Renew now owner jid lease = act_write (\<lambda>rows.
     let owner = trim_space owner;
         hit = (\<lambda>r. owned jid owner r
           \<and> (case r_lease_expires_at r of None \<Rightarrow> False | Some e \<Rightarrow> e > now)) in
     if owner = [] then Inl ErrLeaseOwnerRequired
     else if lease \<le> 0 \<or> lease > 24 * hour_ns then Inl ErrLeaseInvalid
     else if \<not> pg_text owner then Inl JobDatabase
     else if rows_affected hit rows \<noteq> 1 then Inl ErrLeaseNotOwned
     else Inr ((), update_where hit (\<lambda>r. r\<lparr>
       r_lease_expires_at := Some (now + Milliseconds lease * millisecond), r_updated_at := now\<rparr>) rows))"

definition Retry :: "time \<Rightarrow> string \<Rightarrow> uuid \<Rightarrow> string \<Rightarrow> time \<Rightarrow> (outbox, 'e job_error, unit) action" where
  "Retry now owner jid code availableAt =
     (if availableAt = 0 then act_fail ErrAvailableAtInvalid
      else job_transition owner jid (pg_text (trim_space code))
        (\<lambda>r. (release_lease now StatusPending r)\<lparr>r_last_error_code := Some (trim_space code),
             r_available_at := pg_timestamp availableAt\<rparr>))"

definition bury :: "time \<Rightarrow> string \<Rightarrow> job_row \<Rightarrow> job_row" where
  "bury now code r = (release_lease now StatusDeadLetter r)\<lparr>r_last_error_code := Some code\<rparr>"

definition DeadLetter :: "time \<Rightarrow> string \<Rightarrow> uuid \<Rightarrow> string \<Rightarrow> (outbox, 'e job_error, unit) action" where
  "DeadLetter now owner jid code =
     job_transition owner jid (pg_text (trim_space code)) (bury now (trim_space code))"

text \<open>The settlement locks the row, lets the domain apply its transition in the same transaction
  and moves the job. \<open>transition = None\<close> is a nil function.\<close>

definition SettleDeadLetter :: "time \<Rightarrow> string \<Rightarrow> uuid \<Rightarrow> string \<Rightarrow>
    ('d, 'e job_error, unit) action option \<Rightarrow> (outbox \<times> 'd, 'e job_error, unit) action" where
  "SettleDeadLetter now owner jid code transition =
     (let owner = trim_space owner; code = trim_space code in
      if owner = [] \<or> jid = uuid_Nil \<or> \<not> matches errorCodePattern code \<or> length code > 128
      then act_fail ErrWorkerConfiguration
      else within_tx (\<lambda>(rows, d). case tbl_get r_id rows jid of
          None \<Rightarrow> (Inl ErrLeaseNotOwned, rows, d)
        | Some r \<Rightarrow>
            if r_status r \<noteq> StatusLeased \<or> coalesce_text (r_lease_owner r) \<noteq> owner
            then (Inl ErrLeaseNotOwned, rows, d)
            else (case (case transition of None \<Rightarrow> (Inr (), d) | Some f \<Rightarrow> f d) of
                (Inl e, d') \<Rightarrow> (Inl e, rows, d')
              | (Inr _, d') \<Rightarrow>
                  if \<not> pg_text owner then (Inl JobDatabase, rows, d')
                  else if rows_affected (owned jid owner) rows \<noteq> 1 then (Inl ErrLeaseNotOwned, rows, d')
                  else (Inr (), update_where (owned jid owner) (bury now code) rows, d'))))"

section \<open>The worker\<close>

definition defaultBatchSize :: int where "defaultBatchSize = 10"
definition defaultLeaseDuration :: duration where "defaultLeaseDuration = 30 * second_ns"
definition defaultRenewInterval :: duration where "defaultRenewInterval = 10 * second_ns"
definition maximumJobAttempts :: int where "maximumJobAttempts = 5"

definition retryDelays :: "duration list" where
  "retryDelays = map (\<lambda>s. s * second_ns) [5, 30, 120, 600, 1800]"

text \<open>A nil repository or registry is \<open>False\<close> or \<open>None\<close>; \<open>wc_transactional\<close> says whether the
  repository implements \<open>TransactionalDeadLetterRepository\<close>.\<close>

record ('d, 'e, 'h) WorkerConfig =
  wc_Owner :: string
  wc_Repository :: bool
  wc_transactional :: bool
  wc_Handlers :: "(string \<rightharpoonup> 'h) option"
  wc_DeadLetters :: "('d, 'e) DeadLetterHandler option"
  wc_RequiredKinds :: "string list"
  wc_BatchSize :: int
  wc_LeaseDuration :: duration
  wc_RenewInterval :: duration

record ('d, 'e, 'h) Worker =
  w_owner :: string
  w_transactional :: bool
  w_handlers :: "(string \<rightharpoonup> 'h) option"
  w_deadLetters :: "('d, 'e) DeadLetterHandler option"
  w_required :: "string list"
  w_batchSize :: int
  w_leaseDuration :: duration
  w_renewInterval :: duration

definition resolvesTransactionalDeadLetter :: "('d, 'e) DeadLetterHandler \<Rightarrow> string \<Rightarrow> bool" where
  "resolvesTransactionalDeadLetter deadLetters kind =
     (case HandleDeadLetterTx deadLetters of
        Some _ \<Rightarrow> True
      | None \<Rightarrow> (case ResolveTransactionalDeadLetter deadLetters of
            None \<Rightarrow> False
          | Some resolve \<Rightarrow> resolve kind \<noteq> None))"

definition NewWorker :: "('d, 'e, 'h) WorkerConfig \<Rightarrow> 'x job_error + ('d, 'e, 'h) Worker" where
  "NewWorker config =
     (let owner = trim_space (wc_Owner config);
          batch = (if wc_BatchSize config = 0 then defaultBatchSize else wc_BatchSize config);
          lease = (if wc_LeaseDuration config = 0 then defaultLeaseDuration else wc_LeaseDuration config);
          renew = (if wc_RenewInterval config = 0 then defaultRenewInterval else wc_RenewInterval config);
          required = map trim_space (wc_RequiredKinds config) in
      if owner = [] \<or> \<not> wc_Repository config \<or> wc_Handlers config = None \<or> batch < 1 \<or> batch > 10
         \<or> lease \<le> 0 \<or> renew \<le> 0 \<or> renew \<ge> lease then Inl ErrWorkerConfiguration
      else if [] \<in> set required then Inl ErrWorkerConfiguration
      else if required \<noteq> [] \<and> (\<not> wc_transactional config \<or> wc_DeadLetters config = None)
      then Inl ErrWorkerConfiguration
      else if list_ex (\<lambda>kind. case wc_DeadLetters config of None \<Rightarrow> True
               | Some dl \<Rightarrow> \<not> resolvesTransactionalDeadLetter dl kind) required
      then Inl ErrWorkerConfiguration
      else Inr \<lparr>w_owner = owner, w_transactional = wc_transactional config,
                w_handlers = wc_Handlers config, w_deadLetters = wc_DeadLetters config,
                w_required = required, w_batchSize = batch, w_leaseDuration = lease,
                w_renewInterval = renew\<rparr>)"

definition transactionalDeadLetterTransition ::
  "('d, 'e, 'h) Worker \<Rightarrow> Job \<Rightarrow> string \<Rightarrow> ('d, 'e job_error, unit) action option" where
  "transactionalDeadLetterTransition worker job code = (case w_deadLetters worker of
       None \<Rightarrow> None
     | Some dl \<Rightarrow> (case HandleDeadLetterTx dl of
           Some h \<Rightarrow> Some (h job code)
         | None \<Rightarrow> (case ResolveTransactionalDeadLetter dl of
               None \<Rightarrow> None
             | Some resolve \<Rightarrow> (case resolve (j_Kind job) of
                   None \<Rightarrow> None | Some h \<Rightarrow> Some (h job code)))))"

definition on_outbox :: "(outbox, 'e, 'a) action \<Rightarrow> (outbox \<times> 'd, 'e, 'a) action" where
  "on_outbox m = (\<lambda>(rows, d). case m rows of (x, rows') \<Rightarrow> (x, rows', d))"

definition on_domain :: "('d, 'e, 'a) action \<Rightarrow> (outbox \<times> 'd, 'e, 'a) action" where
  "on_domain m = (\<lambda>(rows, d). case m d of (x, d') \<Rightarrow> (x, rows, d'))"

definition delay_index :: "int \<Rightarrow> nat" where
  "delay_index attempts =
     (let i = attempts - 1; i = (if i < 0 then 0 else i);
          i = (if i \<ge> int (length retryDelays) then int (length retryDelays) - 1 else i)
      in nat i)"

text \<open>\<open>now\<close> is the database clock of the statement, \<open>clock\<close> the worker's clock.\<close>

definition settle :: "('d, 'e, 'h) Worker \<Rightarrow> time \<Rightarrow> time \<Rightarrow> Job \<Rightarrow> go_error option \<Rightarrow>
    (outbox \<times> 'd, 'e job_error, unit) action" where
  "settle worker now clock job handlerErr =
     (if handlerErr = None then on_outbox (Complete now (w_owner worker) (j_ID job))
      else
        let code = ErrorCode handlerErr in
        if j_Attempts job \<ge> maximumJobAttempts then
          (if j_Kind job \<in> set (w_required worker) then
             (if \<not> w_transactional worker then act_fail ErrWorkerConfiguration
              else (case transactionalDeadLetterTransition worker job code of
                  None \<Rightarrow> act_fail ErrWorkerConfiguration
                | Some f \<Rightarrow> SettleDeadLetter now (w_owner worker) (j_ID job) code (Some f)))
           else act_bind
             (case w_deadLetters worker of None \<Rightarrow> act_return ()
              | Some dl \<Rightarrow> on_domain (HandleDeadLetter dl job code))
             (\<lambda>_. on_outbox (DeadLetter now (w_owner worker) (j_ID job) code)))
        else on_outbox (Retry now (w_owner worker) (j_ID job) code
               (clock + retryDelays ! delay_index (j_Attempts job))))"

section \<open>The worker's goroutines\<close>

text \<open>What the \<open>select\<close> of \<open>process\<close> receives: the handler's result (with the cancellation cause of
  the handler's context at that moment), a tick of the renewal ticker, the end of the parent
  context. \<open>Elsewhere\<close> is a change of the database by the handler or another process.\<close>

datatype 'd worker_event =
    HandlerReturned "go_error option" bool time time
  | RenewTick time
  | ParentDone
  | Elsewhere "outbox \<times> 'd \<Rightarrow> outbox \<times> 'd"

datatype 'e process_state = Running | Finished "'e job_error option"

definition result_error :: "'e + unit \<Rightarrow> 'e option" where
  "result_error r = (case r of Inl e \<Rightarrow> Some e | Inr _ \<Rightarrow> None)"

fun process_step :: "('d, 'e, 'h) Worker \<Rightarrow> Job \<Rightarrow> 'd worker_event \<Rightarrow>
    'e process_state \<times> outbox \<times> 'd \<Rightarrow> 'e process_state \<times> outbox \<times> 'd" where
  "process_step worker job (Elsewhere f) (p, s) = (p, f s)"
| "process_step worker job ev (Finished r, s) = (Finished r, s)"
| "process_step worker job (HandlerReturned err cancelled now clock) (Running, s) =
     (if cancelled then (Finished (Some ContextCancelled), s)
      else (case settle worker now clock job err s of (r, s') \<Rightarrow> (Finished (result_error r), s')))"
| "process_step worker job (RenewTick now) (Running, s) =
     (case on_outbox (Renew now (w_owner worker) (j_ID job) (w_leaseDuration worker)) s of
        (Inr _, s') \<Rightarrow> (Running, s')
      | (Inl e, s') \<Rightarrow> (Finished (Some (ErrLeaseLost e)), s'))"
| "process_step worker job ParentDone (Running, s) = (Finished (Some ContextCancelled), s)"

text \<open>A job whose kind has no handler is settled at once with \<open>job_handler_unregistered\<close>.\<close>

definition process_start :: "('d, 'e, 'h) Worker \<Rightarrow> time \<Rightarrow> time \<Rightarrow> Job \<Rightarrow>
    outbox \<times> 'd \<Rightarrow> 'e process_state \<times> outbox \<times> 'd" where
  "process_start worker now clock job s =
     (case Resolve (w_handlers worker) (j_Kind job) of
        Some _ \<Rightarrow> (Running, s)
      | None \<Rightarrow> (case settle worker now clock job
            (Some (NewCodedError ''job_handler_unregistered''
              (Some (ErrorString ''job handler is not registered'')))) s of
          (r, s') \<Rightarrow> (Finished (result_error r), s')))"

definition process :: "('d, 'e, 'h) Worker \<Rightarrow> time \<Rightarrow> time \<Rightarrow> Job \<Rightarrow> 'd worker_event list \<Rightarrow>
    outbox \<times> 'd \<Rightarrow> 'e process_state \<times> outbox \<times> 'd" where
  "process worker now clock job events s =
     fold (process_step worker job) events (process_start worker now clock job s)"

text \<open>\<open>RunOnce\<close>: all leased jobs start, then the schedule says which goroutine receives what, in which
  order. The result is \<open>None\<close> while \<open>waitGroup.Wait\<close> still waits.\<close>

fun start_all :: "('d, 'e, 'h) Worker \<Rightarrow> time \<Rightarrow> time \<Rightarrow> Job list \<Rightarrow> outbox \<times> 'd \<Rightarrow>
    'e process_state list \<times> outbox \<times> 'd" where
  "start_all worker now clock [] s = ([], s)"
| "start_all worker now clock (job # jobs) s =
     (case process_start worker now clock job s of (p, s1) \<Rightarrow>
      case start_all worker now clock jobs s1 of (ps, s2) \<Rightarrow> (p # ps, s2))"

fun run_schedule :: "('d, 'e, 'h) Worker \<Rightarrow> Job list \<Rightarrow> (nat \<times> 'd worker_event) list \<Rightarrow>
    'e process_state list \<times> outbox \<times> 'd \<Rightarrow> 'e process_state list \<times> outbox \<times> 'd" where
  "run_schedule worker jobs [] st = st"
| "run_schedule worker jobs ((i, ev) # rest) (ps, s) =
     (if i < length ps \<and> i < length jobs then
        (case process_step worker (jobs ! i) ev (ps ! i, s) of (p, s') \<Rightarrow>
           run_schedule worker jobs rest (ps[i := p], s'))
      else run_schedule worker jobs rest (ps, s))"

fun collect_errors :: "'e process_state list \<Rightarrow> 'e job_error list option" where
  "collect_errors [] = Some []"
| "collect_errors (Running # _) = None"
| "collect_errors (Finished r # ps) = (case collect_errors ps of None \<Rightarrow> None
     | Some es \<Rightarrow> Some (case r of None \<Rightarrow> es | Some e \<Rightarrow> e # es))"

definition RunOnce :: "('d, 'e, 'h) Worker option \<Rightarrow> time \<Rightarrow> time \<Rightarrow> uuid set \<Rightarrow>
    (nat \<times> 'd worker_event) list \<Rightarrow> outbox \<times> 'd \<Rightarrow>
    (int \<times> 'e job_error list) option \<times> outbox \<times> 'd" where
  "RunOnce worker now clock locked schedule s = (case worker of
       None \<Rightarrow> (Some (0, [ErrWorkerConfiguration]), s)
     | Some w \<Rightarrow> (case on_outbox (Lease now locked (w_owner w) (w_batchSize w) (w_leaseDuration w)) s of
           (Inl e, s') \<Rightarrow> (Some (0, [e]), s')
         | (Inr leased, s') \<Rightarrow>
             if leased = [] then (Some (0, []), s')
             else (case run_schedule w leased schedule (start_all w now clock leased s') of
                 (ps, s'') \<Rightarrow>
                   (map_option (\<lambda>es. (int (length leased), es)) (collect_errors ps), s''))))"

text \<open>\<open>Run\<close>: each round either the context ends or the timer fires and a batch runs; the delay to the
  next round is only reported. \<open>None\<close> means the loop still runs.\<close>

datatype 'd round = ContextEnds | TimerFires time time "uuid set" "(nat \<times> 'd worker_event) list"

fun Run_loop :: "('d, 'e, 'h) Worker option \<Rightarrow> duration \<Rightarrow> 'd round list \<Rightarrow> outbox \<times> 'd \<Rightarrow>
    'e job_error list option \<times> duration list \<times> outbox \<times> 'd" where
  "Run_loop worker poll [] s = (None, [], s)"
| "Run_loop worker poll (ContextEnds # _) s = (Some [ContextCancelled], [], s)"
| "Run_loop worker poll (TimerFires now clock locked schedule # rest) s =
     (case RunOnce worker now clock locked schedule s of
        (None, s') \<Rightarrow> (None, [], s')
      | (Some (n, es), s') \<Rightarrow>
          if es \<noteq> [] then (Some es, [], s')
          else (case Run_loop worker poll rest s' of
              (r, delays, s'') \<Rightarrow> (r, (if n > 0 then millisecond else poll) # delays, s'')))"

definition Run :: "('d, 'e, 'h) Worker option \<Rightarrow> duration \<Rightarrow> 'd round list \<Rightarrow> outbox \<times> 'd \<Rightarrow>
    'e job_error list option \<times> duration list \<times> outbox \<times> 'd" where
  "Run worker poll rounds s =
     (if poll \<le> 0 then (Some [ErrWorkerConfiguration], [], s) else Run_loop worker poll rounds s)"


section \<open>The invariant of the table\<close>

text \<open>Unique ids, and per row the constraint \<open>outbox_jobs_lease_consistency\<close> with a proper owner.\<close>

definition row_ok :: "job_row \<Rightarrow> bool" where
  "row_ok r \<longleftrightarrow> 0 \<le> r_attempts r \<and> r_attempts r \<le> int4_max \<and>
     (if r_status r = StatusLeased
      then r_lease_expires_at r \<noteq> None \<and> r_lease_owner r \<noteq> None \<and> r_lease_owner r \<noteq> Some []
      else r_lease_owner r = None \<and> r_lease_expires_at r = None)"

definition outbox_ok :: "outbox \<Rightarrow> bool" where
  "outbox_ok rows \<longleftrightarrow> distinct (map r_id rows) \<and> list_all row_ok rows"

lemma outbox_ok_update:
  assumes "outbox_ok rows" "\<And>r. r_id (f r) = r_id r" "\<And>r. p r \<Longrightarrow> row_ok r \<Longrightarrow> row_ok (f r)"
  shows "outbox_ok (update_where p f rows)"
  using assms by (auto simp: outbox_ok_def list_all_iff update_where_set split: if_splits)

text \<open>The contract the worker relies on: an operation on a leased job succeeds for the owner of
  the lease only, then changes that row alone in a way that keeps the row well formed, and
  otherwise changes nothing.\<close>

locale lease_transition =
  fixes run :: "string \<Rightarrow> uuid \<Rightarrow> (outbox, 'e job_error, unit) action"
    and upd :: "job_row \<Rightarrow> job_row"
  assumes run_ok: "run owner jid rows = (Inr u, rows') \<Longrightarrow>
      \<exists>p. (\<forall>r. p r \<longrightarrow> owned jid (trim_space owner) r) \<and> trim_space owner \<noteq> []
        \<and> rows_affected p rows = 1 \<and> rows' = update_where p upd rows"
    and run_err: "run owner jid rows = (Inl e, rows') \<Longrightarrow> rows' = rows"
    and upd_id: "r_id (upd r) = r_id r"
    and upd_ok: "row_ok r \<Longrightarrow> r_status r = StatusLeased \<Longrightarrow> row_ok (upd r)"
begin

lemma frame:
  assumes "run owner jid rows = (res, rows')" "tbl_get r_id rows x = Some r"
    and "\<not> owned jid (trim_space owner) r"
  shows "tbl_get r_id rows' x = Some r"
proof (cases res)
  case (Inl e)
  with assms run_err show ?thesis by metis
next
  case (Inr u)
  then obtain p where "\<forall>r. p r \<longrightarrow> owned jid (trim_space owner) r" "rows' = update_where p upd rows"
    using run_ok assms(1) by metis
  then show ?thesis using assms(2,3) by (auto simp: tbl_get_update upd_id)
qed

lemma keeps_ok:
  assumes "run owner jid rows = (res, rows')" "outbox_ok rows"
  shows "outbox_ok rows'"
proof (cases res)
  case (Inl e)
  with assms run_err show ?thesis by metis
next
  case (Inr u)
  then obtain p where p: "\<forall>r. p r \<longrightarrow> owned jid (trim_space owner) r" "rows' = update_where p upd rows"
    using run_ok assms(1) by metis
  then show ?thesis using assms(2)
    by (auto intro!: outbox_ok_update simp: upd_id upd_ok owned_def)
qed

lemma owner_only:
  assumes "run owner jid rows = (Inr u, rows')" "distinct (map r_id rows)"
  shows "\<exists>r. tbl_get r_id rows jid = Some r \<and> owned jid (trim_space owner) r
    \<and> tbl_get r_id rows' jid = Some (upd r)"
proof -
  obtain p where p: "\<forall>r. p r \<longrightarrow> owned jid (trim_space owner) r" "rows_affected p rows = 1"
      "rows' = update_where p upd rows"
    using run_ok [OF assms(1)] by blast
  moreover have "\<And>r. p r \<Longrightarrow> r_id r = jid" using p(1) by (auto simp: owned_def)
  ultimately obtain r where "tbl_get r_id rows jid = Some r" "p r"
    using rows_affected_one [OF assms(2), of p jid] by auto
  with p show ?thesis by (auto simp: tbl_get_update upd_id)
qed

end

lemma job_transition_Inr:
  "job_transition owner jid ok f rows = (Inr u, rows') \<longleftrightarrow>
     trim_space owner \<noteq> [] \<and> pg_text (trim_space owner) \<and> ok
     \<and> rows_affected (owned jid (trim_space owner)) rows = 1
     \<and> rows' = update_where (owned jid (trim_space owner)) f rows"
  by (auto simp: job_transition_def Let_def act_simps)

lemma job_transition_Inl: "job_transition owner jid ok f rows = (Inl e, rows') \<Longrightarrow> rows' = rows"
  by (simp add: job_transition_def act_simps)

lemmas transition_simps = release_lease_def bury_def row_ok_def job_transition_Inr

interpretation complete: lease_transition "Complete now" "release_lease now StatusCompleted" for now
  by unfold_locales (auto simp: Complete_def transition_simps dest: job_transition_Inl)

interpretation retry: lease_transition "\<lambda>owner jid. Retry now owner jid code availableAt"
  "\<lambda>r. (release_lease now StatusPending r)\<lparr>r_last_error_code := Some (trim_space code),
     r_available_at := pg_timestamp availableAt\<rparr>" for now code availableAt
  by unfold_locales (auto simp: Retry_def transition_simps act_simps dest: job_transition_Inl split: if_splits)

interpretation dead: lease_transition "\<lambda>owner jid. DeadLetter now owner jid code"
  "bury now (trim_space code)" for now code
  by unfold_locales (auto simp: DeadLetter_def transition_simps dest: job_transition_Inl)

interpretation renew: lease_transition "\<lambda>owner jid. Renew now owner jid lease"
  "\<lambda>r. r\<lparr>r_lease_expires_at := Some (now + Milliseconds lease * millisecond), r_updated_at := now\<rparr>"
  for now lease
proof unfold_locales
  fix owner jid rows and u :: unit and rows'
  assume *: "Renew now owner jid lease rows = (Inr u, rows')"
  let ?p = "\<lambda>r. owned jid (trim_space owner) r
    \<and> (case r_lease_expires_at r of None \<Rightarrow> False | Some e \<Rightarrow> e > now)"
  from * have "trim_space owner \<noteq> []" "rows_affected ?p rows = 1"
    "rows' = update_where ?p (\<lambda>r. r\<lparr>r_lease_expires_at := Some (now + Milliseconds lease * millisecond),
       r_updated_at := now\<rparr>) rows"
    by (auto simp: Renew_def Let_def act_simps split: if_splits)
  then show "\<exists>p. (\<forall>r. p r \<longrightarrow> owned jid (trim_space owner) r) \<and> trim_space owner \<noteq> []
      \<and> rows_affected p rows = 1 \<and> rows' = update_where p (\<lambda>r. r\<lparr>r_lease_expires_at :=
          Some (now + Milliseconds lease * millisecond), r_updated_at := now\<rparr>) rows"
    by (intro exI [of _ ?p]) auto
qed (auto simp: Renew_def act_simps row_ok_def)


text \<open>The settlement of a dead letter on the table: nothing, or the row of the owner buried.\<close>

lemma SettleDeadLetter_Inr:
  assumes "SettleDeadLetter now owner jid code f (rows, d) = (Inr u, rows', d')"
  shows "\<exists>r. tbl_get r_id rows jid = Some r \<and> owned jid (trim_space owner) r
    \<and> rows_affected (owned jid (trim_space owner)) rows = 1
    \<and> trim_space owner \<noteq> []
    \<and> rows' = update_where (owned jid (trim_space owner)) (bury now (trim_space code)) rows
    \<and> (case f of None \<Rightarrow> d' = d | Some g \<Rightarrow> g d = (Inr (), d'))"
  using assms
  by (fastforce simp: SettleDeadLetter_def Let_def act_simps owned_def coalesce_text_def
      dest: tbl_get_key split: if_splits option.splits prod.splits sum.splits)

lemma SettleDeadLetter_Inl:
  "SettleDeadLetter now owner jid code f s = (Inl e, s') \<Longrightarrow> s' = s"
  by (auto simp: SettleDeadLetter_def Let_def act_simps split: if_splits)

text \<open>The settlement as a transition of the table alone.\<close>

definition settle_outbox :: "time \<Rightarrow> string \<Rightarrow> ('d, 'e job_error, unit) action option \<Rightarrow> 'd \<Rightarrow>
    string \<Rightarrow> uuid \<Rightarrow> (outbox, 'e job_error, unit) action" where
  "settle_outbox now code f d owner jid rows =
     (case SettleDeadLetter now owner jid code f (rows, d) of (r, rows', _) \<Rightarrow> (r, rows'))"

interpretation settled: lease_transition "settle_outbox now code f d" "bury now (trim_space code)"
  for now code f d
proof unfold_locales
  fix owner jid rows and u :: unit and rows'
  assume "settle_outbox now code f d owner jid rows = (Inr u, rows')"
  then obtain d' where "SettleDeadLetter now owner jid code f (rows, d) = (Inr u, rows', d')"
    by (auto simp: settle_outbox_def split: prod.splits)
  from SettleDeadLetter_Inr [OF this]
  show "\<exists>p. (\<forall>r. p r \<longrightarrow> owned jid (trim_space owner) r) \<and> trim_space owner \<noteq> []
      \<and> rows_affected p rows = 1 \<and> rows' = update_where p (bury now (trim_space code)) rows"
    by auto
qed (auto simp: settle_outbox_def transition_simps dest: SettleDeadLetter_Inl split: prod.splits)

section \<open>Leasing\<close>

lemma lease_row_simps [simp]:
  "r_id (lease_row now owner lease r) = r_id r"
  "r_status (lease_row now owner lease r) = StatusLeased"
  "r_lease_owner (lease_row now owner lease r) = Some owner"
  "r_lease_expires_at (lease_row now owner lease r) = Some (now + Milliseconds lease * millisecond)"
  "r_attempts (lease_row now owner lease r) = r_attempts r + 1"
  by (simp_all add: lease_row_def)

lemma Lease_Inr:
  "Lease now locked owner limit lease rows = (Inr js, rows') \<longleftrightarrow>
     trim_space owner \<noteq> [] \<and> 0 < limit \<and> limit \<le> 1000 \<and> 0 < lease \<and> lease \<le> 24 * hour_ns
     \<and> pg_text (trim_space owner)
     \<and> (\<forall>r \<in> set rows. r_id r \<in> r_id ` set (lease_candidates now locked (nat limit) rows)
          \<longrightarrow> r_attempts r < int4_max)
     \<and> js = map (\<lambda>r. scanJob (lease_row now (trim_space owner) lease r))
          (lease_candidates now locked (nat limit) rows)
     \<and> rows' = update_where (\<lambda>r. r_id r \<in> r_id ` set (lease_candidates now locked (nat limit) rows))
          (lease_row now (trim_space owner) lease) rows"
  by (auto simp: Lease_def Let_def act_simps list_ex_iff not_le)

lemma Lease_Inl: "Lease now locked owner limit lease rows = (Inl e, rows') \<Longrightarrow> rows' = rows"
  by (simp add: Lease_def act_simps)

lemma lease_candidates_set:
  "r \<in> set (lease_candidates now locked n rows) \<Longrightarrow>
     r \<in> set rows \<and> leaseable now r \<and> r_id r \<notin> locked"
  by (auto simp: lease_candidates_def dest!: in_set_takeD)

text \<open>With unique ids the rows a lease updates are the candidates themselves.\<close>

lemma lease_hit:
  assumes "distinct (map r_id rows)" "r \<in> set rows"
  shows "r_id r \<in> r_id ` set (lease_candidates now locked n rows) \<longleftrightarrow>
    r \<in> set (lease_candidates now locked n rows)"
  using assms by (auto simp: distinct_map inj_on_def dest: lease_candidates_set)

lemma Lease_frame:
  assumes "Lease now locked owner limit lease rows = (res, rows')" "distinct (map r_id rows)"
    and "tbl_get r_id rows x = Some r" "\<not> leaseable now r"
  shows "tbl_get r_id rows' x = Some r"
proof (cases res)
  case (Inl e)
  with assms Lease_Inl show ?thesis by metis
next
  case (Inr js)
  have "r_id r \<notin> r_id ` set (lease_candidates now locked (nat limit) rows)"
    using lease_hit [OF assms(2) conjunct1 [OF tbl_get_Some [OF assms(3)]]] assms(4)
    by (auto dest: lease_candidates_set)
  then show ?thesis using Inr assms by (auto simp: Lease_Inr tbl_get_update)
qed

lemma Lease_ok:
  assumes "Lease now locked owner limit lease rows = (res, rows')" "outbox_ok rows"
  shows "outbox_ok rows'"
proof (cases res)
  case (Inl e)
  with assms Lease_Inl show ?thesis by metis
next
  case (Inr js)
  note le = assms(1) [unfolded Inr]
  let ?hit = "\<lambda>r. r_id r \<in> r_id ` set (lease_candidates now locked (nat limit) rows)"
  have "row_ok (lease_row now (trim_space owner) lease r)" if "r \<in> set rows" "?hit r" for r
    using that assms(2) le by (auto simp: Lease_Inr outbox_ok_def list_all_iff row_ok_def)
  with assms(2) le show ?thesis
    by (auto simp: Lease_Inr outbox_ok_def list_all_iff update_where_set split: if_splits)
qed

text \<open>A lease returns the rows it wrote.\<close>

lemma Lease_returns:
  assumes "Lease now locked owner limit lease rows = (Inr js, rows')" "distinct (map r_id rows)"
    and "j \<in> set js"
  shows "\<exists>r. r \<in> set rows \<and> leaseable now r \<and> r_id r \<notin> locked
    \<and> j = scanJob (lease_row now (trim_space owner) lease r)
    \<and> tbl_get r_id rows' (j_ID j) = Some (lease_row now (trim_space owner) lease r)"
proof -
  obtain r where r: "r \<in> set (lease_candidates now locked (nat limit) rows)"
      "j = scanJob (lease_row now (trim_space owner) lease r)"
    using assms by (auto simp: Lease_Inr)
  then have "r \<in> set rows" "leaseable now r" "r_id r \<notin> locked" using lease_candidates_set by blast+
  moreover have "tbl_get r_id rows (r_id r) = Some r"
    using assms(2) \<open>r \<in> set rows\<close> by (rule tbl_get_unique)
  ultimately show ?thesis using r assms(1)
    by (auto simp: Lease_Inr tbl_get_update scanJob_def)
qed

section \<open>All operations of all processes\<close>

text \<open>One committed statement on the table, with its clock and the owner it runs for. What the
  domain does in a settlement only decides whether it succeeds (\<open>settle_outbox_unit\<close>), so the
  domain state is \<open>unit\<close> here.\<close>

inductive outbox_step :: "time \<Rightarrow> string option \<Rightarrow> outbox \<Rightarrow> outbox \<Rightarrow> bool" where
  step_enqueue: "Enqueue now job rows = (res :: unit job_error + unit, rows') \<Longrightarrow>
    outbox_step now None rows rows'"
| step_lease: "Lease now locked owner limit lease rows = (res :: unit job_error + Job list, rows') \<Longrightarrow>
    outbox_step now (Some (trim_space owner)) rows rows'"
| step_renew: "Renew now owner jid lease rows = (res :: unit job_error + unit, rows') \<Longrightarrow>
    outbox_step now (Some (trim_space owner)) rows rows'"
| step_complete: "Complete now owner jid rows = (res :: unit job_error + unit, rows') \<Longrightarrow>
    outbox_step now (Some (trim_space owner)) rows rows'"
| step_retry: "Jobs.Retry now owner jid code availableAt rows = (res :: unit job_error + unit, rows') \<Longrightarrow>
    outbox_step now (Some (trim_space owner)) rows rows'"
| step_dead: "DeadLetter now owner jid code rows = (res :: unit job_error + unit, rows') \<Longrightarrow>
    outbox_step now (Some (trim_space owner)) rows rows'"
| step_settle: "settle_outbox now code f () owner jid rows = (res :: unit job_error + unit, rows') \<Longrightarrow>
    outbox_step now (Some (trim_space owner)) rows rows'"

lemma settle_outbox_unit:
  "\<exists>g :: (unit, unit job_error, unit) action option.
     snd (settle_outbox now code f d owner jid rows) = snd (settle_outbox now code g () owner jid rows)"
proof -
  define g :: "(unit, unit job_error, unit) action option" where
    "g = map_option (\<lambda>h _. (case fst (h d) of Inl _ \<Rightarrow> Inl JobDatabase | Inr _ \<Rightarrow> Inr (), ())) f"
  have "snd (settle_outbox now code f d owner jid rows) = snd (settle_outbox now code g () owner jid rows)"
    by (cases f) (auto simp: g_def settle_outbox_def SettleDeadLetter_def Let_def act_fail_def
        within_tx_def split: option.splits sum.splits prod.splits if_splits)
  then show ?thesis by blast
qed

lemma Enqueue_frame:
  "Enqueue now job rows = (res, rows') \<Longrightarrow> tbl_get r_id rows x = Some r \<Longrightarrow> tbl_get r_id rows' x = Some r"
  by (cases res) (auto simp: Enqueue_def act_simps tbl_get_snoc split: if_splits)

lemma Enqueue_ok: "Enqueue now job rows = (res, rows') \<Longrightarrow> outbox_ok rows \<Longrightarrow> outbox_ok rows'"
  by (cases res) (force simp: Enqueue_def act_simps outbox_ok_def row_ok_def int4_max_def tbl_has_def
      list_ex_iff split: if_splits)+

lemma outbox_step_ok: "outbox_step now actor rows rows' \<Longrightarrow> outbox_ok rows \<Longrightarrow> outbox_ok rows'"
  by (induction rule: outbox_step.induct)
    (metis Enqueue_ok Lease_ok renew.keeps_ok complete.keeps_ok retry.keeps_ok dead.keeps_ok
      settled.keeps_ok)+

text \<open>A row that is not up for leasing and not leased by the actor survives the actor's step.\<close>

lemma outbox_step_frame:
  assumes "outbox_step now actor rows rows'" "outbox_ok rows" "tbl_get r_id rows x = Some r"
    and "\<not> leaseable now r" "r_status r = StatusLeased \<longrightarrow> r_lease_owner r \<noteq> actor"
  shows "tbl_get r_id rows' x = Some r"
  using assms
proof (induction rule: outbox_step.induct)
  case (step_enqueue now job rows res rows')
  then show ?case by (metis Enqueue_frame)
next
  case (step_lease now locked owner limit lease rows res rows')
  then show ?case using Lease_frame outbox_ok_def by blast
qed (auto simp: owned_def
    dest!: renew.frame complete.frame retry.frame dead.frame settled.frame)

text \<open>Sequences of steps of anybody, and of everybody but one owner before a given instant.\<close>

definition any_step :: "outbox \<Rightarrow> outbox \<Rightarrow> bool" where
  "any_step rows rows' \<longleftrightarrow> (\<exists>now actor. outbox_step now actor rows rows')"

definition others_before :: "string \<Rightarrow> time \<Rightarrow> outbox \<Rightarrow> outbox \<Rightarrow> bool" where
  "others_before owner t rows rows' \<longleftrightarrow>
     (\<exists>now actor. now < t \<and> actor \<noteq> Some owner \<and> outbox_step now actor rows rows')"

lemma any_steps_ok: "any_step\<^sup>*\<^sup>* rows rows' \<Longrightarrow> outbox_ok rows \<Longrightarrow> outbox_ok rows'"
  by (induction rule: rtranclp_induct) (auto simp: any_step_def dest: outbox_step_ok)

lemma others_before_keeps:
  assumes "(others_before owner t)\<^sup>*\<^sup>* rows rows'" "outbox_ok rows" "tbl_get r_id rows x = Some r"
    and "r_status r = StatusLeased" "r_lease_owner r = Some owner" "r_lease_expires_at r = Some t"
  shows "outbox_ok rows' \<and> tbl_get r_id rows' x = Some r"
  using assms
proof (induction rule: rtranclp_induct)
  case (step y z)
  then obtain now actor where "outbox_step now actor y z" "now < t" "actor \<noteq> Some owner"
    by (auto simp: others_before_def)
  moreover have "outbox_ok y" "tbl_get r_id y x = Some r" "\<not> leaseable now r"
    using step \<open>now < t\<close> by (auto simp: leaseable_def)
  ultimately show ?case
    using step.prems outbox_step_frame [of now actor y z x r] outbox_step_ok [of now actor y z] by auto
qed simp


lemma any_steps_terminal:
  assumes "any_step\<^sup>*\<^sup>* rows rows'" "outbox_ok rows" "tbl_get r_id rows x = Some r"
    and "r_status r = StatusCompleted \<or> r_status r = StatusDeadLetter"
  shows "tbl_get r_id rows' x = Some r"
  using assms
proof (induction rule: rtranclp_induct)
  case (step y z)
  then obtain now actor where "outbox_step now actor y z" by (auto simp: any_step_def)
  moreover have "outbox_ok y" using step any_steps_ok by blast
  ultimately show ?case
    using step outbox_step_frame [of now actor y z x r] by (auto simp: leaseable_def)
qed simp

section \<open>Error codes and settlement\<close>

lemma errorCodePattern_over: "over graphic errorCodePattern"
  by (auto simp: errorCodePattern_def plus_re_def chr_re_def graphic_class)
    (auto simp: graphic_def in_range_def byte_val_def)

lemma errorCodePattern_graphic: "matches errorCodePattern s \<Longrightarrow> list_all graphic s"
  by (rule matches_over [OF _ errorCodePattern_over])

lemma default_code: "matches errorCodePattern ''job_handler_failed''"
  by (simp add: errorCodePattern_def plus_re_def chr_re_def is_lower_def is_digit_def in_range_def
      byte_val_def)

lemma ErrorCode_valid:
  "matches errorCodePattern (ErrorCode (Some e)) \<and> length (ErrorCode (Some e)) \<le> 128"
  using default_code by (auto simp: ErrorCode_def split: option.splits)

lemma ErrorCode_simps [simp]:
  "trim_space (ErrorCode (Some e)) = ErrorCode (Some e)" "pg_text (ErrorCode (Some e))"
  using ErrorCode_valid [of e] errorCodePattern_graphic by auto

lemma owned_affected:
  assumes "distinct (map r_id rows)" "tbl_get r_id rows jid = Some r" "owned jid owner r"
  shows "rows_affected (owned jid owner) rows = 1"
  using assms rows_affected_one [OF assms(1), of "owned jid owner" jid] by (auto simp: owned_def)

lemma not_owned_affected:
  assumes "distinct (map r_id rows)" "tbl_get r_id rows jid = Some r" "\<not> owned jid owner r"
  shows "rows_affected (owned jid owner) rows \<noteq> 1"
  using assms rows_affected_one [OF assms(1), of "owned jid owner" jid] by (auto simp: owned_def)

lemma update_owned:
  assumes "distinct (map r_id rows)" "tbl_get r_id rows jid = Some r" "owned jid owner r"
    and "\<And>q. r_id (f q) = r_id q"
  shows "update_where (owned jid owner) f rows = tbl_put r_id (f r) rows"
proof -
  have "(if owned jid owner q then f q else q) = (if r_id q = r_id (f r) then f r else q)"
    if "q \<in> set rows" for q
  proof -
    have "r_id r = jid" using assms(2) by (rule tbl_get_key)
    moreover have "r_id q = jid \<Longrightarrow> q = r" using assms(2) tbl_get_unique [OF assms(1) that] by simp
    moreover have "owned jid owner q \<Longrightarrow> r_id q = jid" by (simp add: owned_def)
    ultimately show ?thesis using assms(3) by (auto simp: assms(4))
  qed
  then show ?thesis by (auto simp: update_where_def tbl_put_def)
qed

lemma release_lease_id [simp]: "r_id (release_lease now st r) = r_id r"
  by (simp add: release_lease_def)

lemma bury_id [simp]: "r_id (bury now code r) = r_id r"
  by (simp add: bury_def)

text \<open>What an operation of the owner of the lease returns, and one of anybody else.\<close>

lemma job_transition_owner:
  assumes "outbox_ok rows" "tbl_get r_id rows jid = Some r" "owned jid (trim_space owner) r"
    and "pg_text (trim_space owner)" "ok" "\<And>q. r_id (f q) = r_id q"
  shows "job_transition owner jid ok f rows = (Inr (), tbl_put r_id (f r) rows)"
proof -
  have "row_ok r" using assms(1,2) by (auto simp: outbox_ok_def list_all_iff dest: tbl_get_Some)
  then have "trim_space owner \<noteq> []" using assms(3) by (auto simp: row_ok_def owned_def)
  then show ?thesis
    using assms owned_affected [of rows jid r "trim_space owner"]
    by (simp add: job_transition_Inr outbox_ok_def update_owned)
qed

lemma job_transition_stranger:
  assumes "outbox_ok rows" "tbl_get r_id rows jid = Some r" "\<not> owned jid (trim_space owner) r"
  shows "\<exists>e. job_transition owner jid ok f rows = (Inl e, rows)"
  using not_owned_affected [of rows jid r "trim_space owner"] assms
  by (auto simp: job_transition_def act_write_def Let_def outbox_ok_def)

lemma SettleDeadLetter_owner:
  assumes "outbox_ok rows" "tbl_get r_id rows jid = Some r" "owned jid (trim_space owner) r"
    and "pg_text (trim_space owner)" "jid \<noteq> uuid_Nil"
    and "matches errorCodePattern (trim_space code)" "length (trim_space code) \<le> 128"
  shows "SettleDeadLetter now owner jid code (Some f) (rows, d) = (case f d of
       (Inl e, _) \<Rightarrow> (Inl e, rows, d)
     | (Inr _, d') \<Rightarrow> (Inr (), tbl_put r_id (bury now (trim_space code) r) rows, d'))"
proof -
  have "row_ok r" using assms(1,2) by (auto simp: outbox_ok_def list_all_iff dest: tbl_get_Some)
  then have "trim_space owner \<noteq> []" using assms(3) by (auto simp: row_ok_def owned_def)
  then show ?thesis
    using assms owned_affected [of rows jid r "trim_space owner"]
      update_owned [of rows jid r "trim_space owner" "bury now (trim_space code)"]
    by (auto simp: SettleDeadLetter_def within_tx_def outbox_ok_def owned_def coalesce_text_def Let_def
        split: sum.splits prod.splits)
qed

lemma SettleDeadLetter_stranger:
  assumes "outbox_ok rows" "tbl_get r_id rows jid = Some r" "\<not> owned jid (trim_space owner) r"
  shows "\<exists>e. SettleDeadLetter now owner jid code f (rows, d) = (Inl e, rows, d)"
proof -
  obtain a b where Pair: "SettleDeadLetter now owner jid code f (rows, d) = (a, b)" by (rule prod.exhaust)
  show ?thesis
  proof (cases a)
    case (Inl e)
    with Pair SettleDeadLetter_Inl show ?thesis by blast
  next
    case (Inr u)
    then have "owned jid (trim_space owner) r"
      using Pair SettleDeadLetter_Inr [of now owner jid code f rows d u "fst b" "snd b"] assms(2) by auto
    with assms(3) show ?thesis ..
  qed
qed

text \<open>What a worker that \<open>NewWorker\<close> accepted satisfies.\<close>

lemma NewWorker_Inr:
  assumes "NewWorker config = Inr w"
  shows "trim_space (w_owner w) = w_owner w"
    and "kind \<in> set (w_required w) \<Longrightarrow> w_transactional w"
    and "kind \<in> set (w_required w) \<Longrightarrow>
      \<exists>dl. w_deadLetters w = Some dl \<and> resolvesTransactionalDeadLetter dl kind"
    and "0 < w_renewInterval w \<and> w_renewInterval w < w_leaseDuration w"
proof -
  let ?req = "map trim_space (wc_RequiredKinds config)"
  have w: "w_owner w = trim_space (wc_Owner config)" "w_required w = ?req"
      "w_transactional w = wc_transactional config" "w_deadLetters w = wc_DeadLetters config"
      "?req = [] \<or> wc_transactional config" "0 < w_renewInterval w \<and> w_renewInterval w < w_leaseDuration w"
      "\<not> list_ex (\<lambda>kind. case wc_DeadLetters config of None \<Rightarrow> True
               | Some dl \<Rightarrow> \<not> resolvesTransactionalDeadLetter dl kind) ?req"
    using assms by (simp_all add: NewWorker_def Let_def split: if_splits) fastforce+
  show "trim_space (w_owner w) = w_owner w" by (simp add: w(1))
  show "0 < w_renewInterval w \<and> w_renewInterval w < w_leaseDuration w" by (rule w(6))
  show "kind \<in> set (w_required w) \<Longrightarrow> w_transactional w" using w(2,3,5) by auto
  show "kind \<in> set (w_required w) \<Longrightarrow>
      \<exists>dl. w_deadLetters w = Some dl \<and> resolvesTransactionalDeadLetter dl kind"
    using w(7) unfolding w(2,4) list_ex_iff by (auto split: option.splits)
qed

lemma transition_resolves:
  "w_deadLetters w = Some dl \<Longrightarrow> resolvesTransactionalDeadLetter dl (j_Kind job) \<Longrightarrow>
     \<exists>f. transactionalDeadLetterTransition w job code = Some f"
  by (auto simp: transactionalDeadLetterTransition_def resolvesTransactionalDeadLetter_def
      split: option.splits)

section \<open>Samples\<close>

definition sample_row :: job_row where
  "sample_row = \<lparr>r_id = 7, r_kind = ''catalog.publish.v1'', r_aggregate_id = 3, r_payload = ''{}'',
     r_status = StatusPending, r_attempts = 0, r_available_at = 1000, r_lease_owner = None,
     r_lease_expires_at = None, r_last_error_code = None, r_created_at = 1000, r_updated_at = 1000\<rparr>"

definition sample_leased :: "int \<Rightarrow> job_row" where
  "sample_leased n = (lease_row 2000 ''w1'' (30 * second_ns) sample_row)\<lparr>r_attempts := n\<rparr>"

definition sample_handler :: "(nat, nat) DeadLetterHandler" where
  "sample_handler = \<lparr>HandleDeadLetter = (\<lambda>job code d. (Inr (), d + 1)),
     HandleDeadLetterTx = Some (\<lambda>job code d. (Inr (), d + 1)), ResolveTransactionalDeadLetter = None\<rparr>"

definition sample_config :: "(nat, nat, unit) WorkerConfig" where
  "sample_config = \<lparr>wc_Owner = ''w1'', wc_Repository = True, wc_transactional = True,
     wc_Handlers = Some (NewHandlerRegistry [(''catalog.publish.v1'', Some ())]),
     wc_DeadLetters = Some sample_handler, wc_RequiredKinds = [''catalog.publish.v1''],
     wc_BatchSize = 0, wc_LeaseDuration = 0, wc_RenewInterval = 0\<rparr>"

definition sample_worker :: "(nat, nat, unit) Worker" where
  "sample_worker = \<lparr>w_owner = ''w1'', w_transactional = True,
     w_handlers = Some (NewHandlerRegistry [(''catalog.publish.v1'', Some ())]),
     w_deadLetters = Some sample_handler, w_required = [''catalog.publish.v1''],
     w_batchSize = 10, w_leaseDuration = 30 * second_ns, w_renewInterval = 10 * second_ns\<rparr>"

lemma sample_graphic [simp]:
  "list_all graphic ''w1''" "list_all graphic ''w2''" "list_all graphic ''catalog.publish.v1''"
  by (simp_all add: graphic_def in_range_def byte_val_def)

lemmas sample_trim [simp] =
  sample_graphic [THEN trim_space_graphic] sample_graphic [THEN pg_text_graphic]

lemma sample_trim_Cons [simp]:
  "trim_space (CHR ''w'' # CHR ''1'' # []) = ''w1''" "trim_space (CHR ''w'' # CHR ''2'' # []) = ''w2''"
  by (rule sample_trim)+

lemma sample_NewWorker: "NewWorker sample_config = Inr sample_worker"
  by (simp add: NewWorker_def sample_config_def sample_worker_def sample_handler_def Let_def
      defaultBatchSize_def defaultLeaseDuration_def defaultRenewInterval_def second_ns_def
      resolvesTransactionalDeadLetter_def)

lemma sample_ok [simp]: "outbox_ok [sample_row]" "0 \<le> n \<Longrightarrow> n \<le> 10 \<Longrightarrow> outbox_ok [sample_leased n]"
  by (simp_all add: outbox_ok_def row_ok_def sample_row_def sample_leased_def int4_max_def)

lemmas lease_eval = Lease_def Let_def act_write_def lease_candidates_def leaseable_def
  sample_row_def sample_leased_def second_ns_def hour_ns_def int4_max_def Milliseconds_def
  millisecond_def lease_row_def update_where_def scanJob_def coalesce_text_def

lemma sample_lease:
  "Lease 2000 {} ''w1'' 10 (30 * second_ns) [sample_row] =
     (Inr [scanJob (sample_leased 1)] :: unit job_error + Job list, [sample_leased 1])"
  by (simp add: lease_eval)

lemma sample_lease_again:
  "Lease 3000 {} ''w2'' 10 (30 * second_ns) [sample_leased 1] =
     (Inr [] :: unit job_error + Job list, [sample_leased 1])"
  by (simp add: lease_eval)

section \<open>Properties\<close>

text \<open>C22. Lease exclusion. From the moment \<open>Lease\<close> hands out a job until the lease expires, no
  sequence of operations of other owners, of any kind, changes the row: it is the job that was
  handed out, still leased by its owner. And no other \<open>Lease\<close> before the expiry, by anyone, hands
  the job out a second time.\<close>

theorem lease_exclusive:
  assumes "Lease now locked owner limit lease rows = (Inr js, rows1)" "outbox_ok rows" "j \<in> set js"
    and "(others_before (trim_space owner) (now + Milliseconds lease * millisecond))\<^sup>*\<^sup>* rows1 rows2"
    and "Lease now' locked' owner' limit' lease' rows2 = (Inr js', rows3)"
    and "now' < now + Milliseconds lease * millisecond"
  shows "(\<exists>r. tbl_get r_id rows2 (j_ID j) = Some r \<and> scanJob r = j \<and> owned (j_ID j) (trim_space owner) r)
    \<and> j_ID j \<notin> j_ID ` set js'"
proof -
  obtain r where r: "j = scanJob (lease_row now (trim_space owner) lease r)"
      "tbl_get r_id rows1 (j_ID j) = Some (lease_row now (trim_space owner) lease r)"
    using Lease_returns [OF assms(1) _ assms(3)] assms(2) by (auto simp: outbox_ok_def)
  let ?r = "lease_row now (trim_space owner) lease r"
  have rows2: "outbox_ok rows2" "tbl_get r_id rows2 (j_ID j) = Some ?r"
    using others_before_keeps [OF assms(4) Lease_ok [OF assms(1,2)] r(2)] by auto
  have "j_ID j \<notin> j_ID ` set js'"
  proof
    assume "j_ID j \<in> j_ID ` set js'"
    then obtain q where "q \<in> set rows2" "leaseable now' q" "r_id q = j_ID j"
      using Lease_returns [OF assms(5)] rows2(1) by (fastforce simp: outbox_ok_def scanJob_def)
    moreover have "q = ?r"
      using rows2 tbl_get_unique [of r_id rows2 q] calculation by (auto simp: outbox_ok_def)
    ultimately show False using assms(6) by (simp add: leaseable_def)
  qed
  then show ?thesis using rows2 r(1) by (auto simp: owned_def scanJob_def)
qed

theorem lease_exclusive_witness:
  "(\<exists>r. tbl_get r_id [sample_leased 1] 7 = Some r \<and> scanJob r = scanJob (sample_leased 1) \<and> owned 7 ''w1'' r)"
  using lease_exclusive [OF sample_lease sample_ok(1) _ rtranclp.rtrancl_refl sample_lease_again]
  by (simp add: lease_eval owned_def tbl_get_def)

text \<open>C23. Finality. A job that is completed or a dead letter stays exactly as it is through every
  sequence of operations of every process.\<close>

theorem terminal_jobs_final:
  assumes "any_step\<^sup>*\<^sup>* rows rows'" "outbox_ok rows" "tbl_get r_id rows x = Some r"
    and "r_status r = StatusCompleted \<or> r_status r = StatusDeadLetter"
  shows "tbl_get r_id rows' x = Some r \<and> outbox_ok rows'"
  using any_steps_terminal [OF assms] any_steps_ok [OF assms(1,2)] by simp

theorem terminal_jobs_final_witness:
  "tbl_get r_id [sample_row\<lparr>r_status := StatusCompleted\<rparr>] 7 = Some (sample_row\<lparr>r_status := StatusCompleted\<rparr>)"
  using terminal_jobs_final [OF rtranclp.rtrancl_refl, of "[sample_row\<lparr>r_status := StatusCompleted\<rparr>]" 7
      "sample_row\<lparr>r_status := StatusCompleted\<rparr>"]
  by (simp add: tbl_get_def outbox_ok_def row_ok_def sample_row_def int4_max_def)

text \<open>Lease order. \<open>Lease\<close> hands out at most \<open>limit\<close> jobs, each due (pending and available, or leased
  and expired) and not locked elsewhere; and when it passes over a job that is due and not locked,
  it has handed out \<open>limit\<close> jobs, all of them at least as early by availability and creation.\<close>

theorem lease_order:
  assumes "Lease now locked owner limit lease rows = (Inr js, rows')" "outbox_ok rows"
  shows "length js \<le> nat limit
    \<and> (\<forall>j \<in> set js. \<exists>r \<in> set rows. r_id r = j_ID j \<and> leaseable now r \<and> r_id r \<notin> locked
         \<and> j_Attempts j = r_attempts r + 1)
    \<and> (\<forall>r \<in> set rows. leaseable now r \<and> r_id r \<notin> locked \<and> r_id r \<notin> j_ID ` set js \<longrightarrow>
         length js = nat limit \<and> (\<forall>j \<in> set js. (j_AvailableAt j, j_CreatedAt j) \<le> (r_available_at r, r_created_at r)))"
proof (intro conjI ballI impI)
  let ?c = "lease_candidates now locked (nat limit) rows"
  let ?due = "filter (\<lambda>r. r_id r \<notin> locked)
    (sort_key (\<lambda>r. (r_available_at r, r_created_at r)) (filter (leaseable now) rows))"
  have c: "?c = take (nat limit) ?due" by (simp add: lease_candidates_def)
  have js: "js = map (\<lambda>r. scanJob (lease_row now (trim_space owner) lease r)) ?c"
    using assms(1) by (simp add: Lease_Inr)
  show "length js \<le> nat limit" by (simp add: js c)
  show "\<exists>r \<in> set rows. r_id r = j_ID j \<and> leaseable now r \<and> r_id r \<notin> locked \<and> j_Attempts j = r_attempts r + 1"
    if "j \<in> set js" for j
    using that lease_candidates_set by (fastforce simp: js scanJob_def)
  fix r
  assume r: "r \<in> set rows" "leaseable now r \<and> r_id r \<notin> locked \<and> r_id r \<notin> j_ID ` set js"
  then have "r \<in> set ?due" "r \<notin> set ?c" by (auto simp: js scanJob_def image_iff)
  then have d: "r \<in> set (drop (nat limit) ?due)"
    unfolding c by (rule in_drop)
  then show "length js = nat limit" by (cases "nat limit \<le> length ?due") (auto simp: js c)
  fix j
  assume "j \<in> set js"
  then obtain q where q: "q \<in> set ?c" "j = scanJob (lease_row now (trim_space owner) lease q)"
    by (auto simp: js)
  have "sorted (map (\<lambda>r. (r_available_at r, r_created_at r)) ?due)"
    by (rule sorted_filter [OF sorted_sort_key])
  then have "(r_available_at q, r_created_at q) \<le> (r_available_at r, r_created_at r)"
    using q(1) d unfolding c by (rule sorted_split)
  then show "(j_AvailableAt j, j_CreatedAt j) \<le> (r_available_at r, r_created_at r)"
    by (simp add: q(2) scanJob_def lease_row_def)
qed

theorem lease_order_witness: "length [scanJob (sample_leased 1)] \<le> nat 10"
  using lease_order [OF sample_lease] by simp

text \<open>C30. Back-off. When a handler fails before the fifth attempt and the worker still owns the lease,
  settling puts exactly that job back to pending, with the failure's code, available after 5 s,
  30 s, 2 min or 10 min of the worker's clock for attempts 1 to 4. The fifth delay of
  \<open>retryDelays\<close> is never used.\<close>

theorem settle_retry_schedule:
  fixes w :: "('d, 'e, 'h) Worker"
  assumes "outbox_ok rows" "tbl_get r_id rows (r_id r) = Some r" "owned (r_id r) (w_owner w) r"
    and "w_owner w = trim_space (w_owner w)" "pg_text (w_owner w)"
    and "1 \<le> r_attempts r" "r_attempts r < maximumJobAttempts"
    and "delay = [5, 30, 120, 600] ! nat (r_attempts r - 1) * second_ns" "clock + delay \<noteq> 0"
  shows "settle w now clock (scanJob r) (Some err) (rows, d) =
    (Inr (), tbl_put r_id (r\<lparr>r_status := StatusPending, r_lease_owner := None,
        r_lease_expires_at := None, r_updated_at := now, r_last_error_code := Some (ErrorCode (Some err)),
        r_available_at := pg_timestamp (clock + delay)\<rparr>) rows, d)"
proof -
  have "r_attempts r \<in> {1, 2, 3, 4}" using assms(6,7) by (auto simp: maximumJobAttempts_def)
  then have i: "retryDelays ! delay_index (r_attempts r) = delay"
    using assms(8) by (auto simp: delay_index_def retryDelays_def)
  let ?f = "\<lambda>r. (release_lease now StatusPending r)\<lparr>r_last_error_code := Some (ErrorCode (Some err)),
     r_available_at := pg_timestamp (clock + delay)\<rparr>"
  have "job_transition (w_owner w) (r_id r) True ?f rows =
      (Inr () :: 'e job_error + unit, tbl_put r_id (?f r) rows)"
    using assms by (intro job_transition_owner) simp_all
  then show ?thesis
    using assms(7,9) by (simp add: settle_def Let_def on_outbox_def Retry_def scanJob_def i release_lease_def)
qed

theorem settle_retry_schedule_witness:
  "settle sample_worker 9000 50000 (scanJob (sample_leased 2)) (Some (ErrorString ''boom'')) ([sample_leased 2], 0) =
    (Inr (), tbl_put r_id ((sample_leased 2)\<lparr>r_status := StatusPending, r_lease_owner := None,
        r_lease_expires_at := None, r_updated_at := 9000, r_last_error_code := Some ''job_handler_failed'',
        r_available_at := 30000050000\<rparr>) [sample_leased 2], 0)"
  using settle_retry_schedule [of "[sample_leased 2]" "sample_leased 2" sample_worker _ 50000 9000
      "ErrorString ''boom''" 0, OF _ _ _ _ _ _ _ refl]
  by (simp add: sample_worker_def sample_leased_def sample_row_def lease_row_def owned_def tbl_get_def
      maximumJobAttempts_def outbox_ok_def row_ok_def int4_max_def second_ns_def ErrorCode_def
      pg_timestamp_def truncate_time_def microsecond_def)

text \<open>C31. Atomic dead letters. For a kind that requires a transactional dead letter, a worker that
  \<open>NewWorker\<close> accepted and that owns the lease either buries the job and applies the domain
  transition, both, or reports the domain's error and changes neither.\<close>

theorem dead_letter_atomic:
  assumes "NewWorker config = (Inr w :: 'x job_error + _)" "outbox_ok rows"
    and "tbl_get r_id rows (r_id r) = Some r" "owned (r_id r) (w_owner w) r" "r_id r \<noteq> uuid_Nil"
    and "pg_text (w_owner w)" "r_kind r \<in> set (w_required w)" "r_attempts r \<ge> maximumJobAttempts"
  shows "\<exists>f. transactionalDeadLetterTransition w (scanJob r) (ErrorCode (Some err)) = Some f
    \<and> settle w now clock (scanJob r) (Some err) (rows, d) = (case f d of
        (Inl e, _) \<Rightarrow> (Inl e, rows, d)
      | (Inr _, d') \<Rightarrow> (Inr (), tbl_put r_id (bury now (ErrorCode (Some err)) r) rows, d'))"
proof -
  note w = NewWorker_Inr [OF assms(1)]
  obtain f where f: "transactionalDeadLetterTransition w (scanJob r) (ErrorCode (Some err)) = Some f"
    using w(3) [OF assms(7)] transition_resolves [of w _ "scanJob r"] by (auto simp: scanJob_def)
  have "SettleDeadLetter now (w_owner w) (r_id r) (ErrorCode (Some err)) (Some f) (rows, d) = (case f d of
       (Inl e, _) \<Rightarrow> (Inl e, rows, d)
     | (Inr _, d') \<Rightarrow> (Inr (), tbl_put r_id (bury now (ErrorCode (Some err)) r) rows, d'))"
    using SettleDeadLetter_owner [where owner = "w_owner w" and code = "ErrorCode (Some err)",
        OF assms(2,3), of now f d, unfolded ErrorCode_simps(1)] assms(4-6) w(1) ErrorCode_valid [of err] by simp
  then have "settle w now clock (scanJob r) (Some err) (rows, d) = (case f d of
        (Inl e, _) \<Rightarrow> (Inl e, rows, d)
      | (Inr _, d') \<Rightarrow> (Inr (), tbl_put r_id (bury now (ErrorCode (Some err)) r) rows, d'))"
    using assms(7,8) w(2) [OF assms(7)] f by (simp add: settle_def Let_def scanJob_def)
  with f show ?thesis by blast
qed

theorem dead_letter_atomic_witness:
  "\<exists>f. transactionalDeadLetterTransition sample_worker (scanJob (sample_leased 5))
        (ErrorCode (Some (ErrorString ''boom''))) = Some f
    \<and> settle sample_worker 9000 50000 (scanJob (sample_leased 5)) (Some (ErrorString ''boom'')) ([sample_leased 5], 0)
      = (case f 0 of (Inl e, _) \<Rightarrow> (Inl e, [sample_leased 5], 0)
         | (Inr _, d') \<Rightarrow> (Inr (), tbl_put r_id (bury 9000 (ErrorCode (Some (ErrorString ''boom'')))
               (sample_leased 5)) [sample_leased 5], d'))"
  by (rule dead_letter_atomic [where config = sample_config, OF sample_NewWorker])
    (simp_all add: sample_worker_def sample_leased_def sample_row_def lease_row_def owned_def tbl_get_def
      maximumJobAttempts_def outbox_ok_def row_ok_def int4_max_def)

text \<open>A stale worker settles nothing. When the row of its job is not leased by the worker any
  more (expired and leased by another owner, completed, pending or dead), settling fails whatever
  the handler returned, and changes no row of the table.\<close>

theorem stale_worker_cannot_settle:
  fixes w :: "('d, 'e, 'h) Worker"
  assumes "outbox_ok rows" "tbl_get r_id rows (j_ID job) = Some r"
    and "\<not> owned (j_ID job) (trim_space (w_owner w)) r"
  shows "\<exists>e d'. settle w now clock job err (rows, d) = (Inl e, rows, d')"
proof -
  have outbox: "\<exists>e d'. on_outbox m (rows, d1) = (Inl e, rows, d')"
    if "\<exists>e. m rows = (Inl e :: 'e job_error + unit, rows)" for m and d1 :: 'd
    using that by (auto simp: on_outbox_def)
  note stranger = job_transition_stranger [OF assms]
  have complete: "\<exists>e. Complete now (w_owner w) (j_ID job) rows = (Inl e :: 'e job_error + unit, rows)"
    and dead: "\<exists>e. DeadLetter now (w_owner w) (j_ID job) c rows = (Inl e :: 'e job_error + unit, rows)"
    and retry: "\<exists>e. Retry now (w_owner w) (j_ID job) c t rows = (Inl e :: 'e job_error + unit, rows)" for c t
    using stranger by (auto simp: Complete_def DeadLetter_def Retry_def act_fail_def)
  let ?first = "\<lambda>c. case w_deadLetters w of None \<Rightarrow> act_return ()
      | Some dl \<Rightarrow> on_domain (HandleDeadLetter dl job c)"
  have first: "\<exists>r d1. ?first c (rows, d) = (r, rows, d1)" for c
    by (auto simp: act_return_def on_domain_def split: option.splits prod.splits)
  have chain: "\<exists>e d'. act_bind (?first c)
      (\<lambda>_. on_outbox (DeadLetter now (w_owner w) (j_ID job) c)) (rows, d) = (Inl e, rows, d')" for c
  proof -
    obtain r d1 where r: "?first c (rows, d) = (r, rows, d1)" using first by blast
    show ?thesis
      using outbox [of "DeadLetter now (w_owner w) (j_ID job) c" d1, OF dead]
      by (cases r) (auto simp: act_bind_def r)
  qed
  have "\<exists>e d'. (case transactionalDeadLetterTransition w job c of None \<Rightarrow> act_fail ErrWorkerConfiguration
      | Some f \<Rightarrow> SettleDeadLetter now (w_owner w) (j_ID job) c (Some f)) (rows, d) = (Inl e, rows, d')" for c
  proof (cases "transactionalDeadLetterTransition w job c")
    case (Some f)
    then show ?thesis using SettleDeadLetter_stranger [OF assms, of now c "Some f" d] by auto
  qed (simp add: act_fail_def)
  then show ?thesis
    using outbox [of "Complete now (w_owner w) (j_ID job)", OF complete]
      outbox [of "Retry now (w_owner w) (j_ID job) c t" for c t, OF retry] chain
    by (auto simp: settle_def Let_def act_fail_def)
qed

theorem stale_worker_cannot_settle_witness:
  "\<exists>e d'. settle sample_worker 9000 50000 (scanJob (sample_leased 1)) None
     ([(sample_leased 2)\<lparr>r_lease_owner := Some ''w2''\<rparr>], 0) =
     (Inl e, [(sample_leased 2)\<lparr>r_lease_owner := Some ''w2''\<rparr>], d')"
  by (rule stale_worker_cannot_settle [where r = "(sample_leased 2)\<lparr>r_lease_owner := Some ''w2''\<rparr>"])
    (simp_all add: sample_leased_def sample_row_def outbox_ok_def row_ok_def int4_max_def
      tbl_get_def scanJob_def owned_def sample_worker_def lease_row_def)

end
