(* ===== verification/AuditLog.thy ===== *)
theory AuditLog
  imports Identity Jobs GoStd
begin

text \<open>
  The audit log of \<open>internal/audit\<close>: recording an event with validation and redaction
  (\<open>service.go\<close>), the per-product hash chain and the export requests (\<open>postgres_repository.go\<close>,
  migration 000002), queries and downloads.

  \<open>github.com/google/uuid\<close> is the parameter \<open>uuid_lib\<close>; what PostgreSQL prints for a stored INET and
  JSONB value is the parameter \<open>pg_lib\<close>. A call carries the instant its clock returns and the
  identifiers \<open>uuid.NewV7\<close> returns (\<open>None\<close> is an error).
\<close>

section \<open>Parameters\<close>

record uuid_lib =
  u_string :: "uuid \<Rightarrow> string"
  u_parse :: "string \<Rightarrow> uuid option"

record pg_lib =
  pg_inet_host :: "string \<Rightarrow> string"
  pg_jsonb_text :: "bytes \<Rightarrow> bytes"

section \<open>Metadata\<close>

text \<open>The dynamic values a \<open>map[string]any\<close> carries. Only the last two are not looked into by the
  redaction.\<close>

datatype any_value =
    AnyNull
  | AnyBool bool
  | AnyInt int
  | AnyString string
  | AnyMap "(string \<times> any_value) list"
  | AnyList "any_value list"
  | AnyStrings "string list"
  | AnyStringMap "(string \<times> string) list"

type_synonym metadata = "(string \<times> any_value) list"

definition marshal_pairs :: "(string \<times> bytes) list \<Rightarrow> bytes" where
  "marshal_pairs kvs =
     ''{'' @ join_comma (map (\<lambda>kv. marshal_string (fst kv) @ '':'' @ snd kv) (sort_key fst kvs)) @ ''}''"

fun marshal_any :: "any_value \<Rightarrow> bytes" where
  "marshal_any AnyNull = ''null''"
| "marshal_any (AnyBool b) = (if b then ''true'' else ''false'')"
| "marshal_any (AnyInt i) = dec_int i"
| "marshal_any (AnyString s) = marshal_string s"
| "marshal_any (AnyMap ms) = marshal_pairs (map (\<lambda>m. (fst m, marshal_any (snd m))) ms)"
| "marshal_any (AnyList xs) = ''['' @ join_comma (map marshal_any xs) @ '']''"
| "marshal_any (AnyStrings ss) = marshal_string_list ss"
| "marshal_any (AnyStringMap kvs) = marshal_string_map kvs"

definition sensitive_markers :: "string list" where
  "sensitive_markers = [''authorization'', ''cookie'', ''password'', ''secret'', ''token'',
     ''private_key'', ''license_key'']"

definition sensitiveKey :: "string \<Rightarrow> bool" where
  "sensitiveKey key =
     (let normalized = map (\<lambda>c. if c = CHR ''-'' \<or> c = CHR '' '' then CHR ''_'' else c)
            (to_lower (trim_space key))
      in list_ex (contains_sub normalized) sensitive_markers)"

fun redactValue :: "any_value \<Rightarrow> any_value" where
  "redactValue (AnyMap ms) = AnyMap (map (\<lambda>m. (fst m,
     if sensitiveKey (fst m) then AnyString ''[REDACTED]'' else redactValue (snd m))) ms)"
| "redactValue (AnyList xs) = AnyList (map redactValue xs)"
| "redactValue v = v"

definition redactMap :: "metadata \<Rightarrow> metadata" where
  "redactMap source = map (\<lambda>m. (fst m,
     if sensitiveKey (fst m) then AnyString ''[REDACTED]'' else redactValue (snd m))) source"

section \<open>Events\<close>

datatype audit_error =
    ErrRepositoryRequired | ErrActionInvalid | ErrResourceTypeInvalid | ErrResourceIDInvalid
  | ErrOutcomeInvalid | ErrRequestIDInvalid | ErrSourceIPInvalid | ErrMetadataTooLarge
  | ErrExportJobsRequired | ErrExportNotFound | ErrExportFilterInvalid | ErrExportNotReady
  | ErrExportExpired | ErrQueryFilterInvalid
  | ChainChanged | AuditUUIDUnavailable | AuditDatabase
  | AuditIdentity identity_error
  | AuditJobs "unit job_error"

abbreviation OutcomeSuccess :: string where "OutcomeSuccess \<equiv> ''success''"
abbreviation OutcomeDenied :: string where "OutcomeDenied \<equiv> ''denied''"
abbreviation OutcomeFailed :: string where "OutcomeFailed \<equiv> ''failed''"

definition zeroHash :: string where
  "zeroHash = replicate 64 (CHR ''0'')"

record Event =
  ev_ID :: uuid
  ev_OccurredAt :: time
  ev_ProductID :: string
  ev_ActorSubject :: string
  ev_ActorKind :: string
  ev_ActorProvider :: string
  ev_ActorRoles :: "string list"
  ev_ActorProductIDs :: "string list"
  ev_TokenID :: string
  ev_Action :: string
  ev_ResourceType :: string
  ev_ResourceID :: string
  ev_Outcome :: string
  ev_RequestID :: uuid
  ev_SourceIP :: string
  ev_Metadata :: bytes
  ev_PreviousHash :: string
  ev_EventHash :: string

record AppendCommand =
  ac_Actor :: Principal
  ac_Action :: string
  ac_ProductID :: string
  ac_ResourceType :: string
  ac_ResourceID :: string
  ac_Outcome :: string
  ac_RequestID :: string
  ac_SourceIP :: string
  ac_Metadata :: metadata

datatype ExportStatus = ExportStatusPending | ExportStatusCompleted | ExportStatusFailed

record Export =
  ex_ID :: uuid
  ex_ProductID :: string
  ex_RequestedBy :: string
  ex_RequestID :: uuid
  ex_Filter :: bytes
  ex_Status :: ExportStatus
  ex_ObjectKey :: string
  ex_SHA256 :: string
  ex_SizeBytes :: int
  ex_ExpiresAt :: time
  ex_ErrorCode :: string
  ex_CreatedAt :: time
  ex_UpdatedAt :: time

record audit_db =
  au_heads :: "(string \<times> string) list"
  au_events :: "Event list"
  au_exports :: "Export list"

section \<open>The hash chain\<close>

definition json_field :: "string \<Rightarrow> bytes \<Rightarrow> bytes" where
  "json_field name v = marshal_string name @ '':'' @ v"

definition event_fields :: "uuid_lib \<Rightarrow> Event \<Rightarrow> bytes" where
  "event_fields u e = join_comma [
     json_field ''id'' (marshal_string (u_string u (ev_ID e))),
     json_field ''occurred_at'' (marshal_string (format_time (ev_OccurredAt e))),
     json_field ''product_id'' (marshal_string (ev_ProductID e)),
     json_field ''actor_subject'' (marshal_string (ev_ActorSubject e)),
     json_field ''actor_kind'' (marshal_string (ev_ActorKind e)),
     json_field ''actor_provider'' (marshal_string (ev_ActorProvider e)),
     json_field ''actor_roles'' (marshal_string_list (ev_ActorRoles e)),
     json_field ''actor_product_ids'' (marshal_string_list (ev_ActorProductIDs e)),
     json_field ''token_id'' (marshal_string (ev_TokenID e)),
     json_field ''action'' (marshal_string (ev_Action e)),
     json_field ''resource_type'' (marshal_string (ev_ResourceType e)),
     json_field ''resource_id'' (marshal_string (ev_ResourceID e)),
     json_field ''outcome'' (marshal_string (ev_Outcome e)),
     json_field ''request_id'' (marshal_string (u_string u (ev_RequestID e))),
     json_field ''source_ip'' (marshal_string (ev_SourceIP e)),
     json_field ''metadata'' (ev_Metadata e)]"

text \<open>\<open>json.Marshal(canonical)\<close>, whose last field is the previous hash.\<close>

definition event_payload :: "uuid_lib \<Rightarrow> Event \<Rightarrow> bytes" where
  "event_payload u e = ''{'' @ event_fields u e @ '',''
     @ json_field ''previous_hash'' (marshal_string (trim_space (ev_PreviousHash e))) @ ''}''"

definition calculateEventHash :: "uuid_lib \<Rightarrow> Event \<Rightarrow> string" where
  "calculateEventHash u e = sha256_hex (event_payload u e)"

definition partition_key :: "string \<Rightarrow> string" where
  "partition_key productID = (if productID = [] then ''global'' else ''product:'' @ productID)"

definition hash_format :: "string \<Rightarrow> bool" where
  "hash_format h \<longleftrightarrow> length h = 64 \<and> list_all is_hex h"

definition inet_ok :: "string \<Rightarrow> bool" where
  "inet_ok s \<longleftrightarrow> s = [] \<or> ParseAddr_ok s \<and> after_char (CHR ''%'') s = None"

definition pg_length_between :: "nat \<Rightarrow> nat \<Rightarrow> string \<Rightarrow> bool" where
  "pg_length_between lo hi s \<longleftrightarrow> pg_text s \<and> lo \<le> pg_length s \<and> pg_length s \<le> hi"

text \<open>The constraints of \<open>audit_events\<close>.\<close>

definition event_insertable :: "Event list \<Rightarrow> Event \<Rightarrow> bool" where
  "event_insertable events e \<longleftrightarrow>
     \<not> tbl_has ev_ID events (ev_ID e) \<and> \<not> tbl_has ev_EventHash events (ev_EventHash e)
     \<and> pg_text (ev_ProductID e) \<and> pg_length_between 1 512 (ev_ActorSubject e)
     \<and> ev_ActorKind e \<in> {''human'', ''workload'', ''local''}
     \<and> ev_ActorProvider e \<in> {[], ''github-actions'', ''github-enterprise-actions'', ''gitlab-ci'', ''api-token''}
     \<and> list_all pg_text (ev_ActorRoles e) \<and> list_all pg_text (ev_ActorProductIDs e)
     \<and> pg_text (ev_TokenID e) \<and> pg_length_between 3 128 (ev_Action e)
     \<and> pg_length_between 1 128 (ev_ResourceType e) \<and> pg_length_between 1 512 (ev_ResourceID e)
     \<and> ev_Outcome e \<in> {OutcomeSuccess, OutcomeDenied, OutcomeFailed}
     \<and> inet_ok (ev_SourceIP e) \<and> json_object (ev_Metadata e)
     \<and> hash_format (ev_PreviousHash e) \<and> hash_format (ev_EventHash e)"

definition repo_Append :: "uuid_lib \<Rightarrow> Event \<Rightarrow> (audit_db, audit_error, Event) action" where
  "repo_Append u event = act_write (\<lambda>db.
     let key = partition_key (ev_ProductID event);
         heads = (if tbl_has fst (au_heads db) key then au_heads db
                  else au_heads db @ [(key, zeroHash)])
     in if \<not> pg_text key then Inl AuditDatabase
        else (case tbl_get fst heads key of
          None \<Rightarrow> Inl AuditDatabase
        | Some (_, previous) \<Rightarrow>
            let event = event\<lparr>ev_PreviousHash := previous,
                  ev_OccurredAt := truncate_time microsecond (ev_OccurredAt event)\<rparr>;
                event = event\<lparr>ev_EventHash := calculateEventHash u event\<rparr>
            in if \<not> event_insertable (au_events db) event then Inl AuditDatabase
               else if rows_affected (\<lambda>h. fst h = key \<and> snd h = previous) heads \<noteq> 1 then Inl ChainChanged
               else Inr (event, db\<lparr>au_heads := update_where (\<lambda>h. fst h = key \<and> snd h = previous)
                               (\<lambda>h. (fst h, ev_EventHash event)) heads,
                           au_events := au_events db @ [event]\<rparr>)))"

section \<open>Appending through the service\<close>

abbreviation word_char :: "char \<Rightarrow> bool" where
  "word_char c \<equiv> is_lower c \<or> is_digit c"

definition name_separator :: "char \<Rightarrow> bool" where
  "name_separator c \<longleftrightarrow> c = CHR ''.'' \<or> c = CHR ''_'' \<or> c = CHR ''-''"

definition name_segment :: regex where
  "name_segment = Cat (Cls name_separator) (plus_re (Cls word_char))"

text \<open>\<open>^[a-z][a-z0-9]*(?:[._-][a-z0-9]+)+$\<close> and the same with a final star.\<close>

definition auditActionPattern :: regex where
  "auditActionPattern = Cat (Cls is_lower) (Cat (Star (Cls word_char)) (plus_re name_segment))"

definition resourceTypePattern :: regex where
  "resourceTypePattern = Cat (Cls is_lower) (Cat (Star (Cls word_char)) (Star name_segment))"

definition maximumMetadataBytes :: nat where "maximumMetadataBytes = 64 * 1024"

text \<open>A nil map is the empty list. Every value of \<open>any_value\<close> marshals.\<close>

definition encodeRedactedMetadata :: "metadata \<Rightarrow> audit_error + bytes" where
  "encodeRedactedMetadata md =
     (let payload = marshal_any (AnyMap (redactMap md)) in
      if length payload > maximumMetadataBytes then Inl ErrMetadataTooLarge else Inr payload)"

record audit_service =
  as_repository :: bool
  as_jobEnqueuer :: bool

text \<open>One call: the clock's instant and the fresh identifier.\<close>

record audit_call =
  ca_now :: time
  ca_event_id :: "uuid option"
  ca_export_id :: "uuid option"
  ca_job_id :: "uuid option"

definition new_event :: "uuid_lib \<Rightarrow> audit_call \<Rightarrow> AppendCommand \<Rightarrow> audit_error + Event" where
  "new_event u call command =
     (let action = trim_space (ac_Action command);
          rtype = trim_space (ac_ResourceType command);
          rid = trim_space (ac_ResourceID command);
          ip = trim_space (ac_SourceIP command) in
      case Identity.Validate (ac_Actor command) of Some e \<Rightarrow> Inl (AuditIdentity e)
      | None \<Rightarrow>
      if \<not> matches auditActionPattern action \<or> length action > 128 then Inl ErrActionInvalid
      else if \<not> matches resourceTypePattern rtype \<or> length rtype > 128 then Inl ErrResourceTypeInvalid
      else if rid = [] \<or> length rid > 512 then Inl ErrResourceIDInvalid
      else if ac_Outcome command \<notin> {OutcomeSuccess, OutcomeDenied, OutcomeFailed} then Inl ErrOutcomeInvalid
      else res_bind (of_option ErrRequestIDInvalid (u_parse u (trim_space (ac_RequestID command)))) (\<lambda>requestID.
        if ip \<noteq> [] \<and> \<not> ParseAddr_ok ip then Inl ErrSourceIPInvalid
        else res_bind (encodeRedactedMetadata (ac_Metadata command)) (\<lambda>md.
          res_bind (of_option AuditUUIDUnavailable (ca_event_id call)) (\<lambda>eid.
            Inr \<lparr>ev_ID = eid, ev_OccurredAt = ca_now call, ev_ProductID = trim_space (ac_ProductID command),
                 ev_ActorSubject = trim_space (p_Subject (ac_Actor command)),
                 ev_ActorKind = p_Kind (ac_Actor command), ev_ActorProvider = p_Provider (ac_Actor command),
                 ev_ActorRoles = p_Roles (ac_Actor command), ev_ActorProductIDs = p_ProductIDs (ac_Actor command),
                 ev_TokenID = trim_space (p_TokenID (ac_Actor command)), ev_Action = action,
                 ev_ResourceType = rtype, ev_ResourceID = rid, ev_Outcome = ac_Outcome command,
                 ev_RequestID = requestID, ev_SourceIP = ip, ev_Metadata = md,
                 ev_PreviousHash = [], ev_EventHash = []\<rparr>))))"

definition Append :: "uuid_lib \<Rightarrow> audit_service \<Rightarrow> audit_call \<Rightarrow> AppendCommand \<Rightarrow>
    (audit_db, audit_error, Event) action" where
  "Append u service call command =
     (if \<not> as_repository service then act_fail ErrRepositoryRequired
      else act_bind (act_lift (new_event u call command)) (repo_Append u))"

section \<open>Queries\<close>

record QueryFilter =
  qf_ProductID :: string
  qf_ActorSubject :: string
  qf_Action :: string
  qf_Outcome :: string
  qf_Since :: time
  qf_Until :: time
  qf_Limit :: int
  qf_BeforeTime :: time
  qf_BeforeID :: uuid

definition scanEvent :: "pg_lib \<Rightarrow> Event \<Rightarrow> Event" where
  "scanEvent pg e = e\<lparr>ev_SourceIP := (if ev_SourceIP e = [] then [] else pg_inet_host pg (ev_SourceIP e)),
     ev_Metadata := pg_jsonb_text pg (ev_Metadata e),
     ev_PreviousHash := trim_space (ev_PreviousHash e), ev_EventHash := trim_space (ev_EventHash e)\<rparr>"

definition filter_matches :: "QueryFilter \<Rightarrow> Event \<Rightarrow> bool" where
  "filter_matches f e \<longleftrightarrow>
     (qf_ProductID f = [] \<or> ev_ProductID e = qf_ProductID f)
     \<and> (qf_ActorSubject f = [] \<or> ev_ActorSubject e = qf_ActorSubject f)
     \<and> (qf_Action f = [] \<or> ev_Action e = qf_Action f)
     \<and> (qf_Outcome f = [] \<or> ev_Outcome e = qf_Outcome f)
     \<and> (qf_Since f = 0 \<or> pg_timestamp (qf_Since f) \<le> ev_OccurredAt e)
     \<and> (qf_Until f = 0 \<or> ev_OccurredAt e \<le> pg_timestamp (qf_Until f))
     \<and> (qf_BeforeTime f = 0 \<or> (ev_OccurredAt e, ev_ID e) < (pg_timestamp (qf_BeforeTime f), qf_BeforeID f))"

definition filter_text_ok :: "QueryFilter \<Rightarrow> bool" where
  "filter_text_ok f \<longleftrightarrow> pg_text (qf_ProductID f) \<and> pg_text (qf_ActorSubject f) \<and> pg_text (qf_Action f)
     \<and> pg_text (qf_Outcome f)"

text \<open>Newest first: descending by time and identifier.\<close>

definition repo_Query :: "pg_lib \<Rightarrow> QueryFilter \<Rightarrow> audit_db \<Rightarrow> audit_error + Event list" where
  "repo_Query pg f db =
     (if qf_Limit f \<le> 0 \<or> qf_Limit f > 500
         \<or> qf_Since f \<noteq> 0 \<and> qf_Until f \<noteq> 0 \<and> qf_Since f > qf_Until f then Inl ErrQueryFilterInvalid
      else if (qf_BeforeTime f \<noteq> 0 \<or> qf_BeforeID f \<noteq> 0) \<and> (qf_BeforeTime f = 0 \<or> qf_BeforeID f = 0)
      then Inl ErrQueryFilterInvalid
      else if \<not> filter_text_ok f then Inl AuditDatabase
      else Inr (map (scanEvent pg) (take (nat (qf_Limit f))
        (rev (sort_key (\<lambda>e. (ev_OccurredAt e, ev_ID e)) (filter (filter_matches f) (au_events db)))))))"

definition Query :: "pg_lib \<Rightarrow> audit_service \<Rightarrow> Principal \<Rightarrow> QueryFilter \<Rightarrow> audit_db \<Rightarrow>
    audit_error + Event list" where
  "Query pg service who f db =
     (if \<not> as_repository service then Inl ErrRepositoryRequired
      else (case Require who ActionAuditRead (qf_ProductID f) of
          Some e \<Rightarrow> Inl (AuditIdentity e)
        | None \<Rightarrow>
            let limit = (if qf_Limit f \<le> 0 then 100 else qf_Limit f);
                limit = (if limit > 500 then 500 else limit)
            in repo_Query pg (f\<lparr>qf_Limit := limit\<rparr>) db))"

section \<open>Exports\<close>

definition repo_StartExport :: "Export \<Rightarrow> (audit_db, audit_error, unit) action" where
  "repo_StartExport export = act_write (\<lambda>db.
     if tbl_has ex_ID (au_exports db) (ex_ID export) \<or> \<not> pg_text (ex_ProductID export)
        \<or> \<not> pg_length_between 1 512 (ex_RequestedBy export) \<or> \<not> json_object (ex_Filter export)
     then Inl AuditDatabase
     else Inr ((), db\<lparr>au_exports := au_exports db @ [export\<lparr>ex_ObjectKey := [], ex_SHA256 := [],
        ex_SizeBytes := 0, ex_ExpiresAt := 0, ex_ErrorCode := [],
        ex_CreatedAt := pg_timestamp (ex_CreatedAt export), ex_UpdatedAt := pg_timestamp (ex_CreatedAt export)\<rparr>]\<rparr>))"

definition repo_GetExport :: "uuid \<Rightarrow> audit_db \<Rightarrow> audit_error + Export" where
  "repo_GetExport eid db = of_option ErrExportNotFound (tbl_get ex_ID (au_exports db) eid)"

text \<open>The trigger \<open>audit_exports_protect_request\<close> sets \<open>updated_at\<close> to the clock \<open>now\<close>.\<close>

definition CompleteExport :: "time \<Rightarrow> Export \<Rightarrow> (audit_db, audit_error, unit) action" where
  "CompleteExport now completed = act_write (\<lambda>db.
     let hit = (\<lambda>x. ex_ID x = ex_ID completed \<and> ex_Status x = ExportStatusPending) in
     if ex_ID completed = uuid_Nil \<or> ex_ObjectKey completed = [] \<or> length (ex_SHA256 completed) \<noteq> 64
        \<or> ex_SizeBytes completed \<le> 0 \<or> ex_ExpiresAt completed = 0 \<or> ex_UpdatedAt completed = 0
     then Inl ErrExportFilterInvalid
     else if \<not> pg_text (ex_ObjectKey completed) \<or> \<not> pg_text (ex_SHA256 completed) then Inl AuditDatabase
     else if rows_affected hit (au_exports db) \<noteq> 1 then
       (case repo_GetExport (ex_ID completed) db of
          Inr current \<Rightarrow>
            if ex_Status current = ExportStatusCompleted \<and> ex_ObjectKey current = ex_ObjectKey completed
               \<and> ex_SHA256 current = ex_SHA256 completed
            then Inr ((), db) else Inl ErrExportNotReady
        | Inl _ \<Rightarrow> Inl ErrExportNotReady)
     else Inr ((), db\<lparr>au_exports := update_where hit (\<lambda>x. x\<lparr>ex_Status := ExportStatusCompleted,
        ex_ObjectKey := ex_ObjectKey completed, ex_SHA256 := ex_SHA256 completed,
        ex_SizeBytes := ex_SizeBytes completed, ex_ExpiresAt := pg_timestamp (ex_ExpiresAt completed),
        ex_ErrorCode := [], ex_UpdatedAt := now\<rparr>) (au_exports db)\<rparr>))"

definition FailExport :: "time \<Rightarrow> uuid \<Rightarrow> string \<Rightarrow> time \<Rightarrow> (audit_db, audit_error, unit) action" where
  "FailExport now eid code failedAt = act_write (\<lambda>db.
     let code = trim_space code;
         hit = (\<lambda>x. ex_ID x = eid \<and> ex_Status x = ExportStatusPending) in
     if eid = uuid_Nil \<or> code = [] \<or> length code > 128 \<or> failedAt = 0 then Inl ErrExportFilterInvalid
     else if \<not> pg_text code then Inl AuditDatabase
     else if rows_affected hit (au_exports db) \<noteq> 1 then
       (case repo_GetExport eid db of
          Inr current \<Rightarrow>
            if ex_Status current = ExportStatusFailed \<and> ex_ErrorCode current = code
            then Inr ((), db) else Inl ErrExportNotReady
        | Inl _ \<Rightarrow> Inl ErrExportNotReady)
     else Inr ((), db\<lparr>au_exports := update_where hit (\<lambda>x. x\<lparr>ex_Status := ExportStatusFailed,
        ex_ErrorCode := code, ex_UpdatedAt := now\<rparr>) (au_exports db)\<rparr>))"

definition GetExport :: "audit_service \<Rightarrow> Principal \<Rightarrow> uuid \<Rightarrow> audit_db \<Rightarrow> audit_error + Export" where
  "GetExport service who eid db =
     (if \<not> as_repository service then Inl ErrRepositoryRequired
      else if eid = uuid_Nil then Inl ErrExportNotFound
      else res_bind (repo_GetExport eid db) (\<lambda>export.
        case Require who ActionAuditRead (ex_ProductID export) of
          Some e \<Rightarrow> Inl (AuditIdentity e)
        | None \<Rightarrow> Inr export))"

record ExportDownload =
  ed_ExportID :: uuid
  ed_ObjectKey :: string
  ed_SHA256 :: string
  ed_SizeBytes :: int
  ed_ExpiresAt :: time

definition GetExportDownload :: "audit_service \<Rightarrow> time \<Rightarrow> Principal \<Rightarrow> uuid \<Rightarrow> audit_db \<Rightarrow>
    audit_error + ExportDownload" where
  "GetExportDownload service now who eid db =
     res_bind (GetExport service who eid db) (\<lambda>export.
       if ex_Status export \<noteq> ExportStatusCompleted \<or> ex_ObjectKey export = [] \<or> ex_SHA256 export = []
          \<or> ex_SizeBytes export \<le> 0 \<or> ex_ExpiresAt export = 0 then Inl ErrExportNotReady
       else if \<not> ex_ExpiresAt export > now then Inl ErrExportExpired
       else
         let grantExpiry = now + 300 * second_ns;
             grantExpiry = (if ex_ExpiresAt export < grantExpiry then ex_ExpiresAt export else grantExpiry)
         in Inr \<lparr>ed_ExportID = ex_ID export, ed_ObjectKey = ex_ObjectKey export, ed_SHA256 = ex_SHA256 export,
                 ed_SizeBytes = ex_SizeBytes export, ed_ExpiresAt = grantExpiry\<rparr>)"

record StartExportCommand =
  se_Actor :: Principal
  se_ProductID :: string
  se_Filter :: QueryFilter
  se_RequestID :: string
  se_SourceIP :: string

text \<open>\<open>json.Marshal\<close> of a \<open>QueryFilter\<close>; an instant after the year 9999 does not marshal.\<close>

definition json_time_ok :: "time \<Rightarrow> bool" where
  "json_time_ok t \<longleftrightarrow> 0 \<le> t \<and> t < 3652059 * 86400 * second_ns"

definition marshal_filter :: "uuid_lib \<Rightarrow> QueryFilter \<Rightarrow> audit_error + bytes" where
  "marshal_filter u f =
     (if \<not> json_time_ok (qf_Since f) \<or> \<not> json_time_ok (qf_Until f) \<or> \<not> json_time_ok (qf_BeforeTime f)
      then Inl ErrExportFilterInvalid
      else Inr (''{'' @ join_comma [
        json_field ''ProductID'' (marshal_string (qf_ProductID f)),
        json_field ''ActorSubject'' (marshal_string (qf_ActorSubject f)),
        json_field ''Action'' (marshal_string (qf_Action f)),
        json_field ''Outcome'' (marshal_string (qf_Outcome f)),
        json_field ''Since'' (marshal_string (format_time (qf_Since f))),
        json_field ''Until'' (marshal_string (format_time (qf_Until f))),
        json_field ''Limit'' (dec_int (qf_Limit f)),
        json_field ''BeforeTime'' (marshal_string (format_time (qf_BeforeTime f))),
        json_field ''BeforeID'' (marshal_string (u_string u (qf_BeforeID f)))] @ ''}''))"

definition new_export :: "uuid_lib \<Rightarrow> audit_service \<Rightarrow> audit_call \<Rightarrow> StartExportCommand \<Rightarrow> audit_error + Export" where
  "new_export u service call command =
     (let productID = trim_space (se_ProductID command); f = se_Filter command in
      if \<not> as_repository service then Inl ErrRepositoryRequired
      else if \<not> as_jobEnqueuer service then Inl ErrExportJobsRequired
      else (case Require (se_Actor command) ActionAuditRead productID of
          Some e \<Rightarrow> Inl (AuditIdentity e)
        | None \<Rightarrow>
            if qf_Since f \<noteq> 0 \<and> qf_Until f \<noteq> 0 \<and> qf_Since f > qf_Until f
               \<or> qf_ProductID f \<noteq> [] \<and> qf_ProductID f \<noteq> productID then Inl ErrExportFilterInvalid
            else res_bind (marshal_filter u (f\<lparr>qf_ProductID := productID, qf_Limit := 0,
                   qf_BeforeTime := 0, qf_BeforeID := 0\<rparr>)) (\<lambda>filterJSON.
              res_bind (of_option ErrRequestIDInvalid (u_parse u (trim_space (se_RequestID command)))) (\<lambda>requestID.
              res_bind (of_option AuditUUIDUnavailable (ca_export_id call)) (\<lambda>exportID.
                let now = truncate_time microsecond (ca_now call) in
                Inr \<lparr>ex_ID = exportID, ex_ProductID = productID,
                     ex_RequestedBy = trim_space (p_Subject (se_Actor command)), ex_RequestID = requestID,
                     ex_Filter = filterJSON, ex_Status = ExportStatusPending, ex_ObjectKey = [],
                     ex_SHA256 = [], ex_SizeBytes = 0, ex_ExpiresAt = 0, ex_ErrorCode = [],
                     ex_CreatedAt = now, ex_UpdatedAt = now\<rparr>)))))"

definition on_audit :: "(audit_db, audit_error, 'a) action \<Rightarrow> (outbox \<times> audit_db, audit_error, 'a) action" where
  "on_audit m = (\<lambda>(rows, db). case m db of (r, db') \<Rightarrow> (r, rows, db'))"

definition audit_enqueue :: "time \<Rightarrow> Job \<Rightarrow> (outbox \<times> audit_db, audit_error, unit) action" where
  "audit_enqueue now job = (\<lambda>(rows, db). case Enqueue now job rows of
     (r, rows') \<Rightarrow> (lift_err AuditJobs r, rows', db))"

text \<open>\<open>StartExport\<close> runs in the transaction of its caller.\<close>

definition StartExport :: "uuid_lib \<Rightarrow> audit_service \<Rightarrow> time \<Rightarrow> audit_call \<Rightarrow> StartExportCommand \<Rightarrow>
    (outbox \<times> audit_db, audit_error, Export) action" where
  "StartExport u service db_now call command =
     act_bind (act_lift (new_export u service call command)) (\<lambda>export.
     act_bind (on_audit (repo_StartExport export)) (\<lambda>_.
     act_bind (act_lift (lift_err AuditJobs (New (ca_job_id call) ''audit.export.v1'' (ex_ID export)
         (marshal_string_map [(''export_id'', u_string u (ex_ID export)), (''product_id'', ex_ProductID export)])
         (ex_CreatedAt export)))) (\<lambda>job.
     act_bind (audit_enqueue db_now job) (\<lambda>_.
     act_bind (on_audit (Append u service call
         \<lparr>ac_Actor = se_Actor command, ac_Action = ''audit.export.start'', ac_ProductID = ex_ProductID export,
          ac_ResourceType = ''audit_export'', ac_ResourceID = u_string u (ex_ID export),
          ac_Outcome = OutcomeSuccess, ac_RequestID = se_RequestID command, ac_SourceIP = se_SourceIP command,
          ac_Metadata = [(''export_id'', AnyString (u_string u (ex_ID export)))]\<rparr>)) (\<lambda>_.
     act_return export)))))"


section \<open>The contract of an audit log\<close>

text \<open>What the services rely on: an append that succeeds adds its one event at the end, an append
  that fails adds nothing. So any run of appends only extends the log.\<close>

locale audit_log =
  fixes append :: "'c \<Rightarrow> ('s, audit_error, Event) action"
    and log :: "'s \<Rightarrow> Event list"
  assumes append_ok: "append c s = (Inr e, s') \<Longrightarrow> log s' = log s @ [e]"
    and append_err: "append c s = (Inl x, s') \<Longrightarrow> s' = s"
begin

definition appends :: "'s \<Rightarrow> 's \<Rightarrow> bool" where
  "appends s s' \<longleftrightarrow> (\<exists>c r. append c s = (r, s'))"

lemma append_extends: "append c s = (r, s') \<Longrightarrow> \<exists>es. log s' = log s @ es"
  by (cases r) (auto dest: append_ok append_err)

lemma appends_extend: "appends\<^sup>*\<^sup>* s s' \<Longrightarrow> \<exists>es. log s' = log s @ es"
proof (induction rule: rtranclp_induct)
  case (step y z)
  then show ?case using append_extends by (fastforce simp: appends_def)
qed simp

end

lemma repo_Append_Inr:
  assumes "repo_Append u e db = (Inr e', db')"
  shows "\<exists>previous heads. heads = (if tbl_has fst (au_heads db) (partition_key (ev_ProductID e))
            then au_heads db else au_heads db @ [(partition_key (ev_ProductID e), zeroHash)])
     \<and> tbl_get fst heads (partition_key (ev_ProductID e)) = Some (partition_key (ev_ProductID e), previous)
     \<and> ev_PreviousHash e' = previous \<and> ev_EventHash e' = calculateEventHash u e'
     \<and> e' = e\<lparr>ev_PreviousHash := previous, ev_OccurredAt := truncate_time microsecond (ev_OccurredAt e),
            ev_EventHash := ev_EventHash e'\<rparr>
     \<and> event_insertable (au_events db) e'
     \<and> db' = db\<lparr>au_heads := update_where (\<lambda>h. fst h = partition_key (ev_ProductID e) \<and> snd h = previous)
                   (\<lambda>h. (fst h, ev_EventHash e')) heads,
               au_events := au_events db @ [e']\<rparr>"
  using assms
  by (auto simp: repo_Append_def act_simps Let_def calculateEventHash_def event_payload_def event_fields_def
      dest: tbl_get_key split: if_splits option.splits)

lemma repo_Append_fields:
  assumes "repo_Append u e db = (Inr e', db')"
  shows "au_events db' = au_events db @ [e']" "ev_ProductID e' = ev_ProductID e"
    "ev_EventHash e' = calculateEventHash u e'" "au_exports db' = au_exports db"
    "ev_Action e' = ev_Action e" "ev_ResourceID e' = ev_ResourceID e" "ev_Outcome e' = ev_Outcome e"
    "ev_ActorSubject e' = ev_ActorSubject e" "event_insertable (au_events db) e'"
proof -
  obtain previous heads where e': "e' = e\<lparr>ev_PreviousHash := previous,
        ev_OccurredAt := truncate_time microsecond (ev_OccurredAt e), ev_EventHash := ev_EventHash e'\<rparr>"
      and rest: "ev_EventHash e' = calculateEventHash u e'" "event_insertable (au_events db) e'"
        "db' = db\<lparr>au_heads := heads, au_events := au_events db @ [e']\<rparr>"
    using repo_Append_Inr [OF assms] by auto
  note fields = arg_cong [OF e']
  show "ev_ProductID e' = ev_ProductID e" using fields [of ev_ProductID] by simp
  show "ev_Action e' = ev_Action e" using fields [of ev_Action] by simp
  show "ev_ResourceID e' = ev_ResourceID e" using fields [of ev_ResourceID] by simp
  show "ev_Outcome e' = ev_Outcome e" using fields [of ev_Outcome] by simp
  show "ev_ActorSubject e' = ev_ActorSubject e" using fields [of ev_ActorSubject] by simp
qed (use repo_Append_Inr [OF assms] in auto)

lemma repo_Append_Inl: "repo_Append u e db = (Inl x, db') \<Longrightarrow> db' = db"
  by (simp add: repo_Append_def act_simps)

lemma Append_Inr:
  "Append u service call command db = (Inr e, db') \<longleftrightarrow>
     as_repository service \<and> (\<exists>e0. new_event u call command = Inr e0 \<and> repo_Append u e0 db = (Inr e, db'))"
  by (auto simp: Append_def act_simps)

lemma Append_Inl: "Append u service call command db = (Inl x, db') \<Longrightarrow> db' = db"
  by (auto simp: Append_def act_simps dest: repo_Append_Inl split: if_splits)

lemma new_event_fields:
  assumes "new_event u call command = Inr e"
  shows "ev_Action e = trim_space (ac_Action command)" "ev_ResourceID e = trim_space (ac_ResourceID command)"
    "ev_ActorSubject e = trim_space (p_Subject (ac_Actor command))" "ev_ProductID e = trim_space (ac_ProductID command)"
    "ev_Outcome e = ac_Outcome command"
  using assms by (auto simp: new_event_def Let_def res_elims split: if_splits option.splits)

text \<open>An append that succeeds adds one event with the fields of the command.\<close>

lemma Append_event:
  assumes "Append u service call command db = (Inr e, db')"
  shows "au_events db' = au_events db @ [e] \<and> ev_Action e = trim_space (ac_Action command)
    \<and> ev_ResourceID e = trim_space (ac_ResourceID command) \<and> ev_ProductID e = trim_space (ac_ProductID command)
    \<and> ev_ActorSubject e = trim_space (p_Subject (ac_Actor command)) \<and> ev_Outcome e = ac_Outcome command"
proof -
  obtain e0 where "new_event u call command = Inr e0" "repo_Append u e0 db = (Inr e, db')"
    using assms by (auto simp: Append_Inr)
  then show ?thesis using new_event_fields repo_Append_fields by metis
qed

interpretation al: audit_log "\<lambda>(call, command). Append u service call command" au_events for u service
  by unfold_locales (auto simp: Append_Inr dest!: repo_Append_Inr dest: Append_Inl)

section \<open>The chain of every partition\<close>

definition partition_events :: "string \<Rightarrow> audit_db \<Rightarrow> Event list" where
  "partition_events key db = filter (\<lambda>e. partition_key (ev_ProductID e) = key) (au_events db)"

fun chain_end :: "uuid_lib \<Rightarrow> string \<Rightarrow> Event list \<Rightarrow> string option" where
  "chain_end u h [] = Some h"
| "chain_end u h (e # es) =
     (if ev_PreviousHash e = h \<and> ev_EventHash e = calculateEventHash u e
      then chain_end u (ev_EventHash e) es else None)"

definition head_of :: "string \<Rightarrow> audit_db \<Rightarrow> string" where
  "head_of key db = (case tbl_get fst (au_heads db) key of None \<Rightarrow> zeroHash | Some h \<Rightarrow> snd h)"

definition audit_ok :: "uuid_lib \<Rightarrow> audit_db \<Rightarrow> bool" where
  "audit_ok u db \<longleftrightarrow> (\<forall>key. chain_end u zeroHash (partition_events key db) = Some (head_of key db))"

definition empty_audit :: audit_db where
  "empty_audit = \<lparr>au_heads = [], au_events = [], au_exports = []\<rparr>"

lemma chain_end_snoc:
  "chain_end u h (es @ [e]) = (case chain_end u h es of None \<Rightarrow> None
     | Some h' \<Rightarrow> if ev_PreviousHash e = h' \<and> ev_EventHash e = calculateEventHash u e
                 then Some (ev_EventHash e) else None)"
  by (induction u h es rule: chain_end.induct) auto

lemma repo_Append_head:
  assumes "repo_Append u e db = (Inr e', db')"
  shows "ev_PreviousHash e' = head_of (partition_key (ev_ProductID e)) db"
    and "head_of key db' = (if key = partition_key (ev_ProductID e) then ev_EventHash e' else head_of key db)"
proof -
  let ?k = "partition_key (ev_ProductID e)"
  obtain previous heads where h: "heads = (if tbl_has fst (au_heads db) ?k
        then au_heads db else au_heads db @ [(?k, zeroHash)])"
      "tbl_get fst heads ?k = Some (?k, previous)" "ev_PreviousHash e' = previous"
      "au_heads db' = update_where (\<lambda>h. fst h = ?k \<and> snd h = previous) (\<lambda>h. (fst h, ev_EventHash e')) heads"
    using repo_Append_Inr [OF assms] by auto
  have old: "tbl_get fst heads key = (case tbl_get fst (au_heads db) key of
      Some r \<Rightarrow> Some r | None \<Rightarrow> if key = ?k then Some (?k, zeroHash) else None)" for key
    using h(1) by (auto simp: tbl_has_get tbl_get_snoc split: option.splits)
  show "ev_PreviousHash e' = head_of ?k db"
    using h(2,3) old [of ?k] by (auto simp: head_of_def split: option.splits)
  show "head_of key db' = (if key = ?k then ev_EventHash e' else head_of key db)"
    using h(2,4) old [of key] tbl_get_key [of fst heads key]
    by (auto simp: head_of_def tbl_get_update split: option.splits)
qed

lemma repo_Append_ok:
  assumes "repo_Append u e db = (Inr e', db')" "audit_ok u db"
  shows "audit_ok u db'"
proof -
  have e': "au_events db' = au_events db @ [e']" "ev_ProductID e' = ev_ProductID e"
      "ev_EventHash e' = calculateEventHash u e'"
    using repo_Append_fields [OF assms(1)] by simp_all
  have "chain_end u zeroHash (partition_events key db') = Some (head_of key db')" for key
    using assms(2) e' repo_Append_head [OF assms(1)]
    by (auto simp: audit_ok_def partition_events_def chain_end_snoc)
  then show ?thesis by (simp add: audit_ok_def)
qed


lemma zeroHash_format: "hash_format zeroHash"
  by (simp add: hash_format_def zeroHash_def list_all_iff is_hex_def is_digit_def in_range_def byte_val_def)

lemma calculated_format: "hash_format (calculateEventHash u e)"
  by (simp add: hash_format_def calculateEventHash_def sha256_hex_hex)

lemma is_hex_graphic: "list_all is_hex s \<Longrightarrow> list_all graphic s"
  by (auto simp: list_all_iff graphic_class)

lemma marshal_body_hex: "list_all is_hex s \<Longrightarrow> marshal_body s = s"
proof (induction s)
  case (Cons c s)
  then have "48 \<le> byte_val c \<and> byte_val c \<le> 57 \<or> 97 \<le> byte_val c \<and> byte_val c \<le> 102"
    by (auto simp: is_hex_def is_digit_def in_range_def)
  then have "byte_val c < 128" "marshal_ascii c = [c]"
    by (auto simp: marshal_ascii_def byte_val_def)
  with Cons show ?case by (simp add: marshal_body.simps [of "c # s"])
qed (simp add: marshal_body.simps)

lemma append_middle: "a @ x @ t = b @ y @ t \<Longrightarrow> length x = length y \<Longrightarrow> x = y"
  unfolding append_assoc [symmetric] append_same_eq by (simp add: append_eq_append_conv)

text \<open>The canonical payload determines the previous hash.\<close>

lemma event_payload_previous:
  assumes "event_payload u x = event_payload u y"
    and "hash_format (ev_PreviousHash x)" "hash_format (ev_PreviousHash y)"
  shows "ev_PreviousHash x = ev_PreviousHash y"
proof -
  have "event_payload u e = (''{'' @ event_fields u e @ '','' @ marshal_string ''previous_hash'' @ '':'' @ [CHR 0x22])
      @ ev_PreviousHash e @ [CHR 0x22] @ ''}''" if "hash_format (ev_PreviousHash e)" for e
    using that by (simp add: event_payload_def json_field_def marshal_string_def hash_format_def
        marshal_body_hex is_hex_graphic)
  then have "\<exists>a b. a @ ev_PreviousHash x @ [CHR 0x22] @ ''}'' = b @ ev_PreviousHash y @ [CHR 0x22] @ ''}''"
    using assms by metis
  then show ?thesis using append_middle assms(2,3) by (metis hash_format_def)
qed

lemma chain_end_format:
  "chain_end u h es = Some h' \<Longrightarrow> hash_format h \<Longrightarrow>
     hash_format h' \<and> (\<forall>e \<in> set es. hash_format (ev_PreviousHash e))"
  by (induction u h es rule: chain_end.induct) (auto simp: calculated_format split: if_splits)

lemma chain_end_last:
  assumes "chain_end u h (es @ [e]) = Some h'"
  shows "chain_end u h es = Some (ev_PreviousHash e)" "h' = calculateEventHash u e"
  using assms by (auto simp: chain_end_snoc split: option.splits if_splits)

lemma chain_tamper:
  assumes "chain_end u zeroHash xs = Some h" "chain_end u zeroHash ys = Some h"
    and "\<forall>x \<in> set xs. \<forall>y \<in> set ys. calculateEventHash u x = calculateEventHash u y \<longrightarrow>
           event_payload u x = event_payload u y"
    and "\<forall>x \<in> set xs \<union> set ys. calculateEventHash u x \<noteq> zeroHash"
  shows "map (event_payload u) xs = map (event_payload u) ys"
  using assms
proof (induction xs arbitrary: ys h rule: rev_induct)
  case Nil
  then show ?case by (cases ys rule: rev_cases) (auto dest: chain_end_last)
next
  case (snoc x xs)
  show ?case
  proof (cases ys rule: rev_cases)
    case Nil
    with snoc.prems show ?thesis by (auto dest: chain_end_last)
  next
    case (snoc ys' y)
    have x: "chain_end u zeroHash xs = Some (ev_PreviousHash x)" "h = calculateEventHash u x"
      using snoc.prems(1) by (auto dest: chain_end_last)
    have y: "chain_end u zeroHash ys' = Some (ev_PreviousHash y)" "h = calculateEventHash u y"
      using snoc.prems(2) snoc by (auto dest: chain_end_last)
    have eq: "event_payload u x = event_payload u y"
      using snoc.prems(3) snoc x(2) y(2) by auto
    moreover have "ev_PreviousHash x = ev_PreviousHash y"
      using event_payload_previous [OF eq] chain_end_format [OF x(1) zeroHash_format]
        chain_end_format [OF y(1) zeroHash_format] by blast
    ultimately show ?thesis
      using snoc.IH [OF x(1)] y(1) snoc.prems(3,4) snoc by auto
  qed
qed

section \<open>Redaction\<close>

text \<open>A path into a value: through a key of a map or an index of a list.\<close>

datatype path_step = Key string | Index nat

fun at_path :: "path_step list \<Rightarrow> any_value \<Rightarrow> any_value option" where
  "at_path [] v = Some v"
| "at_path (Key k # p) (AnyMap ms) = (case map_of ms k of None \<Rightarrow> None | Some v \<Rightarrow> at_path p v)"
| "at_path (Index i # p) (AnyList xs) = (if i < length xs then at_path p (xs ! i) else None)"
| "at_path _ _ = None"

definition sensitive_step :: "path_step \<Rightarrow> bool" where
  "sensitive_step st = (case st of Key k \<Rightarrow> sensitiveKey k | Index _ \<Rightarrow> False)"

lemma redactValue_Map: "redactValue (AnyMap ms) = AnyMap (redactMap ms)"
  by (simp add: redactMap_def)

lemma map_of_redactMap:
  "map_of (redactMap ms) k = map_option (\<lambda>v. if sensitiveKey k then AnyString ''[REDACTED]'' else redactValue v)
     (map_of ms k)"
  by (induction ms) (auto simp: redactMap_def)

lemma at_path_redact:
  "list_all (\<lambda>st. \<not> sensitive_step st) p \<Longrightarrow>
     at_path p (redactValue v) = map_option redactValue (at_path p v)"
proof (induction p v rule: at_path.induct)
  case (2 k p ms)
  then show ?case
    by (auto simp: redactValue_Map map_of_redactMap sensitive_step_def simp del: redactValue.simps
        split: option.splits)
qed (auto simp: sensitive_step_def)

lemma at_path_append:
  "at_path (p @ q) v = (case at_path p v of None \<Rightarrow> None | Some w \<Rightarrow> at_path q w)"
  by (induction p v rule: at_path.induct) (auto split: option.splits)

lemma at_path_redacted_key:
  assumes "list_all (\<lambda>st. \<not> sensitive_step st) p" "sensitiveKey k"
    and "at_path (p @ Key k # q) (redactValue v) = Some w"
  shows "q = [] \<and> w = AnyString ''[REDACTED]''"
proof -
  obtain x where x: "at_path p v = Some x" "at_path (Key k # q) (redactValue x) = Some w"
    using assms(3) at_path_redact [OF assms(1), of v] by (auto simp: at_path_append split: option.splits)
  then obtain ms where "x = AnyMap ms" by (cases x) auto
  with x(2) assms(2) have "at_path q (AnyString ''[REDACTED]'') = Some w"
    by (auto simp: redactValue_Map map_of_redactMap simp del: redactValue.simps split: option.splits)
  then show ?thesis by (cases q rule: list.exhaust [case_names Nil Cons]; cases "hd q") auto
qed


section \<open>Reachable states of the log\<close>

inductive audit_step :: "uuid_lib \<Rightarrow> audit_db \<Rightarrow> audit_db \<Rightarrow> bool" for u where
  step_append: "Append u service call command db = (r, db') \<Longrightarrow> audit_step u db db'"
| step_start: "repo_StartExport export db = (r, db') \<Longrightarrow> audit_step u db db'"
| step_complete: "CompleteExport now completed db = (r, db') \<Longrightarrow> audit_step u db db'"
| step_fail: "FailExport now eid code failedAt db = (r, db') \<Longrightarrow> audit_step u db db'"

inductive_cases audit_stepE: "audit_step u db db'"

text \<open>The export operations leave the chain alone, and appending leaves the exports alone.\<close>

lemma export_ops_chain:
  "repo_StartExport export db = (r, db') \<Longrightarrow> au_heads db' = au_heads db \<and> au_events db' = au_events db"
  "CompleteExport now completed db = (r, db') \<Longrightarrow> au_heads db' = au_heads db \<and> au_events db' = au_events db"
  "FailExport now eid code failedAt db = (r, db') \<Longrightarrow> au_heads db' = au_heads db \<and> au_events db' = au_events db"
  by (cases r; auto simp: repo_StartExport_def CompleteExport_def FailExport_def act_simps Let_def
      split: if_splits sum.splits)+

lemma Append_exports: "Append u service call command db = (r, db') \<Longrightarrow> au_exports db' = au_exports db"
  by (cases r) (auto simp: Append_Inr dest: Append_Inl repo_Append_fields(4))

lemma audit_step_ok: "audit_step u db db' \<Longrightarrow> audit_ok u db \<Longrightarrow> audit_ok u db'"
proof (erule audit_stepE)
  fix service call command r
  assume a: "Append u service call command db = (r, db')" "audit_ok u db"
  then show "audit_ok u db'"
    by (cases r) (auto simp: Append_Inr intro: repo_Append_ok dest: Append_Inl)
qed (auto dest!: export_ops_chain simp: audit_ok_def partition_events_def head_of_def)

lemma audit_steps_ok: "(audit_step u)\<^sup>*\<^sup>* db db' \<Longrightarrow> audit_ok u db \<Longrightarrow> audit_ok u db'"
  by (induction rule: rtranclp_induct) (auto dest: audit_step_ok)

lemma empty_audit_ok: "audit_ok u empty_audit"
  by (simp add: audit_ok_def empty_audit_def partition_events_def head_of_def tbl_get_def)

text \<open>The request of an export never changes, and its outcome is final.\<close>

definition export_follows :: "Export \<Rightarrow> Export \<Rightarrow> bool" where
  "export_follows x x' \<longleftrightarrow> ex_ID x' = ex_ID x \<and> ex_ProductID x' = ex_ProductID x
     \<and> ex_RequestedBy x' = ex_RequestedBy x \<and> ex_RequestID x' = ex_RequestID x
     \<and> ex_Filter x' = ex_Filter x \<and> ex_CreatedAt x' = ex_CreatedAt x
     \<and> (ex_Status x = ExportStatusPending \<or> x' = x)"

lemma export_follows_refl: "export_follows x x"
  by (simp add: export_follows_def)

lemma export_follows_trans: "export_follows x y \<Longrightarrow> export_follows y z \<Longrightarrow> export_follows x z"
  by (auto simp: export_follows_def)

lemma audit_step_export:
  assumes "audit_step u db db'" "tbl_get ex_ID (au_exports db) eid = Some x"
  shows "\<exists>x'. tbl_get ex_ID (au_exports db') eid = Some x' \<and> export_follows x x'"
  using assms(1)
proof (cases rule: audit_step.cases)
  case (step_append service call command r)
  then show ?thesis using assms(2) Append_exports export_follows_refl by metis
next
  case (step_start export r)
  then show ?thesis using assms(2) export_follows_refl
    by (cases r) (auto simp: repo_StartExport_def act_simps tbl_get_snoc split: if_splits)
next
  case (step_complete now completed r)
  then show ?thesis using assms(2) export_follows_refl
    by (cases r) (auto simp: CompleteExport_def act_simps Let_def export_follows_def tbl_get_update
        split: if_splits sum.splits)
next
  case (step_fail now eid' code failedAt r)
  then show ?thesis using assms(2) export_follows_refl
    by (cases r) (auto simp: FailExport_def act_simps Let_def export_follows_def tbl_get_update
        split: if_splits sum.splits)
qed

lemma audit_steps_export:
  assumes "(audit_step u)\<^sup>*\<^sup>* db db'" "tbl_get ex_ID (au_exports db) eid = Some x"
  shows "\<exists>x'. tbl_get ex_ID (au_exports db') eid = Some x' \<and> export_follows x x'"
  using assms
proof (induction rule: rtranclp_induct)
  case base
  then show ?case by (auto simp: export_follows_refl)
next
  case (step y z)
  then obtain x1 where x1: "tbl_get ex_ID (au_exports y) eid = Some x1" "export_follows x x1" by blast
  then show ?case using audit_step_export [OF step.hyps(2) x1(1)] export_follows_trans [OF x1(2)] by blast
qed


section \<open>Properties\<close>

definition sample_uuid :: uuid_lib where
  "sample_uuid = \<lparr>u_string = (\<lambda>x. dec_nat (unat x)), u_parse = (\<lambda>s. if s = ''r1'' then Some 1 else None)\<rparr>"

definition sample_event :: Event where
  "sample_event = \<lparr>ev_ID = 1, ev_OccurredAt = 0, ev_ProductID = ''p1'', ev_ActorSubject = ''ana'',
     ev_ActorKind = ''human'', ev_ActorProvider = [], ev_ActorRoles = [], ev_ActorProductIDs = [],
     ev_TokenID = [], ev_Action = ''release.create'', ev_ResourceType = ''release'', ev_ResourceID = ''x'',
     ev_Outcome = ''success'', ev_RequestID = 1, ev_SourceIP = [], ev_Metadata = ''{}'',
     ev_PreviousHash = zeroHash, ev_EventHash = []\<rparr>"

definition sample_chained :: Event where
  "sample_chained = sample_event\<lparr>ev_EventHash := calculateEventHash sample_uuid sample_event\<rparr>"

definition sample_command :: AppendCommand where
  "sample_command = \<lparr>ac_Actor = sample_principal ''ana'' ''human'' 1 [], ac_Action = ''release.create'',
     ac_ProductID = ''p1'', ac_ResourceType = ''release'', ac_ResourceID = ''x'', ac_Outcome = ''success'',
     ac_RequestID = ''r1'', ac_SourceIP = [], ac_Metadata = []\<rparr>"

definition sample_audit :: audit_db where
  "sample_audit = \<lparr>au_heads = [(''product:p1'', ev_EventHash sample_chained)], au_events = [sample_chained],
     au_exports = []\<rparr>"

lemma sample_json_object: "json_object ''{}''"
  by code_simp

lemma audit_graphic:
  "list_all graphic ''ana''" "list_all graphic ''p1''" "list_all graphic ''product:p1''" "list_all graphic ''x''"
  "list_all graphic ''release''" "list_all graphic ''release.create''" "list_all graphic ''r1''"
  by (simp_all add: graphic_def in_range_def byte_val_def)

lemmas sample_text = audit_graphic [THEN trim_space_graphic] audit_graphic [THEN pg_text_graphic]
  audit_graphic [THEN pg_length_graphic]

lemma pg_text_Nil [simp]: "pg_text []"
  by (rule pg_text_graphic) simp

lemma sample_patterns: "matches auditActionPattern ''release.create''" "matches resourceTypePattern ''release''"
  by (simp_all add: auditActionPattern_def resourceTypePattern_def name_segment_def plus_re_def
      name_separator_def is_lower_def is_digit_def in_range_def byte_val_def)

lemma sample_new_event:
  "new_event sample_uuid \<lparr>ca_now = 0, ca_event_id = Some 1, ca_export_id = None, ca_job_id = None\<rparr> sample_command
     = Inr (sample_event\<lparr>ev_PreviousHash := []\<rparr>)"
  using sample_patterns
  by (simp add: new_event_def sample_command_def sample_principal_def sample_event_def sample_uuid_def
      sample_text Let_def Validate_def encodeRedactedMetadata_def redactMap_def marshal_pairs_def
      maximumMetadataBytes_def)

lemma sample_hash: "calculateEventHash sample_uuid (sample_event\<lparr>ev_EventHash := h\<rparr>) =
    calculateEventHash sample_uuid sample_event"
  by (simp add: calculateEventHash_def event_payload_def event_fields_def)

lemma sample_append:
  "Append sample_uuid \<lparr>as_repository = True, as_jobEnqueuer = True\<rparr>
     \<lparr>ca_now = 0, ca_event_id = Some 1, ca_export_id = None, ca_job_id = None\<rparr> sample_command empty_audit
   = (Inr sample_chained, sample_audit)"
proof -
  have e: "(sample_event\<lparr>ev_PreviousHash := []\<rparr>)\<lparr>ev_PreviousHash := zeroHash, ev_OccurredAt := 0\<rparr> = sample_event"
    by (simp add: sample_event_def)
  have "event_insertable [] sample_chained"
    using calculated_format [of sample_uuid sample_event]
    by (simp add: event_insertable_def sample_chained_def sample_event_def pg_length_between_def sample_text
        tbl_has_def zeroHash_format sample_json_object inet_ok_def)
  then show ?thesis
    using e by (simp add: Append_def repo_Append_def act_bind_def act_lift_def act_write_def sample_new_event Let_def
        empty_audit_def sample_audit_def tbl_get_def tbl_has_def partition_key_def rows_affected_def
        update_where_def truncate_time_def sample_text)
      (simp add: sample_event_def sample_chained_def sample_text)
qed

text \<open>The first append to an empty log succeeds when the event passes the checks of its row.\<close>

lemma append_first:
  assumes "as_repository service" "new_event u call command = Inr e0" "pg_text (partition_key (ev_ProductID e0))"
    and ok: "\<And>h t. hash_format h \<Longrightarrow>
      event_insertable [] (e0\<lparr>ev_PreviousHash := zeroHash, ev_OccurredAt := t, ev_EventHash := h\<rparr>)"
  shows "\<exists>e db'. Append u service call command empty_audit = (Inr e, db')"
proof -
  let ?e = "e0\<lparr>ev_PreviousHash := zeroHash, ev_OccurredAt := truncate_time microsecond (ev_OccurredAt e0)\<rparr>"
  have "event_insertable [] (?e\<lparr>ev_EventHash := calculateEventHash u ?e\<rparr>)"
    using ok [OF calculated_format] by simp
  then show ?thesis
    using assms(1-3) by (simp add: Append_def repo_Append_def act_bind_def act_lift_def act_write_def Let_def
        empty_audit_def tbl_get_def tbl_has_def rows_affected_def)
qed







text \<open>Export requests are final. Through every sequence of operations an export request keeps its
  product, requester, request id, filter and creation time, and once it is completed or failed the
  whole record never changes again.\<close>

theorem exports_final:
  assumes "(audit_step u)\<^sup>*\<^sup>* db db'" "tbl_get ex_ID (au_exports db) eid = Some x"
  shows "\<exists>x'. tbl_get ex_ID (au_exports db') eid = Some x' \<and> ex_ProductID x' = ex_ProductID x
    \<and> ex_RequestedBy x' = ex_RequestedBy x \<and> ex_RequestID x' = ex_RequestID x
    \<and> ex_Filter x' = ex_Filter x \<and> ex_CreatedAt x' = ex_CreatedAt x
    \<and> (ex_Status x \<noteq> ExportStatusPending \<longrightarrow> x' = x)"
  using audit_steps_export [OF assms] by (auto simp: export_follows_def)

definition sample_export :: Export where
  "sample_export = \<lparr>ex_ID = 5, ex_ProductID = ''p1'', ex_RequestedBy = ''ana'', ex_RequestID = 1,
     ex_Filter = ''{}'', ex_Status = ExportStatusPending, ex_ObjectKey = [], ex_SHA256 = [],
     ex_SizeBytes = 0, ex_ExpiresAt = 0, ex_ErrorCode = [], ex_CreatedAt = 0, ex_UpdatedAt = 0\<rparr>"

theorem exports_final_witness:
  "\<exists>x'. tbl_get ex_ID [sample_export\<lparr>ex_Status := ExportStatusFailed, ex_ErrorCode := ''x'', ex_UpdatedAt := 9\<rparr>] 5
     = Some x' \<and> ex_Filter x' = ex_Filter sample_export"
proof -
  have "FailExport 9 5 ''x'' 9 (empty_audit\<lparr>au_exports := [sample_export]\<rparr>) =
      (Inr (), empty_audit\<lparr>au_exports := [sample_export\<lparr>ex_Status := ExportStatusFailed,
         ex_ErrorCode := ''x'', ex_UpdatedAt := 9\<rparr>]\<rparr>)"
    by (simp add: FailExport_def act_write_def Let_def sample_text empty_audit_def sample_export_def
        rows_affected_def update_where_def)
  then show ?thesis
    using exports_final [of sample_uuid "empty_audit\<lparr>au_exports := [sample_export]\<rparr>", OF r_into_rtranclp,
        OF step_fail, of 9 5 "''x''" 9 "Inr ()"]
    by (fastforce simp: tbl_get_def sample_export_def empty_audit_def)
qed

text \<open>C34. Download grants. A download is granted only to a principal allowed to read the audit of the
  export's product, for a completed export that has not expired, under its recorded key and digest;
  the grant ends in the future, at most five minutes from now and never after the export itself.\<close>

theorem download_grant_bounds:
  assumes "GetExportDownload service now who eid db = Inr g"
  shows "\<exists>x. tbl_get ex_ID (au_exports db) eid = Some x
    \<and> Require who ActionAuditRead (ex_ProductID x) = None \<and> ex_Status x = ExportStatusCompleted
    \<and> ed_ObjectKey g = ex_ObjectKey x \<and> ed_SHA256 g = ex_SHA256 x
    \<and> now < ed_ExpiresAt g \<and> ed_ExpiresAt g = min (ex_ExpiresAt x) (now + 300 * second_ns)"
  using assms
  by (auto simp: GetExportDownload_def GetExport_def repo_GetExport_def res_elims Let_def second_ns_def
      split: if_splits option.splits)

theorem download_grant_bounds_witness:
  "\<exists>g. GetExportDownload \<lparr>as_repository = True, as_jobEnqueuer = True\<rparr> 10
      (sample_principal ''ana'' ''human'' 1 [sample_scope ''auditor'' ''allow'' ''product'' ''p1'' []]) 5
      (empty_audit\<lparr>au_exports := [sample_export\<lparr>ex_Status := ExportStatusCompleted, ex_ObjectKey := ''x'',
         ex_SHA256 := ''x'', ex_SizeBytes := 1, ex_ExpiresAt := 90\<rparr>]\<rparr>) = Inr g \<and> ed_ExpiresAt g = 90"
proof -
  have "\<exists>g. GetExportDownload \<lparr>as_repository = True, as_jobEnqueuer = True\<rparr> 10
      (sample_principal ''ana'' ''human'' 1 [sample_scope ''auditor'' ''allow'' ''product'' ''p1'' []]) 5
      (empty_audit\<lparr>au_exports := [sample_export\<lparr>ex_Status := ExportStatusCompleted, ex_ObjectKey := ''x'',
         ex_SHA256 := ''x'', ex_SizeBytes := 1, ex_ExpiresAt := 90\<rparr>]\<rparr>) = Inr g"
    by (simp add: GetExportDownload_def GetExport_def repo_GetExport_def empty_audit_def sample_export_def tbl_get_def
        Require_def Validate_def sample_principal_def sample_scope_def requireGoverned_def isProductScoped_def
        scopeAllowedByAuthenticationAssurance_def rolePermitsAction_def permissions_def scopeMatches_def sample_text
        Let_def)
  then show ?thesis using download_grant_bounds
    by (fastforce simp: empty_audit_def sample_export_def tbl_get_def second_ns_def)
qed

lemma New_Inr:
  assumes "New jid kind aid payload t = Inr job"
  shows "j_Kind job = trim_space kind" "j_AggregateID job = aid" "j_Status job = StatusPending"
    "j_Payload job = payload" "j_AvailableAt job = t" "jid = Some (j_ID job)"
  using assms by (auto simp: New_def Let_def res_elims split: if_splits)

lemma Enqueue_Inr:
  assumes "Enqueue now job rows = (Inr u, rows')"
  shows "\<exists>r. rows' = rows @ [r] \<and> r_id r = j_ID job \<and> r_kind r = j_Kind job \<and> r_payload r = j_Payload job
    \<and> r_aggregate_id r = j_AggregateID job \<and> r_status r = StatusPending \<and> r_attempts r = 0"
  using assms by (auto simp: Enqueue_def act_simps split: if_splits)

lemma on_audit_run [act_simps]: "on_audit m (rows, db) = (r, s') \<longleftrightarrow> (\<exists>db'. m db = (r, db') \<and> s' = (rows, db'))"
  by (auto simp: on_audit_def split: prod.splits)

lemma audit_enqueue_run [act_simps]:
  "audit_enqueue now job (rows, db) = (Inr u, s') \<longleftrightarrow> 
     (\<exists>rows'. Enqueue now job rows = (Inr u :: unit job_error + unit, rows') \<and> s' = (rows', db))"
  by (auto simp: audit_enqueue_def split: prod.splits)

lemma audit_export_texts:
  "trim_space ''audit.export.v1'' = ''audit.export.v1''" "trim_space ''audit.export.start'' = ''audit.export.start''"
  by (rule trim_space_graphic, simp add: graphic_def in_range_def byte_val_def)+

text \<open>Starting an export is one unit. Run in a transaction, \<open>StartExport\<close> either changes nothing, or
  adds exactly one pending export, one pending \<open>audit.export.v1\<close> job for it and one
  \<open>audit.export.start\<close> event, and then the actor was allowed to read the product's audit.\<close>

theorem start_export_atomic:
  "case within_tx (StartExport u service t call command) (rows, db) of
     (Inl e, s') \<Rightarrow> s' = (rows, db)
   | (Inr x, rows', db') \<Rightarrow>
       Require (se_Actor command) ActionAuditRead (ex_ProductID x) = None
       \<and> (\<exists>r. rows' = rows @ [r] \<and> r_kind r = ''audit.export.v1'' \<and> r_aggregate_id r = ex_ID x
            \<and> r_status r = StatusPending)
       \<and> (\<exists>y. au_exports db' = au_exports db @ [y] \<and> ex_ID y = ex_ID x \<and> ex_Status y = ExportStatusPending)
       \<and> (\<exists>e. au_events db' = au_events db @ [e] \<and> ev_Action e = ''audit.export.start''
            \<and> ev_ResourceID e = trim_space (u_string u (ex_ID x)))"
proof -
  obtain r s' where run: "within_tx (StartExport u service t call command) (rows, db) = (r, s')" by (rule prod.exhaust)
  show ?thesis
  proof (cases r)
    case (Inl e)
    then have "s' = (rows, db)" using run by (simp add: act_simps)
    then show ?thesis by (simp add: run Inl)
  next
    case (Inr x)
    obtain rows' db' where s': "s' = (rows', db')" by (cases s')
    have "StartExport u service t call command (rows, db) = (Inr x, rows', db')"
      using run Inr s' by (simp add: act_simps)
    then obtain job db1 rows1 e0 e where steps: "new_export u service call command = Inr x"
        "repo_StartExport x db = (Inr (), db1)"
        "New (ca_job_id call) ''audit.export.v1'' (ex_ID x) (marshal_string_map
           [(''export_id'', u_string u (ex_ID x)), (''product_id'', ex_ProductID x)]) (ex_CreatedAt x) = (Inr job :: unit job_error + Job)"
        "Enqueue t job rows = (Inr () :: unit job_error + unit, rows')"
        "new_event u call \<lparr>ac_Actor = se_Actor command, ac_Action = ''audit.export.start'',
           ac_ProductID = ex_ProductID x, ac_ResourceType = ''audit_export'', ac_ResourceID = u_string u (ex_ID x),
           ac_Outcome = OutcomeSuccess, ac_RequestID = se_RequestID command, ac_SourceIP = se_SourceIP command,
           ac_Metadata = [(''export_id'', AnyString (u_string u (ex_ID x)))]\<rparr> = Inr e0"
        "repo_Append u e0 db1 = (Inr e, db')"
      by (auto simp: StartExport_def act_simps Append_Inr)
    have "Require (se_Actor command) ActionAuditRead (ex_ProductID x) = None" "ex_Status x = ExportStatusPending"
      using steps(1) by (auto simp: new_export_def Let_def res_elims split: if_splits option.splits)
    moreover have "\<exists>y. au_exports db1 = au_exports db @ [y] \<and> au_events db1 = au_events db
        \<and> ex_ID y = ex_ID x \<and> ex_Status y = ex_Status x"
      using steps(2) by (auto simp: repo_StartExport_def act_simps split: if_splits)
    moreover have "ev_Action e0 = ''audit.export.start''" "ev_ResourceID e0 = trim_space (u_string u (ex_ID x))"
      using steps(5) by (auto simp: new_event_def Let_def res_elims audit_export_texts split: if_splits option.splits)
    ultimately show ?thesis
      using run Inr s' repo_Append_fields [OF steps(6)] New_Inr [OF steps(3)] Enqueue_Inr [OF steps(4)]
      by (auto simp: audit_export_texts)
  qed
qed

end
