(* ===== verification/Product.thy ===== *)
theory Product
  imports AuditLog
begin

text \<open>
  The product registry of \<open>internal/product\<close>: parsing and validating a product manifest
  (\<open>manifest.go\<close>), the tables \<open>products\<close> and \<open>product_channels\<close> (\<open>postgres_repository.go\<close>, migration
  000003) and the service (\<open>service.go\<close>), which registers, reads, lists and deactivates products.
  Text is ordered by its bytes. The schema of the manifest's JSON is decoded as \<open>encoding/json\<close> does
  with \<open>DisallowUnknownFields\<close>: names match up to case, null leaves a field alone, a later member
  replaces an earlier one.
\<close>

section \<open>Manifests\<close>

datatype product_error =
    ErrManifestInvalid | ErrManifestTooLarge | ErrManifestDuplicateField | ErrSchemaVersionUnsupported
  | ErrProductIDInvalid | ErrDisplayNameInvalid | ErrArtifactTypeInvalid | ErrArtifactTypeDuplicate
  | ErrVersionSchemeUnsupported | ErrCompatibilityKeyInvalid | ErrCompatibilityKeyDuplicate
  | ErrCatalogFormatUnsupported | ErrChannelInvalid | ErrChannelDuplicate
  | ErrPageInvalid | ErrProductRepositoryRequired | ErrTransactorRequired | ErrAuditAppenderRequired
  | ErrProductIDExists | ErrManifestDigestExists | ErrProductNotFound
  | ProductDatabase
  | ProductIdentity identity_error
  | ProductAudit audit_error

definition ManifestSchemaVersion :: string where
  "ManifestSchemaVersion = ''xminds-product-manifest/v1''"

definition ManifestCatalogFormat :: string where
  "ManifestCatalogFormat = ''xminds-tuf-v1''"

definition maximumManifestBytes :: nat where
  "maximumManifestBytes = 256 * 1024"

abbreviation id_char :: "char \<Rightarrow> bool" where
  "id_char c \<equiv> is_lower c \<or> is_digit c \<or> c = CHR ''-''"

abbreviation name_char :: "char \<Rightarrow> bool" where
  "name_char c \<equiv> is_lower c \<or> is_digit c \<or> c = CHR ''.'' \<or> c = CHR ''_'' \<or> c = CHR ''-''"

text \<open>\<open>^[a-z][a-z0-9-]{1,62}$\<close> and \<open>^[a-z][a-z0-9._-]{0,63}$\<close>\<close>

definition productIDPattern :: regex where
  "productIDPattern = Cat (Cls is_lower) (rep_between (Cls id_char) 1 62)"

definition identifierPattern :: regex where
  "identifierPattern = Cat (Cls is_lower) (rep_between (Cls name_char) 0 63)"

record ChannelManifest =
  cm_Name :: string
  cm_DisplayName :: string

text \<open>A nil \<open>compatibility_keys\<close> is \<open>None\<close>: it marshals as null.\<close>

record Manifest =
  mf_SchemaVersion :: string
  mf_ProductID :: string
  mf_DisplayName :: string
  mf_ArtifactTypes :: "string list"
  mf_VersionScheme :: string
  mf_CompatibilityKeys :: "string list option"
  mf_CatalogFormat :: string
  mf_DefaultChannels :: "ChannelManifest list"

definition slice :: "'a list option \<Rightarrow> 'a list" where
  "slice s = (case s of None \<Rightarrow> [] | Some xs \<Rightarrow> xs)"

fun validateUniqueIdentifiers ::
  "string list \<Rightarrow> string set \<Rightarrow> product_error \<Rightarrow> product_error \<Rightarrow> product_error option" where
  "validateUniqueIdentifiers [] seen invalidError duplicateError = None"
| "validateUniqueIdentifiers (v # vs) seen invalidError duplicateError =
     (if \<not> matches identifierPattern v then Some invalidError
      else if v \<in> seen then Some duplicateError
      else validateUniqueIdentifiers vs (insert v seen) invalidError duplicateError)"

fun validate_channels :: "ChannelManifest list \<Rightarrow> string set \<Rightarrow> product_error option" where
  "validate_channels [] seen = None"
| "validate_channels (c # cs) seen =
     (if \<not> matches identifierPattern (cm_Name c) then Some ErrChannelInvalid
      else let displayName = trim_space (cm_DisplayName c) in
        if displayName = [] \<or> displayName \<noteq> cm_DisplayName c \<or> length displayName > 128
        then Some ErrChannelInvalid
        else if cm_Name c \<in> seen then Some ErrChannelDuplicate
        else validate_channels cs (insert (cm_Name c) seen))"

definition Manifest_Validate :: "Manifest \<Rightarrow> product_error option" where
  "Manifest_Validate m =
     (let trimmed = trim_space (mf_DisplayName m) in
      if mf_SchemaVersion m \<noteq> ManifestSchemaVersion then Some ErrSchemaVersionUnsupported
      else if \<not> matches productIDPattern (mf_ProductID m) then Some ErrProductIDInvalid
      else if trimmed = [] \<or> trimmed \<noteq> mf_DisplayName m \<or> length trimmed > 128 then Some ErrDisplayNameInvalid
      else if mf_ArtifactTypes m = [] \<or> length (mf_ArtifactTypes m) > 32 then Some ErrArtifactTypeInvalid
      else (case validateUniqueIdentifiers (mf_ArtifactTypes m) {} ErrArtifactTypeInvalid ErrArtifactTypeDuplicate of
          Some e \<Rightarrow> Some e
        | None \<Rightarrow>
      if mf_VersionScheme m \<noteq> ''semver'' then Some ErrVersionSchemeUnsupported
      else if length (slice (mf_CompatibilityKeys m)) > 32 then Some ErrCompatibilityKeyInvalid
      else (case validateUniqueIdentifiers (slice (mf_CompatibilityKeys m)) {}
               ErrCompatibilityKeyInvalid ErrCompatibilityKeyDuplicate of
          Some e \<Rightarrow> Some e
        | None \<Rightarrow>
      if mf_CatalogFormat m \<noteq> ManifestCatalogFormat then Some ErrCatalogFormatUnsupported
      else if mf_DefaultChannels m = [] \<or> length (mf_DefaultChannels m) > 16 then Some ErrChannelInvalid
      else validate_channels (mf_DefaultChannels m) {})))"

section \<open>Duplicate fields\<close>

text \<open>\<open>inspectJSONValue\<close> walks the token stream; the fuel is that of \<open>read_value\<close>.\<close>

fun inspectJSONValue :: "nat \<Rightarrow> decoder \<Rightarrow> product_error + decoder"
and inspect_members :: "nat \<Rightarrow> bytes set \<Rightarrow> decoder \<Rightarrow> product_error + decoder"
and inspect_elements :: "nat \<Rightarrow> decoder \<Rightarrow> product_error + decoder" where
  "inspectJSONValue 0 d = Inl ErrManifestInvalid"
| "inspectJSONValue (Suc n) d = (case Token d of
       Inl _ \<Rightarrow> Inl ErrManifestInvalid
     | Inr (tok, d1) \<Rightarrow> (case tok of
           Delim delimiter \<Rightarrow>
             if delimiter = CHR ''{'' then
               res_bind (inspect_members n {} d1) (\<lambda>d2. case Token d2 of
                   Inr (closing, d3) \<Rightarrow> if closing = Delim (CHR ''}'') then Inr d3 else Inl ErrManifestInvalid
                 | Inl _ \<Rightarrow> Inl ErrManifestInvalid)
             else if delimiter = CHR ''['' then
               res_bind (inspect_elements n d1) (\<lambda>d2. case Token d2 of
                   Inr (closing, d3) \<Rightarrow> if closing = Delim (CHR '']'') then Inr d3 else Inl ErrManifestInvalid
                 | Inl _ \<Rightarrow> Inl ErrManifestInvalid)
             else Inl ErrManifestInvalid
         | _ \<Rightarrow> Inr d1))"
| "inspect_members 0 seen d = Inl ErrManifestInvalid"
| "inspect_members (Suc n) seen d =
     (if \<not> More d then Inr d
      else (case Token d of
          Inl _ \<Rightarrow> Inl ErrManifestInvalid
        | Inr (keyToken, d1) \<Rightarrow> (case keyToken of
              TStr key \<Rightarrow>
                if key \<in> seen then Inl ErrManifestDuplicateField
                else res_bind (inspectJSONValue n d1) (inspect_members n (insert key seen))
            | _ \<Rightarrow> Inl ErrManifestInvalid)))"
| "inspect_elements 0 d = Inl ErrManifestInvalid"
| "inspect_elements (Suc n) d =
     (if \<not> More d then Inr d else res_bind (inspectJSONValue n d) (inspect_elements n))"

definition rejectDuplicateJSONFields :: "bytes \<Rightarrow> product_error option" where
  "rejectDuplicateJSONFields raw = (case inspectJSONValue (fuel_for raw) (new_decoder raw) of
       Inl e \<Rightarrow> Some e
     | Inr d \<Rightarrow> if skip_space (d_buf d) = [] then None else Some ErrManifestInvalid)"

section \<open>Decoding\<close>

text \<open>Field names match up to \<open>strings.EqualFold\<close>; beside ASCII, U+017F folds to s and U+212A to k.\<close>

function fold_name :: "bytes \<Rightarrow> bytes" where
  "fold_name s = (case s of [] \<Rightarrow> []
     | c # r \<Rightarrow>
        if map byte_val (take 2 s) = [197, 191] then CHR ''s'' # fold_name (drop 2 s)
        else if map byte_val (take 3 s) = [226, 132, 170] then CHR ''k'' # fold_name (drop 3 s)
        else lower_char c # fold_name r)"
  by pat_completeness auto
termination
  by (relation "measure length") auto

declare fold_name.simps [simp del]

definition decode_string :: "json \<Rightarrow> string \<Rightarrow> string option" where
  "decode_string v old = (case v of JStr s \<Rightarrow> Some s | JNull \<Rightarrow> Some old | _ \<Rightarrow> None)"

fun decode_all :: "('a \<Rightarrow> 'b option) \<Rightarrow> 'a list \<Rightarrow> 'b list option" where
  "decode_all f [] = Some []"
| "decode_all f (x # xs) = (case f x of None \<Rightarrow> None
     | Some y \<Rightarrow> (case decode_all f xs of None \<Rightarrow> None | Some ys \<Rightarrow> Some (y # ys)))"

definition decode_strings :: "json \<Rightarrow> string list option option" where
  "decode_strings v = (case v of
       JArr es \<Rightarrow> map_option Some (decode_all (\<lambda>e. decode_string e []) es)
     | JNull \<Rightarrow> Some None | _ \<Rightarrow> None)"

definition channel_field :: "bytes \<times> json \<Rightarrow> ChannelManifest \<Rightarrow> ChannelManifest option" where
  "channel_field m c =
     (if fold_name (fst m) = ''name''
      then map_option (\<lambda>s. c\<lparr>cm_Name := s\<rparr>) (decode_string (snd m) (cm_Name c))
      else if fold_name (fst m) = ''display_name''
      then map_option (\<lambda>s. c\<lparr>cm_DisplayName := s\<rparr>) (decode_string (snd m) (cm_DisplayName c))
      else None)"

fun decode_fields :: "(bytes \<times> json \<Rightarrow> 'r \<Rightarrow> 'r option) \<Rightarrow> (bytes \<times> json) list \<Rightarrow> 'r \<Rightarrow> 'r option" where
  "decode_fields f [] r = Some r"
| "decode_fields f (m # ms) r = (case f m r of None \<Rightarrow> None | Some r' \<Rightarrow> decode_fields f ms r')"

definition decode_channel :: "json \<Rightarrow> ChannelManifest option" where
  "decode_channel v = (case v of
       JObj ms \<Rightarrow> decode_fields channel_field ms \<lparr>cm_Name = [], cm_DisplayName = []\<rparr>
     | JNull \<Rightarrow> Some \<lparr>cm_Name = [], cm_DisplayName = []\<rparr> | _ \<Rightarrow> None)"

definition decode_channels :: "json \<Rightarrow> ChannelManifest list option" where
  "decode_channels v = (case v of JArr es \<Rightarrow> decode_all decode_channel es | JNull \<Rightarrow> Some [] | _ \<Rightarrow> None)"

definition manifest_field :: "bytes \<times> json \<Rightarrow> Manifest \<Rightarrow> Manifest option" where
  "manifest_field m r =
     (let name = fold_name (fst m); v = snd m in
      if name = ''schema_version'' then map_option (\<lambda>s. r\<lparr>mf_SchemaVersion := s\<rparr>) (decode_string v (mf_SchemaVersion r))
      else if name = ''product_id'' then map_option (\<lambda>s. r\<lparr>mf_ProductID := s\<rparr>) (decode_string v (mf_ProductID r))
      else if name = ''display_name'' then map_option (\<lambda>s. r\<lparr>mf_DisplayName := s\<rparr>) (decode_string v (mf_DisplayName r))
      else if name = ''artifact_types'' then map_option (\<lambda>s. r\<lparr>mf_ArtifactTypes := slice s\<rparr>) (decode_strings v)
      else if name = ''version_scheme'' then map_option (\<lambda>s. r\<lparr>mf_VersionScheme := s\<rparr>) (decode_string v (mf_VersionScheme r))
      else if name = ''compatibility_keys'' then map_option (\<lambda>s. r\<lparr>mf_CompatibilityKeys := s\<rparr>) (decode_strings v)
      else if name = ''catalog_format'' then map_option (\<lambda>s. r\<lparr>mf_CatalogFormat := s\<rparr>) (decode_string v (mf_CatalogFormat r))
      else if name = ''default_channels'' then map_option (\<lambda>s. r\<lparr>mf_DefaultChannels := s\<rparr>) (decode_channels v)
      else None)"

definition empty_manifest :: Manifest where
  "empty_manifest = \<lparr>mf_SchemaVersion = [], mf_ProductID = [], mf_DisplayName = [], mf_ArtifactTypes = [],
     mf_VersionScheme = [], mf_CompatibilityKeys = None, mf_CatalogFormat = [], mf_DefaultChannels = []\<rparr>"

definition decode_manifest :: "json \<Rightarrow> Manifest option" where
  "decode_manifest v = (case v of
       JObj ms \<Rightarrow> decode_fields manifest_field ms empty_manifest
     | JNull \<Rightarrow> Some empty_manifest | _ \<Rightarrow> None)"

definition marshal_strings :: "string list option \<Rightarrow> bytes" where
  "marshal_strings s = (case s of None \<Rightarrow> ''null'' | Some xs \<Rightarrow> marshal_string_list xs)"

definition marshal_channel :: "ChannelManifest \<Rightarrow> bytes" where
  "marshal_channel c = ''{'' @ join_comma [json_field ''name'' (marshal_string (cm_Name c)),
     json_field ''display_name'' (marshal_string (cm_DisplayName c))] @ ''}''"

definition marshal_manifest :: "Manifest \<Rightarrow> bytes" where
  "marshal_manifest m = ''{'' @ join_comma [
     json_field ''schema_version'' (marshal_string (mf_SchemaVersion m)),
     json_field ''product_id'' (marshal_string (mf_ProductID m)),
     json_field ''display_name'' (marshal_string (mf_DisplayName m)),
     json_field ''artifact_types'' (marshal_string_list (mf_ArtifactTypes m)),
     json_field ''version_scheme'' (marshal_string (mf_VersionScheme m)),
     json_field ''compatibility_keys'' (marshal_strings (mf_CompatibilityKeys m)),
     json_field ''catalog_format'' (marshal_string (mf_CatalogFormat m)),
     json_field ''default_channels'' (''['' @ join_comma (map marshal_channel (mf_DefaultChannels m)) @ '']'')]
     @ ''}''"

definition ParseManifest :: "bytes \<Rightarrow> product_error + Manifest \<times> bytes \<times> string" where
  "ParseManifest raw =
     (if raw = [] then Inl ErrManifestInvalid
      else if length raw > maximumManifestBytes then Inl ErrManifestTooLarge
      else res_bind (check_err (rejectDuplicateJSONFields raw)) (\<lambda>_.
        res_bind (of_option ErrManifestInvalid (parse_json raw)) (\<lambda>v.
        res_bind (of_option ErrManifestInvalid (decode_manifest v)) (\<lambda>manifest.
        res_bind (check_err (Manifest_Validate manifest)) (\<lambda>_.
          let canonical = marshal_manifest manifest in
          Inr (manifest, canonical, sha256_hex canonical))))))"

section \<open>Tables\<close>

datatype product_status = ProductStatusActive | ProductStatusInactive

record Channel =
  ch_ProductID :: string
  ch_Name :: string
  ch_DisplayName :: string
  ch_Position :: nat
  ch_CreatedAt :: time

record Product =
  pd_ID :: string
  pd_DisplayName :: string
  pd_SchemaVersion :: string
  pd_ArtifactTypes :: "string list"
  pd_VersionScheme :: string
  pd_CompatibilityKeys :: "string list"
  pd_CatalogFormat :: string
  pd_Manifest :: bytes
  pd_ManifestDigest :: string
  pd_Status :: product_status
  pd_Channels :: "Channel list"
  pd_CreatedBy :: string
  pd_CreatedAt :: time
  pd_UpdatedAt :: time
  pd_DeactivatedAt :: "time option"

text \<open>A row of \<open>products\<close> is a \<open>Product\<close> without its channels.\<close>

record product_db =
  pr_products :: "Product list"
  pr_channels :: "Channel list"

definition product_row_ok :: "Product \<Rightarrow> bool" where
  "product_row_ok p \<longleftrightarrow> matches productIDPattern (pd_ID p) \<and> pg_length_between 1 128 (pd_DisplayName p)
     \<and> pd_SchemaVersion p = ManifestSchemaVersion
     \<and> pd_ArtifactTypes p \<noteq> [] \<and> length (pd_ArtifactTypes p) \<le> 32 \<and> list_all pg_text (pd_ArtifactTypes p)
     \<and> pd_VersionScheme p = ''semver''
     \<and> length (pd_CompatibilityKeys p) \<le> 32 \<and> list_all pg_text (pd_CompatibilityKeys p)
     \<and> pd_CatalogFormat p = ManifestCatalogFormat \<and> json_object (pd_Manifest p)
     \<and> hash_format (pd_ManifestDigest p) \<and> pg_length_between 1 512 (pd_CreatedBy p)
     \<and> (pd_Status p = ProductStatusActive \<longleftrightarrow> pd_DeactivatedAt p = None)
     \<and> pd_CreatedAt p \<le> pd_UpdatedAt p"

definition channel_row_ok :: "Channel list \<Rightarrow> Channel \<Rightarrow> bool" where
  "channel_row_ok rows c \<longleftrightarrow> matches identifierPattern (ch_Name c) \<and> pg_length_between 1 128 (ch_DisplayName c)
     \<and> \<not> tbl_has (\<lambda>r. (ch_ProductID r, ch_Name r)) rows (ch_ProductID c, ch_Name c)
     \<and> \<not> tbl_has (\<lambda>r. (ch_ProductID r, ch_Position r)) rows (ch_ProductID c, ch_Position c)"

fun insert_channels :: "Channel list \<Rightarrow> Channel list \<Rightarrow> product_error + Channel list" where
  "insert_channels rows [] = Inr rows"
| "insert_channels rows (c # cs) =
     (if channel_row_ok rows c then insert_channels (rows @ [c]) cs else Inl ProductDatabase)"

text \<open>The row's manifest column carries the manifest's own id and schema version, which are those of
  the row by construction in \<open>Register\<close>. Unique violations are mapped by their constraint.\<close>

definition repo_Create :: "Product \<Rightarrow> Channel list \<Rightarrow> (product_db, product_error, unit) action" where
  "repo_Create product channels = act_write (\<lambda>db.
     let row = product\<lparr>pd_Channels := [], pd_CreatedAt := pg_timestamp (pd_CreatedAt product),
                 pd_UpdatedAt := pg_timestamp (pd_UpdatedAt product)\<rparr>
     in if \<not> product_row_ok row then Inl ProductDatabase
        else if tbl_has pd_ID (pr_products db) (pd_ID product) then Inl ErrProductIDExists
        else if tbl_has pd_ManifestDigest (pr_products db) (pd_ManifestDigest product) then Inl ErrManifestDigestExists
        else res_bind (insert_channels (pr_channels db) channels) (\<lambda>chs.
          Inr ((), db\<lparr>pr_products := pr_products db @ [row], pr_channels := chs\<rparr>)))"

definition loadChannels :: "product_db \<Rightarrow> string \<Rightarrow> Channel list" where
  "loadChannels db productID =
     sort_key ch_Position (filter (\<lambda>c. ch_ProductID c = productID) (pr_channels db))"

definition scanProduct :: "pg_lib \<Rightarrow> Product \<Rightarrow> Product" where
  "scanProduct pg p = p\<lparr>pd_Manifest := pg_jsonb_text pg (pd_Manifest p)\<rparr>"

definition with_channels :: "pg_lib \<Rightarrow> product_db \<Rightarrow> Product \<Rightarrow> Product" where
  "with_channels pg db p = (scanProduct pg p)\<lparr>pd_Channels := loadChannels db (pd_ID p)\<rparr>"

definition repo_Get :: "pg_lib \<Rightarrow> string \<Rightarrow> product_db \<Rightarrow> product_error + Product" where
  "repo_Get pg productID db =
     (if \<not> pg_text productID then Inl ProductDatabase
      else (case tbl_get pd_ID (pr_products db) productID of
          None \<Rightarrow> Inl ErrProductNotFound
        | Some p \<Rightarrow> Inr (with_channels pg db p)))"

record ProductListScope =
  ls_AllProducts :: bool
  ls_IncludedProductIDs :: "string list"
  ls_ExcludedProductIDs :: "string list"

record Page =
  pg_Limit :: int
  pg_BeforeTime :: time
  pg_BeforeID :: string

record ProductPage =
  pp_Items :: "Product list"
  pp_NextCursor :: string

definition encodePageCursor :: "time \<Rightarrow> string \<Rightarrow> string" where
  "encodePageCursor createdAt productID =
     RawURLEncode (format_time createdAt @ [CHR 0x0A] @ trim_space productID)"

definition scope_includes :: "ProductListScope \<Rightarrow> string \<Rightarrow> bool" where
  "scope_includes sc productID =
     (if ls_AllProducts sc then productID \<notin> set (ls_ExcludedProductIDs sc)
      else productID \<in> set (ls_IncludedProductIDs sc))"

definition before_cursor :: "Page \<Rightarrow> Product \<Rightarrow> bool" where
  "before_cursor page p \<longleftrightarrow>
     pg_BeforeTime page = 0 \<or> (pd_CreatedAt p, pd_ID p) < (pg_timestamp (pg_BeforeTime page), pg_BeforeID page)"

definition listed :: "ProductListScope \<Rightarrow> Page \<Rightarrow> product_db \<Rightarrow> Product list" where
  "listed sc page db = rev (sort_key (\<lambda>p. (pd_CreatedAt p, pd_ID p))
     (filter (\<lambda>p. scope_includes sc (pd_ID p) \<and> before_cursor page p) (pr_products db)))"

definition repo_List :: "pg_lib \<Rightarrow> ProductListScope \<Rightarrow> Page \<Rightarrow> product_db \<Rightarrow> product_error + ProductPage" where
  "repo_List pg sc page db =
     (if \<not> ls_AllProducts sc \<and> ls_IncludedProductIDs sc = [] then Inr \<lparr>pp_Items = [], pp_NextCursor = []\<rparr>
      else if \<not> list_all pg_text (ls_ExcludedProductIDs sc @ ls_IncludedProductIDs sc) \<or> \<not> pg_text (pg_BeforeID page)
      then Inl ProductDatabase
      else
        let items = take (nat (pg_Limit page + 1)) (listed sc page db);
            items' = (if int (length items) > pg_Limit page then take (nat (pg_Limit page)) items else items);
            cursor = (if int (length items) > pg_Limit page
                      then let last = items ! nat (pg_Limit page - 1) in encodePageCursor (pd_CreatedAt last) (pd_ID last)
                      else [])
        in Inr \<lparr>pp_Items = map (with_channels pg db) items', pp_NextCursor = cursor\<rparr>)"

text \<open>The trigger \<open>products_protect_manifest\<close> keeps the registered fields and sets \<open>updated_at\<close> to the
  clock \<open>db_now\<close>, which the constraint requires not to precede \<open>created_at\<close>.\<close>

definition repo_Deactivate :: "pg_lib \<Rightarrow> time \<Rightarrow> string \<Rightarrow> time \<Rightarrow> (product_db, product_error, Product) action" where
  "repo_Deactivate pg db_now productID deactivatedAt = act_write (\<lambda>db.
     if \<not> pg_text productID then Inl ProductDatabase
     else (case tbl_get pd_ID (pr_products db) productID of
         None \<Rightarrow> Inl ErrProductNotFound
       | Some p \<Rightarrow>
           if db_now < pd_CreatedAt p then Inl ProductDatabase
           else
             let row = p\<lparr>pd_Status := ProductStatusInactive, pd_DeactivatedAt := Some (pg_timestamp deactivatedAt),
                         pd_UpdatedAt := db_now\<rparr>
             in Inr ((with_channels pg db p)\<lparr>pd_Status := ProductStatusInactive,
                        pd_DeactivatedAt := Some deactivatedAt, pd_UpdatedAt := db_now\<rparr>,
                     db\<lparr>pr_products := tbl_put pd_ID row (pr_products db)\<rparr>)))"

section \<open>The service\<close>

record product_service =
  ps_repository :: bool
  ps_transactor :: bool
  ps_auditor :: bool

record RequestContext =
  rc_RequestID :: string
  rc_SourceIP :: string

definition validateWriteDependencies :: "product_service \<Rightarrow> product_error option" where
  "validateWriteDependencies service =
     (if \<not> ps_repository service then Some ErrProductRepositoryRequired
      else if \<not> ps_transactor service then Some ErrTransactorRequired
      else if \<not> ps_auditor service then Some ErrAuditAppenderRequired
      else None)"

fun uniqueNonEmpty_loop :: "string list \<Rightarrow> string list \<Rightarrow> string list" where
  "uniqueNonEmpty_loop [] result = result"
| "uniqueNonEmpty_loop (v # vs) result =
     (let v = trim_space v in
      if v = [] \<or> v \<in> set result then uniqueNonEmpty_loop vs result
      else uniqueNonEmpty_loop vs (result @ [v]))"

definition uniqueNonEmpty :: "string list \<Rightarrow> string list" where
  "uniqueNonEmpty vs = uniqueNonEmpty_loop vs []"

definition productAuthorizationProbe :: string where
  "productAuthorizationProbe = ''__authorization_scope_probe__''"

fun require_all_read :: "Principal \<Rightarrow> string list \<Rightarrow> identity_error option" where
  "require_all_read who [] = None"
| "require_all_read who (p # ps) = (case Require who ActionProductRead p of
     Some e \<Rightarrow> Some e | None \<Rightarrow> require_all_read who ps)"

fun list_scope_loop :: "Principal \<Rightarrow> bool \<Rightarrow> string list \<Rightarrow> ProductListScope \<Rightarrow> product_error + ProductListScope" where
  "list_scope_loop who allProducts [] result = Inr result"
| "list_scope_loop who allProducts (p # ps) result =
     (let err = Require who ActionProductRead p in
      if err = None \<and> \<not> allProducts
      then list_scope_loop who allProducts ps (result\<lparr>ls_IncludedProductIDs := ls_IncludedProductIDs result @ [p]\<rparr>)
      else if err = Some ErrActionDenied \<and> allProducts
      then list_scope_loop who allProducts ps (result\<lparr>ls_ExcludedProductIDs := ls_ExcludedProductIDs result @ [p]\<rparr>)
      else (case err of
          None \<Rightarrow> list_scope_loop who allProducts ps result
        | Some e \<Rightarrow> if e = ErrActionDenied then list_scope_loop who allProducts ps result
                   else Inl (ProductIdentity e)))"

definition resolveProductListScope :: "Principal \<Rightarrow> product_error + ProductListScope" where
  "resolveProductListScope who =
     (if \<not> p_Governed who then
        let productIDs = uniqueNonEmpty (p_ProductIDs who) in
        (case require_all_read who productIDs of
           Some e \<Rightarrow> Inl (ProductIdentity e)
         | None \<Rightarrow> Inr \<lparr>ls_AllProducts = False, ls_IncludedProductIDs = productIDs, ls_ExcludedProductIDs = []\<rparr>)
      else
        let allProducts = (Require who ActionProductRead productAuthorizationProbe = None);
            candidates = uniqueNonEmpty (filter (\<lambda>p. p \<noteq> []) (map rs_ProductID (p_RoleScopes who)))
        in list_scope_loop who allProducts candidates
             \<lparr>ls_AllProducts = allProducts, ls_IncludedProductIDs = [], ls_ExcludedProductIDs = []\<rparr>)"

definition Product_Get :: "pg_lib \<Rightarrow> product_service \<Rightarrow> Principal \<Rightarrow> string \<Rightarrow> product_db \<Rightarrow> product_error + Product" where
  "Product_Get pg service who productID db =
     (if \<not> ps_repository service then Inl ErrProductRepositoryRequired
      else let productID = trim_space productID in
        (case Require who ActionProductRead productID of
           Some e \<Rightarrow> Inl (ProductIdentity e)
         | None \<Rightarrow> repo_Get pg productID db))"

definition defaultPageLimit :: int where "defaultPageLimit = 50"
definition maximumPageLimit :: int where "maximumPageLimit = 200"

definition Product_List :: "pg_lib \<Rightarrow> product_service \<Rightarrow> Principal \<Rightarrow> Page \<Rightarrow> product_db \<Rightarrow> product_error + ProductPage" where
  "Product_List pg service who page db =
     (if \<not> ps_repository service then Inl ErrProductRepositoryRequired
      else (case Identity.Validate who of Some e \<Rightarrow> Inl (ProductIdentity e)
        | None \<Rightarrow>
            if pg_Limit page < 0 \<or> pg_Limit page > maximumPageLimit
               \<or> (pg_BeforeID page = []) \<noteq> (pg_BeforeTime page = 0) then Inl ErrPageInvalid
            else
              let page = (if pg_Limit page = 0 then page\<lparr>pg_Limit := defaultPageLimit\<rparr> else page) in
              res_bind (resolveProductListScope who) (\<lambda>sc. repo_List pg sc page db)))"

definition on_products :: "(product_db, product_error, 'a) action \<Rightarrow> (product_db \<times> audit_db, product_error, 'a) action" where
  "on_products m = (\<lambda>(db, au). case m db of (r, db') \<Rightarrow> (r, db', au))"

definition product_audit :: "(audit_db, audit_error, 'a) action \<Rightarrow> (product_db \<times> audit_db, product_error, 'a) action" where
  "product_audit m = (\<lambda>(db, au). case m au of (r, au') \<Rightarrow> (lift_err ProductAudit r, db, au'))"

definition new_channels :: "Manifest \<Rightarrow> time \<Rightarrow> Channel list" where
  "new_channels m now = map (\<lambda>(position, item). \<lparr>ch_ProductID = mf_ProductID m, ch_Name = cm_Name item,
     ch_DisplayName = cm_DisplayName item, ch_Position = position, ch_CreatedAt = now\<rparr>)
     (enumerate 0 (mf_DefaultChannels m))"

definition new_product :: "Principal \<Rightarrow> time \<Rightarrow> Manifest \<times> bytes \<times> string \<Rightarrow> Product" where
  "new_product who now parsed = (case parsed of (m, canonical, digest) \<Rightarrow>
     \<lparr>pd_ID = mf_ProductID m, pd_DisplayName = mf_DisplayName m, pd_SchemaVersion = mf_SchemaVersion m,
      pd_ArtifactTypes = mf_ArtifactTypes m, pd_VersionScheme = mf_VersionScheme m,
      pd_CompatibilityKeys = slice (mf_CompatibilityKeys m), pd_CatalogFormat = mf_CatalogFormat m,
      pd_Manifest = canonical, pd_ManifestDigest = digest, pd_Status = ProductStatusActive,
      pd_Channels = new_channels m now, pd_CreatedBy = trim_space (p_Subject who), pd_CreatedAt = now,
      pd_UpdatedAt = now, pd_DeactivatedAt = None\<rparr>)"

text \<open>The auditor is the audit service with its repository; \<open>call\<close> carries the clock and the fresh ids.\<close>

definition Register :: "uuid_lib \<Rightarrow> product_service \<Rightarrow> audit_call \<Rightarrow> Principal \<Rightarrow> bytes \<Rightarrow> RequestContext \<Rightarrow>
    (product_db \<times> audit_db, product_error, Product) action" where
  "Register u service call who rawManifest request =
     act_bind (act_lift (res_bind (check_err (validateWriteDependencies service)) (\<lambda>_.
         res_bind (check_err (map_option ProductIdentity (Require who ActionProductRegister []))) (\<lambda>_.
           ParseManifest rawManifest)))) (\<lambda>parsed.
       let product = new_product who (truncate_time microsecond (ca_now call)) parsed in
       within_tx (act_bind (on_products (repo_Create product (pd_Channels product))) (\<lambda>_.
         act_bind (product_audit (Append u \<lparr>as_repository = True, as_jobEnqueuer = True\<rparr> call
            \<lparr>ac_Actor = who, ac_Action = ''product.register'', ac_ProductID = pd_ID product,
             ac_ResourceType = ''product'', ac_ResourceID = pd_ID product, ac_Outcome = OutcomeSuccess,
             ac_RequestID = rc_RequestID request, ac_SourceIP = rc_SourceIP request,
             ac_Metadata = [(''manifest_digest'', AnyString (pd_ManifestDigest product)),
                            (''schema_version'', AnyString (pd_SchemaVersion product))]\<rparr>)) (\<lambda>_.
         act_return product))))"

definition Deactivate :: "uuid_lib \<Rightarrow> pg_lib \<Rightarrow> product_service \<Rightarrow> time \<Rightarrow> audit_call \<Rightarrow> Principal \<Rightarrow> string \<Rightarrow>
    RequestContext \<Rightarrow> (product_db \<times> audit_db, product_error, Product) action" where
  "Deactivate u pg service db_now call who productID request =
     (let productID = trim_space productID in
      act_bind (act_lift (res_bind (check_err (validateWriteDependencies service)) (\<lambda>_.
         check_err (map_option ProductIdentity (Require who ActionProductManage productID))))) (\<lambda>_.
      within_tx (act_bind (on_products (repo_Deactivate pg db_now productID
            (truncate_time microsecond (ca_now call)))) (\<lambda>product.
         act_bind (product_audit (Append u \<lparr>as_repository = True, as_jobEnqueuer = True\<rparr> call
            \<lparr>ac_Actor = who, ac_Action = ''product.deactivate'', ac_ProductID = productID,
             ac_ResourceType = ''product'', ac_ResourceID = productID, ac_Outcome = OutcomeSuccess,
             ac_RequestID = rc_RequestID request, ac_SourceIP = rc_SourceIP request, ac_Metadata = []\<rparr>)) (\<lambda>_.
         act_return product)))))"


section \<open>Duplicate fields are found\<close>

fun unique_keys :: "json \<Rightarrow> bool" where
  "unique_keys (JObj ms) = (distinct (map fst ms) \<and> list_all (\<lambda>m. unique_keys (snd m)) ms)"
| "unique_keys (JArr es) = list_all unique_keys es"
| "unique_keys v = True"

lemma unique_keys_scalar: "unique_keys (scalar_value tok)"
  by (cases tok) auto

lemma read_members_step:
  "read_members (Suc n) d = Inr (ms, d') \<longleftrightarrow>
     (if \<not> More d then ms = [] \<and> d' = d
      else \<exists>key d1 v d2 ms'. Token d = Inr (TStr key, d1) \<and> read_value n d1 = Inr (v, d2)
        \<and> read_members n d2 = Inr (ms', d') \<and> ms = (key, v) # ms')"
proof (cases "Token d")
  case (Inr r)
  obtain k d1 where "r = (k, d1)" by (cases r)
  with Inr show ?thesis by (cases k) (auto simp: res_elims)
qed auto

lemma inspect_members_step:
  "inspect_members (Suc n) seen d = Inr d' \<longleftrightarrow>
     (if \<not> More d then d' = d
      else \<exists>key d1 d2. Token d = Inr (TStr key, d1) \<and> key \<notin> seen \<and> inspectJSONValue n d1 = Inr d2
        \<and> inspect_members n (insert key seen) d2 = Inr d')"
proof (cases "Token d")
  case (Inr r)
  obtain k d1 where "r = (k, d1)" by (cases r)
  with Inr show ?thesis by (cases k) (auto simp: res_elims)
qed auto

lemma read_value_step:
  "read_value (Suc n) d = Inr (v, d') \<longleftrightarrow>
     (\<exists>d1 ms d2. Token d = Inr (Delim (CHR ''{''), d1) \<and> read_members n d1 = Inr (ms, d2)
        \<and> Token d2 = Inr (Delim (CHR ''}''), d') \<and> v = JObj ms)
     \<or> (\<exists>d1 es d2. Token d = Inr (Delim (CHR ''[''), d1) \<and> read_elements n d1 = Inr (es, d2)
        \<and> Token d2 = Inr (Delim (CHR '']''), d') \<and> v = JArr es)
     \<or> (\<exists>tok. Token d = Inr (tok, d') \<and> (\<forall>c. tok \<noteq> Delim c) \<and> v = scalar_value tok)"
proof (cases "Token d")
  case (Inr r)
  obtain k d1 where "r = (k, d1)" by (cases r)
  with Inr show ?thesis by (cases k) (auto simp: res_elims split: if_splits)
qed auto

lemma closing_token:
  "(case Token d of Inr (closing, d3) \<Rightarrow> if closing = x then Inr d3 else Inl ErrManifestInvalid
      | Inl _ \<Rightarrow> Inl ErrManifestInvalid) = Inr d' \<longleftrightarrow> Token d = Inr (x, d')"
  by (auto split: sum.splits)

lemma inspect_value_step:
  "inspectJSONValue (Suc n) d = Inr d' \<longleftrightarrow>
     (\<exists>d1 d2. Token d = Inr (Delim (CHR ''{''), d1) \<and> inspect_members n {} d1 = Inr d2
        \<and> Token d2 = Inr (Delim (CHR ''}''), d'))
     \<or> (\<exists>d1 d2. Token d = Inr (Delim (CHR ''[''), d1) \<and> inspect_elements n d1 = Inr d2
        \<and> Token d2 = Inr (Delim (CHR '']''), d'))
     \<or> (\<exists>tok. Token d = Inr (tok, d') \<and> (\<forall>c. tok \<noteq> Delim c))"
proof (cases "Token d")
  case (Inr r)
  obtain k d1 where "r = (k, d1)" by (cases r)
  with Inr show ?thesis by (cases k) (auto simp: res_elims closing_token split: if_splits)
qed auto

lemmas reader_steps = read_members_step inspect_members_step read_value_step inspect_value_step

declare read_value.simps(2) [simp del] read_members.simps(2) [simp del]
  inspectJSONValue.simps(2) [simp del] inspect_members.simps(2) [simp del]

text \<open>The inspection accepts exactly the values \<open>read_value\<close> reads and in which no object has a
  field twice.\<close>

lemma inspect_read:
  "(\<forall>d d'. inspectJSONValue n d = Inr d' \<longleftrightarrow> (\<exists>v. read_value n d = Inr (v, d') \<and> unique_keys v))
   \<and> (\<forall>seen d d'. inspect_members n seen d = Inr d' \<longleftrightarrow> (\<exists>ms. read_members n d = Inr (ms, d')
        \<and> distinct (map fst ms) \<and> set (map fst ms) \<inter> seen = {} \<and> list_all (\<lambda>m. unique_keys (snd m)) ms))
   \<and> (\<forall>d d'. inspect_elements n d = Inr d' \<longleftrightarrow> (\<exists>es. read_elements n d = Inr (es, d') \<and> list_all unique_keys es))"
proof (induction n)
  case 0
  then show ?case by simp
next
  case (Suc n)
  note IHv = Suc [THEN conjunct1, rule_format]
  note IHm = Suc [THEN conjunct2, THEN conjunct1, rule_format]
  note IHe = Suc [THEN conjunct2, THEN conjunct2, rule_format]
  have "inspectJSONValue (Suc n) d = Inr d' \<longleftrightarrow> (\<exists>v. read_value (Suc n) d = Inr (v, d') \<and> unique_keys v)" for d d'
    unfolding reader_steps IHm IHe by (force simp: unique_keys_scalar)
  moreover have "inspect_members (Suc n) seen d = Inr d' \<longleftrightarrow> (\<exists>ms. read_members (Suc n) d = Inr (ms, d')
        \<and> distinct (map fst ms) \<and> set (map fst ms) \<inter> seen = {} \<and> list_all (\<lambda>m. unique_keys (snd m)) ms)" for seen d d'
  proof (cases "More d")
    case True
    show ?thesis
    proof
      assume "inspect_members (Suc n) seen d = Inr d'"
      then obtain key d1 d2 v ms where "Token d = Inr (TStr key, d1)" "key \<notin> seen" "read_value n d1 = Inr (v, d2)"
          "unique_keys v" "read_members n d2 = Inr (ms, d')" "distinct (map fst ms)"
          "set (map fst ms) \<inter> insert key seen = {}" "list_all (\<lambda>m. unique_keys (snd m)) ms"
        using True unfolding reader_steps IHv IHm by auto
      then show "\<exists>ms. read_members (Suc n) d = Inr (ms, d') \<and> distinct (map fst ms)
          \<and> set (map fst ms) \<inter> seen = {} \<and> list_all (\<lambda>m. unique_keys (snd m)) ms"
        using True by (intro exI [of _ "(key, v) # ms"]) (auto simp: read_members_step)
    next
      assume "\<exists>ms. read_members (Suc n) d = Inr (ms, d') \<and> distinct (map fst ms)
          \<and> set (map fst ms) \<inter> seen = {} \<and> list_all (\<lambda>m. unique_keys (snd m)) ms"
      then obtain key d1 v d2 ms where ms: "Token d = Inr (TStr key, d1)" "read_value n d1 = Inr (v, d2)"
          "read_members n d2 = Inr (ms, d')" "distinct (map fst ((key, v) # ms))"
          "set (map fst ((key, v) # ms)) \<inter> seen = {}" "list_all (\<lambda>m. unique_keys (snd m)) ((key, v) # ms)"
        using True by (auto simp: read_members_step)
      then have "inspectJSONValue n d1 = Inr d2" "inspect_members n (insert key seen) d2 = Inr d'"
        using IHv [of d1 d2] IHm [of "insert key seen" d2 d'] by auto
      then show "inspect_members (Suc n) seen d = Inr d'" using True ms by (auto simp: inspect_members_step)
    qed
  qed (simp add: reader_steps)
  moreover have "inspect_elements (Suc n) d = Inr d' \<longleftrightarrow>
      (\<exists>es. read_elements (Suc n) d = Inr (es, d') \<and> list_all unique_keys es)" for d d'
    by (cases "More d") (force simp: res_elims IHv IHe)+
  ultimately show ?case by blast
qed

section \<open>The list scope\<close>

lemma uniqueNonEmpty_set: "set (uniqueNonEmpty vs) = trim_space ` set vs - {[]}"
proof -
  have "set (uniqueNonEmpty_loop vs res) = set res \<union> (trim_space ` set vs - {[]})" for res
    by (induction vs res rule: uniqueNonEmpty_loop.induct) (auto simp: Let_def)
  then show ?thesis by (simp add: uniqueNonEmpty_def)
qed

lemma require_all_read_None: "require_all_read who ps = None \<longleftrightarrow> (\<forall>p \<in> set ps. Require who ActionProductRead p = None)"
  by (induction ps) (auto split: option.splits)

lemma list_scope_loop_eq:
  assumes "\<forall>p \<in> set ps. Require who ActionProductRead p \<in> {None, Some ErrActionDenied}"
  shows "list_scope_loop who al ps res = Inr (res\<lparr>
     ls_IncludedProductIDs := ls_IncludedProductIDs res @ filter (\<lambda>p. \<not> al \<and> Require who ActionProductRead p = None) ps,
     ls_ExcludedProductIDs := ls_ExcludedProductIDs res @ filter (\<lambda>p. al \<and> Require who ActionProductRead p \<noteq> None) ps\<rparr>)"
  using assms by (induction ps arbitrary: res) (auto simp: Let_def)

lemma governed_read:
  assumes "p_Governed who" "Identity.Validate who = None" "trim_space pid \<noteq> []"
  shows "Require who ActionProductRead pid =
    requireGoverned_loop who ActionProductRead pid [] (p_RoleScopes who) False"
  using assms by (simp add: Require_def requireGoverned_def)

text \<open>A product no binding names is decided by the platform bindings alone.\<close>

lemma requireGoverned_loop_cong:
  assumes "\<forall>s \<in> set ss. rs_ProductID s \<noteq> trim_space p1 \<and> rs_ProductID s \<noteq> trim_space p2"
  shows "requireGoverned_loop who a p1 [] ss al = requireGoverned_loop who a p2 [] ss al"
  using assms by (induction ss arbitrary: al) (auto simp: scopeMatches_def)

lemma probe_trim: "trim_space productAuthorizationProbe = productAuthorizationProbe"
  unfolding productAuthorizationProbe_def
  by (rule trim_space_graphic) (simp add: graphic_def in_range_def byte_val_def)

lemma governed_scope_exact:
  assumes gov: "p_Governed who" and ok: "Identity.Validate who = None" and pid: "pid = trim_space pid" "pid \<noteq> []"
    and probe: "productAuthorizationProbe \<notin> rs_ProductID ` set (p_RoleScopes who)"
    and sc: "resolveProductListScope who = Inr sc"
  shows "scope_includes sc pid \<longleftrightarrow> Require who ActionProductRead pid = None"
proof -
  define cands where "cands = uniqueNonEmpty (filter (\<lambda>p. p \<noteq> []) (map rs_ProductID (p_RoleScopes who)))"
  define al where "al = (Require who ActionProductRead productAuthorizationProbe = None)"
  have trimmed: "trim_space p = p \<and> p \<noteq> []" if "p \<in> set cands" for p
    using that by (auto simp: cands_def uniqueNonEmpty_set)
  have two: "Require who ActionProductRead p \<in> {None, Some ErrActionDenied}" if "trim_space p \<noteq> []" for p
    using governed_read [OF gov ok that] requireGoverned_loop_error [of who ActionProductRead p "[]"]
    by (cases "requireGoverned_loop who ActionProductRead p [] (p_RoleScopes who) False") auto
  have sc': "sc = \<lparr>ls_AllProducts = al,
       ls_IncludedProductIDs = filter (\<lambda>p. \<not> al \<and> Require who ActionProductRead p = None) cands,
       ls_ExcludedProductIDs = filter (\<lambda>p. al \<and> Require who ActionProductRead p \<noteq> None) cands\<rparr>"
    using sc gov two trimmed list_scope_loop_eq [of cands who al]
    by (simp add: resolveProductListScope_def Let_def cands_def [symmetric] al_def [symmetric])
  show ?thesis
  proof (cases "pid \<in> set cands")
    case True
    then show ?thesis by (simp add: sc' scope_includes_def)
  next
    case False
    then have "\<forall>s \<in> set (p_RoleScopes who). rs_ProductID s \<noteq> pid"
      using pid by (auto simp: cands_def uniqueNonEmpty_set)
    then have "requireGoverned_loop who ActionProductRead pid [] (p_RoleScopes who) False =
        requireGoverned_loop who ActionProductRead productAuthorizationProbe [] (p_RoleScopes who) False"
      using probe pid by (intro requireGoverned_loop_cong) (force simp: probe_trim)
    then have "Require who ActionProductRead pid = None \<longleftrightarrow> al"
      using governed_read [OF gov ok] pid probe_trim
      by (simp add: al_def productAuthorizationProbe_def)
    then show ?thesis using False by (simp add: sc' scope_includes_def)
  qed
qed

lemma ungoverned_scope_exact:
  assumes gov: "\<not> p_Governed who" and ok: "Identity.Validate who = None" and pid: "pid = trim_space pid" "pid \<noteq> []"
    and sc: "resolveProductListScope who = Inr sc"
  shows "scope_includes sc pid \<longleftrightarrow> Require who ActionProductRead pid = None"
proof -
  have sc': "sc = \<lparr>ls_AllProducts = False, ls_IncludedProductIDs = uniqueNonEmpty (p_ProductIDs who), ls_ExcludedProductIDs = []\<rparr>"
      and all: "\<forall>p \<in> set (uniqueNonEmpty (p_ProductIDs who)). Require who ActionProductRead p = None"
    using sc gov by (auto simp: resolveProductListScope_def Let_def require_all_read_None split: option.splits)
  moreover have "Require who ActionProductRead pid = None \<Longrightarrow> pid \<in> set (uniqueNonEmpty (p_ProductIDs who))"
    using gov ok pid by (auto simp: Require_def isProductScoped_def contains_trimmed_def list_ex_iff uniqueNonEmpty_set
        split: if_splits)
  ultimately show ?thesis by (auto simp: scope_includes_def)
qed


section \<open>Pages\<close>

definition product_db_ok :: "product_db \<Rightarrow> bool" where
  "product_db_ok db \<longleftrightarrow> distinct (map pd_ID (pr_products db))
     \<and> list_all (\<lambda>p. 0 < pd_CreatedAt p \<and> pg_timestamp (pd_CreatedAt p) = pd_CreatedAt p) (pr_products db)"

abbreviation created_key :: "Product \<Rightarrow> time \<times> string" where
  "created_key p \<equiv> (pd_CreatedAt p, pd_ID p)"

lemma listed_after:
  assumes ok: "product_db_ok db" and n: "0 < n" "n < length (listed sc page db)"
    and final: "final = listed sc page db ! (n - 1)"
  shows "listed sc (page\<lparr>pg_BeforeTime := pd_CreatedAt final, pg_BeforeID := pd_ID final\<rparr>) db = drop n (listed sc page db)"
proof -
  let ?P = "\<lambda>p. scope_includes sc (pd_ID p) \<and> before_cursor page p"
  let ?S = "sort_key created_key (filter ?P (pr_products db))"
  let ?page = "page\<lparr>pg_BeforeTime := pd_CreatedAt final, pg_BeforeID := pd_ID final\<rparr>"
  have L: "listed sc page db = rev ?S" by (simp add: listed_def)
  define m where "m = length ?S - n"
  have m: "m < length ?S" "final = ?S ! m" using n final by (auto simp: L rev_nth m_def)
  then have "final \<in> set ?S" by (metis nth_mem)
  then have row: "final \<in> set (pr_products db)" and before: "before_cursor page final" by auto
  have created: "0 < pd_CreatedAt final" "pg_timestamp (pd_CreatedAt final) = pd_CreatedAt final"
    using ok row by (auto simp: product_db_ok_def list_all_iff)
  have "(scope_includes sc (pd_ID p) \<and> before_cursor ?page p) \<longleftrightarrow> ?P p \<and> created_key p < created_key final" for p
    using before created by (auto simp: before_cursor_def intro: less_trans)
  then have "listed sc ?page db = rev (sort_key created_key
      (filter (\<lambda>p. ?P p \<and> created_key p < created_key final) (pr_products db)))"
    by (simp add: listed_def)
  also have "\<dots> = rev (filter (\<lambda>p. created_key p < created_key final) ?S)"
    by (simp add: filter_sort [symmetric] conj_commute)
  also have "filter (\<lambda>p. created_key p < created_key final) ?S = take m ?S"
  proof -
    have "distinct (map pd_ID ?S)"
      using ok by (auto simp: product_db_ok_def distinct_map inj_on_def distinct_filter)
    then have "distinct (map created_key ?S)" by (auto simp: distinct_map inj_on_def)
    then show ?thesis unfolding m(2) by (rule filter_below_nth [OF sorted_sort_key _ m(1)])
  qed
  also have "rev (take m ?S) = drop n (rev ?S)" using n by (simp add: rev_take L m_def)
  finally show ?thesis by (simp add: L)
qed

section \<open>Reachable states\<close>

inductive product_step :: "uuid_lib \<Rightarrow> pg_lib \<Rightarrow> product_db \<times> audit_db \<Rightarrow> product_db \<times> audit_db \<Rightarrow> bool" for u pg where
  step_register: "microsecond \<le> ca_now call \<Longrightarrow> Register u service call who raw request s = (r, s') \<Longrightarrow> product_step u pg s s'"
| step_deactivate: "Deactivate u pg service db_now call who productID request s = (r, s') \<Longrightarrow> product_step u pg s s'"

text \<open>What may happen to a registered product: its registered fields stay, and once inactive it
  stays so.\<close>

definition registered :: "Product \<Rightarrow> Product" where
  "registered p = p\<lparr>pd_Status := ProductStatusActive, pd_DeactivatedAt := None, pd_UpdatedAt := 0\<rparr>"

definition product_follows :: "Product \<Rightarrow> Product \<Rightarrow> bool" where
  "product_follows p q \<longleftrightarrow> registered q = registered p
     \<and> (pd_Status p = ProductStatusInactive \<longrightarrow> pd_Status q = ProductStatusInactive)"

lemma registered_fields:
  assumes "registered q = registered p"
  shows "pd_ID q = pd_ID p" "pd_CreatedAt q = pd_CreatedAt p"
  using arg_cong [OF assms, of pd_ID] arg_cong [OF assms, of pd_CreatedAt] by (simp_all add: registered_def)

lemma on_products_run [act_simps]:
  "on_products m (db, au) = (r, s') \<longleftrightarrow> (\<exists>db'. m db = (r, db') \<and> s' = (db', au))"
  by (auto simp: on_products_def split: prod.splits)

lemma product_audit_run [act_simps]:
  "product_audit m (db, au) = (Inr x, s') \<longleftrightarrow> (\<exists>au'. m au = (Inr x, au') \<and> s' = (db, au'))"
  by (auto simp: product_audit_def split: prod.splits)

lemma Register_Inr:
  assumes "Register u service call who raw request (db, au) = (Inr p, db', au')"
  shows "\<exists>m canonical digest e.
      Require who ActionProductRegister [] = None \<and> ParseManifest raw = Inr (m, canonical, digest)
      \<and> p = new_product who (truncate_time microsecond (ca_now call)) (m, canonical, digest)
      \<and> repo_Create p (pd_Channels p) db = (Inr (), db')
      \<and> au_events au' = au_events au @ [e] \<and> ev_Action e = trim_space ''product.register''
      \<and> ev_ResourceID e = trim_space (pd_ID p)"
  using assms
  by (auto simp: Register_def Let_def act_simps res_elims dest!: Append_event)

lemma Register_Inl: "Register u service call who raw request s = (Inl e, s') \<Longrightarrow> s' = s"
  by (auto simp: Register_def Let_def act_simps)

lemma Deactivate_Inr:
  assumes "Deactivate u pg service db_now call who productID request (db, au) = (Inr p, db', au')"
  shows "\<exists>e. Require who ActionProductManage (trim_space productID) = None
      \<and> repo_Deactivate pg db_now (trim_space productID) (truncate_time microsecond (ca_now call)) db = (Inr p, db')
      \<and> au_events au' = au_events au @ [e] \<and> ev_Action e = trim_space ''product.deactivate''"
  using assms
  by (auto simp: Deactivate_def Let_def act_simps res_elims dest!: Append_event)

lemma Deactivate_Inl: "Deactivate u pg service db_now call who productID request s = (Inl e, s') \<Longrightarrow> s' = s"
  by (auto simp: Deactivate_def Let_def act_simps)

lemma repo_Create_Inr:
  assumes "repo_Create p chs db = (Inr u, db')"
  shows "\<exists>row chs'. pr_products db' = pr_products db @ [row] \<and> pr_channels db' = chs'
     \<and> row = p\<lparr>pd_Channels := [], pd_CreatedAt := pg_timestamp (pd_CreatedAt p), pd_UpdatedAt := pg_timestamp (pd_UpdatedAt p)\<rparr>
     \<and> product_row_ok row \<and> \<not> tbl_has pd_ID (pr_products db) (pd_ID p)
     \<and> \<not> tbl_has pd_ManifestDigest (pr_products db) (pd_ManifestDigest p)
     \<and> insert_channels (pr_channels db) chs = Inr chs'"
  using assms by (auto simp: repo_Create_def act_simps Let_def res_elims split: if_splits)

lemma repo_Deactivate_Inr:
  assumes "repo_Deactivate pg db_now pid t db = (Inr q, db')"
  shows "\<exists>p. tbl_get pd_ID (pr_products db) pid = Some p \<and> pd_ID p = pid
     \<and> db' = db\<lparr>pr_products := tbl_put pd_ID (p\<lparr>pd_Status := ProductStatusInactive,
          pd_DeactivatedAt := Some (pg_timestamp t), pd_UpdatedAt := db_now\<rparr>) (pr_products db)\<rparr>"
  using assms by (auto simp: repo_Deactivate_def act_simps Let_def dest: tbl_get_key split: if_splits option.splits)

lemma product_step_row:
  assumes "product_step u pg s s'" "tbl_get pd_ID (pr_products (fst s)) pid = Some p"
  shows "\<exists>q. tbl_get pd_ID (pr_products (fst s')) pid = Some q \<and> product_follows p q"
  using assms(1)
proof cases
  case (step_register call service who raw request r)
  then show ?thesis using assms(2)
    by (cases r; cases s; cases s')
      (auto simp: tbl_get_snoc product_follows_def dest!: Register_Inl Register_Inr repo_Create_Inr)
next
  case (step_deactivate service db_now call who productID request r)
  then show ?thesis using assms(2)
    by (cases r; cases s; cases s')
      (auto simp: tbl_get_put product_follows_def registered_def dest!: Deactivate_Inl Deactivate_Inr
        repo_Deactivate_Inr dest: tbl_get_key)
qed

lemma truncate_pos: "0 < pg_timestamp (truncate_time microsecond t) \<longleftrightarrow> microsecond \<le> t"
  by (simp add: pg_timestamp_def truncate_time_def microsecond_def minus_mod_eq_mult_div) linarith


lemma product_step_ok:
  assumes "product_step u pg s s'" "product_db_ok (fst s)"
  shows "product_db_ok (fst s')"
  using assms(1)
proof cases
  case (step_register call service who raw request r)
  obtain db au db' au' where s: "s = (db, au)" "s' = (db', au')" by (cases s, cases s')
  show ?thesis
  proof (cases r)
    case (Inl e)
    with step_register assms(2) show ?thesis using Register_Inl by metis
  next
    case (Inr p)
    with step_register s have "Register u service call who raw request (db, au) = (Inr p, db', au')" by simp
    then obtain parsed row where "p = new_product who (truncate_time microsecond (ca_now call)) parsed"
        "row = p\<lparr>pd_Channels := [], pd_CreatedAt := pg_timestamp (pd_CreatedAt p), pd_UpdatedAt := pg_timestamp (pd_UpdatedAt p)\<rparr>"
        "pr_products db' = pr_products db @ [row]" "\<not> tbl_has pd_ID (pr_products db) (pd_ID p)"
      by (auto dest!: Register_Inr repo_Create_Inr)
    then show ?thesis
      using assms(2) step_register(1) s truncate_pos [of "ca_now call"]
      by (auto simp: product_db_ok_def tbl_has_def list_ex_iff new_product_def split: prod.splits)
  qed
next
  case (step_deactivate service db_now call who productID request r)
  obtain db au db' au' where s: "s = (db, au)" "s' = (db', au')" by (cases s, cases s')
  show ?thesis
  proof (cases r)
    case (Inl e)
    with step_deactivate assms(2) show ?thesis using Deactivate_Inl by metis
  next
    case (Inr q)
    with step_deactivate s obtain p where "tbl_get pd_ID (pr_products db) (trim_space productID) = Some p"
        "pr_products db' = tbl_put pd_ID (p\<lparr>pd_Status := ProductStatusInactive,
          pd_DeactivatedAt := Some (pg_timestamp (truncate_time microsecond (ca_now call))), pd_UpdatedAt := db_now\<rparr>) (pr_products db)"
      by (auto dest!: Deactivate_Inr repo_Deactivate_Inr)
    then show ?thesis
      using assms(2) s set_tbl_put [of pd_ID _ "pr_products db"]
      by (auto simp: product_db_ok_def list_all_iff dest!: tbl_get_Some) (fastforce dest: subsetD)+
  qed
qed

lemma product_steps_ok: "(product_step u pg)\<^sup>*\<^sup>* s s' \<Longrightarrow> product_db_ok (fst s) \<Longrightarrow> product_db_ok (fst s')"
  by (induction rule: rtranclp_induct) (auto dest: product_step_ok)

lemma product_steps_row:
  assumes "(product_step u pg)\<^sup>*\<^sup>* s s'" "tbl_get pd_ID (pr_products (fst s)) pid = Some p"
  shows "\<exists>q. tbl_get pd_ID (pr_products (fst s')) pid = Some q \<and> product_follows p q"
  using assms
proof (induction rule: rtranclp_induct)
  case base
  then show ?case by (auto simp: product_follows_def)
next
  case (step y z)
  then obtain q where q: "tbl_get pd_ID (pr_products (fst y)) pid = Some q" "product_follows p q" by blast
  then show ?case using product_step_row [OF step.hyps(2) q(1)] by (auto simp: product_follows_def)
qed

section \<open>Properties\<close>

text \<open>C35. Duplicate fields. \<open>rejectDuplicateJSONFields\<close> accepts exactly the texts that hold one JSON
  value, followed by nothing but white space, in which no object at any depth has a field twice.\<close>

theorem duplicate_fields_rejected_exactly:
  "rejectDuplicateJSONFields raw = None \<longleftrightarrow>
     (\<exists>v d. read_value (fuel_for raw) (new_decoder raw) = Inr (v, d) \<and> skip_space (d_buf d) = [] \<and> unique_keys v)"
proof -
  have "inspectJSONValue (fuel_for raw) (new_decoder raw) = Inr d \<longleftrightarrow>
      (\<exists>v. read_value (fuel_for raw) (new_decoder raw) = Inr (v, d) \<and> unique_keys v)" for d
    using inspect_read by blast
  then show ?thesis
    by (cases "inspectJSONValue (fuel_for raw) (new_decoder raw)") (force simp: rejectDuplicateJSONFields_def)+
qed

text \<open>The list scope is the authorizer. For every principal, governed or not, the products
  \<open>List\<close> selects are exactly those for which \<open>Require\<close> allows \<open>product.read\<close>, so no product leaks
  into a list and none readable is missing.\<close>

theorem list_scope_exact:
  assumes "Identity.Validate who = None" "resolveProductListScope who = Inr sc"
    and "pid = trim_space pid" "pid \<noteq> []"
    and "productAuthorizationProbe \<notin> rs_ProductID ` set (p_RoleScopes who)"
  shows "scope_includes sc pid \<longleftrightarrow> Require who ActionProductRead pid = None"
  using governed_scope_exact [OF _ assms(1,3,4,5,2)] ungoverned_scope_exact [OF _ assms(1,3,4,2)]
  by (cases "p_Governed who") auto

theorem list_scope_exact_witness:
  "\<exists>sc. resolveProductListScope (sample_principal ''ana'' ''human'' 1
      [sample_scope ''admin'' ''allow'' ''platform'' [] [], sample_scope ''admin'' ''deny'' ''product'' ''p1'' []]) = Inr sc
    \<and> \<not> scope_includes sc ''p1''"
proof -
  let ?who = "sample_principal ''ana'' ''human'' 1
      [sample_scope ''admin'' ''allow'' ''platform'' [] [], sample_scope ''admin'' ''deny'' ''product'' ''p1'' []]"
  have p1: "Require ?who ActionProductRead ''p1'' = Some ErrActionDenied"
    by (simp add: Require_def Validate_def sample_principal_def sample_scope_def requireGoverned_def isProductScoped_def
        scopeAllowedByAuthenticationAssurance_def rolePermitsAction_def permissions_def scopeMatches_def sample_text)
  have ok: "Identity.Validate ?who = None"
    by (simp add: Validate_def sample_principal_def sample_text)
  have cands: "uniqueNonEmpty (filter (\<lambda>p. p \<noteq> []) (map rs_ProductID (p_RoleScopes ?who))) = [''p1'']"
    by (simp add: sample_principal_def sample_scope_def uniqueNonEmpty_def sample_text)
  moreover have "p_Governed ?who" by (simp add: sample_principal_def)
  ultimately obtain sc where sc: "resolveProductListScope ?who = Inr sc"
    using p1 list_scope_loop_eq [of "[''p1'']" ?who] by (simp add: resolveProductListScope_def Let_def)
  have "scope_includes sc ''p1'' \<longleftrightarrow> Require ?who ActionProductRead ''p1'' = None"
    by (rule list_scope_exact [OF ok sc])
      (simp_all add: sample_text sample_principal_def sample_scope_def productAuthorizationProbe_def)
  with sc p1 show ?thesis by auto
qed

text \<open>Pages cover the list. A page shows the first \<open>limit\<close> products in order; without a cursor it
  was the rest of the list, and with one, asking again from that cursor's product gives exactly the
  products after the page, none repeated and none skipped.\<close>

theorem product_pages_cover:
  assumes "product_db_ok db" "0 < pg_Limit page" "repo_List pg sc page db = Inr result"
    and "ls_AllProducts sc \<or> ls_IncludedProductIDs sc \<noteq> []"
  shows "map pd_ID (pp_Items result) = map pd_ID (take (nat (pg_Limit page)) (listed sc page db))
    \<and> (if length (listed sc page db) \<le> nat (pg_Limit page) then pp_NextCursor result = []
       else \<exists>final. final = listed sc page db ! (nat (pg_Limit page) - 1)
         \<and> pp_NextCursor result = encodePageCursor (pd_CreatedAt final) (pd_ID final)
         \<and> listed sc (page\<lparr>pg_BeforeTime := pd_CreatedAt final, pg_BeforeID := pd_ID final\<rparr>) db
             = drop (nat (pg_Limit page)) (listed sc page db))"
proof -
  let ?L = "listed sc page db" and ?n = "nat (pg_Limit page)"
  have n: "nat (pg_Limit page + 1) = Suc ?n" "nat (pg_Limit page - 1) = ?n - 1" "0 < ?n" using assms(2) by auto
  have ids: "map pd_ID (map (with_channels pg db) xs) = map pd_ID xs" for xs
    by (simp add: with_channels_def scanProduct_def)
  have len: "int (length (take (Suc ?n) ?L)) > pg_Limit page \<longleftrightarrow> ?n < length ?L" using assms(2) by auto
  have "result = \<lparr>pp_Items = map (with_channels pg db) (if ?n < length ?L then take ?n (take (Suc ?n) ?L) else take (Suc ?n) ?L),
      pp_NextCursor = (if ?n < length ?L then encodePageCursor (pd_CreatedAt (?L ! (?n - 1))) (pd_ID (?L ! (?n - 1))) else [])\<rparr>"
    using assms(3,4) n by (auto simp: repo_List_def Let_def len split: if_splits)
  then show ?thesis
    using listed_after [OF assms(1) n(3), of sc page, OF _ refl] by (auto simp: ids simp del: map_map)
qed

definition sample_product :: "string \<Rightarrow> time \<Rightarrow> Product" where
  "sample_product pid t = \<lparr>pd_ID = pid, pd_DisplayName = ''x'', pd_SchemaVersion = [], pd_ArtifactTypes = [],
     pd_VersionScheme = [], pd_CompatibilityKeys = [], pd_CatalogFormat = [], pd_Manifest = [], pd_ManifestDigest = pid,
     pd_Status = ProductStatusActive, pd_Channels = [], pd_CreatedBy = ''ana'', pd_CreatedAt = t, pd_UpdatedAt = t,
     pd_DeactivatedAt = None\<rparr>"

theorem product_pages_cover_witness:
  "let db = \<lparr>pr_products = [sample_product ''p1'' 1000, sample_product ''x'' 2000], pr_channels = []\<rparr>;
       sc = \<lparr>ls_AllProducts = True, ls_IncludedProductIDs = [], ls_ExcludedProductIDs = []\<rparr> in
   listed sc \<lparr>pg_Limit = 1, pg_BeforeTime = 2000, pg_BeforeID = ''x''\<rparr> db = [sample_product ''p1'' 1000]"
proof -
  let ?db = "\<lparr>pr_products = [sample_product ''p1'' 1000, sample_product ''x'' 2000], pr_channels = []\<rparr>"
  let ?sc = "\<lparr>ls_AllProducts = True, ls_IncludedProductIDs = [], ls_ExcludedProductIDs = []\<rparr>"
  let ?page = "\<lparr>pg_Limit = 1, pg_BeforeTime = 0, pg_BeforeID = []\<rparr>"
  let ?pg = "\<lparr>pg_inet_host = (\<lambda>s. s), pg_jsonb_text = (\<lambda>s. s)\<rparr>"
  have L: "listed ?sc ?page ?db = [sample_product ''x'' 2000, sample_product ''p1'' 1000]"
    by (simp add: listed_def scope_includes_def before_cursor_def sample_product_def)
  have "product_db_ok ?db"
    by (simp add: product_db_ok_def sample_product_def pg_timestamp_def truncate_time_def microsecond_def)
  moreover obtain result where "repo_List ?pg ?sc ?page ?db = Inr result"
    by (simp add: repo_List_def Let_def)
  ultimately show ?thesis
    using product_pages_cover [of ?db ?page ?pg ?sc] L by (simp add: sample_product_def)
qed

text \<open>Registered products are immutable. Through every sequence of registrations and
  deactivations a product keeps everything its manifest registered, is never removed and, once
  inactive, never becomes active again; identifiers stay unique.\<close>

theorem products_immutable:
  assumes "(product_step u pg)\<^sup>*\<^sup>* s s'" "tbl_get pd_ID (pr_products (fst s)) pid = Some p" "product_db_ok (fst s)"
  shows "(\<exists>q. tbl_get pd_ID (pr_products (fst s')) pid = Some q \<and> registered q = registered p
      \<and> (pd_Status p = ProductStatusInactive \<longrightarrow> pd_Status q = ProductStatusInactive))
    \<and> product_db_ok (fst s')"
  using product_steps_row [OF assms(1,2)] product_steps_ok [OF assms(1,3)] by (auto simp: product_follows_def)

theorem products_immutable_witness:
  "\<exists>q. tbl_get pd_ID [sample_product ''p1'' 1000] ''p1'' = Some q \<and> registered q = registered (sample_product ''p1'' 1000)"
proof -
  let ?s = "(\<lparr>pr_products = [sample_product ''p1'' 1000], pr_channels = []\<rparr>, empty_audit)"
  have "(product_step sample_uuid \<lparr>pg_inet_host = (\<lambda>s. s), pg_jsonb_text = (\<lambda>s. s)\<rparr>)\<^sup>*\<^sup>* ?s ?s" by simp
  then show ?thesis
    using products_immutable [of _ _ ?s ?s "''p1''" "sample_product ''p1'' 1000"]
    by (simp add: product_db_ok_def sample_product_def pg_timestamp_def truncate_time_def microsecond_def tbl_get_def)
qed

end
