(* ===== verification/ObjectStore.thy ===== *)
theory ObjectStore
  imports GoStd
begin

text \<open>
  The object storage port of \<open>internal/platform/objectstore\<close> and its MinIO implementation
  (\<open>minio_store.go\<close>). The client library \<open>minio.Core\<close> is the parameter \<open>minio_core\<close>: one action per
  call the store makes, over an arbitrary state of the object server. What the code relies on of the
  server is the predicate \<open>s3_laws\<close>.
\<close>

section \<open>The client\<close>

text \<open>An error is the rejected redirect of the transport or carries the code of
  \<open>minio.ToErrorResponse\<close>.\<close>

datatype minio_error = ErrRedirectRejected int | MinioResponse string

record minio_info =
  mi_Size :: int
  mi_ETag :: string
  mi_ContentType :: string
  mi_LastModified :: time

text \<open>A reader delivers bytes and then ends or fails.\<close>

record reader =
  rd_bytes :: bytes
  rd_fails :: bool

record lock_config =
  lk_Enabled :: string
  lk_Mode :: "string option"
  lk_Days :: "nat option"
  lk_Unit :: "string option"

record 's minio_core =
  mc_NewMultipartUpload :: "string \<Rightarrow> string \<Rightarrow> ('s, minio_error, string) action"
  mc_PutObjectPart :: "string \<Rightarrow> string \<Rightarrow> int \<Rightarrow> bytes \<Rightarrow> int \<Rightarrow> string \<Rightarrow> ('s, minio_error, int \<times> int \<times> string) action"
  mc_CompleteMultipartUpload :: "string \<Rightarrow> string \<Rightarrow> (int \<times> string) list \<Rightarrow> ('s, minio_error, unit) action"
  mc_AbortMultipartUpload :: "string \<Rightarrow> string \<Rightarrow> ('s, minio_error, unit) action"
  mc_SetRange :: "int \<Rightarrow> int \<Rightarrow> string option"
  mc_GetObject :: "string \<Rightarrow> string option \<Rightarrow> ('s, minio_error, reader \<times> minio_info \<times> string) action"
  mc_StatObject :: "string \<Rightarrow> ('s, minio_error, minio_info) action"
  mc_CopyObject :: "string \<Rightarrow> string \<Rightarrow> ('s, minio_error, unit) action"
  mc_RemoveObject :: "string \<Rightarrow> ('s, minio_error, unit) action"
  mc_BucketExists :: "('s, minio_error, bool) action"
  mc_MakeBucket :: "bool \<Rightarrow> ('s, minio_error, unit) action"
  mc_GetObjectLockConfig :: "('s, minio_error, lock_config) action"
  mc_SetObjectLockConfig :: "string \<Rightarrow> nat \<Rightarrow> string \<Rightarrow> ('s, minio_error, unit) action"

section \<open>The store\<close>

datatype store_error =
    ErrConfigurationInvalid | ErrUploadNotFound | ErrObjectNotFound | ErrObjectAlreadyExists
  | ErrSizeMismatch | ErrDigestMismatch | ErrRangeInvalid | ErrImmutableObject | ErrObjectLockInvalid
  | StoreClient minio_error

record Part =
  op_PartNumber :: int
  op_Size :: int
  op_SHA256 :: string
  op_ETag :: string

record ObjectInfo =
  oi_Key :: string
  oi_Size :: int
  oi_ETag :: string
  oi_ContentType :: string
  oi_LastModified :: time

definition RoundTrip :: "minio_error + int \<Rightarrow> minio_error + int" where
  "RoundTrip response = res_bind response (\<lambda>status.
     if 300 \<le> status \<and> status < 400 then Inl (ErrRedirectRejected status) else Inr status)"

definition validateObjectKey :: "string \<Rightarrow> store_error option" where
  "validateObjectKey key =
     (if key = [] \<or> length key > 1024 \<or> has_prefix key ''/'' \<or> has_suffix key ''/''
         \<or> contains_sub key [char_of (92 :: nat)] \<or> contains_sub key ''//''
      then Some ErrConfigurationInvalid
      else if list_ex (\<lambda>segment. segment = [] \<or> segment = ''.'' \<or> segment = ''..'') (split_on (CHR ''/'') key)
      then Some ErrConfigurationInvalid
      else None)"

definition mapMinIOError :: "minio_error \<Rightarrow> store_error" where
  "mapMinIOError err = (case err of
       ErrRedirectRejected s \<Rightarrow> StoreClient err
     | MinioResponse code \<Rightarrow>
         if code \<in> {''NoSuchKey'', ''NotFound'', ''XMinioInvalidObjectName''} then ErrObjectNotFound
         else if code \<in> {''NoSuchUpload'', ''InvalidUploadId''} then ErrUploadNotFound
         else if code \<in> {''EntityTooSmall'', ''EntityTooLarge'', ''IncompleteBody''} then ErrSizeMismatch
         else if code \<in> {''XAmzContentSHA256Mismatch'', ''BadDigest'', ''InvalidDigest''} then ErrDigestMismatch
         else StoreClient err)"

definition client :: "('s, minio_error, 'a) action \<Rightarrow> ('s, store_error, 'a) action" where
  "client m = (\<lambda>s. case m s of (r, s') \<Rightarrow> (lift_err mapMinIOError r, s'))"

definition checked :: "store_error option \<Rightarrow> ('s, store_error, 'a) action \<Rightarrow> ('s, store_error, 'a) action" where
  "checked e m = (case e of Some x \<Rightarrow> act_fail x | None \<Rightarrow> m)"

definition trim_quotes :: "string \<Rightarrow> string" where
  "trim_quotes s = trim_char (char_of (34 :: nat)) s"

definition fromMinIOObjectInfo :: "string \<Rightarrow> minio_info \<Rightarrow> ObjectInfo" where
  "fromMinIOObjectInfo key information =
     \<lparr>oi_Key = key, oi_Size = mi_Size information, oi_ETag = trim_quotes (mi_ETag information),
      oi_ContentType = mi_ContentType information, oi_LastModified = mi_LastModified information\<rparr>"

definition totalSizeFromContentRange :: "string \<Rightarrow> store_error + int" where
  "totalSizeFromContentRange contentRange =
     (case after_char (CHR ''/'') (trim_space contentRange) of
        None \<Rightarrow> Inl ErrRangeInvalid
      | Some totalText \<Rightarrow>
          if totalText = [] \<or> totalText = ''*'' then Inl ErrRangeInvalid
          else (case ParseInt64 totalText of None \<Rightarrow> Inl ErrRangeInvalid
            | Some n \<Rightarrow> if n \<le> 0 then Inl ErrRangeInvalid else Inr n))"

definition BeginMultipart :: "'s minio_core \<Rightarrow> string \<Rightarrow> string \<Rightarrow> ('s, store_error, string) action" where
  "BeginMultipart core key contentType =
     checked (validateObjectKey key) (client (mc_NewMultipartUpload core key contentType))"

text \<open>A nil body is \<open>None\<close>.\<close>

definition store_PutPart :: "'s minio_core \<Rightarrow> string \<Rightarrow> string \<Rightarrow> int \<Rightarrow> bytes option \<Rightarrow> int \<Rightarrow> string \<Rightarrow>
    ('s, store_error, Part) action" where
  "store_PutPart core key uploadID partNumber body sz digest =
     checked (validateObjectKey key) (case body of
         None \<Rightarrow> act_fail ErrConfigurationInvalid
       | Some content \<Rightarrow>
           if trim_space uploadID = [] \<or> partNumber < 1 \<or> sz \<le> 0 then act_fail ErrConfigurationInvalid
           else act_bind (client (mc_PutObjectPart core key uploadID partNumber content sz digest)) (\<lambda>(number, n, etag).
             act_return \<lparr>op_PartNumber = number, op_Size = n, op_SHA256 = digest, op_ETag = trim_quotes etag\<rparr>))"

definition CompleteMultipart :: "'s minio_core \<Rightarrow> string \<Rightarrow> string \<Rightarrow> Part list \<Rightarrow> ('s, store_error, unit) action" where
  "CompleteMultipart core key uploadID parts =
     checked (validateObjectKey key)
       (if trim_space uploadID = [] \<or> parts = [] then act_fail ErrConfigurationInvalid
        else client (mc_CompleteMultipartUpload core key uploadID
          (map (\<lambda>part. (op_PartNumber part, trim_quotes (op_ETag part))) parts)))"

definition AbortMultipart :: "'s minio_core \<Rightarrow> string \<Rightarrow> string \<Rightarrow> ('s, store_error, unit) action" where
  "AbortMultipart core key uploadID =
     checked (validateObjectKey key)
       (if trim_space uploadID = [] then act_fail ErrConfigurationInvalid
        else act_try (client (mc_AbortMultipartUpload core key uploadID)) (\<lambda>r. case r of
            Inl e \<Rightarrow> if e = ErrUploadNotFound then act_return () else act_fail e
          | Inr _ \<Rightarrow> act_return ()))"

definition open_range :: "'s minio_core \<Rightarrow> int \<Rightarrow> int \<Rightarrow> store_error + string option" where
  "open_range core offset len =
     (if offset < 0 \<or> len = 0 \<or> len < -1 \<or> len > 0 \<and> offset > (2 ^ 63 - 1) - (len - 1) then Inl ErrRangeInvalid
      else if offset > 0 \<or> len > 0 then
        (case mc_SetRange core offset (if len < 0 then 0 else offset + len - 1) of
           None \<Rightarrow> Inl ErrRangeInvalid | Some h \<Rightarrow> Inr (Some h))
      else Inr None)"

definition Open :: "'s minio_core \<Rightarrow> string \<Rightarrow> int \<Rightarrow> int \<Rightarrow> ('s, store_error, reader \<times> ObjectInfo) action" where
  "Open core key offset len =
     checked (validateObjectKey key) (act_bind (act_lift (open_range core offset len)) (\<lambda>options.
       act_bind (client (mc_GetObject core key options)) (\<lambda>(rd, information, contentRange).
         let result = fromMinIOObjectInfo key information in
         if contentRange = [] then act_return (rd, result)
         else act_bind (act_lift (totalSizeFromContentRange contentRange)) (\<lambda>n.
           act_return (rd, result\<lparr>oi_Size := n\<rparr>)))))"

definition Stat :: "'s minio_core \<Rightarrow> string \<Rightarrow> ('s, store_error, ObjectInfo) action" where
  "Stat core key =
     checked (validateObjectKey key) (act_bind (client (mc_StatObject core key)) (\<lambda>information.
       act_return (fromMinIOObjectInfo key information)))"

definition store_Delete :: "'s minio_core \<Rightarrow> string \<Rightarrow> ('s, store_error, unit) action" where
  "store_Delete core key =
     checked (validateObjectKey key)
       (if \<not> has_prefix key ''uploads/'' then act_fail ErrImmutableObject
        else client (mc_RemoveObject core key))"

definition Promote :: "'s minio_core \<Rightarrow> string \<Rightarrow> string \<Rightarrow> ('s, store_error, ObjectInfo) action" where
  "Promote core sourceKey destinationKey =
     checked (validateObjectKey sourceKey) (checked (validateObjectKey destinationKey)
       (act_try (Stat core destinationKey) (\<lambda>r. case r of
            Inr _ \<Rightarrow> act_fail ErrObjectAlreadyExists
          | Inl e \<Rightarrow>
              if e \<noteq> ErrObjectNotFound then act_fail e
              else act_bind (client (mc_CopyObject core destinationKey sourceKey)) (\<lambda>_.
                act_bind (Stat core destinationKey) (\<lambda>promoted.
                act_bind (store_Delete core sourceKey) (\<lambda>_.
                act_return promoted))))))"

section \<open>The bucket\<close>

record store_settings =
  ss_objectLocking :: bool
  ss_defaultRetentionDays :: nat

definition ensureObjectLock :: "'s minio_core \<Rightarrow> store_settings \<Rightarrow> ('s, store_error, unit) action" where
  "ensureObjectLock core store =
     (if \<not> ss_objectLocking store \<or> ss_defaultRetentionDays store < 1 then act_fail ErrObjectLockInvalid
      else act_bind (client (mc_GetObjectLockConfig core)) (\<lambda>current.
        if lk_Enabled current \<noteq> ''Enabled'' then act_fail ErrObjectLockInvalid
        else if lk_Mode current \<noteq> Some ''COMPLIANCE'' \<or> lk_Unit current \<noteq> Some ''DAYS''
          \<or> (case lk_Days current of None \<Rightarrow> True | Some d \<Rightarrow> d < ss_defaultRetentionDays store)
        then client (mc_SetObjectLockConfig core ''COMPLIANCE'' (ss_defaultRetentionDays store) ''DAYS'')
        else act_return ()))"

definition EnsureBucket :: "'s minio_core \<Rightarrow> store_settings \<Rightarrow> ('s, store_error, unit) action" where
  "EnsureBucket core store =
     (let lock = (if ss_objectLocking store then ensureObjectLock core store else act_return ()) in
      act_bind (client (mc_BucketExists core)) (\<lambda>found.
        if found then lock
        else act_try (client (mc_MakeBucket core (ss_objectLocking store))) (\<lambda>r. case r of
            Inr _ \<Rightarrow> lock
          | Inl e \<Rightarrow> act_try (client (mc_BucketExists core)) (\<lambda>again.
              if again = Inr True then lock else act_fail e))))"

section \<open>What the server promises\<close>

text \<open>\<open>objects s key\<close> is the content stored under \<open>key\<close>. Reading and the multipart calls before
  completion change no object; a completed upload, a copy and a removal touch their own key only; an
  object is reported missing only when there is none; a copy that reports success copied, one that reports an error copied or did nothing.\<close>

type_synonym 's contents = "'s \<Rightarrow> string \<Rightarrow> bytes option"

definition quiet :: "'s contents \<Rightarrow> ('s, 'e, 'a) action \<Rightarrow> bool" where
  "quiet objects m \<longleftrightarrow> keeps (\<lambda>s s'. objects s' = objects s) m"

definition touches :: "'s contents \<Rightarrow> string \<Rightarrow> ('s, 'e, 'a) action \<Rightarrow> bool" where
  "touches objects key m \<longleftrightarrow> keeps (\<lambda>s s'. \<forall>k. k \<noteq> key \<longrightarrow> objects s' k = objects s k) m"

definition s3_laws :: "'s minio_core \<Rightarrow> 's contents \<Rightarrow> bool" where
  "s3_laws core objects \<longleftrightarrow>
     (\<forall>key ct. quiet objects (mc_NewMultipartUpload core key ct))
   \<and> (\<forall>key uid n body sz digest. quiet objects (mc_PutObjectPart core key uid n body sz digest))
   \<and> (\<forall>key uid. quiet objects (mc_AbortMultipartUpload core key uid))
   \<and> (\<forall>key h. quiet objects (mc_GetObject core key h))
   \<and> (\<forall>key. quiet objects (mc_StatObject core key))
   \<and> (\<forall>key uid parts. touches objects key (mc_CompleteMultipartUpload core key uid parts))
   \<and> (\<forall>key. touches objects key (mc_RemoveObject core key))
   \<and> (\<forall>key s info s'. mc_StatObject core key s = (Inr info, s') \<longrightarrow>
        (\<exists>c. objects s key = Some c \<and> mi_Size info = int (length c)))
   \<and> (\<forall>key s e s'. mc_StatObject core key s = (Inl e, s') \<longrightarrow> mapMinIOError e = ErrObjectNotFound \<longrightarrow>
        objects s key = None)
   \<and> (\<forall>key s rd info h s'. mc_GetObject core key None s = (Inr (rd, info, h), s') \<longrightarrow>
        (\<exists>c. objects s key = Some c \<and> (\<not> rd_fails rd \<longrightarrow> rd_bytes rd = c)))
   \<and> (\<forall>dst src s s'. mc_CopyObject core dst src s = (Inr (), s') \<longrightarrow>
        objects s' = (objects s)(dst := objects s src))
   \<and> (\<forall>dst src s e s'. mc_CopyObject core dst src s = (Inl e, s') \<longrightarrow>
        objects s' = objects s \<or> objects s' = (objects s)(dst := objects s src))"

section \<open>Lemmas\<close>

lemma client_run [act_simps]:
  "client m s = (r, s') \<longleftrightarrow> (\<exists>q. m s = (q, s') \<and> r = lift_err mapMinIOError q)"
  by (cases "m s") (auto simp: client_def)

lemma checked_run [act_simps]:
  "checked e m s = (case e of Some x \<Rightarrow> (Inl x, s) | None \<Rightarrow> m s)"
  by (simp add: checked_def act_simps split: option.splits)

interpretation qt: evolution "\<lambda>s s'. objects s' = objects s" for objects :: "'s contents"
  by unfold_locales auto

interpretation tc: evolution "\<lambda>s s'. \<forall>k. k \<noteq> key \<longrightarrow> objects s' k = objects s k" for objects :: "'s contents" and key
  by unfold_locales auto

lemma quietD: "quiet objects m \<Longrightarrow> m s = (r, s') \<Longrightarrow> objects s' = objects s"
  by (auto simp: quiet_def dest: keepsD)

lemma touchesD: "touches objects key m \<Longrightarrow> m s = (r, s') \<Longrightarrow> k \<noteq> key \<Longrightarrow> objects s' k = objects s k"
  by (auto simp: touches_def dest: keepsD)

lemma quietI: "(\<And>s r s'. m s = (r, s') \<Longrightarrow> objects s' = objects s) \<Longrightarrow> quiet objects m"
  by (auto simp: quiet_def keeps_def)

lemma touchesI: "(\<And>s r s' k. m s = (r, s') \<Longrightarrow> k \<noteq> key \<Longrightarrow> objects s' k = objects s k) \<Longrightarrow> touches objects key m"
  by (auto simp: touches_def keeps_def)

named_theorems quiet_intros \<open>calls that change no object\<close>

lemmas quiet_rules [quiet_intros] = qt.keeps_rules [folded quiet_def]

lemma quiet_client [quiet_intros]: "quiet objects m \<Longrightarrow> quiet objects (client m)"
  by (rule quietI) (auto simp: act_simps dest: quietD)

lemma quiet_checked [quiet_intros]: "quiet objects m \<Longrightarrow> quiet objects (checked e m)"
  by (rule quietI) (auto simp: act_simps dest: quietD split: option.splits)

lemma touches_checked: "touches objects key m \<Longrightarrow> touches objects key (checked e m)"
  by (rule touchesI) (auto simp: act_simps dest: touchesD split: option.splits)

lemma touches_client: "touches objects key m \<Longrightarrow> touches objects key (client m)"
  by (rule touchesI) (auto simp: act_simps dest: touchesD)

lemma quiet_touches: "quiet objects m \<Longrightarrow> touches objects key m"
  by (auto simp: quiet_def touches_def keeps_def)

lemma s3_quiet [quiet_intros]:
  assumes "s3_laws core objects"
  shows "quiet objects (mc_NewMultipartUpload core key ct)"
    "quiet objects (mc_PutObjectPart core key uid n body sz digest)"
    "quiet objects (mc_AbortMultipartUpload core key uid)" "quiet objects (mc_GetObject core key h)"
    "quiet objects (mc_StatObject core key)"
  using assms by (simp_all add: s3_laws_def)

lemma s3_touches:
  assumes "s3_laws core objects"
  shows "touches objects key (mc_CompleteMultipartUpload core key uid parts)"
    "touches objects key (mc_RemoveObject core key)"
  using assms by (simp_all add: s3_laws_def)

lemma s3_stat:
  "s3_laws core objects \<Longrightarrow> mc_StatObject core key s = (Inr info, s') \<Longrightarrow>
    \<exists>c. objects s key = Some c \<and> mi_Size info = int (length c)"
  by (simp add: s3_laws_def)

lemma s3_missing:
  "s3_laws core objects \<Longrightarrow> mc_StatObject core key s = (Inl e, s') \<Longrightarrow> mapMinIOError e = ErrObjectNotFound \<Longrightarrow>
    objects s key = None"
  by (simp add: s3_laws_def)

lemma s3_get:
  "s3_laws core objects \<Longrightarrow> mc_GetObject core key None s = (Inr (rd, info, h), s') \<Longrightarrow>
    \<exists>c. objects s key = Some c \<and> (\<not> rd_fails rd \<longrightarrow> rd_bytes rd = c)"
  by (simp add: s3_laws_def)

lemma s3_copy:
  assumes "s3_laws core objects" "mc_CopyObject core dst src s = (r, s')"
  shows "objects s' = (objects s)(dst := objects s src) \<or> (\<exists>e. r = Inl e) \<and> objects s' = objects s"
proof (cases r)
  case (Inl e)
  have "\<forall>dst src s e s'. mc_CopyObject core dst src s = (Inl e, s') \<longrightarrow>
      objects s' = objects s \<or> objects s' = (objects s)(dst := objects s src)"
    using assms(1) unfolding s3_laws_def by (elim conjE)
  then show ?thesis using assms(2) Inl by blast
next
  case (Inr x)
  then show ?thesis using assms by (simp add: s3_laws_def)
qed

lemma BeginMultipart_quiet: "s3_laws core objects \<Longrightarrow> quiet objects (BeginMultipart core key ct)"
  unfolding BeginMultipart_def by (intro quiet_intros)

lemma store_PutPart_quiet:
  "s3_laws core objects \<Longrightarrow> quiet objects (store_PutPart core key uid n body sz digest)"
  unfolding store_PutPart_def
  by (intro quiet_checked) (auto split: option.split intro!: quiet_intros)

lemma AbortMultipart_quiet: "s3_laws core objects \<Longrightarrow> quiet objects (AbortMultipart core key uid)"
  unfolding AbortMultipart_def
  by (intro quiet_checked) (auto split: sum.split intro!: quiet_intros)

lemma Open_quiet: "s3_laws core objects \<Longrightarrow> quiet objects (Open core key off len)"
  unfolding Open_def
  by (intro quiet_checked quiet_rules) (auto simp: Let_def intro!: quiet_intros)

lemma Stat_quiet: "s3_laws core objects \<Longrightarrow> quiet objects (Stat core key)"
  unfolding Stat_def by (intro quiet_intros)

lemma CompleteMultipart_touches:
  "s3_laws core objects \<Longrightarrow> touches objects key (CompleteMultipart core key uid parts)"
  unfolding CompleteMultipart_def
  by (intro touches_checked) (auto intro!: touches_client s3_touches intro: quiet_touches quiet_rules(1,2))

lemma store_Delete_touches: "s3_laws core objects \<Longrightarrow> touches objects key (store_Delete core key)"
  unfolding store_Delete_def
  by (intro touches_checked) (auto intro!: touches_client s3_touches intro: quiet_touches quiet_rules(1,2))

lemma Stat_Inr:
  assumes laws: "s3_laws core objects" and run: "Stat core key s = (Inr info, s')"
  shows "\<exists>c. objects s key = Some c \<and> oi_Size info = int (length c)"
proof -
  obtain mi t where "mc_StatObject core key s = (Inr mi, t)" "info = fromMinIOObjectInfo key mi"
    using run by (auto simp: Stat_def act_simps split: option.splits)
  then show ?thesis using s3_stat [OF laws] by (fastforce simp: fromMinIOObjectInfo_def)
qed

lemma Stat_missing:
  assumes laws: "s3_laws core objects" and run: "Stat core key s = (Inl ErrObjectNotFound, s')"
  shows "objects s key = None"
proof -
  have "validateObjectKey key \<noteq> Some ErrObjectNotFound" by (simp add: validateObjectKey_def)
  then obtain e t where "mc_StatObject core key s = (Inl e, t)" "mapMinIOError e = ErrObjectNotFound"
    using run by (auto simp: Stat_def act_simps eq_commute [of ErrObjectNotFound] split: option.splits)
  then show ?thesis using s3_missing [OF laws] by blast
qed

lemma Open_Inr:
  assumes laws: "s3_laws core objects" and run: "Open core key 0 (-1) s = (Inr (rd, info), s')"
  shows "\<exists>c. objects s key = Some c \<and> (\<not> rd_fails rd \<longrightarrow> rd_bytes rd = c)"
proof -
  obtain mi h t where "mc_GetObject core key None s = (Inr (rd, mi, h), t)"
    using run by (auto simp: Open_def act_simps open_range_def Let_def split: option.splits if_splits)
  then show ?thesis using s3_get [OF laws] by blast
qed

text \<open>What a promotion does to the objects: on success the destination holds the source's content;
  an existing destination is never overwritten; no other key but the source changes.\<close>

lemma Promote_objects:
  assumes laws: "s3_laws core objects" and run: "Promote core src dst s = (r, s')" and "src \<noteq> dst"
  shows "(\<forall>k. k \<noteq> src \<longrightarrow> k \<noteq> dst \<longrightarrow> objects s' k = objects s k)
    \<and> (objects s' dst = objects s dst \<or> objects s dst = None \<and> objects s' dst = objects s src)
    \<and> (\<forall>info. r = Inr info \<longrightarrow> objects s' dst = objects s src
         \<and> (\<exists>c. objects s src = Some c \<and> oi_Size info = int (length c)))"
proof -
  obtain t q0 where st: "Stat core dst s = (q0, t)" by (metis surj_pair)
  have ts: "objects t = objects s" using quietD [OF Stat_quiet [OF laws] st] .
  show ?thesis
  proof (cases "validateObjectKey src = None \<and> validateObjectKey dst = None \<and> q0 = Inl ErrObjectNotFound")
    case False
    then have "objects s' = objects s \<and> (\<exists>e. r = Inl e)"
      using run st ts by (auto simp: Promote_def act_try_def act_fail_def checked_def split: sum.splits option.splits if_splits)
    then show ?thesis by auto
  next
    case True
    have run2: "act_bind (client (mc_CopyObject core dst src)) (\<lambda>_. act_bind (Stat core dst) (\<lambda>promoted.
        act_bind (store_Delete core src) (\<lambda>_. act_return promoted))) t = (r, s')"
      using run st True by (simp add: Promote_def act_try_def checked_def)
    obtain q t2 where cp: "mc_CopyObject core dst src t = (q, t2)" by (metis surj_pair)
    obtain q3 t3 where st2: "Stat core dst t2 = (q3, t3)" by (metis surj_pair)
    obtain q4 t4 where del: "store_Delete core src t3 = (q4, t4)" by (metis surj_pair)
    have t3: "objects t3 = objects t2" using quietD [OF Stat_quiet [OF laws] st2] .
    have t4: "\<forall>k. k \<noteq> src \<longrightarrow> objects t4 k = objects t3 k"
      using touchesD [OF store_Delete_touches [OF laws] del] by blast
    have t2: "objects t2 = (objects s)(dst := objects s src) \<or> (\<exists>e. q = Inl e) \<and> objects t2 = objects s"
      using s3_copy [OF laws cp] ts by simp
    have sz: "q3 = Inr info \<Longrightarrow> \<exists>c. objects t2 dst = Some c \<and> oi_Size info = int (length c)" for info
      using Stat_Inr [OF laws] st2 by blast
    have out: "(s', r) = (case q of Inl e \<Rightarrow> (t2, Inl (mapMinIOError e)) | Inr _ \<Rightarrow>
        (case q3 of Inl e \<Rightarrow> (t3, Inl e) | Inr info \<Rightarrow>
          (case q4 of Inl e \<Rightarrow> (t4, Inl e) | Inr _ \<Rightarrow> (t4, Inr info))))"
      using run2 cp st2 del by (auto simp: act_bind_def client_def act_return_def split: sum.splits)
    have none: "objects s dst = None" using Stat_missing [OF laws] st True by blast
    show ?thesis
      using out none t2 t3 t4 sz \<open>src \<noteq> dst\<close> by (auto split: sum.splits)
  qed
qed

end
