(* ===== verification/Artifact.thy ===== *)
theory Artifact
  imports Product ObjectStore
begin

text \<open>
  Artifact uploads of \<open>internal/artifact\<close>: the tables \<open>artifacts\<close>, \<open>artifact_product_bindings\<close>,
  \<open>artifact_uploads\<close> and \<open>artifact_upload_parts\<close> with their constraints and triggers
  (\<open>postgres_repository.go\<close>, migrations 000004 and 000005) and the service (\<open>service.go\<close>), which runs
  over a pair of the object server and the database: only the database takes part in a transaction.
\<close>

section \<open>Data\<close>

definition MaximumObjectSize :: int where "MaximumObjectSize = 20 * 1024 * 1024 * 1024"
definition MinimumPartSize :: int where "MinimumPartSize = 5 * 1024 * 1024"
definition MaximumPartSize :: int where "MaximumPartSize = 256 * 1024 * 1024"
definition MaximumPartCount :: int where "MaximumPartCount = 10000"
definition UploadLifetime :: duration where "UploadLifetime = 24 * hour_ns"

datatype artifact_error =
    ErrProductRequired | ErrArtifactTypeInvalid | ErrFilenameInvalid | ErrContentTypeInvalid
  | ErrObjectSizeInvalid | ErrDigestInvalid | ErrDigestMismatch | ErrPartDigestMismatch
  | ErrPartSizeMismatch | ErrPartNumberInvalid | ErrPartSizeInvalid | ErrPartsIncomplete
  | ErrUploadNotFound | ErrUploadProductMismatch | ErrUploadExpired | ErrUploadStateInvalid
  | ErrArtifactNotFound | ErrObjectConflict | ErrRepositoryRequired | ErrTransactorRequired
  | ErrProductReaderRequired | ErrObjectStoreRequired | ErrAuditAppenderRequired | ErrJobEnqueuerRequired
  | ArtifactDatabase
  | ArtifactUUIDUnavailable
  | ArtifactReadFailed
  | ArtifactIdentity identity_error
  | ArtifactProduct product_error
  | ArtifactStore store_error
  | ArtifactAudit audit_error
  | ArtifactJobs "unit job_error"

datatype upload_status =
  UploadStatusUploading | UploadStatusCompleted | UploadStatusQuarantined | UploadStatusExpired

text \<open>The column \<open>artifact_id\<close> is nullable; \<open>GetUpload\<close> reads NULL as the nil UUID.\<close>

record Upload =
  up_ID :: uuid
  up_ProductID :: string
  up_ArtifactType :: string
  up_Filename :: string
  up_ContentType :: string
  up_ExpectedSize :: int
  up_ExpectedSHA256 :: string
  up_StagingKey :: string
  up_ObjectUploadID :: string
  up_Status :: upload_status
  up_ArtifactID :: "uuid option"
  up_ExpiresAt :: time
  up_CreatedBy :: string
  up_CreatedAt :: time
  up_UpdatedAt :: time

record UploadPart =
  pt_UploadID :: uuid
  pt_PartNumber :: int
  pt_Size :: int
  pt_SHA256 :: string
  pt_ETag :: string
  pt_CreatedAt :: time
  pt_UpdatedAt :: time

record Artifact =
  ar_ID :: uuid
  ar_ProductID :: string
  ar_ArtifactType :: string
  ar_Filename :: string
  ar_ContentType :: string
  ar_Size :: int
  ar_SHA256 :: string
  ar_ObjectKey :: string
  ar_CreatedBy :: string
  ar_CreatedAt :: time

record BeginUpload =
  bu_ProductID :: string
  bu_ArtifactType :: string
  bu_Filename :: string
  bu_ContentType :: string
  bu_Size :: int
  bu_SHA256 :: string

record PutPart =
  pp_PartNumber :: int
  pp_Size :: int
  pp_SHA256 :: string

definition ArtifactObjectKey :: "string \<Rightarrow> string" where
  "ArtifactObjectKey digest =
     (if length digest < 2 then [] else ''artifacts/sha256/'' @ take 2 digest @ ''/'' @ digest)"

definition stagingObjectKey :: "uuid_lib \<Rightarrow> uuid \<Rightarrow> string" where
  "stagingObjectKey u uploadID = ''uploads/'' @ u_string u uploadID"

definition sha256Pattern :: regex where
  "sha256Pattern = rep (Cls is_hex) 64"

section \<open>Tables\<close>

record artifact_row =
  af_id :: uuid
  af_sha256 :: string
  af_size_bytes :: int
  af_object_key :: string
  af_created_by :: string
  af_created_at :: time

record binding_row =
  bd_product_id :: string
  bd_artifact_id :: uuid
  bd_artifact_type :: string
  bd_filename :: string
  bd_content_type :: string
  bd_created_by :: string
  bd_created_at :: time

record artifact_db =
  at_artifacts :: "artifact_row list"
  at_bindings :: "binding_row list"
  at_uploads :: "Upload list"
  at_parts :: "UploadPart list"

text \<open>The tables the services share.\<close>

record platform_db =
  pl_products :: product_db
  pl_outbox :: outbox
  pl_audit :: audit_db
  pl_artifacts :: artifact_db

definition on_outbox :: "('f job_error \<Rightarrow> 'e) \<Rightarrow> (outbox, 'f job_error, 'a) action \<Rightarrow> (platform_db, 'e, 'a) action" where
  "on_outbox wrap m = (\<lambda>db. case m (pl_outbox db) of (r, rows) \<Rightarrow> (lift_err wrap r, db\<lparr>pl_outbox := rows\<rparr>))"

definition on_log :: "(audit_error \<Rightarrow> 'e) \<Rightarrow> (audit_db, audit_error, 'a) action \<Rightarrow> (platform_db, 'e, 'a) action" where
  "on_log wrap m = (\<lambda>db. case m (pl_audit db) of (r, au) \<Rightarrow> (lift_err wrap r, db\<lparr>pl_audit := au\<rparr>))"

definition staging_key_pattern :: regex where
  "staging_key_pattern = rep (Cls (\<lambda>c. is_hex c \<or> c = CHR ''-'')) 36"

definition staging_key_format :: "string \<Rightarrow> bool" where
  "staging_key_format key \<longleftrightarrow> has_prefix key ''uploads/'' \<and> matches staging_key_pattern (drop 8 key)"

definition upload_row_ok :: "platform_db \<Rightarrow> Upload \<Rightarrow> bool" where
  "upload_row_ok db up \<longleftrightarrow>
     \<not> tbl_has up_ID (at_uploads (pl_artifacts db)) (up_ID up)
   \<and> tbl_has pd_ID (pr_products (pl_products db)) (up_ProductID up)
   \<and> matches identifierPattern (up_ArtifactType up)
   \<and> pg_length_between 1 255 (up_Filename up) \<and> pg_length_between 1 255 (up_ContentType up)
   \<and> 1 \<le> up_ExpectedSize up \<and> up_ExpectedSize up \<le> 21474836480
   \<and> hash_format (up_ExpectedSHA256 up)
   \<and> staging_key_format (up_StagingKey up) \<and> \<not> tbl_has up_StagingKey (at_uploads (pl_artifacts db)) (up_StagingKey up)
   \<and> pg_length_between 1 1024 (up_ObjectUploadID up) \<and> pg_length_between 1 512 (up_CreatedBy up)
   \<and> up_CreatedAt up < up_ExpiresAt up \<and> up_CreatedAt up \<le> up_UpdatedAt up"

section \<open>Repository\<close>

definition CreateUpload :: "Upload \<Rightarrow> (platform_db, artifact_error, unit) action" where
  "CreateUpload upload = act_write (\<lambda>db.
     let row = upload\<lparr>up_ArtifactID := None, up_ExpiresAt := pg_timestamp (up_ExpiresAt upload),
                 up_CreatedAt := pg_timestamp (up_CreatedAt upload), up_UpdatedAt := pg_timestamp (up_CreatedAt upload)\<rparr>
     in if \<not> upload_row_ok db row \<or> up_Status row = UploadStatusCompleted then Inl ArtifactDatabase
        else Inr ((), db\<lparr>pl_artifacts := (pl_artifacts db)\<lparr>at_uploads := at_uploads (pl_artifacts db) @ [row]\<rparr>\<rparr>))"

definition GetUpload :: "uuid \<Rightarrow> platform_db \<Rightarrow> artifact_error + Upload" where
  "GetUpload uid db = of_option ErrUploadNotFound (tbl_get up_ID (at_uploads (pl_artifacts db)) uid)"

definition upload_artifact :: "Upload \<Rightarrow> uuid" where
  "upload_artifact upload = (case up_ArtifactID upload of None \<Rightarrow> uuid_Nil | Some a \<Rightarrow> a)"

abbreviation part_key :: "UploadPart \<Rightarrow> uuid \<times> int" where
  "part_key p \<equiv> (pt_UploadID p, pt_PartNumber p)"

definition part_row_ok :: "UploadPart \<Rightarrow> bool" where
  "part_row_ok p \<longleftrightarrow> 1 \<le> pt_PartNumber p \<and> pt_PartNumber p \<le> 10000
     \<and> 1 \<le> pt_Size p \<and> pt_Size p \<le> 268435456 \<and> hash_format (pt_SHA256 p)
     \<and> pg_length_between 1 512 (pt_ETag p) \<and> pt_CreatedAt p \<le> pt_UpdatedAt p"

text \<open>The trigger \<open>require_uploading_session_for_part\<close> reads the clock \<open>db_now\<close>.\<close>

definition upload_active :: "time \<Rightarrow> uuid \<Rightarrow> platform_db \<Rightarrow> bool" where
  "upload_active db_now uid db = (case tbl_get up_ID (at_uploads (pl_artifacts db)) uid of
       None \<Rightarrow> False
     | Some up \<Rightarrow> up_Status up = UploadStatusUploading \<and> db_now < up_ExpiresAt up)"

definition SavePart :: "time \<Rightarrow> UploadPart \<Rightarrow> (platform_db, artifact_error, unit) action" where
  "SavePart db_now part = act_write (\<lambda>db.
     let parts = at_parts (pl_artifacts db);
         new = part\<lparr>pt_CreatedAt := pg_timestamp (pt_CreatedAt part), pt_UpdatedAt := pg_timestamp (pt_UpdatedAt part)\<rparr>;
         row = (case tbl_get part_key parts (part_key part) of
             None \<Rightarrow> new | Some old \<Rightarrow> new\<lparr>pt_CreatedAt := pt_CreatedAt old\<rparr>)
     in if \<not> upload_active db_now (pt_UploadID part) db \<or> \<not> part_row_ok new \<or> \<not> part_row_ok row
        then Inl ArtifactDatabase
        else Inr ((), db\<lparr>pl_artifacts := (pl_artifacts db)\<lparr>at_parts :=
          (if tbl_has part_key parts (part_key part) then tbl_put part_key row parts else parts @ [row])\<rparr>\<rparr>))"

definition ListParts :: "uuid \<Rightarrow> platform_db \<Rightarrow> UploadPart list" where
  "ListParts uid db =
     sort_key pt_PartNumber (filter (\<lambda>p. pt_UploadID p = uid) (at_parts (pl_artifacts db)))"

text \<open>The trigger \<open>artifact_uploads_protect_transition\<close> sets \<open>updated_at\<close> to the latest of the old
  value, the new one and the clock. Both updates keep the request fields and leave only the state
  uploading, so it lets them pass.\<close>

definition uploading :: "uuid \<Rightarrow> Upload \<Rightarrow> bool" where
  "uploading uid up \<longleftrightarrow> up_ID up = uid \<and> up_Status up = UploadStatusUploading"

definition set_upload :: "time \<Rightarrow> upload_status \<Rightarrow> uuid option \<Rightarrow> time \<Rightarrow> Upload \<Rightarrow> Upload" where
  "set_upload db_now status artifactID at up = up\<lparr>up_Status := status, up_ArtifactID := artifactID,
     up_UpdatedAt := max (up_UpdatedAt up) (max (pg_timestamp at) db_now)\<rparr>"

definition update_upload :: "time \<Rightarrow> uuid \<Rightarrow> upload_status \<Rightarrow> uuid option \<Rightarrow> time \<Rightarrow>
    (platform_db, artifact_error, unit) action" where
  "update_upload db_now uid status artifactID at = act_write (\<lambda>db.
     let rows = at_uploads (pl_artifacts db) in
     if rows_affected (uploading uid) rows \<noteq> 1 then Inl ErrUploadStateInvalid
     else Inr ((), db\<lparr>pl_artifacts := (pl_artifacts db)\<lparr>at_uploads :=
       update_where (uploading uid) (set_upload db_now status artifactID at) rows\<rparr>\<rparr>))"

definition transitionUpload :: "time \<Rightarrow> uuid \<Rightarrow> upload_status \<Rightarrow> time \<Rightarrow> (platform_db, artifact_error, unit) action" where
  "transitionUpload db_now uid status at = update_upload db_now uid status None at"

definition Quarantine :: "time \<Rightarrow> uuid \<Rightarrow> time \<Rightarrow> (platform_db, artifact_error, unit) action" where
  "Quarantine db_now uid at = transitionUpload db_now uid UploadStatusQuarantined at"

definition Expire :: "time \<Rightarrow> uuid \<Rightarrow> time \<Rightarrow> (platform_db, artifact_error, unit) action" where
  "Expire db_now uid at = transitionUpload db_now uid UploadStatusExpired at"

text \<open>\<open>^artifacts/sha256/[0-9a-f]{2}/[0-9a-f]{64}$\<close>\<close>

definition object_key_format :: "string \<Rightarrow> bool" where
  "object_key_format key \<longleftrightarrow> length key = 84 \<and> has_prefix key ''artifacts/sha256/''
     \<and> list_all is_hex (take 2 (drop 17 key)) \<and> key ! 19 = CHR ''/'' \<and> list_all is_hex (drop 20 key)"

definition artifact_row_ok :: "artifact_row \<Rightarrow> bool" where
  "artifact_row_ok a \<longleftrightarrow> hash_format (af_sha256 a) \<and> 1 \<le> af_size_bytes a \<and> af_size_bytes a \<le> 21474836480
     \<and> object_key_format (af_object_key a)
     \<and> drop (length (af_object_key a) - 64) (af_object_key a) = af_sha256 a
     \<and> pg_length_between 1 512 (af_created_by a)"

definition insert_artifact :: "Artifact \<Rightarrow> artifact_row list \<Rightarrow> artifact_error + artifact_row list" where
  "insert_artifact candidate rows =
     (let row = \<lparr>af_id = ar_ID candidate, af_sha256 = ar_SHA256 candidate, af_size_bytes = ar_Size candidate,
             af_object_key = ar_ObjectKey candidate, af_created_by = ar_CreatedBy candidate,
             af_created_at = pg_timestamp (ar_CreatedAt candidate)\<rparr> in
      if \<not> artifact_row_ok row then Inl ArtifactDatabase
      else if tbl_has af_sha256 rows (af_sha256 row) then Inr rows
      else if tbl_has af_id rows (af_id row) \<or> tbl_has af_object_key rows (af_object_key row) then Inl ArtifactDatabase
      else Inr (rows @ [row]))"

abbreviation binding_key :: "binding_row \<Rightarrow> string \<times> uuid" where
  "binding_key b \<equiv> (bd_product_id b, bd_artifact_id b)"

definition binding_row_ok :: "platform_db \<Rightarrow> binding_row \<Rightarrow> bool" where
  "binding_row_ok db b \<longleftrightarrow> pg_text (bd_product_id b) \<and> matches identifierPattern (bd_artifact_type b)
     \<and> pg_length_between 1 255 (bd_filename b) \<and> pg_length_between 1 255 (bd_content_type b)
     \<and> pg_length_between 1 512 (bd_created_by b)
     \<and> tbl_has pd_ID (pr_products (pl_products db)) (bd_product_id b)"

definition insert_binding :: "platform_db \<Rightarrow> Artifact \<Rightarrow> uuid \<Rightarrow> artifact_error + binding_row list" where
  "insert_binding db candidate aid =
     (let rows = at_bindings (pl_artifacts db);
          row = \<lparr>bd_product_id = ar_ProductID candidate, bd_artifact_id = aid, bd_artifact_type = ar_ArtifactType candidate,
             bd_filename = ar_Filename candidate, bd_content_type = ar_ContentType candidate,
             bd_created_by = ar_CreatedBy candidate, bd_created_at = pg_timestamp (ar_CreatedAt candidate)\<rparr> in
      if \<not> binding_row_ok db row then Inl ArtifactDatabase
      else if tbl_has binding_key rows (binding_key row) then Inr rows
      else Inr (rows @ [row]))"

definition bound_artifact :: "binding_row \<Rightarrow> artifact_row \<Rightarrow> Artifact" where
  "bound_artifact b a = \<lparr>ar_ID = af_id a, ar_ProductID = bd_product_id b, ar_ArtifactType = bd_artifact_type b,
     ar_Filename = bd_filename b, ar_ContentType = bd_content_type b, ar_Size = af_size_bytes a,
     ar_SHA256 = af_sha256 a, ar_ObjectKey = af_object_key a, ar_CreatedBy = bd_created_by b,
     ar_CreatedAt = bd_created_at b\<rparr>"

text \<open>The join over \<open>binding.artifact_id = artifact.id\<close>.\<close>

definition select_bound :: "string \<Rightarrow> artifact_row option \<Rightarrow> artifact_db \<Rightarrow> Artifact option" where
  "select_bound productID row db = (case row of None \<Rightarrow> None
     | Some a \<Rightarrow> (case tbl_get binding_key (at_bindings db) (productID, af_id a) of
           None \<Rightarrow> None | Some b \<Rightarrow> Some (bound_artifact b a)))"

definition GetArtifact :: "string \<Rightarrow> uuid \<Rightarrow> platform_db \<Rightarrow> artifact_error + Artifact" where
  "GetArtifact productID artifactID db =
     (if \<not> pg_text productID then Inl ArtifactDatabase
      else of_option ErrArtifactNotFound (select_bound productID
        (tbl_get af_id (at_artifacts (pl_artifacts db)) artifactID) (pl_artifacts db)))"

definition GetByDigest :: "string \<Rightarrow> string \<Rightarrow> platform_db \<Rightarrow> artifact_error + Artifact" where
  "GetByDigest productID digest db =
     (if \<not> pg_text productID \<or> \<not> pg_text digest then Inl ArtifactDatabase
      else of_option ErrArtifactNotFound (select_bound productID
        (tbl_get af_sha256 (at_artifacts (pl_artifacts db)) digest) (pl_artifacts db)))"

definition candidate_matches :: "Upload \<Rightarrow> Artifact \<Rightarrow> bool" where
  "candidate_matches upload candidate \<longleftrightarrow>
     up_ProductID upload = ar_ProductID candidate \<and> up_ArtifactType upload = ar_ArtifactType candidate
   \<and> up_Filename upload = ar_Filename candidate \<and> up_ContentType upload = ar_ContentType candidate
   \<and> up_ExpectedSize upload = ar_Size candidate \<and> up_ExpectedSHA256 upload = ar_SHA256 candidate"

definition insert_verified :: "Artifact \<Rightarrow> (platform_db, artifact_error, artifact_row) action" where
  "insert_verified candidate = act_write (\<lambda>db.
     res_bind (insert_artifact candidate (at_artifacts (pl_artifacts db))) (\<lambda>rows.
       case tbl_get af_sha256 rows (ar_SHA256 candidate) of
         None \<Rightarrow> Inl ArtifactDatabase
       | Some physical \<Rightarrow>
           if af_size_bytes physical \<noteq> ar_Size candidate \<or> af_object_key physical \<noteq> ar_ObjectKey candidate
           then Inl ErrObjectConflict
           else Inr (physical, db\<lparr>pl_artifacts := (pl_artifacts db)\<lparr>at_artifacts := rows\<rparr>\<rparr>)))"

definition bind_product :: "Artifact \<Rightarrow> uuid \<Rightarrow> (platform_db, artifact_error, unit) action" where
  "bind_product candidate aid = act_write (\<lambda>db. res_bind (insert_binding db candidate aid) (\<lambda>rows.
     Inr ((), db\<lparr>pl_artifacts := (pl_artifacts db)\<lparr>at_bindings := rows\<rparr>\<rparr>)))"

definition bind_completed :: "time \<Rightarrow> uuid \<Rightarrow> Artifact \<Rightarrow> uuid \<Rightarrow> (platform_db, artifact_error, Artifact) action" where
  "bind_completed db_now uid candidate aid =
     act_bind (bind_product candidate aid) (\<lambda>_.
     act_bind (update_upload db_now uid UploadStatusCompleted (Some aid) (ar_CreatedAt candidate)) (\<lambda>_.
     act_read (\<lambda>db. of_option ArtifactDatabase (select_bound (ar_ProductID candidate)
        (tbl_get af_id (at_artifacts (pl_artifacts db)) aid) (pl_artifacts db)))))"

definition repo_Complete :: "time \<Rightarrow> uuid \<Rightarrow> Artifact \<Rightarrow> (platform_db, artifact_error, Artifact) action" where
  "repo_Complete db_now uid candidate =
     act_bind (act_read (\<lambda>db. res_bind (GetUpload uid db) (\<lambda>upload.
        if up_Status upload \<noteq> UploadStatusUploading then Inl ErrUploadStateInvalid
        else if \<not> candidate_matches upload candidate then Inl ErrObjectConflict
        else Inr ()))) (\<lambda>_.
     act_bind (insert_verified candidate) (\<lambda>physical.
     bind_completed db_now uid candidate (af_id physical)))"

section \<open>The service\<close>

record artifact_service =
  sv_repository :: bool
  sv_transactor :: bool
  sv_products :: bool
  sv_store :: bool
  sv_auditor :: bool
  sv_jobs :: bool

text \<open>One call: the service's clock, the database's clock, the identifier \<open>uuid.NewV7\<close> returns to it,
  and what the audit service and the job constructor get.\<close>

record artifact_call =
  cl_now :: time
  cl_db_now :: time
  cl_id :: "uuid option"
  cl_audit :: audit_call

definition validateDependencies :: "artifact_service \<Rightarrow> artifact_error option" where
  "validateDependencies service =
     (if \<not> sv_repository service then Some ErrRepositoryRequired
      else if \<not> sv_transactor service then Some ErrTransactorRequired
      else if \<not> sv_products service then Some ErrProductReaderRequired
      else if \<not> sv_store service then Some ErrObjectStoreRequired
      else if \<not> sv_auditor service then Some ErrAuditAppenderRequired
      else if \<not> sv_jobs service then Some ErrJobEnqueuerRequired
      else None)"

definition filename_ok :: "string \<Rightarrow> bool" where
  "filename_ok name \<longleftrightarrow> (let filename = trim_space name in
     filename \<noteq> [] \<and> filename = name \<and> length filename \<le> 255 \<and> filepath_Base filename = filename
     \<and> \<not> list_ex (\<lambda>c. c = CHR ''/'' \<or> byte_val c = 92) filename \<and> \<not> list_ex (\<lambda>c. byte_val c = 0) filename)"

definition content_type_ok :: "string \<Rightarrow> bool" where
  "content_type_ok ct \<longleftrightarrow> (let contentType = trim_space ct in
     (case ParseMediaType contentType of None \<Rightarrow> False | Some mediaType \<Rightarrow> mediaType \<noteq> [])
     \<and> length contentType \<le> 255)"

definition validateBeginUpload :: "BeginUpload \<Rightarrow> artifact_error option" where
  "validateBeginUpload command =
     (if bu_ProductID command = [] then Some ErrProductRequired
      else if trim_space (bu_ArtifactType command) = [] then Some ErrArtifactTypeInvalid
      else if \<not> filename_ok (bu_Filename command) then Some ErrFilenameInvalid
      else if \<not> content_type_ok (bu_ContentType command) then Some ErrContentTypeInvalid
      else if bu_Size command \<le> 0 \<or> bu_Size command > MaximumObjectSize then Some ErrObjectSizeInvalid
      else if \<not> matches sha256Pattern (bu_SHA256 command) then Some ErrDigestInvalid
      else None)"

text \<open>The loop of \<open>validateCompletionParts\<close> at index \<open>i\<close> of \<open>n\<close> parts. The running total stays below the
  expected size plus one part, far from the bounds of an int64.\<close>

fun completion_loop :: "Upload \<Rightarrow> nat \<Rightarrow> nat \<Rightarrow> int \<Rightarrow> UploadPart list \<Rightarrow> artifact_error + Part list" where
  "completion_loop upload n i acc [] = (if acc \<noteq> up_ExpectedSize upload then Inl ErrPartsIncomplete else Inr [])"
| "completion_loop upload n i acc (part # parts) =
     (if pt_PartNumber part \<noteq> int i + 1 \<or> pt_Size part \<le> 0 \<or> pt_Size part > MaximumPartSize then Inl ErrPartsIncomplete
      else if int i < int n - 1 \<and> pt_Size part < MinimumPartSize then Inl ErrPartsIncomplete
      else if acc + pt_Size part > up_ExpectedSize upload then Inl ErrPartsIncomplete
      else res_bind (completion_loop upload n (Suc i) (acc + pt_Size part) parts) (\<lambda>result.
        Inr (\<lparr>op_PartNumber = pt_PartNumber part, op_Size = pt_Size part, op_SHA256 = pt_SHA256 part,
              op_ETag = pt_ETag part\<rparr> # result)))"

definition validateCompletionParts :: "Upload \<Rightarrow> UploadPart list \<Rightarrow> artifact_error + Part list" where
  "validateCompletionParts upload parts =
     (if parts = [] \<or> int (length parts) > MaximumPartCount then Inl ErrPartsIncomplete
      else completion_loop upload (length parts) 0 0 parts)"

definition on_store :: "('s, store_error, 'a) action \<Rightarrow> ('s \<times> platform_db, store_error, 'a) action" where
  "on_store m = (\<lambda>(st, db). case m st of (r, st') \<Rightarrow> (r, st', db))"

definition on_db :: "(platform_db, 'e, 'a) action \<Rightarrow> ('s \<times> platform_db, 'e, 'a) action" where
  "on_db m = (\<lambda>(st, db). case m db of (r, db') \<Rightarrow> (r, st, db'))"

definition stored :: "('s \<times> platform_db, store_error, 'a) action \<Rightarrow> ('s \<times> platform_db, artifact_error, 'a) action" where
  "stored m = (\<lambda>s. case m s of (r, s') \<Rightarrow> (lift_err ArtifactStore r, s'))"

definition artifact_audit :: "uuid_lib \<Rightarrow> artifact_call \<Rightarrow> Principal \<Rightarrow> RequestContext \<Rightarrow> string \<Rightarrow> string \<Rightarrow> string \<Rightarrow>
    string \<Rightarrow> string \<Rightarrow> metadata \<Rightarrow> (platform_db, artifact_error, Event) action" where
  "artifact_audit u call who request action productID rtype rid outcome md =
     on_log ArtifactAudit (Append u \<lparr>as_repository = True, as_jobEnqueuer = True\<rparr> (cl_audit call)
       \<lparr>ac_Actor = who, ac_Action = action, ac_ProductID = productID, ac_ResourceType = rtype, ac_ResourceID = rid,
        ac_Outcome = outcome, ac_RequestID = rc_RequestID request, ac_SourceIP = rc_SourceIP request,
        ac_Metadata = md\<rparr>)"

definition enqueueCleanup :: "uuid_lib \<Rightarrow> artifact_call \<Rightarrow> Upload \<Rightarrow> time \<Rightarrow> (platform_db, artifact_error, unit) action" where
  "enqueueCleanup u call upload now =
     act_bind (act_lift (lift_err ArtifactJobs (New (ca_job_id (cl_audit call)) ''artifact.cleanup.v1'' (up_ID upload)
        (marshal_string_map [(''upload_id'', u_string u (up_ID upload)), (''staging_key'', up_StagingKey upload),
           (''object_upload_id'', up_ObjectUploadID upload)]) now))) (\<lambda>job.
     on_outbox ArtifactJobs (Enqueue (cl_db_now call) job))"

definition quarantineUpload :: "uuid_lib \<Rightarrow> artifact_call \<Rightarrow> Principal \<Rightarrow> Upload \<Rightarrow> RequestContext \<Rightarrow> int \<Rightarrow> string \<Rightarrow> time \<Rightarrow>
    ('s \<times> platform_db, artifact_error, unit) action" where
  "quarantineUpload u call who upload request actualSize actualDigest now =
     on_db (within_tx (act_bind (Quarantine (cl_db_now call) (up_ID upload) now) (\<lambda>_.
       act_bind (enqueueCleanup u call upload now) (\<lambda>_.
       act_bind (artifact_audit u call who request ''artifact.upload.verify'' (up_ProductID upload) ''artifact_upload''
           (u_string u (up_ID upload)) OutcomeFailed
           [(''expected_sha256'', AnyString (up_ExpectedSHA256 upload)), (''actual_sha256'', AnyString actualDigest),
            (''expected_size'', AnyInt (up_ExpectedSize upload)), (''actual_size'', AnyInt actualSize)]) (\<lambda>_.
       act_return ())))))"

definition expireUpload :: "uuid_lib \<Rightarrow> artifact_call \<Rightarrow> Principal \<Rightarrow> Upload \<Rightarrow> RequestContext \<Rightarrow> time \<Rightarrow>
    ('s \<times> platform_db, artifact_error, unit) action" where
  "expireUpload u call who upload request now =
     on_db (within_tx (act_bind (Expire (cl_db_now call) (up_ID upload) now) (\<lambda>_.
       act_bind (enqueueCleanup u call upload now) (\<lambda>_.
       act_bind (artifact_audit u call who request ''artifact.upload.expire'' (up_ProductID upload) ''artifact_upload''
           (u_string u (up_ID upload)) OutcomeFailed []) (\<lambda>_.
       act_return ())))))"

definition new_upload :: "uuid_lib \<Rightarrow> Principal \<Rightarrow> BeginUpload \<Rightarrow> uuid \<Rightarrow> string \<Rightarrow> time \<Rightarrow> Upload" where
  "new_upload u who command uploadID objectUploadID now =
     \<lparr>up_ID = uploadID, up_ProductID = bu_ProductID command, up_ArtifactType = bu_ArtifactType command,
      up_Filename = bu_Filename command, up_ContentType = bu_ContentType command,
      up_ExpectedSize = bu_Size command, up_ExpectedSHA256 = bu_SHA256 command,
      up_StagingKey = stagingObjectKey u uploadID, up_ObjectUploadID = objectUploadID,
      up_Status = UploadStatusUploading, up_ArtifactID = None, up_ExpiresAt = now + UploadLifetime,
      up_CreatedBy = trim_space (p_Subject who), up_CreatedAt = now, up_UpdatedAt = now\<rparr>"

definition service_BeginUpload :: "uuid_lib \<Rightarrow> pg_lib \<Rightarrow> 's minio_core \<Rightarrow> artifact_service \<Rightarrow> artifact_call \<Rightarrow> Principal \<Rightarrow>
    BeginUpload \<Rightarrow> RequestContext \<Rightarrow> ('s \<times> platform_db, artifact_error, Upload) action" where
  "service_BeginUpload u pg core service call who command request =
     (let command = command\<lparr>bu_ProductID := trim_space (bu_ProductID command)\<rparr> in
      act_bind (act_read (\<lambda>(st, db).
        res_bind (check_err (validateDependencies service)) (\<lambda>_.
        res_bind (check_err (map_option ArtifactIdentity (Require who ActionArtifactPublish (bu_ProductID command)))) (\<lambda>_.
        res_bind (lift_err ArtifactProduct (repo_Get pg (bu_ProductID command) (pl_products db))) (\<lambda>productRecord.
        if pd_Status productRecord \<noteq> ProductStatusActive \<or> bu_ArtifactType command \<notin> set (pd_ArtifactTypes productRecord)
        then Inl ErrArtifactTypeInvalid
        else res_bind (check_err (validateBeginUpload command)) (\<lambda>_.
          of_option ArtifactUUIDUnavailable (cl_id call))))))) (\<lambda>uploadID.
      let now = truncate_time microsecond (cl_now call); stagingKey = stagingObjectKey u uploadID in
      act_bind (stored (on_store (BeginMultipart core stagingKey (bu_ContentType command)))) (\<lambda>objectUploadID.
      let upload = new_upload u who command uploadID objectUploadID now in
      act_try (on_db (within_tx (act_bind (CreateUpload upload) (\<lambda>_.
          artifact_audit u call who request ''artifact.upload.begin'' (up_ProductID upload) ''artifact_upload''
            (u_string u (up_ID upload)) OutcomeSuccess
            [(''artifact_type'', AnyString (up_ArtifactType upload)), (''expected_size'', AnyInt (up_ExpectedSize upload)),
             (''expected_sha256'', AnyString (up_ExpectedSHA256 upload))])))) (\<lambda>r. case r of
          Inl e \<Rightarrow> act_try (on_store (AbortMultipart core stagingKey objectUploadID)) (\<lambda>_. act_fail e)
        | Inr _ \<Rightarrow> act_return upload))))"

text \<open>The upload a part or a completion is for.\<close>

definition find_upload :: "artifact_service \<Rightarrow> Principal \<Rightarrow> string \<Rightarrow> uuid \<Rightarrow> platform_db \<Rightarrow> artifact_error + Upload" where
  "find_upload service who productID uploadID db =
     res_bind (check_err (validateDependencies service)) (\<lambda>_.
     res_bind (check_err (map_option ArtifactIdentity (Require who ActionArtifactPublish productID))) (\<lambda>_.
     res_bind (GetUpload uploadID db) (\<lambda>upload.
       if up_ProductID upload \<noteq> productID then Inl ErrUploadProductMismatch else Inr upload)))"

definition put_error :: "store_error \<Rightarrow> artifact_error" where
  "put_error e = (case e of
       store_error.ErrDigestMismatch \<Rightarrow> ErrPartDigestMismatch
     | store_error.ErrSizeMismatch \<Rightarrow> ErrPartSizeMismatch
     | _ \<Rightarrow> ArtifactStore e)"

definition check_part :: "PutPart \<Rightarrow> bytes option \<Rightarrow> artifact_error option" where
  "check_part command body =
     (if pp_PartNumber command < 1 \<or> pp_PartNumber command > MaximumPartCount then Some ErrPartNumberInvalid
      else if pp_Size command \<le> 0 \<or> pp_Size command > MaximumPartSize then Some ErrPartSizeInvalid
      else if \<not> matches sha256Pattern (pp_SHA256 command) then Some ErrDigestInvalid
      else if body = None then Some ErrPartSizeMismatch
      else None)"

definition service_PutPart :: "uuid_lib \<Rightarrow> 's minio_core \<Rightarrow> artifact_service \<Rightarrow> artifact_call \<Rightarrow> Principal \<Rightarrow> string \<Rightarrow> uuid \<Rightarrow>
    PutPart \<Rightarrow> bytes option \<Rightarrow> RequestContext \<Rightarrow> ('s \<times> platform_db, artifact_error, UploadPart) action" where
  "service_PutPart u core service call who productID uploadID command body request =
     act_bind (act_read (\<lambda>(st, db). res_bind (find_upload service who (trim_space productID) uploadID db) (\<lambda>upload.
        if up_Status upload \<noteq> UploadStatusUploading then Inl ErrUploadStateInvalid else Inr upload))) (\<lambda>upload.
      let now = truncate_time microsecond (cl_now call) in
      if now > up_ExpiresAt upload then
        act_bind (expireUpload u call who upload request now) (\<lambda>_. act_fail ErrUploadExpired)
      else act_bind (act_lift (check_err (check_part command body))) (\<lambda>_.
        act_try (on_store (store_PutPart core (up_StagingKey upload) (up_ObjectUploadID upload)
            (pp_PartNumber command) body (pp_Size command) (pp_SHA256 command))) (\<lambda>r. case r of
          Inl e \<Rightarrow> act_fail (put_error e)
        | Inr put \<Rightarrow>
            let part = \<lparr>pt_UploadID = up_ID upload, pt_PartNumber = pp_PartNumber command, pt_Size = pp_Size command,
                  pt_SHA256 = pp_SHA256 command, pt_ETag = op_ETag put, pt_CreatedAt = now, pt_UpdatedAt = now\<rparr>
            in act_bind (on_db (SavePart (cl_db_now call) part)) (\<lambda>_. act_return part))))"

text \<open>\<open>io.Copy\<close> of a \<open>LimitReader\<close>: an error after the limit is not read.\<close>

definition verifyObject :: "'s minio_core \<Rightarrow> string \<Rightarrow> int \<Rightarrow> ('s \<times> platform_db, artifact_error, int \<times> string) action" where
  "verifyObject core key expectedSize =
     act_bind (stored (on_store (Open core key 0 (-1)))) (\<lambda>(rd, _).
       let limit = nat (expectedSize + 1); written = take limit (rd_bytes rd) in
       if rd_fails rd \<and> length (rd_bytes rd) < limit then act_fail ArtifactReadFailed
       else act_return (int (length written), sha256_hex written))"

text \<open>The candidate object: the staging object, assembled now or before, or the final object when a
  previous attempt got that far.\<close>

definition assemble :: "'s minio_core \<Rightarrow> Upload \<Rightarrow> Part list \<Rightarrow> ('s \<times> platform_db, artifact_error, string) action" where
  "assemble core upload objectParts =
     (let finalKey = ArtifactObjectKey (up_ExpectedSHA256 upload); candidateKey = up_StagingKey upload in
      act_try (on_store (Stat core candidateKey)) (\<lambda>st. case st of
          Inr _ \<Rightarrow> act_return candidateKey
        | Inl statErr \<Rightarrow>
            if statErr \<noteq> ErrObjectNotFound then act_fail (ArtifactStore statErr)
            else act_try (on_store (CompleteMultipart core candidateKey (up_ObjectUploadID upload) objectParts)) (\<lambda>r. case r of
                Inr _ \<Rightarrow> act_return candidateKey
              | Inl completeErr \<Rightarrow> act_try (on_store (Stat core finalKey)) (\<lambda>f. case f of
                    Inl _ \<Rightarrow> act_fail (ArtifactStore completeErr)
                  | Inr _ \<Rightarrow> act_return finalKey))))"

text \<open>The content is not there yet: the candidate is promoted, unless another upload was faster.\<close>

definition promote_or_drop :: "'s minio_core \<Rightarrow> Upload \<Rightarrow> string \<Rightarrow> ('s \<times> platform_db, artifact_error, bool) action" where
  "promote_or_drop core upload key =
     (let finalKey = ArtifactObjectKey (up_ExpectedSHA256 upload) in
      act_try (on_store (Promote core key finalKey)) (\<lambda>p. case p of
          Inl promoteErr \<Rightarrow>
            if promoteErr \<noteq> ErrObjectAlreadyExists then act_fail (ArtifactStore promoteErr)
            else act_try (on_store (Stat core finalKey)) (\<lambda>st2. case st2 of
                Inl _ \<Rightarrow> act_fail ErrObjectConflict
              | Inr existing \<Rightarrow>
                  if oi_Size existing \<noteq> up_ExpectedSize upload then act_fail ErrObjectConflict
                  else act_bind (stored (on_store (store_Delete core key))) (\<lambda>_. act_return True))
        | Inr promoted \<Rightarrow>
            if oi_Size promoted \<noteq> up_ExpectedSize upload then act_fail ErrObjectConflict else act_return False))"

text \<open>Moves the verified candidate to its final key and tells whether the content was there already.\<close>

definition promote_verified :: "'s minio_core \<Rightarrow> Upload \<Rightarrow> string \<Rightarrow> ('s \<times> platform_db, artifact_error, bool) action" where
  "promote_verified core upload candidateKey =
     (let finalKey = ArtifactObjectKey (up_ExpectedSHA256 upload) in
      if candidateKey = finalKey then act_return True
      else act_try (on_store (Stat core finalKey)) (\<lambda>st. case st of
          Inr existing \<Rightarrow>
            if oi_Size existing \<noteq> up_ExpectedSize upload then act_fail ErrObjectConflict
            else act_bind (stored (on_store (store_Delete core candidateKey))) (\<lambda>_. act_return True)
        | Inl statErr \<Rightarrow>
            if statErr \<noteq> ErrObjectNotFound then act_fail (ArtifactStore statErr)
            else promote_or_drop core upload candidateKey))"

definition new_artifact :: "Principal \<Rightarrow> Upload \<Rightarrow> uuid \<Rightarrow> time \<Rightarrow> Artifact" where
  "new_artifact who upload artifactID now =
     \<lparr>ar_ID = artifactID, ar_ProductID = up_ProductID upload, ar_ArtifactType = up_ArtifactType upload,
      ar_Filename = up_Filename upload, ar_ContentType = up_ContentType upload, ar_Size = up_ExpectedSize upload,
      ar_SHA256 = up_ExpectedSHA256 upload, ar_ObjectKey = ArtifactObjectKey (up_ExpectedSHA256 upload),
      ar_CreatedBy = trim_space (p_Subject who), ar_CreatedAt = now\<rparr>"

definition record_artifact :: "uuid_lib \<Rightarrow> artifact_call \<Rightarrow> Principal \<Rightarrow> RequestContext \<Rightarrow> Upload \<Rightarrow> Artifact \<Rightarrow> bool \<Rightarrow>
    (platform_db, artifact_error, Artifact) action" where
  "record_artifact u call who request upload candidate deduplicated =
     within_tx (act_bind (repo_Complete (cl_db_now call) (up_ID upload) candidate) (\<lambda>completed.
       act_bind (artifact_audit u call who request ''artifact.upload.complete'' (up_ProductID upload) ''artifact''
           (u_string u (ar_ID completed)) OutcomeSuccess
           [(''sha256'', AnyString (ar_SHA256 completed)), (''size'', AnyInt (ar_Size completed)),
            (''deduplicated'', AnyBool deduplicated)]) (\<lambda>_.
       act_return completed)))"

text \<open>\<open>Complete\<close> from the promotion, the verification and the assembly on.\<close>

definition publish_object :: "uuid_lib \<Rightarrow> 's minio_core \<Rightarrow> artifact_call \<Rightarrow> Principal \<Rightarrow> Upload \<Rightarrow> RequestContext \<Rightarrow>
    time \<Rightarrow> string \<Rightarrow> ('s \<times> platform_db, artifact_error, Artifact) action" where
  "publish_object u core call who upload request now candidateKey =
     act_bind (promote_verified core upload candidateKey) (\<lambda>deduplicated.
     act_bind (act_lift (of_option ArtifactUUIDUnavailable (cl_id call))) (\<lambda>artifactID.
     on_db (record_artifact u call who request upload (new_artifact who upload artifactID now) deduplicated)))"

definition accept_object :: "uuid_lib \<Rightarrow> 's minio_core \<Rightarrow> artifact_call \<Rightarrow> Principal \<Rightarrow> Upload \<Rightarrow> RequestContext \<Rightarrow>
    time \<Rightarrow> string \<Rightarrow> int \<times> string \<Rightarrow> ('s \<times> platform_db, artifact_error, Artifact) action" where
  "accept_object u core call who upload request now candidateKey actual = (case actual of (actualSize, actualDigest) \<Rightarrow>
     if actualSize \<noteq> up_ExpectedSize upload \<or> actualDigest \<noteq> up_ExpectedSHA256 upload then
       act_bind (quarantineUpload u call who upload request actualSize actualDigest now) (\<lambda>_. act_fail ErrDigestMismatch)
     else publish_object u core call who upload request now candidateKey)"

definition complete_object :: "uuid_lib \<Rightarrow> 's minio_core \<Rightarrow> artifact_call \<Rightarrow> Principal \<Rightarrow> Upload \<Rightarrow> RequestContext \<Rightarrow>
    Part list \<Rightarrow> time \<Rightarrow> ('s \<times> platform_db, artifact_error, Artifact) action" where
  "complete_object u core call who upload request objectParts now =
     act_bind (assemble core upload objectParts) (\<lambda>candidateKey.
     act_bind (verifyObject core candidateKey (up_ExpectedSize upload))
       (accept_object u core call who upload request now candidateKey))"

definition service_Complete :: "uuid_lib \<Rightarrow> 's minio_core \<Rightarrow> artifact_service \<Rightarrow> artifact_call \<Rightarrow> Principal \<Rightarrow> string \<Rightarrow> uuid \<Rightarrow>
    RequestContext \<Rightarrow> ('s \<times> platform_db, artifact_error, Artifact) action" where
  "service_Complete u core service call who productID uploadID request =
     act_bind (act_read (\<lambda>(st, db). find_upload service who (trim_space productID) uploadID db)) (\<lambda>upload.
      let now = truncate_time microsecond (cl_now call) in
      if up_Status upload = UploadStatusCompleted \<and> upload_artifact upload \<noteq> uuid_Nil then
        act_read (\<lambda>(st, db). GetArtifact (up_ProductID upload) (upload_artifact upload) db)
      else if up_Status upload \<noteq> UploadStatusUploading then act_fail ErrUploadStateInvalid
      else if now > up_ExpiresAt upload then
        act_bind (expireUpload u call who upload request now) (\<lambda>_. act_fail ErrUploadExpired)
      else act_bind (act_read (\<lambda>(st, db). validateCompletionParts upload (ListParts (up_ID upload) db))) (\<lambda>objectParts.
        complete_object u core call who upload request objectParts now))"

definition Artifact_Get :: "artifact_service \<Rightarrow> Principal \<Rightarrow> string \<Rightarrow> uuid \<Rightarrow> platform_db \<Rightarrow> artifact_error + Artifact" where
  "Artifact_Get service who productID artifactID db =
     (let productID = trim_space productID in
      res_bind (check_err (validateDependencies service)) (\<lambda>_.
      res_bind (check_err (map_option ArtifactIdentity (Require who ActionProductRead productID))) (\<lambda>_.
        GetArtifact productID artifactID db)))"

section \<open>Running the service's actions\<close>

lemma on_outbox_run [act_simps]:
  "on_outbox wrap m db = (r, db') \<longleftrightarrow>
     (\<exists>q rows. m (pl_outbox db) = (q, rows) \<and> r = lift_err wrap q \<and> db' = db\<lparr>pl_outbox := rows\<rparr>)"
  by (cases "m (pl_outbox db)") (auto simp: on_outbox_def)

lemma on_log_run [act_simps]:
  "on_log wrap m db = (r, db') \<longleftrightarrow>
     (\<exists>q au. m (pl_audit db) = (q, au) \<and> r = lift_err wrap q \<and> db' = db\<lparr>pl_audit := au\<rparr>)"
  by (cases "m (pl_audit db)") (auto simp: on_log_def)

lemma on_store_run [act_simps]:
  "on_store m s = (r, s') \<longleftrightarrow> (\<exists>st'. m (fst s) = (r, st') \<and> s' = (st', snd s))"
  by (cases s; cases "m (fst s)") (auto simp: on_store_def)

lemma on_db_run [act_simps]:
  "on_db m s = (r, s') \<longleftrightarrow> (\<exists>db'. m (snd s) = (r, db') \<and> s' = (fst s, db'))"
  by (cases s; cases "m (snd s)") (auto simp: on_db_def)

lemma on_db_eq: "on_db m s = (case m (snd s) of (r, db') \<Rightarrow> (r, fst s, db'))"
  by (cases s) (simp add: on_db_def)

lemma stored_run [act_simps]:
  "stored m s = (r, s') \<longleftrightarrow> (\<exists>q. m s = (q, s') \<and> r = lift_err ArtifactStore q)"
  by (cases "m s") (auto simp: stored_def)

section \<open>The parts of a completion\<close>

text \<open>A list of parts is accepted exactly when it is the sequence 1 to n, every part is within the
  limits, every part but the last has the minimum size and the sizes add up to the expected size.\<close>

definition parts_complete :: "Upload \<Rightarrow> UploadPart list \<Rightarrow> bool" where
  "parts_complete upload parts \<longleftrightarrow>
     map pt_PartNumber parts = map (\<lambda>i. int i + 1) [0..<length parts]
   \<and> (\<forall>p\<in>set parts. 0 < pt_Size p \<and> pt_Size p \<le> MaximumPartSize)
   \<and> (\<forall>p\<in>set (butlast parts). MinimumPartSize \<le> pt_Size p)
   \<and> sum_list (map pt_Size parts) = up_ExpectedSize upload"

definition object_part :: "UploadPart \<Rightarrow> Part" where
  "object_part p = \<lparr>op_PartNumber = pt_PartNumber p, op_Size = pt_Size p, op_SHA256 = pt_SHA256 p, op_ETag = pt_ETag p\<rparr>"

lemma sum_sizes_nonneg: "\<forall>p\<in>set parts. 0 < pt_Size p \<Longrightarrow> 0 \<le> sum_list (map pt_Size parts)"
  by (induction parts) auto

lemma completion_loop_Inr:
  assumes "n = i + length parts"
  shows "completion_loop upload n i acc parts = Inr result \<longleftrightarrow>
     map pt_PartNumber parts = map (\<lambda>k. int k + 1) [i..<n]
   \<and> (\<forall>p\<in>set parts. 0 < pt_Size p \<and> pt_Size p \<le> MaximumPartSize)
   \<and> (\<forall>p\<in>set (butlast parts). MinimumPartSize \<le> pt_Size p)
   \<and> acc + sum_list (map pt_Size parts) = up_ExpectedSize upload \<and> result = map object_part parts"
  using assms
proof (induction parts arbitrary: i acc result)
  case Nil
  then show ?case by auto
next
  case (Cons p parts)
  have n: "n = Suc i + length parts" using Cons.prems by simp
  have upt: "[i..<n] = i # [Suc i..<n]" using n by (intro upt_conv_Cons) simp
  have later: "int i < int n - 1 \<longleftrightarrow> parts \<noteq> []" using n by (cases parts) auto
  have low: "0 \<le> sum_list (map pt_Size parts)" if "\<forall>p\<in>set parts. 0 < pt_Size p \<and> pt_Size p \<le> MaximumPartSize"
    using that by (intro sum_sizes_nonneg) auto
  show ?case
    using low later by (auto simp: Cons.IH [OF n] upt res_elims object_part_def split: if_splits)
qed

text \<open>Completion accepts the recorded parts exactly when they are numbered 1 to n without a gap,
  are at most 10000, have the permitted sizes and add up to the announced size; it then hands the
  object store exactly these parts in order.\<close>

theorem completion_parts_exact:
  "validateCompletionParts upload parts = Inr result \<longleftrightarrow>
     parts \<noteq> [] \<and> length parts \<le> 10000 \<and> parts_complete upload parts \<and> result = map object_part parts"
  by (auto simp: validateCompletionParts_def completion_loop_Inr parts_complete_def MaximumPartCount_def)

section \<open>What the service does to the objects\<close>

definition content_addressed :: "'s contents \<Rightarrow> 's \<Rightarrow> bool" where
  "content_addressed objects st \<longleftrightarrow>
     (\<forall>d c. hash_format d \<longrightarrow> objects st (ArtifactObjectKey d) = Some c \<longrightarrow> sha256_hex c = d)"

definition holds_content :: "'s contents \<Rightarrow> 's \<Rightarrow> string \<Rightarrow> int \<Rightarrow> bool" where
  "holds_content objects st d n \<longleftrightarrow>
     (\<exists>c. objects st (ArtifactObjectKey d) = Some c \<and> sha256_hex c = d \<and> int (length c) = n)"

text \<open>Outside the staging area a step only adds objects, and only under the key of their digest.\<close>

definition grows :: "'s contents \<Rightarrow> 's \<Rightarrow> 's \<Rightarrow> bool" where
  "grows objects st st' \<longleftrightarrow>
     (\<forall>k. \<not> has_prefix k ''uploads/'' \<longrightarrow> objects st k \<noteq> None \<longrightarrow> objects st' k = objects st k)
   \<and> (content_addressed objects st \<longrightarrow> content_addressed objects st')"

interpretation gr: evolution "grows objects" for objects :: "'s contents"
  by unfold_locales (auto simp: grows_def)

abbreviation keeps_store :: "'s contents \<Rightarrow> ('s \<times> platform_db, 'e, 'a) action \<Rightarrow> bool" where
  "keeps_store objects m \<equiv> keeps (\<lambda>s s'. grows objects (fst s) (fst s')) m"

interpretation gs: evolution "\<lambda>s s'. grows objects (fst s) (fst s')" for objects :: "'s contents"
  by unfold_locales (auto intro: gr.R_refl gr.R_trans)

lemma artifact_key: "\<not> has_prefix (ArtifactObjectKey d) ''uploads/''"
  by (auto simp: ArtifactObjectKey_def has_prefix_def)

lemma artifact_key_inj:
  assumes "hash_format d" "hash_format e" "ArtifactObjectKey d = ArtifactObjectKey e"
  shows "d = e"
  using assms by (auto simp: ArtifactObjectKey_def hash_format_def)

lemma grows_outside:
  assumes "\<And>k. \<not> has_prefix k ''uploads/'' \<Longrightarrow> objects st' k = objects st k"
  shows "grows objects st st'"
  using assms artifact_key by (auto simp: grows_def content_addressed_def)

lemma quiet_grows: "quiet objects m \<Longrightarrow> keeps_store objects (on_store m)"
  by (rule keepsI) (auto simp: act_simps dest!: quietD intro!: grows_outside)

lemma touches_grows: "touches objects key m \<Longrightarrow> has_prefix key ''uploads/'' \<Longrightarrow> keeps_store objects (on_store m)"
  by (rule keepsI) (auto simp: act_simps intro!: grows_outside dest: touchesD)

lemma on_db_grows: "keeps_store objects (on_db m)"
  by (rule keepsI) (auto simp: act_simps gr.R_refl)

lemma stored_keeps: "keeps R m \<Longrightarrow> keeps R (stored m)"
  by (rule keepsI) (auto simp: act_simps dest: keepsD)

lemmas store_keeps = stored_keeps on_db_grows quiet_grows [OF Stat_quiet] quiet_grows [OF Open_quiet]
  quiet_grows [OF BeginMultipart_quiet] quiet_grows [OF AbortMultipart_quiet] quiet_grows [OF store_PutPart_quiet]
  touches_grows [OF CompleteMultipart_touches] touches_grows [OF store_Delete_touches]

lemma verifyObject_grows: "s3_laws core objects \<Longrightarrow> keeps_store objects (verifyObject core key n)"
  unfolding verifyObject_def
  by (intro gs.keeps_bind store_keeps) (auto simp: Let_def intro!: gs.keeps_basic)

lemma assemble_grows:
  "s3_laws core objects \<Longrightarrow> has_prefix (up_StagingKey upload) ''uploads/'' \<Longrightarrow>
   keeps_store objects (assemble core upload parts)"
  unfolding assemble_def Let_def
  by (auto split: sum.split intro!: gs.keeps_rules store_keeps)

text \<open>Verification that reports the expected size read the whole object.\<close>

lemma verifyObject_Inr:
  assumes "s3_laws core objects" "verifyObject core key n s = (Inr (n, d), s')"
  shows "\<exists>c. objects (fst s) key = Some c \<and> int (length c) = n \<and> sha256_hex c = d"
    and "objects (fst s') = objects (fst s)" and "snd s' = snd s"
proof -
  obtain rd info t where open_run: "Open core key 0 (-1) (fst s) = (Inr (rd, info), t)" and s': "s' = (t, snd s)"
      and n: "n = int (length (take (nat (n + 1)) (rd_bytes rd)))" "d = sha256_hex (take (nat (n + 1)) (rd_bytes rd))"
        "\<not> (rd_fails rd \<and> length (rd_bytes rd) < nat (n + 1))"
    using assms(2) by (auto simp: verifyObject_def act_simps Let_def split: if_splits)
  have "length (rd_bytes rd) < nat (n + 1)" using n(1) by (auto simp: min_def split: if_splits)
  then have "\<not> rd_fails rd" "take (nat (n + 1)) (rd_bytes rd) = rd_bytes rd" using n(3) by auto
  moreover obtain c where "objects (fst s) key = Some c" "\<not> rd_fails rd \<longrightarrow> rd_bytes rd = c"
    using Open_Inr [OF assms(1) open_run] by blast
  ultimately show "\<exists>c. objects (fst s) key = Some c \<and> int (length c) = n \<and> sha256_hex c = d"
    using n by auto
  show "objects (fst s') = objects (fst s)" "snd s' = snd s"
    using s' quietD [OF Open_quiet [OF assms(1)] open_run] by auto
qed

lemma assemble_Inr:
  assumes "assemble core upload parts s = (Inr key, s')"
  shows "(key = up_StagingKey upload \<or> key = ArtifactObjectKey (up_ExpectedSHA256 upload)) \<and> snd s' = snd s"
  using assms by (auto simp: assemble_def act_simps Let_def split: sum.splits if_splits)

text \<open>Promoting a verified candidate makes the content available under its digest.\<close>

lemma promote_grows:
  assumes laws: "s3_laws core objects" and run: "Promote core src (ArtifactObjectKey d) st = (r, st')"
    and src: "has_prefix src ''uploads/''" "objects st src = Some c" "sha256_hex c = d" and d: "hash_format d"
  shows "grows objects st st'"
proof -
  have ne: "src \<noteq> ArtifactObjectKey d" using src(1) artifact_key by metis
  note P = Promote_objects [OF laws run ne]
  have "sha256_hex c' = e" if "content_addressed objects st" "hash_format e" "objects st' (ArtifactObjectKey e) = Some c'" for e c'
  proof (cases "ArtifactObjectKey e = ArtifactObjectKey d")
    case True
    then have "e = d" using artifact_key_inj that(2) d by blast
    then show ?thesis using P that src d by (auto simp: content_addressed_def)
  next
    case False
    then have "objects st' (ArtifactObjectKey e) = objects st (ArtifactObjectKey e)"
      using P src(1) artifact_key by metis
    then show ?thesis using that by (auto simp: content_addressed_def)
  qed
  moreover have "objects st' k = objects st k" if "\<not> has_prefix k ''uploads/''" "objects st k \<noteq> None" for k
    using P that src(1) by (cases "k = ArtifactObjectKey d") auto
  ultimately show ?thesis by (auto simp: grows_def content_addressed_def)
qed

lemma holds_content_grows: "holds_content objects st d n \<Longrightarrow> grows objects st st' \<Longrightarrow> holds_content objects st' d n"
  using artifact_key by (fastforce simp: holds_content_def grows_def)

lemma existing_content:
  assumes "s3_laws core objects" "Stat core (ArtifactObjectKey d) st = (Inr info, st')"
    "content_addressed objects st" "hash_format d"
  shows "holds_content objects st d (oi_Size info)"
  using Stat_Inr [OF assms(1,2)] assms(3,4) by (fastforce simp: holds_content_def content_addressed_def)

definition settled :: "'s contents \<Rightarrow> Upload \<Rightarrow> 's \<times> platform_db \<Rightarrow> (artifact_error + bool) \<Rightarrow> 's \<times> platform_db \<Rightarrow> bool" where
  "settled objects upload s r s' \<longleftrightarrow> grows objects (fst s) (fst s') \<and> snd s' = snd s
     \<and> (\<forall>b. r = Inr b \<longrightarrow> content_addressed objects (fst s) \<longrightarrow>
          holds_content objects (fst s') (up_ExpectedSHA256 upload) (up_ExpectedSize upload))"

lemma settled_fail: "grows objects (fst s) (fst s') \<Longrightarrow> snd s' = snd s \<Longrightarrow> settled objects upload s (Inl e) s'"
  by (simp add: settled_def)

lemma settled_after:
  assumes "settled objects upload t r s'" "grows objects (fst s) (fst t)" "snd t = snd s"
  shows "settled objects upload s r s'"
  using assms gr.R_trans by (auto simp: settled_def grows_def)

text \<open>The content is there already: the candidate is dropped.\<close>

lemma drop_candidate_settled:
  assumes laws: "s3_laws core objects" and key: "has_prefix key ''uploads/''"
    and st: "Stat core (ArtifactObjectKey (up_ExpectedSHA256 upload)) (fst s) = (Inr existing, t)"
    and sz: "oi_Size existing = up_ExpectedSize upload" and d: "hash_format (up_ExpectedSHA256 upload)"
    and run: "act_bind (stored (on_store (store_Delete core key))) (\<lambda>_. act_return True) (t, snd s) = (r, s')"
  shows "settled objects upload s r s'"
proof -
  have "keeps_store objects (act_bind (stored (on_store (store_Delete core key))) (\<lambda>_. act_return True))"
    using laws key by (intro gs.keeps_rules store_keeps)
  from keepsD [OF this run] have t: "grows objects t (fst s')" by simp
  have s: "grows objects (fst s) t"
    using quietD [OF Stat_quiet [OF laws] st] by (auto intro: grows_outside)
  have "snd s' = snd s" using run by (cases r) (auto simp: act_simps)
  moreover have "content_addressed objects (fst s) \<longrightarrow>
      holds_content objects (fst s') (up_ExpectedSHA256 upload) (up_ExpectedSize upload)"
    using existing_content [OF laws st] sz d holds_content_grows s t by metis
  ultimately show ?thesis using s t gr.R_trans by (auto simp: settled_def)
qed

lemma promote_or_drop_settled:
  assumes laws: "s3_laws core objects" and run: "promote_or_drop core upload key s = (r, s')"
    and key: "has_prefix key ''uploads/''" and c: "objects (fst s) key = Some c"
      "sha256_hex c = up_ExpectedSHA256 upload" "int (length c) = up_ExpectedSize upload"
    and d: "hash_format (up_ExpectedSHA256 upload)"
  shows "settled objects upload s r s'"
proof -
  let ?final = "ArtifactObjectKey (up_ExpectedSHA256 upload)"
  have ne: "key \<noteq> ?final" using key artifact_key by metis
  note unfold_run = promote_or_drop_def Let_def act_try_def on_store_def
  obtain p t2 where pr: "Promote core key ?final (fst s) = (p, t2)" by (metis surj_pair)
  have g2: "grows objects (fst s) t2" using promote_grows [OF laws pr key] c d by simp
  show ?thesis
  proof (cases p)
    case (Inr promoted)
    then have "holds_content objects t2 (up_ExpectedSHA256 upload) (up_ExpectedSize upload)"
      using Promote_objects [OF laws pr ne] c by (auto simp: holds_content_def)
    moreover have "s' = (t2, snd s)"
      using run pr Inr by (cases s) (auto simp: unfold_run act_fail_def act_return_def split: if_splits)
    ultimately show ?thesis using g2 by (auto simp: settled_def)
  next
    case (Inl e)
    obtain q3 t3 where st3: "Stat core ?final t2 = (q3, t3)" by (metis surj_pair)
    have g3: "grows objects t2 t3" using quietD [OF Stat_quiet [OF laws] st3] by (auto intro: grows_outside)
    show ?thesis
    proof (cases "e = ErrObjectAlreadyExists \<and> (\<exists>existing. q3 = Inr existing \<and> oi_Size existing = up_ExpectedSize upload)")
      case True
      then obtain existing where ex: "q3 = Inr existing" "oi_Size existing = up_ExpectedSize upload" by blast
      then have "act_bind (stored (on_store (store_Delete core key))) (\<lambda>_. act_return True) (t3, snd s) = (r, s')"
        using run pr Inl True st3 by (cases s) (simp add: unfold_run)
      then have "settled objects upload (t2, snd s) r s'"
        using drop_candidate_settled [OF laws key, where s = "(t2, snd s)"] st3 ex d by simp
      then show ?thesis using settled_after [of objects upload "(t2, snd s)" r s' s] g2 by simp
    next
      case False
      then have "(s' = (t2, snd s) \<or> s' = (t3, snd s)) \<and> (\<exists>x. r = Inl x)"
        using run pr Inl st3 by (cases s) (auto simp: unfold_run act_fail_def split: if_splits sum.splits)
      then show ?thesis using g2 gr.R_trans [OF g2 g3] by (auto simp: settled_def)
    qed
  qed
qed

lemma promote_settled:
  assumes laws: "s3_laws core objects" and run: "promote_verified core upload key s = (r, s')"
    and key: "has_prefix key ''uploads/''" and c: "objects (fst s) key = Some c"
      "sha256_hex c = up_ExpectedSHA256 upload" "int (length c) = up_ExpectedSize upload"
    and d: "hash_format (up_ExpectedSHA256 upload)"
  shows "settled objects upload s r s'"
proof -
  let ?final = "ArtifactObjectKey (up_ExpectedSHA256 upload)"
  have ne: "key \<noteq> ?final" using key artifact_key by metis
  obtain q t where st: "Stat core ?final (fst s) = (q, t)" by (metis surj_pair)
  have t: "objects t = objects (fst s)" using quietD [OF Stat_quiet [OF laws] st] .
  have gt: "grows objects (fst s) t" using t by (auto intro: grows_outside)
  consider (present) existing where "q = Inr existing" "oi_Size existing = up_ExpectedSize upload"
    | (missing) "q = Inl ErrObjectNotFound"
    | (other) x where "r = Inl x" "s' = (t, snd s)"
    using run st ne by (cases q; cases s)
      (auto simp: promote_verified_def Let_def act_try_def on_store_def act_fail_def split: if_splits)
  then show ?thesis
  proof cases
    case present
    then have "act_bind (stored (on_store (store_Delete core key))) (\<lambda>_. act_return True) (t, snd s) = (r, s')"
      using run st ne by (cases s) (simp add: promote_verified_def Let_def act_try_def on_store_def)
    then show ?thesis using drop_candidate_settled [OF laws key] st present d by metis
  next
    case missing
    then have "promote_or_drop core upload key (t, snd s) = (r, s')"
      using run st ne by (cases s) (simp add: promote_verified_def Let_def act_try_def on_store_def)
    then have "settled objects upload (t, snd s) r s'"
      using promote_or_drop_settled [OF laws _ key] c d t by simp
    then show ?thesis using settled_after [of objects upload "(t, snd s)" r s' s] gt by simp
  next
    case other
    then show ?thesis using gt by (auto simp: settled_def)
  qed
qed

section \<open>What the service does to the tables\<close>

definition uploads_wf :: "platform_db \<Rightarrow> bool" where
  "uploads_wf db \<longleftrightarrow> (\<forall>up\<in>set (at_uploads (pl_artifacts db)). staging_key_format (up_StagingKey up)
     \<and> hash_format (up_ExpectedSHA256 up) \<and> 1 \<le> up_ExpectedSize up)"

text \<open>An upload keeps its request; once it left the state uploading it keeps everything.\<close>

definition upload_evolves :: "Upload \<Rightarrow> Upload \<Rightarrow> bool" where
  "upload_evolves up up' \<longleftrightarrow>
     up' = up\<lparr>up_Status := up_Status up', up_ArtifactID := up_ArtifactID up', up_UpdatedAt := up_UpdatedAt up'\<rparr>
   \<and> (up_Status up \<noteq> UploadStatusUploading \<longrightarrow> up' = up)"

definition uploads_evolve :: "platform_db \<Rightarrow> platform_db \<Rightarrow> bool" where
  "uploads_evolve db db' \<longleftrightarrow> (\<forall>uid up. tbl_get up_ID (at_uploads (pl_artifacts db)) uid = Some up \<longrightarrow>
     (\<exists>up'. tbl_get up_ID (at_uploads (pl_artifacts db')) uid = Some up' \<and> upload_evolves up up'))"

definition db_evolves :: "platform_db \<Rightarrow> platform_db \<Rightarrow> bool" where
  "db_evolves db db' \<longleftrightarrow> at_artifacts (pl_artifacts db') = at_artifacts (pl_artifacts db)
     \<and> uploads_evolve db db' \<and> (uploads_wf db \<longrightarrow> uploads_wf db')"

lemma upload_evolves_refl: "upload_evolves up up"
  by (simp add: upload_evolves_def)

lemma upload_evolves_trans: "upload_evolves a b \<Longrightarrow> upload_evolves b c \<Longrightarrow> upload_evolves a c"
  unfolding upload_evolves_def by (cases a; cases b; cases c) auto

interpretation ue: evolution uploads_evolve
  by unfold_locales (fastforce simp: uploads_evolve_def intro: upload_evolves_refl upload_evolves_trans)+

interpretation de: evolution db_evolves
  by unfold_locales (auto simp: db_evolves_def intro: ue.R_refl ue.R_trans)

lemma same_uploads_evolve: "at_uploads (pl_artifacts db') = at_uploads (pl_artifacts db) \<Longrightarrow> uploads_evolve db db'"
  by (auto simp: uploads_evolve_def upload_evolves_refl)

lemma same_uploads:
  "at_uploads (pl_artifacts db') = at_uploads (pl_artifacts db) \<Longrightarrow>
   at_artifacts (pl_artifacts db') = at_artifacts (pl_artifacts db) \<Longrightarrow> db_evolves db db'"
  by (auto simp: db_evolves_def same_uploads_evolve uploads_wf_def)

lemma CreateUpload_evolves: "keeps db_evolves (CreateUpload upload)"
  unfolding CreateUpload_def Let_def
  by (rule de.keeps_write)
     (auto simp: db_evolves_def uploads_evolve_def uploads_wf_def upload_row_ok_def tbl_get_snoc upload_evolves_refl
       split: if_splits option.splits)

lemma SavePart_evolves: "keeps db_evolves (SavePart now part)"
  unfolding SavePart_def Let_def by (rule de.keeps_write) (auto intro!: same_uploads split: if_splits)

lemma update_upload_evolves: "keeps db_evolves (update_upload now uid status aid at)"
  unfolding update_upload_def Let_def
proof (rule de.keeps_write)
  fix db db' :: platform_db and x
  assume run: "(if rows_affected (uploading uid) (at_uploads (pl_artifacts db)) \<noteq> 1 then Inl ErrUploadStateInvalid
      else Inr ((), db\<lparr>pl_artifacts := (pl_artifacts db)\<lparr>at_uploads := update_where (uploading uid)
        (set_upload now status aid at) (at_uploads (pl_artifacts db))\<rparr>\<rparr>)) = Inr (x, db')"
  then have db': "at_uploads (pl_artifacts db') = update_where (uploading uid) (set_upload now status aid at)
      (at_uploads (pl_artifacts db))" "at_artifacts (pl_artifacts db') = at_artifacts (pl_artifacts db)"
    by (auto split: if_splits)
  have "tbl_get up_ID (at_uploads (pl_artifacts db')) u = map_option (\<lambda>up. if uploading uid up
      then set_upload now status aid at up else up) (tbl_get up_ID (at_uploads (pl_artifacts db)) u)" for u
    unfolding db' by (rule tbl_get_update) (simp add: set_upload_def)
  then have "uploads_evolve db db'"
    by (auto simp: uploads_evolve_def upload_evolves_def set_upload_def uploading_def)
  moreover have "uploads_wf db \<longrightarrow> uploads_wf db'"
    by (auto simp: uploads_wf_def db' update_where_set set_upload_def split: if_splits)
  ultimately show "db_evolves db db'" by (simp add: db_evolves_def db')
qed

lemma bind_product_evolves: "keeps db_evolves (bind_product candidate aid)"
  unfolding bind_product_def by (rule de.keeps_write) (auto simp: res_elims intro!: same_uploads)

lemma on_outbox_evolves: "keeps db_evolves (on_outbox wrap m)"
  by (rule keepsI) (auto simp: act_simps intro!: same_uploads)

lemma on_log_evolves: "keeps db_evolves (on_log wrap m)"
  by (rule keepsI) (auto simp: act_simps intro!: same_uploads)

lemmas db_keeps = de.keeps_rules CreateUpload_evolves SavePart_evolves update_upload_evolves bind_product_evolves
  on_outbox_evolves on_log_evolves

lemma insert_verified_Inr:
  assumes "insert_verified candidate db = (Inr physical, db')"
  shows "\<exists>rows. db' = db\<lparr>pl_artifacts := (pl_artifacts db)\<lparr>at_artifacts := rows\<rparr>\<rparr>
    \<and> (rows = at_artifacts (pl_artifacts db) \<or> rows = at_artifacts (pl_artifacts db) @ [physical])
    \<and> tbl_get af_sha256 rows (ar_SHA256 candidate) = Some physical \<and> af_sha256 physical = ar_SHA256 candidate
    \<and> af_size_bytes physical = ar_Size candidate \<and> af_object_key physical = ar_ObjectKey candidate"
proof -
  obtain rows where "insert_artifact candidate (at_artifacts (pl_artifacts db)) = Inr rows"
      and rest: "tbl_get af_sha256 rows (ar_SHA256 candidate) = Some physical"
        "db' = db\<lparr>pl_artifacts := (pl_artifacts db)\<lparr>at_artifacts := rows\<rparr>\<rparr>"
        "af_size_bytes physical = ar_Size candidate" "af_object_key physical = ar_ObjectKey candidate"
    using assms by (auto simp: insert_verified_def act_simps res_elims split: option.splits if_splits)
  then have "rows = at_artifacts (pl_artifacts db) \<or> (\<exists>row. rows = at_artifacts (pl_artifacts db) @ [row]
      \<and> \<not> tbl_has af_sha256 (at_artifacts (pl_artifacts db)) (af_sha256 row) \<and> af_sha256 row = ar_SHA256 candidate)"
    by (auto simp: insert_artifact_def Let_def split: if_splits)
  with rest show ?thesis by (auto simp: tbl_get_snoc tbl_has_get dest: tbl_get_key)
qed

section \<open>The invariant of the artifact store\<close>

definition artifact_inv :: "'s contents \<Rightarrow> 's \<times> platform_db \<Rightarrow> bool" where
  "artifact_inv objects s \<longleftrightarrow> content_addressed objects (fst s) \<and> uploads_wf (snd s)
     \<and> (\<forall>a\<in>set (at_artifacts (pl_artifacts (snd s))). af_object_key a = ArtifactObjectKey (af_sha256 a)
          \<and> holds_content objects (fst s) (af_sha256 a) (af_size_bytes a))"

definition artifacts_evolve :: "'s contents \<Rightarrow> 's \<times> platform_db \<Rightarrow> 's \<times> platform_db \<Rightarrow> bool" where
  "artifacts_evolve objects s s' \<longleftrightarrow> (artifact_inv objects s \<longrightarrow>
     artifact_inv objects s' \<and> grows objects (fst s) (fst s') \<and> uploads_evolve (snd s) (snd s'))"

interpretation ae: evolution "artifacts_evolve objects" for objects :: "'s contents"
  by unfold_locales (auto simp: artifacts_evolve_def intro: gr.R_refl gr.R_trans ue.R_refl ue.R_trans)

lemma store_evolves:
  assumes "grows objects (fst s) (fst s')" "snd s' = snd s"
  shows "artifacts_evolve objects s s'"
  using assms holds_content_grows
  by (fastforce simp: artifacts_evolve_def artifact_inv_def grows_def intro: ue.R_refl)

lemma store_action_evolves:
  assumes "keeps_store objects (on_store m)"
  shows "keeps (artifacts_evolve objects) (on_store m)"
proof (rule keepsI)
  fix s r s' assume run: "on_store m s = (r, s')"
  then have "snd s' = snd s" by (auto simp: act_simps)
  then show "artifacts_evolve objects s s'" using keepsD [OF assms run] by (intro store_evolves)
qed

lemma db_action_evolves: "keeps db_evolves m \<Longrightarrow> keeps (artifacts_evolve objects) (on_db m)"
  by (rule keepsI)
     (auto simp: act_simps artifacts_evolve_def artifact_inv_def db_evolves_def gr.R_refl dest!: keepsD)

lemmas artifact_keeps = ae.keeps_rules stored_keeps store_action_evolves [OF quiet_grows [OF Stat_quiet]]
  store_action_evolves [OF quiet_grows [OF BeginMultipart_quiet]] store_action_evolves [OF quiet_grows [OF AbortMultipart_quiet]]
  store_action_evolves [OF quiet_grows [OF store_PutPart_quiet]] db_action_evolves [OF de.keeps_tx] db_action_evolves

lemma cleanup_evolves:
  "keeps (artifacts_evolve objects) (quarantineUpload u call who upload request n d now)"
  "keeps (artifacts_evolve objects) (expireUpload u call who upload request now)"
  unfolding quarantineUpload_def expireUpload_def Quarantine_def Expire_def transitionUpload_def enqueueCleanup_def artifact_audit_def
  by (intro artifact_keeps db_keeps)+

lemma BeginUpload_evolves:
  "s3_laws core objects \<Longrightarrow> keeps (artifacts_evolve objects) (service_BeginUpload u pg core service call who command request)"
  unfolding service_BeginUpload_def artifact_audit_def Let_def
  by (auto intro!: artifact_keeps db_keeps split: sum.split)

lemma PutPart_evolves:
  "s3_laws core objects \<Longrightarrow> keeps (artifacts_evolve objects) (service_PutPart u core service call who pid uid command body request)"
  unfolding service_PutPart_def Let_def
  by (auto intro!: artifact_keeps db_keeps cleanup_evolves split: sum.split)

text \<open>Recording an artifact whose content is in the store.\<close>

lemma record_evolves:
  assumes run: "on_db (record_artifact u call who request upload candidate b) s = (r, s')"
    and key: "ar_ObjectKey candidate = ArtifactObjectKey (ar_SHA256 candidate)"
    and content: "holds_content objects (fst s) (ar_SHA256 candidate) (ar_Size candidate)"
  shows "artifacts_evolve objects s s'"
proof -
  obtain db' where db': "record_artifact u call who request upload candidate b (snd s) = (r, db')" "s' = (fst s, db')"
    using run by (auto simp: act_simps)
  have "db_evolves (snd s) db' \<or> (\<exists>db1. (\<exists>physical. insert_verified candidate (snd s) = (Inr physical, db1)) \<and> db_evolves db1 db')"
  proof (cases r)
    case (Inl e)
    then show ?thesis using db' de.R_refl by (auto simp: record_artifact_def act_simps)
  next
    case (Inr x)
    then obtain physical db1 completed db2 e where ins: "insert_verified candidate (snd s) = (Inr physical, db1)"
        and rest: "bind_completed (cl_db_now call) (up_ID upload) candidate (af_id physical) db1 = (Inr completed, db2)"
          "artifact_audit u call who request ''artifact.upload.complete'' (up_ProductID upload) ''artifact''
             (u_string u (ar_ID completed)) OutcomeSuccess [(''sha256'', AnyString (ar_SHA256 completed)),
             (''size'', AnyInt (ar_Size completed)), (''deduplicated'', AnyBool b)] db2 = (Inr e, db')"
      using db'(1) by (auto simp: record_artifact_def repo_Complete_def act_simps)
    have "keeps db_evolves (bind_completed (cl_db_now call) (up_ID upload) candidate (af_id physical))"
      unfolding bind_completed_def by (intro db_keeps)
    then have "db_evolves db1 db2" using rest(1) by (rule keepsD)
    moreover have "db_evolves db2 db'"
      using keepsD [OF on_log_evolves rest(2) [unfolded artifact_audit_def]] .
    ultimately have "db_evolves db1 db'" by (rule de.R_trans)
    then show ?thesis using ins by blast
  qed
  then show ?thesis
  proof (elim disjE exE conjE)
    assume "db_evolves (snd s) db'"
    then show ?thesis
      using db'(2) by (auto simp: artifacts_evolve_def artifact_inv_def db_evolves_def gr.R_refl)
  next
    fix db1 physical assume ins: "insert_verified candidate (snd s) = (Inr physical, db1)" and ev: "db_evolves db1 db'"
    have "artifacts_evolve objects s (fst s, db1)"
      using insert_verified_Inr [OF ins] content key
      by (auto simp: artifacts_evolve_def artifact_inv_def uploads_wf_def gr.R_refl intro!: same_uploads_evolve)
    moreover have "artifacts_evolve objects (fst s, db1) s'"
      using ev db'(2) by (auto simp: artifacts_evolve_def artifact_inv_def db_evolves_def gr.R_refl)
    ultimately show ?thesis by (rule ae.R_trans)
  qed
qed

lemma find_upload_Inr:
  "find_upload service who pid uid db = Inr upload \<Longrightarrow>
     up_ID upload = uid \<and> up_ProductID upload = pid \<and> upload \<in> set (at_uploads (pl_artifacts db))
     \<and> tbl_get up_ID (at_uploads (pl_artifacts db)) uid = Some upload \<and> Require who ActionArtifactPublish pid = None"
  by (auto simp: find_upload_def GetUpload_def res_elims dest: tbl_get_Some split: if_splits)

text \<open>From an upload of a sound state, assembling, verifying and promoting end with the content in place.\<close>

lemma assembled_content:
  assumes laws: "s3_laws core objects" and inv: "artifact_inv objects s"
    and up: "upload \<in> set (at_uploads (pl_artifacts (snd s)))"
    and asm: "assemble core upload parts s = (Inr key, t)"
    and ver: "verifyObject core key (up_ExpectedSize upload) t = (Inr (up_ExpectedSize upload, up_ExpectedSHA256 upload), v)"
    and pro: "promote_verified core upload key v = (r, w)"
  shows "settled objects upload v r w \<and> content_addressed objects (fst v)"
proof -
  have wf: "has_prefix (up_StagingKey upload) ''uploads/''" "hash_format (up_ExpectedSHA256 upload)"
    using inv up by (auto simp: artifact_inv_def uploads_wf_def staging_key_format_def)
  have gt: "grows objects (fst s) (fst t)" "snd t = snd s"
    using keepsD [OF assemble_grows [OF laws wf(1)] asm] assemble_Inr [OF asm] by auto
  obtain c where c: "objects (fst v) key = Some c" "int (length c) = up_ExpectedSize upload"
      "sha256_hex c = up_ExpectedSHA256 upload" and v: "objects (fst v) = objects (fst t)" "snd v = snd t"
    using verifyObject_Inr [OF laws ver] by auto
  have gv: "grows objects (fst s) (fst v)"
    by (rule gr.R_trans [OF gt(1)]) (simp add: grows_outside v(1))
  have "settled objects upload v r w"
  proof (cases "key = ArtifactObjectKey (up_ExpectedSHA256 upload)")
    case True
    then have "r = Inr True" "w = v" using pro by (auto simp: promote_verified_def Let_def act_simps)
    then show ?thesis using c True by (auto simp: settled_def holds_content_def gr.R_refl)
  next
    case False
    then have "has_prefix key ''uploads/''" using assemble_Inr [OF asm] wf(1) by auto
    then show ?thesis using promote_settled [OF laws pro] c wf(2) by blast
  qed
  then show ?thesis using gv inv by (auto simp: grows_def artifact_inv_def)
qed

lemma verifyObject_db: "verifyObject core key n t = (q, v) \<Longrightarrow> snd v = snd t"
  by (cases q) (auto simp: verifyObject_def act_simps Let_def split: if_splits)

lemma assemble_db: "assemble core upload parts s = (q, t) \<Longrightarrow> snd t = snd s"
  by (cases q) (auto simp: assemble_def act_simps Let_def split: sum.splits if_splits)

lemma publish_evolves:
  assumes run: "publish_object u core call who upload request now key v = (r, s')"
    and settled: "\<And>q w. promote_verified core upload key v = (q, w) \<Longrightarrow> artifacts_evolve objects v w
      \<and> (\<forall>b. q = Inr b \<longrightarrow> holds_content objects (fst w) (up_ExpectedSHA256 upload) (up_ExpectedSize upload))"
  shows "artifacts_evolve objects v s'"
  using run unfolding publish_object_def
proof (rule ae.bind_at)
  fix b w
  assume pro: "promote_verified core upload key v = (Inr b, w)"
    and rest: "act_bind (act_lift (of_option ArtifactUUIDUnavailable (cl_id call))) (\<lambda>artifactID.
      on_db (record_artifact u call who request upload (new_artifact who upload artifactID now) b)) w = (r, s')"
  show "artifacts_evolve objects w s'"
  proof (cases "cl_id call")
    case None
    then show ?thesis using rest by (auto simp: act_bind_def act_lift_def ae.R_refl)
  next
    case (Some aid)
    then have "on_db (record_artifact u call who request upload (new_artifact who upload aid now) b) w = (r, s')"
      using rest by (simp add: act_bind_def act_lift_def)
    then show ?thesis using settled [OF pro] by (intro record_evolves) (auto simp: new_artifact_def)
  qed
qed (use settled in blast)

lemma complete_object_evolves:
  assumes laws: "s3_laws core objects" and inv: "artifact_inv objects s"
    and up: "upload \<in> set (at_uploads (pl_artifacts (snd s)))"
    and run: "complete_object u core call who upload request parts now s = (r, s')"
  shows "artifacts_evolve objects s s'"
  using run unfolding complete_object_def
proof (rule ae.bind_at)
  have "has_prefix (up_StagingKey upload) ''uploads/''"
    using inv up by (auto simp: artifact_inv_def uploads_wf_def staging_key_format_def)
  then show "artifacts_evolve objects s t" if "assemble core upload parts s = (q, t)" for q t
    using keepsD [OF assemble_grows [OF laws] that] assemble_db [OF that] by (intro store_evolves)
next
  fix key t
  assume asm: "assemble core upload parts s = (Inr key, t)"
    and "act_bind (verifyObject core key (up_ExpectedSize upload)) (accept_object u core call who upload request now key) t = (r, s')"
  from this(2) show "artifacts_evolve objects t s'"
  proof (rule ae.bind_at)
    show "artifacts_evolve objects t v" if "verifyObject core key (up_ExpectedSize upload) t = (q, v)" for q v
      using keepsD [OF verifyObject_grows [OF laws] that] verifyObject_db [OF that] by (intro store_evolves)
  next
    fix x v
    assume ver: "verifyObject core key (up_ExpectedSize upload) t = (Inr x, v)"
      and acc: "accept_object u core call who upload request now key x v = (r, s')"
    show "artifacts_evolve objects v s'"
    proof (cases "x = (up_ExpectedSize upload, up_ExpectedSHA256 upload)")
      case False
      then have "act_bind (quarantineUpload u call who upload request (fst x) (snd x) now) (\<lambda>_. act_fail ErrDigestMismatch) v = (r, s')"
        using acc by (auto simp: accept_object_def split: prod.splits if_splits)
      then show ?thesis by (rule keepsD [rotated]) (intro artifact_keeps cleanup_evolves)
    next
      case True
      have "publish_object u core call who upload request now key v = (r, s')"
        using acc True by (simp add: accept_object_def)
      then show ?thesis
      proof (rule publish_evolves)
        fix q w assume pro: "promote_verified core upload key v = (q, w)"
        have "settled objects upload v q w \<and> content_addressed objects (fst v)"
          using assembled_content [OF laws inv up asm _ pro] ver True by simp
        then show "artifacts_evolve objects v w \<and> (\<forall>b. q = Inr b \<longrightarrow>
            holds_content objects (fst w) (up_ExpectedSHA256 upload) (up_ExpectedSize upload))"
          by (auto simp: settled_def intro: store_evolves)
      qed
    qed
  qed
qed

lemma Complete_evolves:
  assumes laws: "s3_laws core objects"
  shows "keeps (artifacts_evolve objects) (service_Complete u core service call who pid uid request)"
proof (rule keepsI)
  fix s r s' assume run: "service_Complete u core service call who pid uid request s = (r, s')"
  show "artifacts_evolve objects s s'"
  proof (cases "artifact_inv objects s")
    case inv: True
    let ?now = "truncate_time microsecond (cl_now call)"
    consider (still) "s' = s"
      | (expired) upload where "act_bind (expireUpload u call who upload request ?now) (\<lambda>_. act_fail ErrUploadExpired :: ('a \<times> platform_db, artifact_error, Artifact) action) s = (r, s')"
      | (object) upload parts where "find_upload service who (trim_space pid) uid (snd s) = Inr upload"
          "complete_object u core call who upload request parts ?now s = (r, s')"
      using run unfolding service_Complete_def
      by (cases r; cases s) (auto simp: act_simps Let_def split: if_splits)
    then show ?thesis
    proof cases
      case expired
      then show ?thesis by (rule keepsD [rotated]) (intro artifact_keeps cleanup_evolves)
    next
      case object
      then show ?thesis using complete_object_evolves [OF laws inv] find_upload_Inr by blast
    qed (simp add: ae.R_refl)
  qed (simp add: artifacts_evolve_def)
qed

section \<open>Reachable states\<close>

text \<open>Any sequence of service calls, with arbitrary arguments and outcomes, interleaved with
  transactions of other components, which do not touch the artifact tables.\<close>

inductive artifact_step :: "uuid_lib \<Rightarrow> pg_lib \<Rightarrow> 's minio_core \<Rightarrow> 's \<times> platform_db \<Rightarrow> 's \<times> platform_db \<Rightarrow> bool"
  for u pg core where
  step_begin: "service_BeginUpload u pg core service call who command request s = (r, s') \<Longrightarrow> artifact_step u pg core s s'"
| step_put: "service_PutPart u core service call who pid uid part body request s = (r, s') \<Longrightarrow> artifact_step u pg core s s'"
| step_complete: "service_Complete u core service call who pid uid request s = (r, s') \<Longrightarrow> artifact_step u pg core s s'"
| step_other: "pl_artifacts db' = pl_artifacts (snd s) \<Longrightarrow> artifact_step u pg core s (fst s, db')"

lemma artifact_step_evolves:
  assumes "s3_laws core objects" "artifact_step u pg core s s'"
  shows "artifacts_evolve objects s s'"
  using assms(2)
proof cases
  case step_begin
  then show ?thesis using keepsD [OF BeginUpload_evolves [OF assms(1)]] by blast
next
  case step_put
  then show ?thesis using keepsD [OF PutPart_evolves [OF assms(1)]] by blast
next
  case step_complete
  then show ?thesis using keepsD [OF Complete_evolves [OF assms(1)]] by blast
next
  case (step_other db')
  then show ?thesis
    by (auto simp: artifacts_evolve_def artifact_inv_def uploads_wf_def gr.R_refl intro!: same_uploads_evolve)
qed

definition no_artifacts :: "'s contents \<Rightarrow> 's \<times> platform_db \<Rightarrow> bool" where
  "no_artifacts objects s \<longleftrightarrow> objects (fst s) = (\<lambda>_. None)
     \<and> at_artifacts (pl_artifacts (snd s)) = [] \<and> at_uploads (pl_artifacts (snd s)) = []"

lemma no_artifacts_inv: "no_artifacts objects s \<Longrightarrow> artifact_inv objects s"
  by (simp add: no_artifacts_def artifact_inv_def content_addressed_def uploads_wf_def)

lemma reachable_inv:
  assumes "s3_laws core objects" "artifact_inv objects s" "(artifact_step u pg core)\<^sup>*\<^sup>* s s'"
  shows "artifact_inv objects s'"
proof -
  have "artifacts_evolve objects s s'"
    by (rule ae.keeps_star [OF artifact_step_evolves [OF assms(1)] assms(3)])
  then show ?thesis using assms(2) by (simp add: artifacts_evolve_def)
qed

text \<open>C7. Starting from the empty platform or any other sound state, after any calls every recorded
  artifact has its content in the object store, under the key of its digest, and that content has
  exactly the recorded SHA-256 and size. So no upload whose bytes differ from what it announced is
  ever recorded, whatever the object server answers within its contract.\<close>

theorem artifacts_verified:
  assumes "s3_laws core objects" "artifact_inv objects s0" "(artifact_step u pg core)\<^sup>*\<^sup>* s0 s"
    and "a \<in> set (at_artifacts (pl_artifacts (snd s)))"
  shows "\<exists>c. objects (fst s) (af_object_key a) = Some c \<and> af_object_key a = ArtifactObjectKey (af_sha256 a)
    \<and> sha256_hex c = af_sha256 a \<and> int (length c) = af_size_bytes a"
  using reachable_inv [OF assms(1-3)] assms(4) by (auto simp: artifact_inv_def holds_content_def)

text \<open>An upload is never forgotten and never changes its request, and once it is completed,
  quarantined or expired nothing about it changes any more.\<close>

theorem uploads_final:
  assumes "s3_laws core objects" "artifact_inv objects s" "(artifact_step u pg core)\<^sup>*\<^sup>* s s'"
    and "tbl_get up_ID (at_uploads (pl_artifacts (snd s))) uid = Some up"
  shows "\<exists>up'. tbl_get up_ID (at_uploads (pl_artifacts (snd s'))) uid = Some up'
    \<and> up_ExpectedSHA256 up' = up_ExpectedSHA256 up \<and> up_ExpectedSize up' = up_ExpectedSize up
    \<and> up_ProductID up' = up_ProductID up \<and> up_ExpiresAt up' = up_ExpiresAt up
    \<and> (up_Status up \<noteq> UploadStatusUploading \<longrightarrow> up' = up)"
proof -
  have "artifacts_evolve objects s s'"
    by (rule ae.keeps_star [OF artifact_step_evolves [OF assms(1)] assms(3)])
  then have "uploads_evolve (snd s) (snd s')" using assms(2) by (simp add: artifacts_evolve_def)
  then obtain up' where up': "tbl_get up_ID (at_uploads (pl_artifacts (snd s'))) uid = Some up'" "upload_evolves up up'"
    using assms(4) by (auto simp: uploads_evolve_def)
  moreover have "up_ExpectedSHA256 up' = up_ExpectedSHA256 up \<and> up_ExpectedSize up' = up_ExpectedSize up
      \<and> up_ProductID up' = up_ProductID up \<and> up_ExpiresAt up' = up_ExpiresAt up"
    using up'(2) unfolding upload_evolves_def by (cases up; cases up') auto
  ultimately show ?thesis by (auto simp: upload_evolves_def)
qed

section \<open>Completing twice, and failing\<close>

lemma update_upload_Inr:
  assumes "update_upload now uid status aid at db = (Inr x, db')"
  shows "db' = db\<lparr>pl_artifacts := (pl_artifacts db)\<lparr>at_uploads :=
      update_where (uploading uid) (set_upload now status aid at) (at_uploads (pl_artifacts db))\<rparr>\<rparr>"
  using assms by (auto simp: update_upload_def act_simps Let_def split: if_splits)

lemma updated_upload:
  assumes "tbl_get up_ID (at_uploads (pl_artifacts db)) uid = Some up" "up_Status up = UploadStatusUploading"
    "update_upload now uid status aid at db = (Inr x, db')"
  shows "tbl_get up_ID (at_uploads (pl_artifacts db')) uid = Some (set_upload now status aid at up)"
proof -
  have "tbl_get up_ID (update_where (uploading uid) (set_upload now status aid at) (at_uploads (pl_artifacts db))) uid
      = map_option (\<lambda>r. if uploading uid r then set_upload now status aid at r else r)
          (tbl_get up_ID (at_uploads (pl_artifacts db)) uid)"
    by (rule tbl_get_update) (simp add: set_upload_def)
  then show ?thesis
    using assms tbl_get_key [OF assms(1)] by (auto simp: update_upload_Inr [OF assms(3)] uploading_def)
qed

lemma insert_binding_text: "insert_binding db candidate aid = Inr rows \<Longrightarrow> pg_text (ar_ProductID candidate)"
  by (auto simp: insert_binding_def binding_row_ok_def Let_def split: if_splits)

text \<open>After a recorded completion the upload points to the artifact and reading it gives what was
  returned.\<close>

lemma record_Inr:
  assumes run: "record_artifact u call who request upload candidate b db = (Inr a, db')"
    and up: "tbl_get up_ID (at_uploads (pl_artifacts db)) (up_ID upload) = Some upload" "up_Status upload = UploadStatusUploading"
  shows "GetArtifact (ar_ProductID candidate) (ar_ID a) db' = Inr a
    \<and> (\<exists>up'. tbl_get up_ID (at_uploads (pl_artifacts db')) (up_ID upload) = Some up' \<and> up_Status up' = UploadStatusCompleted
         \<and> up_ArtifactID up' = Some (ar_ID a) \<and> up_ProductID up' = up_ProductID upload)"
proof -
  obtain physical db1 db2 db3 e where ins: "insert_verified candidate db = (Inr physical, db1)"
    and bnd: "bind_product candidate (af_id physical) db1 = (Inr (), db2)"
    and upd: "update_upload (cl_db_now call) (up_ID upload) UploadStatusCompleted (Some (af_id physical)) (ar_CreatedAt candidate) db2 = (Inr (), db3)"
    and sel: "select_bound (ar_ProductID candidate) (tbl_get af_id (at_artifacts (pl_artifacts db3)) (af_id physical)) (pl_artifacts db3) = Some a"
    and aud: "artifact_audit u call who request ''artifact.upload.complete'' (up_ProductID upload) ''artifact''
             (u_string u (ar_ID a)) OutcomeSuccess [(''sha256'', AnyString (ar_SHA256 a)),
             (''size'', AnyInt (ar_Size a)), (''deduplicated'', AnyBool b)] db3 = (Inr e, db')"
    using run by (auto simp: record_artifact_def repo_Complete_def bind_completed_def act_simps)
  have same: "pl_artifacts db' = pl_artifacts db3" using aud by (auto simp: artifact_audit_def act_simps)
  have "tbl_get up_ID (at_uploads (pl_artifacts db2)) (up_ID upload) = Some upload"
    using up(1) insert_verified_Inr [OF ins] bnd by (auto simp: bind_product_def act_simps res_elims)
  note up3 = updated_upload [OF this up(2) upd]
  have "ar_ID a = af_id physical"
    using sel by (auto simp: select_bound_def bound_artifact_def dest: tbl_get_key split: option.splits)
  moreover have "pg_text (ar_ProductID candidate)"
    using bnd insert_binding_text by (auto simp: bind_product_def act_simps res_elims)
  ultimately show ?thesis using sel up3 same by (simp add: GetArtifact_def set_upload_def)
qed

lemma promote_db: "promote_verified core upload key s = (q, t) \<Longrightarrow> snd t = snd s"
  by (cases q) (auto simp: promote_verified_def promote_or_drop_def act_simps Let_def split: sum.splits if_splits)

lemma complete_object_Inr:
  assumes "complete_object u core call who upload request parts now s = (Inr a, s')"
  shows "\<exists>aid b v. snd v = snd s
    \<and> on_db (record_artifact u call who request upload (new_artifact who upload aid now) b) v = (Inr a, s')"
proof -
  obtain key t x v where "assemble core upload parts s = (Inr key, t)"
      "verifyObject core key (up_ExpectedSize upload) t = (Inr x, v)"
      and acc: "accept_object u core call who upload request now key x v = (Inr a, s')"
    using assms by (auto simp: complete_object_def act_bind_Inr)
  then have "snd v = snd s" using assemble_db verifyObject_db by metis
  moreover obtain b w aid where "promote_verified core upload key v = (Inr b, w)"
      "on_db (record_artifact u call who request upload (new_artifact who upload aid now) b) w = (Inr a, s')"
    using acc by (auto simp: accept_object_def publish_object_def act_bind_Inr act_fail_def act_lift_def split: prod.splits if_splits)
  ultimately show ?thesis using promote_db by metis
qed


text \<open>The transaction of a failed upload: the new state, the cleanup job and the audit event.\<close>

lemma cleanup_Inr:
  assumes tr: "transitionUpload db_now (up_ID upload) status at db = (Inr (), db1)"
    and enq: "enqueueCleanup u call upload now db1 = (Inr (), db2)"
    and aud: "artifact_audit u call who request action pid rtype rid OutcomeFailed md db2 = (Inr e, db')"
    and up: "tbl_get up_ID (at_uploads (pl_artifacts db)) (up_ID upload) = Some upload" "up_Status upload = UploadStatusUploading"
  shows "(\<exists>up'. tbl_get up_ID (at_uploads (pl_artifacts db')) (up_ID upload) = Some up' \<and> up_Status up' = status)
    \<and> at_artifacts (pl_artifacts db') = at_artifacts (pl_artifacts db) \<and> at_bindings (pl_artifacts db') = at_bindings (pl_artifacts db)
    \<and> (\<exists>job. pl_outbox db' = pl_outbox db @ [job] \<and> r_kind job = ''artifact.cleanup.v1'' \<and> r_aggregate_id job = up_ID upload)
    \<and> (\<exists>ev. au_events (pl_audit db') = au_events (pl_audit db) @ [ev] \<and> ev_Outcome ev = OutcomeFailed
         \<and> ev_Action ev = trim_space action)"
proof -
  note tr = tr [unfolded transitionUpload_def]
  obtain job rows where job: "New (ca_job_id (cl_audit call)) ''artifact.cleanup.v1'' (up_ID upload)
        (marshal_string_map [(''upload_id'', u_string u (up_ID upload)), (''staging_key'', up_StagingKey upload),
           (''object_upload_id'', up_ObjectUploadID upload)]) now = (Inr job :: unit job_error + Job)"
      "Enqueue (cl_db_now call) job (pl_outbox db1) = (Inr () :: unit job_error + unit, rows)" "db2 = db1\<lparr>pl_outbox := rows\<rparr>"
    using enq by (auto simp: enqueueCleanup_def act_simps)
  have kind: "trim_space ''artifact.cleanup.v1'' = ''artifact.cleanup.v1''"
    by (rule trim_space_graphic) (simp add: graphic_def in_range_def byte_val_def)
  obtain r where r: "rows = pl_outbox db1 @ [r]" "r_kind r = ''artifact.cleanup.v1''" "r_aggregate_id r = up_ID upload"
    using Enqueue_Inr [OF job(2)] New_Inr [OF job(1)] kind by auto
  have "au_events (pl_audit db') = au_events (pl_audit db2) @ [e] \<and> ev_Outcome e = OutcomeFailed \<and> ev_Action e = trim_space action"
      "pl_artifacts db' = pl_artifacts db2" "pl_outbox db' = pl_outbox db2"
    using aud by (auto simp: artifact_audit_def act_simps dest!: Append_event)
  moreover note updated_upload [OF up tr] update_upload_Inr [OF tr]
  ultimately show ?thesis using job(3) r by (auto simp: set_upload_def)
qed

lemma cleanup_no_error:
  "expireUpload u call who upload request now s = (Inl ErrUploadExpired, t) = False"
  "expireUpload u call who upload request now s = (Inl ErrDigestMismatch, t) = False"
  "quarantineUpload u call who upload request n d now s = (Inl ErrUploadExpired, t) = False"
  "quarantineUpload u call who upload request n d now s = (Inl ErrDigestMismatch, t) = False"
  by (auto simp: expireUpload_def quarantineUpload_def Expire_def Quarantine_def transitionUpload_def enqueueCleanup_def
      artifact_audit_def update_upload_def act_simps Let_def split: if_splits)

text \<open>The two errors come from these transactions only.\<close>

definition cleanup_error :: "artifact_error \<Rightarrow> bool" where
  "cleanup_error e \<longleftrightarrow> e = ErrDigestMismatch \<or> e = ErrUploadExpired"

lemma completion_loop_error: "completion_loop upload n i acc parts = Inl e \<Longrightarrow> e = ErrPartsIncomplete"
  by (induction parts arbitrary: i acc) (auto simp: res_elims split: if_splits)

lemma other_errors:
  "find_upload service who pid uid db = Inl e \<Longrightarrow> \<not> cleanup_error e"
  "GetArtifact pid aid db = Inl e \<Longrightarrow> \<not> cleanup_error e"
  "validateCompletionParts upload parts = Inl e \<Longrightarrow> \<not> cleanup_error e"
  "assemble core upload ops s = (Inl e, t) \<Longrightarrow> \<not> cleanup_error e"
  "verifyObject core key n s = (Inl e, t) \<Longrightarrow> \<not> cleanup_error e"
  by (auto simp: find_upload_def GetUpload_def validateDependencies_def GetArtifact_def validateCompletionParts_def
      assemble_def verifyObject_def cleanup_error_def res_elims act_simps Let_def
      dest: completion_loop_error split: if_splits sum.splits)

lemma record_error: "record_artifact u call who request upload candidate b db = (Inl e, db') \<Longrightarrow> \<not> cleanup_error e"
  by (auto simp: record_artifact_def repo_Complete_def bind_completed_def insert_verified_def insert_artifact_def
      bind_product_def insert_binding_def update_upload_def artifact_audit_def GetUpload_def cleanup_error_def
      res_elims act_simps Let_def split: if_splits option.splits)

lemma publish_error: "publish_object u core call who upload request now key s = (Inl e, t) \<Longrightarrow> \<not> cleanup_error e"
  by (auto simp: publish_object_def act_bind_Inl act_lift_def on_db_run dest!: record_error)
     (auto simp: promote_verified_def promote_or_drop_def cleanup_error_def act_simps Let_def split: sum.splits if_splits)

lemma failed_object:
  assumes "complete_object u core call who upload request parts now s = (Inl e, s')" "cleanup_error e"
  shows "e = ErrDigestMismatch \<and> (\<exists>n d v. snd v = snd s \<and> quarantineUpload u call who upload request n d now v = (Inr (), s'))"
proof -
  obtain key t where asm: "assemble core upload parts s = (Inr key, t)"
      and run2: "act_bind (verifyObject core key (up_ExpectedSize upload)) (accept_object u core call who upload request now key) t = (Inl e, s')"
    using assms other_errors(4) [of core upload parts s e] unfolding complete_object_def act_bind_Inl by blast
  then obtain n d v where "verifyObject core key (up_ExpectedSize upload) t = (Inr (n, d), v)"
      and acc: "accept_object u core call who upload request now key (n, d) v = (Inl e, s')"
    using run2 assms(2) other_errors(5) [of core key "up_ExpectedSize upload" t e]
    unfolding act_bind_Inl by (metis surj_pair)
  with asm have "snd v = snd s" using assemble_db verifyObject_db by metis
  moreover have "e = ErrDigestMismatch \<and> quarantineUpload u call who upload request n d now v = (Inr (), s')"
    using acc assms(2) publish_error [of u core call who upload request now key v e s']
    by (auto simp: accept_object_def cleanup_error_def cleanup_no_error act_bind_Inl act_fail_def split: if_splits)
  ultimately show ?thesis by blast
qed

lemma failed_complete:
  assumes run: "service_Complete u core service call who pid uid request s = (Inl e, s')" and e: "cleanup_error e"
  shows "\<exists>upload. find_upload service who (trim_space pid) uid (snd s) = Inr upload \<and> up_Status upload = UploadStatusUploading
    \<and> (e = ErrUploadExpired \<and> expireUpload u call who upload request (truncate_time microsecond (cl_now call)) s = (Inr (), s')
     \<or> e = ErrDigestMismatch \<and> (\<exists>n d v. snd v = snd s
         \<and> quarantineUpload u call who upload request n d (truncate_time microsecond (cl_now call)) v = (Inr (), s')))"
proof -
  obtain upload where find: "find_upload service who (trim_space pid) uid (snd s) = Inr upload"
    using run e other_errors(1) by (cases "find_upload service who (trim_space pid) uid (snd s)")
      (auto simp: service_Complete_def act_bind_def act_read_def split: prod.splits)
  have "up_Status upload = UploadStatusUploading"
    using run e find other_errors(2)
    by (auto simp: service_Complete_def act_bind_def act_read_def act_fail_def cleanup_error_def Let_def
        split: prod.splits if_splits)
  moreover consider "act_bind (expireUpload u call who upload request (truncate_time microsecond (cl_now call)))
        (\<lambda>_. act_fail ErrUploadExpired :: ('a \<times> platform_db, artifact_error, Artifact) action) s = (Inl e, s')"
    | parts where "complete_object u core call who upload request parts (truncate_time microsecond (cl_now call)) s = (Inl e, s')"
    using run e find calculation other_errors(3)
    by (auto simp: service_Complete_def act_bind_Inl act_read_def Let_def split: prod.splits if_splits)
  then have "e = ErrUploadExpired \<and> expireUpload u call who upload request (truncate_time microsecond (cl_now call)) s = (Inr (), s')
     \<or> e = ErrDigestMismatch \<and> (\<exists>n d v. snd v = snd s
         \<and> quarantineUpload u call who upload request n d (truncate_time microsecond (cl_now call)) v = (Inr (), s'))"
  proof cases
    case 1
    then show ?thesis using e by (auto simp: act_bind_Inl act_fail_def cleanup_error_def cleanup_no_error)
  next
    case 2
    then show ?thesis using failed_object e by blast
  qed
  ultimately show ?thesis using find by blast
qed

text \<open>C26. A completion that fails because the content does not match, or because the upload has
  expired, leaves the upload quarantined or expired, adds one cleanup job for it and one audit
  event with the outcome failed, and records no artifact and no binding.\<close>

theorem failed_completion_cleans_up:
  assumes run: "service_Complete u core service call who pid uid request s = (Inl e, s')"
    and e: "e = ErrDigestMismatch \<or> e = ErrUploadExpired"
  shows "(\<exists>up'. tbl_get up_ID (at_uploads (pl_artifacts (snd s'))) uid = Some up'
        \<and> up_Status up' = (if e = ErrDigestMismatch then UploadStatusQuarantined else UploadStatusExpired))
    \<and> at_artifacts (pl_artifacts (snd s')) = at_artifacts (pl_artifacts (snd s))
    \<and> at_bindings (pl_artifacts (snd s')) = at_bindings (pl_artifacts (snd s))
    \<and> (\<exists>job. pl_outbox (snd s') = pl_outbox (snd s) @ [job] \<and> r_kind job = ''artifact.cleanup.v1'' \<and> r_aggregate_id job = uid)
    \<and> (\<exists>ev. au_events (pl_audit (snd s')) = au_events (pl_audit (snd s)) @ [ev] \<and> ev_Outcome ev = OutcomeFailed)"
proof -
  let ?now = "truncate_time microsecond (cl_now call)"
  obtain upload where find: "find_upload service who (trim_space pid) uid (snd s) = Inr upload"
      and up: "up_Status upload = UploadStatusUploading" and failed:
        "e = ErrUploadExpired \<and> expireUpload u call who upload request ?now s = (Inr (), s')
         \<or> e = ErrDigestMismatch \<and> (\<exists>n d v. snd v = snd s \<and> quarantineUpload u call who upload request n d ?now v = (Inr (), s'))"
    using failed_complete [OF run] e unfolding cleanup_error_def by blast
  note row = find_upload_Inr [OF find]
  from failed show ?thesis
  proof
    assume "e = ErrUploadExpired \<and> expireUpload u call who upload request ?now s = (Inr (), s')"
    then show ?thesis
      using row up cleanup_Inr [where upload = upload and status = UploadStatusExpired and db = "snd s"]
      by (fastforce simp: expireUpload_def Expire_def on_db_run within_tx_Inr act_bind_Inr act_return_def)
  next
    assume "e = ErrDigestMismatch \<and> (\<exists>n d v. snd v = snd s \<and> quarantineUpload u call who upload request n d ?now v = (Inr (), s'))"
    then show ?thesis
      using row up cleanup_Inr [where upload = upload and status = UploadStatusQuarantined and db = "snd s"]
      by (fastforce simp: quarantineUpload_def Quarantine_def on_db_run within_tx_Inr act_bind_Inr act_return_def)
  qed
qed

section \<open>Witnesses\<close>

text \<open>An object server whose state is the map of its objects; it assembles every upload to one byte.\<close>

definition sample_core :: "(string \<Rightarrow> bytes option) minio_core" where
  "sample_core = \<lparr>
     mc_NewMultipartUpload = (\<lambda>key ct. act_return ''m1''),
     mc_PutObjectPart = (\<lambda>key uid n body sz digest. act_return (n, sz, ''e1'')),
     mc_CompleteMultipartUpload = (\<lambda>key uid parts st. (Inr (), st(key := Some ''x''))),
     mc_AbortMultipartUpload = (\<lambda>key uid. act_return ()),
     mc_SetRange = (\<lambda>a b. None),
     mc_GetObject = (\<lambda>key h st. case st key of None \<Rightarrow> (Inl (MinioResponse ''NoSuchKey''), st)
       | Some c \<Rightarrow> (Inr (\<lparr>rd_bytes = c, rd_fails = False\<rparr>,
            \<lparr>mi_Size = int (length c), mi_ETag = ''e1'', mi_ContentType = [], mi_LastModified = 0\<rparr>, []), st)),
     mc_StatObject = (\<lambda>key st. case st key of None \<Rightarrow> (Inl (MinioResponse ''NoSuchKey''), st)
       | Some c \<Rightarrow> (Inr \<lparr>mi_Size = int (length c), mi_ETag = ''e1'', mi_ContentType = [], mi_LastModified = 0\<rparr>, st)),
     mc_CopyObject = (\<lambda>dst src st. (Inr (), st(dst := st src))),
     mc_RemoveObject = (\<lambda>key st. (Inr (), st(key := None))),
     mc_BucketExists = act_return True,
     mc_MakeBucket = (\<lambda>lock. act_return ()),
     mc_GetObjectLockConfig = act_fail (MinioResponse ''NotFound''),
     mc_SetObjectLockConfig = (\<lambda>m d n. act_return ())\<rparr>"

lemma sample_core_laws: "s3_laws sample_core (\<lambda>st. st)"
  by (auto simp: s3_laws_def sample_core_def quiet_def touches_def act_return_def intro!: keepsI split: option.splits)

abbreviation sample_digest :: string where "sample_digest \<equiv> sha256_hex ''x''"

definition sample_artifact :: artifact_row where
  "sample_artifact = \<lparr>af_id = 7, af_sha256 = sample_digest, af_size_bytes = 1,
     af_object_key = ArtifactObjectKey sample_digest, af_created_by = ''ana'', af_created_at = 1000\<rparr>"

definition sample_binding :: binding_row where
  "sample_binding = \<lparr>bd_product_id = ''p1'', bd_artifact_id = 7, bd_artifact_type = ''x'', bd_filename = ''x'',
     bd_content_type = ''x'', bd_created_by = ''ana'', bd_created_at = 1000\<rparr>"

definition sample_upload :: "uuid \<Rightarrow> upload_status \<Rightarrow> uuid option \<Rightarrow> Upload" where
  "sample_upload i st aid = \<lparr>up_ID = i, up_ProductID = ''p1'', up_ArtifactType = ''x'', up_Filename = ''x'', up_ContentType = ''x'',
     up_ExpectedSize = 1, up_ExpectedSHA256 = sample_digest, up_StagingKey = ''uploads/'' @ replicate 36 (CHR ''0''),
     up_ObjectUploadID = ''x'', up_Status = st, up_ArtifactID = aid, up_ExpiresAt = 2000,
     up_CreatedBy = ''ana'', up_CreatedAt = 1000, up_UpdatedAt = 1000\<rparr>"

text \<open>One completed upload with its artifact, one upload that is open.\<close>

definition sample_platform :: "(string \<Rightarrow> bytes option) \<times> platform_db" where
  "sample_platform = (\<lambda>k. if k = ArtifactObjectKey sample_digest then Some ''x'' else None,
     \<lparr>pl_products = \<lparr>pr_products = [sample_product ''p1'' 1000], pr_channels = []\<rparr>, pl_outbox = [], pl_audit = empty_audit,
      pl_artifacts = \<lparr>at_artifacts = [sample_artifact], at_bindings = [sample_binding],
        at_uploads = [sample_upload 3 UploadStatusCompleted (Some 7), sample_upload 4 UploadStatusUploading None],
        at_parts = []\<rparr>\<rparr>)"

lemma sample_digest_format: "hash_format sample_digest"
  using sha256_hex_hex [of "''x''"] by (simp add: hash_format_def)

lemma sample_staging: "staging_key_format (''uploads/'' @ replicate 36 (CHR ''0''))"
  by (simp add: staging_key_format_def staging_key_pattern_def has_prefix_def list_all_length is_hex_def is_digit_def in_range_def byte_val_def)

lemma sample_platform_inv: "artifact_inv (\<lambda>st. st) sample_platform"
  using sample_digest_format sample_staging artifact_key_inj [of _ sample_digest]
  by (auto simp: artifact_inv_def content_addressed_def uploads_wf_def holds_content_def sample_platform_def
      sample_artifact_def sample_upload_def)

theorem artifacts_verified_witness:
  "\<exists>c. fst sample_platform (ArtifactObjectKey sample_digest) = Some c \<and> sha256_hex c = sample_digest \<and> int (length c) = 1"
  using artifacts_verified [OF sample_core_laws sample_platform_inv rtranclp.rtrancl_refl, of sample_artifact]
  by (simp add: sample_platform_def sample_artifact_def)

theorem uploads_final_witness:
  "tbl_get up_ID (at_uploads (pl_artifacts (snd sample_platform))) 3 = Some (sample_upload 3 UploadStatusCompleted (Some 7))"
  using uploads_final [OF sample_core_laws sample_platform_inv rtranclp.rtrancl_refl, of 3 "sample_upload 3 UploadStatusCompleted (Some 7)"]
  by (simp add: sample_platform_def sample_upload_def tbl_get_def)

definition sample_publisher :: Principal where
  "sample_publisher = sample_principal ''ana'' ''human'' 1 [sample_scope ''admin'' ''allow'' ''platform'' [] []]"

definition full_service :: artifact_service where
  "full_service = \<lparr>sv_repository = True, sv_transactor = True, sv_products = True, sv_store = True, sv_auditor = True, sv_jobs = True\<rparr>"

definition sample_call :: artifact_call where
  "sample_call = \<lparr>cl_now = 5000, cl_db_now = 5000, cl_id = Some 9,
     cl_audit = \<lparr>ca_now = 5000, ca_event_id = Some 1, ca_export_id = None, ca_job_id = Some 2\<rparr>\<rparr>"

definition sample_request :: RequestContext where
  "sample_request = \<lparr>rc_RequestID = ''r1'', rc_SourceIP = []\<rparr>"

lemma sample_publish_allowed: "Require sample_publisher ActionArtifactPublish ''p1'' = None"
  by (simp add: Require_def Validate_def sample_publisher_def sample_principal_def sample_scope_def requireGoverned_def
      isProductScoped_def scopeAllowedByAuthenticationAssurance_def rolePermitsAction_def permissions_def scopeMatches_def
      sample_text)

lemma sample_find:
  "find_upload full_service sample_publisher ''p1'' 3 (snd sample_platform) = Inr (sample_upload 3 UploadStatusCompleted (Some 7))"
  "find_upload full_service sample_publisher ''p1'' 4 (snd sample_platform) = Inr (sample_upload 4 UploadStatusUploading None)"
  by (simp_all add: find_upload_def full_service_def validateDependencies_def sample_publish_allowed GetUpload_def
      sample_platform_def sample_upload_def tbl_get_def)


lemma cleanup_graphic:
  "list_all graphic ''artifact.upload.expire''" "list_all graphic ''artifact_upload''" "list_all graphic ''4''"
  "list_all graphic ''artifact.cleanup.v1''"
  by (simp_all add: graphic_def in_range_def byte_val_def)

lemmas cleanup_text = cleanup_graphic [THEN trim_space_graphic] cleanup_graphic [THEN pg_text_graphic]
  cleanup_graphic [THEN pg_length_graphic]

lemma cleanup_patterns: "matches auditActionPattern ''artifact.upload.expire''" "matches resourceTypePattern ''artifact_upload''"
  by (simp_all add: auditActionPattern_def resourceTypePattern_def name_segment_def plus_re_def
      name_separator_def is_lower_def is_digit_def in_range_def byte_val_def)

lemma cleanup_payload: "json_object (marshal_string_map [(''upload_id'', dec_nat 4),
    (''staging_key'', ''uploads/'' @ replicate 36 (CHR ''0'')), (''object_upload_id'', ''x'')])"
  by code_simp

lemma dec_nat_4: "dec_nat 4 = ''4''"
  by code_simp

lemma sample_expire_audit:
  "\<exists>e db'. artifact_audit sample_uuid sample_call sample_publisher sample_request ''artifact.upload.expire'' ''p1'' ''artifact_upload''
      (u_string sample_uuid 4) OutcomeFailed [] (snd sample_platform\<lparr>pl_artifacts := at, pl_outbox := ob\<rparr>) = (Inr e, db')"
proof -
  let ?c = "\<lparr>ac_Actor = sample_publisher, ac_Action = ''artifact.upload.expire'', ac_ProductID = ''p1'', ac_ResourceType = ''artifact_upload'',
    ac_ResourceID = u_string sample_uuid 4, ac_Outcome = OutcomeFailed, ac_RequestID = rc_RequestID sample_request,
    ac_SourceIP = rc_SourceIP sample_request, ac_Metadata = []\<rparr>"
  let ?e = "sample_event\<lparr>ev_OccurredAt := 5000, ev_Action := ''artifact.upload.expire'', ev_ResourceType := ''artifact_upload'',
    ev_ResourceID := ''4'', ev_Outcome := OutcomeFailed, ev_PreviousHash := []\<rparr>"
  have "new_event sample_uuid (cl_audit sample_call) ?c = Inr ?e"
    using cleanup_patterns
    by (simp add: new_event_def sample_publisher_def sample_principal_def sample_event_def sample_uuid_def sample_call_def
        sample_request_def sample_text cleanup_text dec_nat_4 Let_def Validate_def encodeRedactedMetadata_def redactMap_def
        marshal_pairs_def maximumMetadataBytes_def)
  moreover have "event_insertable [] (?e\<lparr>ev_PreviousHash := zeroHash, ev_OccurredAt := t, ev_EventHash := h\<rparr>)" if "hash_format h" for h t
    using that by (simp add: event_insertable_def sample_event_def pg_length_between_def sample_text cleanup_text
        tbl_has_def zeroHash_format sample_json_object inet_ok_def)
  moreover have "pg_text (partition_key (ev_ProductID ?e))"
    by (simp add: sample_event_def partition_key_def sample_text)
  ultimately have "\<exists>e au. Append sample_uuid \<lparr>as_repository = True, as_jobEnqueuer = True\<rparr> (cl_audit sample_call) ?c empty_audit = (Inr e, au)"
    by (intro append_first [where ?e0.0 = ?e]) auto
  then show ?thesis by (auto simp: artifact_audit_def on_log_def sample_platform_def)
qed

lemma sample_cleanup:
  "\<exists>ob. enqueueCleanup sample_uuid sample_call (sample_upload 4 UploadStatusUploading None) 5000 db
    = (Inr (), db\<lparr>pl_outbox := ob\<rparr>)" if "pl_outbox db = []"
  using that cleanup_payload
  by (simp add: enqueueCleanup_def New_def Enqueue_def act_bind_def act_lift_def act_write_def on_outbox_def sample_call_def
      sample_upload_def sample_uuid_def cleanup_text tbl_has_def) blast

theorem failed_completion_cleans_up_witness:
  "\<exists>s'. service_Complete sample_uuid sample_core full_service sample_call sample_publisher ''p1'' 4 sample_request sample_platform
       = (Inl ErrUploadExpired, s')
   \<and> (\<exists>up'. tbl_get up_ID (at_uploads (pl_artifacts (snd s'))) 4 = Some up' \<and> up_Status up' = UploadStatusExpired)
   \<and> (\<exists>job. pl_outbox (snd s') = [job] \<and> r_kind job = ''artifact.cleanup.v1'' \<and> r_aggregate_id job = 4)"
proof -
  let ?up = "sample_upload 4 UploadStatusUploading None"
  let ?db = "snd sample_platform"
  obtain db1 at' where tr: "transitionUpload 5000 4 UploadStatusExpired 5000 ?db = (Inr (), db1)" and db1: "db1 = ?db\<lparr>pl_artifacts := at'\<rparr>"
    by (simp add: transitionUpload_def update_upload_def act_write_def sample_platform_def sample_upload_def uploading_def rows_affected_def)
  obtain ob where enq: "enqueueCleanup sample_uuid sample_call ?up 5000 db1 = (Inr (), db1\<lparr>pl_outbox := ob\<rparr>)"
    using sample_cleanup [of db1] db1 by (auto simp: sample_platform_def)
  obtain e db' where "artifact_audit sample_uuid sample_call sample_publisher sample_request ''artifact.upload.expire'' ''p1'' ''artifact_upload''
      (u_string sample_uuid 4) OutcomeFailed [] (db1\<lparr>pl_outbox := ob\<rparr>) = (Inr e, db')"
    using sample_expire_audit db1 by metis
  moreover have "cl_db_now sample_call = 5000" "up_ID ?up = 4" "up_ProductID ?up = ''p1''"
    by (simp_all add: sample_call_def sample_upload_def)
  ultimately have "expireUpload sample_uuid sample_call sample_publisher ?up sample_request 5000 sample_platform = (Inr (), (fst sample_platform, db'))"
    using tr enq by (simp add: expireUpload_def Expire_def on_db_eq within_tx_def act_bind_def act_return_def)
  moreover have now: "truncate_time microsecond (cl_now sample_call) = 5000"
    and up: "up_Status ?up = UploadStatusUploading" "up_ExpiresAt ?up = 2000"
    by (simp_all add: sample_call_def sample_upload_def truncate_time_def microsecond_def)
  ultimately have run: "service_Complete sample_uuid sample_core full_service sample_call sample_publisher ''p1'' 4 sample_request sample_platform
       = (Inl ErrUploadExpired, (fst sample_platform, db'))"
    using sample_find(2) now up
    by (simp add: service_Complete_def act_bind_def act_read_def act_fail_def sample_text case_prod_beta Let_def)
  show ?thesis
    using failed_completion_cleans_up [OF run] run by (auto simp: sample_platform_def)
qed

end
