(* ===== verification/Release.thy ===== *)
theory Release
  imports Artifact
begin

text \<open>
  The release workflow of \<open>internal/release\<close>: the state machine (\<open>state_machine.go\<close>), the tables
  \<open>releases\<close>, \<open>release_artifacts\<close> and \<open>release_attempts\<close> with their constraints and the trigger
  \<open>protect_release_transition\<close> (\<open>postgres_repository.go\<close>, migration 000005) and the service
  (\<open>service.go\<close>). Every operation of the service first reads and then runs one transaction; the two
  halves are separate definitions, so that a run can interleave them with other transactions.
\<close>

section \<open>The state machine\<close>

datatype release_status =
  StatusDraft | StatusSubmitted | StatusApproved | StatusRejected | StatusPublishing | StatusPublished | StatusFailed

fun status_text :: "release_status \<Rightarrow> string" where
  "status_text StatusDraft = ''DRAFT''"
| "status_text StatusSubmitted = ''SUBMITTED''"
| "status_text StatusApproved = ''APPROVED''"
| "status_text StatusRejected = ''REJECTED''"
| "status_text StatusPublishing = ''PUBLISHING''"
| "status_text StatusPublished = ''PUBLISHED''"
| "status_text StatusFailed = ''FAILED''"

fun TransitionAllowed :: "release_status \<Rightarrow> release_status \<Rightarrow> bool" where
  "TransitionAllowed StatusDraft to = (to = StatusSubmitted)"
| "TransitionAllowed StatusSubmitted to = (to = StatusApproved \<or> to = StatusRejected)"
| "TransitionAllowed StatusApproved to = (to = StatusPublishing)"
| "TransitionAllowed StatusPublishing to = (to = StatusPublished \<or> to = StatusFailed)"
| "TransitionAllowed StatusFailed to = (to = StatusPublishing)"
| "TransitionAllowed _ to = False"

section \<open>Data\<close>

datatype release_error =
    ErrReleaseNotFound | ErrReleaseVersionExists | ErrInvalidTransition | ErrSelfApprovalForbidden
  | ErrStaleRelease | ErrProductInvalid | ErrChannelInvalid | ErrVersionInvalid | ErrReleaseNotesInvalid
  | ErrReleaseNotesMismatch | ErrCompatibilityInvalid | ErrCompatibilityMismatch | ErrArtifactsInvalid
  | ErrArtifactProductMismatch | ErrSourceInvalid | ErrIdempotencyKeyInvalid | ErrAttemptNotFound
  | ErrAttemptAlreadyExists | ErrAttemptStateInvalid | ErrRevocationReasonRequired
  | ErrRejectionReasonRequired | ErrReleaseAlreadyRevoked | ErrRepositoryRequired | ErrTransactorRequired
  | ErrProductReaderRequired | ErrArtifactReaderRequired | ErrAuditAppenderRequired | ErrJobEnqueuerRequired
  | ReleaseDatabase
  | ReleaseUUIDUnavailable
  | ReleaseIdentity identity_error
  | ReleaseProduct product_error
  | ReleaseArtifact artifact_error
  | ReleaseAudit audit_error
  | ReleaseJobs "unit job_error"

record Source =
  so_Repository :: string
  so_CommitSHA :: string
  so_Tag :: string
  so_PipelineRef :: string

record ArtifactBinding =
  ab_ArtifactID :: uuid
  ab_ArtifactType :: string
  ab_Filename :: string
  ab_Size :: int
  ab_SHA256 :: string

text \<open>A row of \<open>releases\<close>. A \<open>Release\<close> is a row with the artifacts bound to it; its Go fields read a
  NULL text as the empty string (\<open>coalesce\<close>).\<close>

record release_row =
  rl_id :: uuid
  rl_product_id :: string
  rl_channel :: string
  rl_version :: string
  rl_status :: release_status
  rl_lock_version :: int
  rl_notes :: string
  rl_notes_sha256 :: string
  rl_compatibility :: bytes
  rl_compatibility_sha256 :: string
  rl_source :: Source
  rl_created_by :: string
  rl_created_at :: time
  rl_updated_at :: time
  rl_submitted_by :: "string option"
  rl_submitted_at :: "time option"
  rl_approved_by :: "string option"
  rl_approved_at :: "time option"
  rl_rejected_by :: "string option"
  rl_rejected_at :: "time option"
  rl_rejection_reason :: "string option"
  rl_revoked_at :: "time option"
  rl_revoked_by :: "string option"
  rl_revocation_reason :: "string option"
  rl_failure_code :: "string option"

record Release =
  re_row :: release_row
  re_Artifacts :: "ArtifactBinding list"

definition coalesce :: "string option \<Rightarrow> string" where
  "coalesce v = (case v of None \<Rightarrow> [] | Some s \<Rightarrow> s)"

record CreateCommand =
  cc_ProductID :: string
  cc_Channel :: string
  cc_Version :: string
  cc_ReleaseNotes :: bytes
  cc_ReleaseNotesSHA256 :: string
  cc_Compatibility :: bytes
  cc_CompatibilitySHA256 :: string
  cc_ArtifactIDs :: "uuid list"
  cc_Source :: Source

record TransitionCommand =
  tc_ReleaseID :: uuid
  tc_ProductID :: string
  tc_From :: release_status
  tc_To :: release_status
  tc_ExpectedLockVersion :: int
  tc_Actor :: string
  tc_Reason :: string
  tc_At :: time

record RevokeCommand =
  rv_ReleaseID :: uuid
  rv_ProductID :: string
  rv_ExpectedLockVersion :: int
  rv_Actor :: string
  rv_Reason :: string
  rv_At :: time

datatype attempt_kind = AttemptKindPublish | AttemptKindRetry | AttemptKindRevoke
datatype attempt_status = AttemptStatusPending | AttemptStatusSucceeded | AttemptStatusFailed

fun kind_text :: "attempt_kind \<Rightarrow> string" where
  "kind_text AttemptKindPublish = ''publish''"
| "kind_text AttemptKindRetry = ''retry''"
| "kind_text AttemptKindRevoke = ''revoke''"

record Attempt =
  am_ID :: uuid
  am_ReleaseID :: uuid
  am_Kind :: attempt_kind
  am_Number :: int
  am_IdempotencyKey :: string
  am_Status :: attempt_status
  am_ErrorCode :: "string option"
  am_CreatedBy :: string
  am_CreatedAt :: time
  am_UpdatedAt :: time

record OperationResult =
  or_Release :: Release
  or_Attempt :: Attempt

record release_artifact_row =
  ra_release_id :: uuid
  ra_product_id :: string
  ra_artifact_id :: uuid
  ra_position :: nat

record release_db =
  rd_platform :: platform_db
  rd_releases :: "release_row list"
  rd_artifacts :: "release_artifact_row list"
  rd_attempts :: "Attempt list"

definition on_platform :: "(platform_db, 'e, 'a) action \<Rightarrow> (release_db, 'e, 'a) action" where
  "on_platform m = (\<lambda>db. case m (rd_platform db) of (r, pl) \<Rightarrow> (r, db\<lparr>rd_platform := pl\<rparr>))"

section \<open>Constraints and the trigger\<close>

definition commitSHAPattern :: regex where
  "commitSHAPattern = Alt (rep (Cls is_hex) 40) (rep (Cls is_hex) 64)"

text \<open>A CHECK that evaluates to NULL passes, so a NULL rejection reason does.\<close>

definition null_or :: "('a \<Rightarrow> bool) \<Rightarrow> 'a option \<Rightarrow> bool" where
  "null_or p v = (case v of None \<Rightarrow> True | Some x \<Rightarrow> p x)"

definition submission_consistent :: "release_row \<Rightarrow> bool" where
  "submission_consistent r \<longleftrightarrow>
     (if rl_status r = StatusDraft then rl_submitted_by r = None \<and> rl_submitted_at r = None
      else rl_submitted_by r \<noteq> None \<and> rl_submitted_at r \<noteq> None)"

definition decision_consistent :: "release_row \<Rightarrow> bool" where
  "decision_consistent r \<longleftrightarrow> (case rl_status r of
       StatusRejected \<Rightarrow> rl_approved_by r = None \<and> rl_approved_at r = None \<and> rl_rejected_by r \<noteq> None
         \<and> rl_rejected_at r \<noteq> None \<and> null_or (pg_length_between 1 2048) (rl_rejection_reason r)
     | s \<Rightarrow> (if s \<in> {StatusDraft, StatusSubmitted} then rl_approved_by r = None \<and> rl_approved_at r = None
           else rl_approved_by r \<noteq> None \<and> rl_approved_at r \<noteq> None)
         \<and> rl_rejected_by r = None \<and> rl_rejected_at r = None \<and> rl_rejection_reason r = None)"

definition revocation_consistent :: "release_row \<Rightarrow> bool" where
  "revocation_consistent r \<longleftrightarrow>
     rl_revoked_at r = None \<and> rl_revoked_by r = None \<and> rl_revocation_reason r = None
   \<or> rl_status r = StatusPublished \<and> rl_revoked_at r \<noteq> None \<and> null_or (pg_length_between 1 512) (rl_revoked_by r)
     \<and> null_or (pg_length_between 1 2048) (rl_revocation_reason r)"

definition release_row_ok :: "release_row \<Rightarrow> bool" where
  "release_row_ok r \<longleftrightarrow> pg_text (rl_product_id r) \<and> pg_text (rl_channel r) \<and> pg_length_between 5 255 (rl_version r)
     \<and> 1 \<le> rl_lock_version r \<and> rl_lock_version r \<le> int8_max
     \<and> pg_text (rl_notes r) \<and> 1 \<le> length (rl_notes r) \<and> length (rl_notes r) \<le> 1048576 \<and> hash_format (rl_notes_sha256 r)
     \<and> 2 \<le> length (rl_compatibility r) \<and> length (rl_compatibility r) \<le> 65536
     \<and> pg_text (rl_compatibility r) \<and> json_object (rl_compatibility r) \<and> hash_format (rl_compatibility_sha256 r)
     \<and> pg_length_between 1 2048 (so_Repository (rl_source r)) \<and> matches commitSHAPattern (so_CommitSHA (rl_source r))
     \<and> pg_length_between 1 255 (so_Tag (rl_source r)) \<and> pg_length_between 1 512 (so_PipelineRef (rl_source r))
     \<and> pg_length_between 1 512 (rl_created_by r) \<and> rl_created_at r \<le> rl_updated_at r
     \<and> null_or pg_text (rl_submitted_by r) \<and> null_or pg_text (rl_approved_by r) \<and> null_or pg_text (rl_rejected_by r)
     \<and> null_or pg_text (rl_failure_code r)
     \<and> submission_consistent r \<and> decision_consistent r \<and> revocation_consistent r"

text \<open>The columns the trigger keeps.\<close>

definition release_fixed :: "release_row \<Rightarrow> _" where
  "release_fixed r = (rl_id r, rl_product_id r, rl_channel r, rl_version r, rl_notes r, rl_notes_sha256 r,
     rl_compatibility r, rl_compatibility_sha256 r, rl_source r, rl_created_by r, rl_created_at r)"

definition revocation_of :: "release_row \<Rightarrow> time option \<times> string option \<times> string option" where
  "revocation_of r = (rl_revoked_at r, rl_revoked_by r, rl_revocation_reason r)"

definition protect_release_transition :: "time \<Rightarrow> release_row \<Rightarrow> release_row \<Rightarrow> release_row option" where
  "protect_release_transition db_now old new =
     (if release_fixed old \<noteq> release_fixed new then None
      else if rl_lock_version new \<noteq> rl_lock_version old + 1 then None
      else if rl_status old \<noteq> rl_status new \<and> \<not> TransitionAllowed (rl_status old) (rl_status new) then None
      else if rl_revoked_at old \<noteq> None \<and> revocation_of old \<noteq> revocation_of new then None
      else if rl_revoked_at old = None \<and> rl_revoked_at new \<noteq> None
        \<and> (rl_status old \<noteq> StatusPublished \<or> rl_status new \<noteq> StatusPublished) then None
      else Some (new\<lparr>rl_updated_at := max (rl_updated_at old) (max (rl_updated_at new) db_now)\<rparr>))"

text \<open>\<open>UPDATE releases SET f WHERE p RETURNING\<close>, where \<open>p\<close> fixes the primary key.\<close>

definition update_release :: "time \<Rightarrow> (release_row \<Rightarrow> bool) \<Rightarrow> (release_row \<Rightarrow> release_row) \<Rightarrow>
    (release_db, release_error, release_row option) action" where
  "update_release db_now p f = act_write (\<lambda>db. case find p (rd_releases db) of
       None \<Rightarrow> Inr (None, db)
     | Some old \<Rightarrow> (case protect_release_transition db_now old (f old) of
           None \<Rightarrow> Inl ReleaseDatabase
         | Some new \<Rightarrow>
             if \<not> release_row_ok new then Inl ReleaseDatabase
             else Inr (Some new, db\<lparr>rd_releases := tbl_put rl_id new (rd_releases db)\<rparr>)))"

section \<open>Repository\<close>

definition loadReleaseArtifacts :: "uuid \<Rightarrow> release_db \<Rightarrow> ArtifactBinding list" where
  "loadReleaseArtifacts releaseID db = concat (map (\<lambda>ra.
     (case (tbl_get binding_key (at_bindings (pl_artifacts (rd_platform db))) (ra_product_id ra, ra_artifact_id ra),
            tbl_get af_id (at_artifacts (pl_artifacts (rd_platform db))) (ra_artifact_id ra)) of
        (Some b, Some a) \<Rightarrow> [\<lparr>ab_ArtifactID = ra_artifact_id ra, ab_ArtifactType = bd_artifact_type b,
           ab_Filename = bd_filename b, ab_Size = af_size_bytes a, ab_SHA256 = af_sha256 a\<rparr>]
      | _ \<Rightarrow> []))
     (sort_key ra_position (filter (\<lambda>ra. ra_release_id ra = releaseID) (rd_artifacts db))))"

definition with_artifacts :: "release_row \<Rightarrow> release_db \<Rightarrow> Release" where
  "with_artifacts row db = \<lparr>re_row = row, re_Artifacts = loadReleaseArtifacts (rl_id row) db\<rparr>"

definition find_release :: "string \<Rightarrow> uuid \<Rightarrow> release_db \<Rightarrow> release_row option" where
  "find_release productID releaseID db = find (\<lambda>r. rl_product_id r = productID \<and> rl_id r = releaseID) (rd_releases db)"

definition loadRelease :: "string \<Rightarrow> uuid \<Rightarrow> release_db \<Rightarrow> release_error + Release" where
  "loadRelease productID releaseID db =
     (if \<not> pg_text productID then Inl ReleaseDatabase
      else (case find_release productID releaseID db of
          None \<Rightarrow> Inl ErrReleaseNotFound
        | Some row \<Rightarrow> Inr (with_artifacts row db)))"

definition GetByID :: "uuid \<Rightarrow> release_db \<Rightarrow> release_error + Release" where
  "GetByID releaseID db = (case tbl_get rl_id (rd_releases db) releaseID of
       None \<Rightarrow> Inl ErrReleaseNotFound
     | Some row \<Rightarrow> loadRelease (rl_product_id row) releaseID db)"

text \<open>The columns the statement does not name are NULL. The unique violation of product, channel and
  version is the only one that is mapped to an error of its own.\<close>

definition insert_release :: "release_row \<Rightarrow> (release_db, release_error, unit) action" where
  "insert_release record = act_write (\<lambda>db.
     let row = record\<lparr>rl_created_at := pg_timestamp (rl_created_at record), rl_updated_at := pg_timestamp (rl_created_at record),
           rl_submitted_by := None, rl_submitted_at := None, rl_approved_by := None, rl_approved_at := None,
           rl_rejected_by := None, rl_rejected_at := None, rl_rejection_reason := None, rl_revoked_at := None,
           rl_revoked_by := None, rl_revocation_reason := None, rl_failure_code := None\<rparr>;
         version_key = (\<lambda>r. (rl_product_id r, rl_channel r, rl_version r))
     in if \<not> release_row_ok row \<or> tbl_has rl_id (rd_releases db) (rl_id row) then Inl ReleaseDatabase
        else if tbl_has version_key (rd_releases db) (version_key row) then Inl ErrReleaseVersionExists
        else if \<not> tbl_has (\<lambda>c. (ch_ProductID c, ch_Name c)) (pr_channels (pl_products (rd_platform db))) (rl_product_id row, rl_channel row)
        then Inl ReleaseDatabase
        else Inr ((), db\<lparr>rd_releases := rd_releases db @ [row]\<rparr>))"

fun bind_artifacts :: "uuid \<Rightarrow> string \<Rightarrow> nat \<Rightarrow> ArtifactBinding list \<Rightarrow> (release_db, release_error, unit) action" where
  "bind_artifacts releaseID productID position [] = act_return ()"
| "bind_artifacts releaseID productID position (binding # bindings) =
     act_bind (act_write (\<lambda>db.
       if tbl_has (\<lambda>ra. (ra_release_id ra, ra_artifact_id ra)) (rd_artifacts db) (releaseID, ab_ArtifactID binding)
          \<or> tbl_has (\<lambda>ra. (ra_release_id ra, ra_position ra)) (rd_artifacts db) (releaseID, position)
          \<or> \<not> tbl_has binding_key (at_bindings (pl_artifacts (rd_platform db))) (productID, ab_ArtifactID binding)
       then Inl ReleaseDatabase
       else Inr ((), db\<lparr>rd_artifacts := rd_artifacts db @ [\<lparr>ra_release_id = releaseID, ra_product_id = productID,
              ra_artifact_id = ab_ArtifactID binding, ra_position = position\<rparr>]\<rparr>))) (\<lambda>_.
     bind_artifacts releaseID productID (Suc position) bindings)"

definition release_Create :: "Release \<Rightarrow> (release_db, release_error, unit) action" where
  "release_Create record = act_bind (insert_release (re_row record)) (\<lambda>_.
     bind_artifacts (rl_id (re_row record)) (rl_product_id (re_row record)) 0 (re_Artifacts record))"

definition classifyReleaseConflict :: "string \<Rightarrow> uuid \<Rightarrow> int \<Rightarrow> release_db \<Rightarrow> release_error" where
  "classifyReleaseConflict productID releaseID expectedLockVersion db = (case find_release productID releaseID db of
       None \<Rightarrow> ErrReleaseNotFound
     | Some row \<Rightarrow> if rl_lock_version row \<noteq> expectedLockVersion then ErrStaleRelease else ErrInvalidTransition)"

definition nullableReason :: "string \<Rightarrow> string option" where
  "nullableReason reason = (if reason = [] then None else Some reason)"

definition transition_where :: "TransitionCommand \<Rightarrow> release_row \<Rightarrow> bool" where
  "transition_where command r \<longleftrightarrow> rl_id r = tc_ReleaseID command \<and> rl_product_id r = tc_ProductID command
     \<and> rl_status r = tc_From command \<and> rl_lock_version r = tc_ExpectedLockVersion command"

definition transition_set :: "TransitionCommand \<Rightarrow> release_row \<Rightarrow> release_row" where
  "transition_set command r =
     (let to = tc_To command; actor = Some (tc_Actor command); at = Some (pg_timestamp (tc_At command)) in
      r\<lparr>rl_status := to, rl_lock_version := rl_lock_version r + 1,
        rl_submitted_by := (if to = StatusSubmitted then actor else rl_submitted_by r),
        rl_submitted_at := (if to = StatusSubmitted then at else rl_submitted_at r),
        rl_approved_by := (if to = StatusApproved then actor else rl_approved_by r),
        rl_approved_at := (if to = StatusApproved then at else rl_approved_at r),
        rl_rejected_by := (if to = StatusRejected then actor else rl_rejected_by r),
        rl_rejected_at := (if to = StatusRejected then at else rl_rejected_at r),
        rl_rejection_reason := (if to = StatusRejected then nullableReason (tc_Reason command) else rl_rejection_reason r),
        rl_updated_at := pg_timestamp (tc_At command)\<rparr>)"

definition Transition :: "time \<Rightarrow> TransitionCommand \<Rightarrow> (release_db, release_error, Release) action" where
  "Transition db_now command =
     (if \<not> pg_text (tc_ProductID command) \<or> \<not> pg_text (tc_Actor command) \<or> \<not> pg_text (tc_Reason command)
      then act_fail ReleaseDatabase
      else act_bind (update_release db_now (transition_where command) (transition_set command)) (\<lambda>r.
        act_read (\<lambda>db. case r of
            None \<Rightarrow> Inl (classifyReleaseConflict (tc_ProductID command) (tc_ReleaseID command) (tc_ExpectedLockVersion command) db)
          | Some row \<Rightarrow> Inr (with_artifacts row db))))"

definition revoke_where :: "RevokeCommand \<Rightarrow> release_row \<Rightarrow> bool" where
  "revoke_where command r \<longleftrightarrow> rl_id r = rv_ReleaseID command \<and> rl_product_id r = rv_ProductID command
     \<and> rl_status r = StatusPublished \<and> rl_lock_version r = rv_ExpectedLockVersion command \<and> rl_revoked_at r = None"

definition revoke_set :: "RevokeCommand \<Rightarrow> release_row \<Rightarrow> release_row" where
  "revoke_set command r = r\<lparr>rl_revoked_at := Some (pg_timestamp (rv_At command)), rl_revoked_by := Some (rv_Actor command),
     rl_revocation_reason := Some (rv_Reason command), rl_lock_version := rl_lock_version r + 1,
     rl_updated_at := pg_timestamp (rv_At command)\<rparr>"

definition repo_Revoke :: "time \<Rightarrow> RevokeCommand \<Rightarrow> (release_db, release_error, Release) action" where
  "repo_Revoke db_now command =
     (if \<not> pg_text (rv_ProductID command) then act_fail ReleaseDatabase
      else act_bind (update_release db_now (revoke_where command) (revoke_set command)) (\<lambda>r.
        act_read (\<lambda>db. case r of
            Some row \<Rightarrow> Inr (with_artifacts row db)
          | None \<Rightarrow> res_bind (loadRelease (rv_ProductID command) (rv_ReleaseID command) db) (\<lambda>current.
              if rl_revoked_at (re_row current) \<noteq> None then Inl ErrReleaseAlreadyRevoked
              else if rl_lock_version (re_row current) \<noteq> rv_ExpectedLockVersion command then Inl ErrStaleRelease
              else Inl ErrInvalidTransition))))"

abbreviation attempt_key :: "Attempt \<Rightarrow> uuid \<times> attempt_kind \<times> string" where
  "attempt_key a \<equiv> (am_ReleaseID a, am_Kind a, am_IdempotencyKey a)"

definition FindAttempt :: "uuid \<Rightarrow> attempt_kind \<Rightarrow> string \<Rightarrow> release_db \<Rightarrow> release_error + Attempt" where
  "FindAttempt releaseID kind idempotencyKey db =
     (if \<not> pg_text idempotencyKey then Inl ReleaseDatabase
      else of_option ErrAttemptNotFound (tbl_get attempt_key (rd_attempts db) (releaseID, kind, idempotencyKey)))"

definition GetAttemptByID :: "uuid \<Rightarrow> release_db \<Rightarrow> release_error + Attempt" where
  "GetAttemptByID attemptID db = of_option ErrAttemptNotFound (tbl_get am_ID (rd_attempts db) attemptID)"

text \<open>The advisory lock orders transactions with the same key; transactions of the model run one at a
  time.\<close>

definition LockOperation :: "uuid \<Rightarrow> attempt_kind \<Rightarrow> string \<Rightarrow> (release_db, release_error, unit) action" where
  "LockOperation releaseID kind idempotencyKey =
     (if pg_text idempotencyKey then act_return () else act_fail ReleaseDatabase)"

definition next_attempt_number :: "uuid \<Rightarrow> Attempt list \<Rightarrow> int" where
  "next_attempt_number releaseID rows =
     foldr (\<lambda>a m. max (am_Number a) m) (filter (\<lambda>a. am_ReleaseID a = releaseID) rows) 0 + 1"

definition CreateAttempt :: "Attempt \<Rightarrow> (release_db, release_error, Attempt) action" where
  "CreateAttempt attempt = act_write (\<lambda>db.
     let numbered = attempt\<lparr>am_Number := next_attempt_number (am_ReleaseID attempt) (rd_attempts db)\<rparr>;
         row = numbered\<lparr>am_ErrorCode := None, am_CreatedAt := pg_timestamp (am_CreatedAt attempt),
                 am_UpdatedAt := pg_timestamp (am_CreatedAt attempt)\<rparr>
     in if am_Number row > int4_max \<or> \<not> pg_length_between 8 128 (am_IdempotencyKey row)
           \<or> \<not> pg_length_between 1 512 (am_CreatedBy row) \<or> am_Status row = AttemptStatusFailed
           \<or> tbl_has am_ID (rd_attempts db) (am_ID row) then Inl ReleaseDatabase
        else if tbl_has attempt_key (rd_attempts db) (attempt_key row) then Inl ErrAttemptAlreadyExists
        else if \<not> tbl_has rl_id (rd_releases db) (am_ReleaseID row) then Inl ReleaseDatabase
        else Inr (numbered, db\<lparr>rd_attempts := rd_attempts db @ [row]\<rparr>))"

text \<open>\<open>UPDATE release_attempts ... WHERE id = $1 AND release_id = $2 AND status = 'pending'\<close>\<close>

definition settle_attempt :: "uuid \<Rightarrow> uuid \<Rightarrow> attempt_status \<Rightarrow> string option \<Rightarrow> time \<Rightarrow> (release_db, release_error, unit) action" where
  "settle_attempt releaseID attemptID status errorCode at = act_write (\<lambda>db.
     let p = (\<lambda>a. am_ID a = attemptID \<and> am_ReleaseID a = releaseID \<and> am_Status a = AttemptStatusPending);
         f = (\<lambda>a. a\<lparr>am_Status := status, am_ErrorCode := errorCode, am_UpdatedAt := at\<rparr>)
     in if rows_affected p (rd_attempts db) \<noteq> 1 then Inl ErrAttemptStateInvalid
        else if list_ex (\<lambda>a. p a \<and> at < am_CreatedAt a) (rd_attempts db) then Inl ReleaseDatabase
        else Inr ((), db\<lparr>rd_attempts := update_where p f (rd_attempts db)\<rparr>))"

text \<open>The attempt a completion or failure is for.\<close>

definition lock_attempt :: "attempt_kind \<Rightarrow> uuid \<Rightarrow> uuid \<Rightarrow> release_db \<Rightarrow> release_error + Attempt" where
  "lock_attempt kind releaseID attemptID db = res_bind (GetAttemptByID attemptID db) (\<lambda>a.
     if am_ReleaseID a \<noteq> releaseID \<or> am_Kind a \<noteq> kind then Inl ErrAttemptNotFound else Inr a)"

definition set_publication :: "release_status \<Rightarrow> string option \<Rightarrow> time \<Rightarrow> release_row \<Rightarrow> release_row" where
  "set_publication status code at r = r\<lparr>rl_status := status, rl_lock_version := rl_lock_version r + 1,
     rl_failure_code := code, rl_updated_at := at\<rparr>"

text \<open>The pending publication: the release leaves PUBLISHING, then the attempt is settled.\<close>

definition settle_publication :: "time \<Rightarrow> uuid \<Rightarrow> uuid \<Rightarrow> release_status \<Rightarrow> attempt_status \<Rightarrow> string option \<Rightarrow> time \<Rightarrow>
    (release_db, release_error, unit) action" where
  "settle_publication db_now releaseID attemptID status attemptStatus code at =
     act_bind (update_release db_now (\<lambda>r. rl_id r = releaseID \<and> rl_status r = StatusPublishing)
         (set_publication status code at)) (\<lambda>r.
     if r = None then act_fail ErrInvalidTransition
     else settle_attempt releaseID attemptID attemptStatus code at)"

definition CompletePublication :: "time \<Rightarrow> uuid \<Rightarrow> uuid \<Rightarrow> time \<Rightarrow> (release_db, release_error, unit) action" where
  "CompletePublication db_now releaseID attemptID completedAt =
     (if releaseID = uuid_Nil \<or> attemptID = uuid_Nil \<or> completedAt = 0 then act_fail ErrAttemptStateInvalid
      else act_bind (act_read (lock_attempt AttemptKindPublish releaseID attemptID)) (\<lambda>a.
        if am_Status a = AttemptStatusSucceeded then
          act_read (\<lambda>db. case tbl_get rl_id (rd_releases db) releaseID of
              None \<Rightarrow> Inl ReleaseDatabase
            | Some r \<Rightarrow> if rl_status r = StatusPublished then Inr () else Inl ErrAttemptStateInvalid)
        else if am_Status a \<noteq> AttemptStatusPending then act_fail ErrAttemptStateInvalid
        else settle_publication db_now releaseID attemptID StatusPublished AttemptStatusSucceeded None
          (truncate_time microsecond completedAt)))"

definition failure_code_ok :: "string \<Rightarrow> bool" where
  "failure_code_ok code \<longleftrightarrow> length code \<le> 128 \<and> matches errorCodePattern code"

definition FailPublication :: "time \<Rightarrow> uuid \<Rightarrow> uuid \<Rightarrow> string \<Rightarrow> time \<Rightarrow> (release_db, release_error, unit) action" where
  "FailPublication db_now releaseID attemptID errorCode failedAt =
     (let errorCode = trim_space errorCode in
      if releaseID = uuid_Nil \<or> attemptID = uuid_Nil \<or> failedAt = 0 \<or> \<not> failure_code_ok errorCode
      then act_fail ErrAttemptStateInvalid
      else act_bind (act_read (lock_attempt AttemptKindPublish releaseID attemptID)) (\<lambda>a.
        if am_Status a = AttemptStatusFailed then
          act_read (\<lambda>db. case tbl_get rl_id (rd_releases db) releaseID of
              None \<Rightarrow> Inl ReleaseDatabase
            | Some r \<Rightarrow> if rl_status r = StatusFailed \<and> coalesce (am_ErrorCode a) = errorCode
                          \<and> coalesce (rl_failure_code r) = errorCode then Inr () else Inl ErrAttemptStateInvalid)
        else if am_Status a \<noteq> AttemptStatusPending then act_fail ErrAttemptStateInvalid
        else settle_publication db_now releaseID attemptID StatusFailed AttemptStatusFailed (Some errorCode)
          (truncate_time microsecond failedAt)))"

definition check_revoked :: "uuid \<Rightarrow> release_db \<Rightarrow> release_error + unit" where
  "check_revoked releaseID db = (case tbl_get rl_id (rd_releases db) releaseID of
       None \<Rightarrow> Inl ReleaseDatabase
     | Some r \<Rightarrow> if rl_status r \<noteq> StatusPublished \<or> rl_revoked_at r = None then Inl ErrInvalidTransition else Inr ())"

definition CompleteRevocation :: "uuid \<Rightarrow> uuid \<Rightarrow> time \<Rightarrow> (release_db, release_error, unit) action" where
  "CompleteRevocation releaseID attemptID completedAt =
     (if releaseID = uuid_Nil \<or> attemptID = uuid_Nil \<or> completedAt = 0 then act_fail ErrAttemptStateInvalid
      else act_bind (act_read (lock_attempt AttemptKindRevoke releaseID attemptID)) (\<lambda>a.
        if am_Status a = AttemptStatusSucceeded then act_return ()
        else if am_Status a \<noteq> AttemptStatusPending then act_fail ErrAttemptStateInvalid
        else act_bind (act_read (check_revoked releaseID)) (\<lambda>_.
          settle_attempt releaseID attemptID AttemptStatusSucceeded None (truncate_time microsecond completedAt))))"

definition FailRevocation :: "uuid \<Rightarrow> uuid \<Rightarrow> string \<Rightarrow> time \<Rightarrow> (release_db, release_error, unit) action" where
  "FailRevocation releaseID attemptID errorCode failedAt =
     (let errorCode = trim_space errorCode in
      if releaseID = uuid_Nil \<or> attemptID = uuid_Nil \<or> failedAt = 0 \<or> \<not> failure_code_ok errorCode
      then act_fail ErrAttemptStateInvalid
      else act_bind (act_read (lock_attempt AttemptKindRevoke releaseID attemptID)) (\<lambda>a.
        if am_Status a = AttemptStatusFailed \<and> coalesce (am_ErrorCode a) = errorCode then act_return ()
        else if am_Status a \<noteq> AttemptStatusPending then act_fail ErrAttemptStateInvalid
        else act_bind (act_read (check_revoked releaseID)) (\<lambda>_.
          settle_attempt releaseID attemptID AttemptStatusFailed (Some errorCode) (truncate_time microsecond failedAt))))"

end
