(* ===== verification/CanonicalJson.thy ===== *)
theory CanonicalJson
  imports JsonText Release
begin

text \<open>
  The canonical JSON of signed catalog metadata (\<open>internal/catalog/canonicaljson.go\<close>) and the errors of
  the package. A parsed value is a \<open>json\<close>, whose objects list their members in the order read; a value
  built by the code is a \<open>go_value\<close>, where a Go map is a list of pairs and a struct lists its fields in
  the declared order. The reader carries the fuel of \<open>read_value\<close>, which is always enough.
\<close>

section \<open>Errors\<close>

datatype catalog_error =
    ErrCanonicalJSON | ErrBundleIncomplete | ErrEnvelopeInvalid | ErrRoleTypeInvalid | ErrRoleVersionInvalid
  | ErrRoleVersionMismatch | ErrRoleExpired | ErrRoleDigestMismatch | ErrSignatureThreshold | ErrRootInvalid
  | ErrTargetInvalid | ErrReleaseNotesDigestMismatch | ErrCompatibilityDigestMismatch | ErrTargetRevoked
  | ErrKeyRevoked | ErrVersionsInvalid | ErrBuilderConfiguration
  | ErrVersionRecordInvalid | ErrVersionRecordExists | ErrVersionRecordNotFound | ErrCurrentCatalogNotFound
  | ErrMetadataVersionRollback
  | ErrPublicationConfiguration | ErrPublicationJobInvalid | ErrPublicationDigestMismatch | ErrPublicationStateInvalid
  | CatalogJSON json_error | CatalogRelease release_error | CatalogProduct product_error | CatalogStore store_error
  | CatalogAudit audit_error | CatalogSigning | CatalogUUIDUnavailable | CatalogRead | CatalogDatabase

section \<open>Strict reading\<close>

definition integerJSONPattern :: regex where
  "integerJSONPattern = Cat (opt (Cls (\<lambda>c. c = CHR ''-'')))
     (Alt (Cls (\<lambda>c. c = CHR ''0'')) (Cat (Cls (in_range 49 57)) (Star (Cls is_digit))))"

text \<open>\<open>strictJSONToken\<close>, with the loops of its two kinds of composite value.\<close>

fun strictJSONToken :: "nat \<Rightarrow> decoder \<Rightarrow> catalog_error + (json \<times> decoder)"
and strict_object :: "nat \<Rightarrow> (bytes \<times> json) list \<Rightarrow> decoder \<Rightarrow> catalog_error + ((bytes \<times> json) list \<times> decoder)"
and strict_array :: "nat \<Rightarrow> json list \<Rightarrow> decoder \<Rightarrow> catalog_error + (json list \<times> decoder)" where
  "strictJSONToken 0 d = Inl (CatalogJSON JFuel)"
| "strictJSONToken (Suc n) d = (case Token d of
       Inl e \<Rightarrow> Inl (CatalogJSON e)
     | Inr (token, d1) \<Rightarrow> (case token of
           Delim value \<Rightarrow>
             if value = CHR ''{'' then
               res_bind (strict_object n [] d1) (\<lambda>(result, d2). case Token d2 of
                   Inr (closing, d3) \<Rightarrow> if closing = Delim (CHR ''}'') then Inr (JObj result, d3) else Inl ErrCanonicalJSON
                 | Inl _ \<Rightarrow> Inl ErrCanonicalJSON)
             else if value = CHR ''['' then
               res_bind (strict_array n [] d1) (\<lambda>(result, d2). case Token d2 of
                   Inr (closing, d3) \<Rightarrow> if closing = Delim (CHR '']'') then Inr (JArr result, d3) else Inl ErrCanonicalJSON
                 | Inl _ \<Rightarrow> Inl ErrCanonicalJSON)
             else Inl ErrCanonicalJSON
         | TNum text \<Rightarrow>
             if text = ''-0'' \<or> \<not> matches integerJSONPattern text then Inl ErrCanonicalJSON else Inr (JNum text, d1)
         | TStr value \<Rightarrow> if \<not> utf8_valid value then Inl ErrCanonicalJSON else Inr (JStr value, d1)
         | TBool value \<Rightarrow> Inr (JBool value, d1)
         | TNull \<Rightarrow> Inr (JNull, d1)))"
| "strict_object 0 result d = Inl (CatalogJSON JFuel)"
| "strict_object (Suc n) result d =
     (if \<not> More d then Inr (result, d)
      else (case Token d of
          Inl e \<Rightarrow> Inl (CatalogJSON e)
        | Inr (keyToken, d1) \<Rightarrow> (case keyToken of
              TStr key \<Rightarrow>
                if \<not> utf8_valid key then Inl ErrCanonicalJSON
                else if key \<in> set (map fst result) then Inl ErrCanonicalJSON
                else res_bind (strictJSONToken n d1) (\<lambda>(child, d2). strict_object n (result @ [(key, child)]) d2)
            | _ \<Rightarrow> Inl ErrCanonicalJSON)))"
| "strict_array 0 result d = Inl (CatalogJSON JFuel)"
| "strict_array (Suc n) result d =
     (if \<not> More d then Inr (result, d)
      else res_bind (strictJSONToken n d) (\<lambda>(child, d1). strict_array n (result @ [child]) d1))"

definition strictJSONValue :: "bytes \<Rightarrow> catalog_error + json" where
  "strictJSONValue raw =
     (if \<not> utf8_valid raw then Inl ErrCanonicalJSON
      else (case strictJSONToken (fuel_for raw) (new_decoder raw) of
          Inl _ \<Rightarrow> Inl ErrCanonicalJSON
        | Inr (v, d) \<Rightarrow> if Token d \<noteq> Inl JEOF then Inl ErrCanonicalJSON else Inr v))"

section \<open>Encoding\<close>

definition encode_character :: "char \<Rightarrow> bytes" where
  "encode_character c =
     (if c = CHR 0x22 \<or> c = CHR 0x5C then [CHR 0x5C, c]
      else if byte_val c = 8 then [CHR 0x5C, CHR ''b'']
      else if byte_val c = 12 then [CHR 0x5C, CHR ''f'']
      else if byte_val c = 10 then [CHR 0x5C, CHR ''n'']
      else if byte_val c = 13 then [CHR 0x5C, CHR ''r'']
      else if byte_val c = 9 then [CHR 0x5C, CHR ''t'']
      else if byte_val c < 32 then CHR 0x5C # ''u00'' @ [hex_char (byte_val c div 16), hex_char (byte_val c mod 16)]
      else [c])"

text \<open>The runes of a string; an invalid byte is U+FFFD.\<close>

function encode_runes :: "bytes \<Rightarrow> bytes" where
  "encode_runes s = (case s of [] \<Rightarrow> []
     | c # r \<Rightarrow>
        if byte_val c < 128 then encode_character c @ encode_runes r
        else if utf8_width s = 0 then rune_error @ encode_runes r
        else take (utf8_width s) s @ encode_runes (drop (utf8_width s) s))"
  by pat_completeness auto
termination
  by (relation "measure length") auto

declare encode_runes.simps [simp del]

definition encodeJSONString :: "bytes \<Rightarrow> bytes" where
  "encodeJSONString value = CHR 0x22 # encode_runes value @ [CHR 0x22]"

fun encodeCanonicalValue :: "json \<Rightarrow> bytes" where
  "encodeCanonicalValue (JObj item) = ''{'' @ join_comma (map (\<lambda>kv. encodeJSONString (fst kv) @ '':'' @ snd kv)
     (sort_key fst (map (\<lambda>m. (fst m, encodeCanonicalValue (snd m))) item))) @ ''}''"
| "encodeCanonicalValue (JArr item) = ''['' @ join_comma (map encodeCanonicalValue item) @ '']''"
| "encodeCanonicalValue (JStr item) = encodeJSONString item"
| "encodeCanonicalValue (JBool item) = (if item then ''true'' else ''false'')"
| "encodeCanonicalValue JNull = ''null''"
| "encodeCanonicalValue (JNum item) = item"

text \<open>\<open>CanonicalJSON\<close> of bytes.\<close>

definition CanonicalJSON :: "bytes \<Rightarrow> catalog_error + bytes" where
  "CanonicalJSON raw = res_bind (strictJSONValue raw) (\<lambda>parsed. Inr (encodeCanonicalValue parsed))"

section \<open>Values built by the code\<close>

datatype go_value =
    GoNil
  | GoBool bool
  | GoNumber string
  | GoString bytes
  | GoSlice "go_value list"
  | GoMap "(bytes \<times> go_value) list"
  | GoStruct "(bytes \<times> go_value) list"

text \<open>The walk over a value by reflection looks at strings, map keys, maps and slices, not into structs.\<close>

fun validateCanonicalInput :: "go_value \<Rightarrow> bool" where
  "validateCanonicalInput (GoString s) = utf8_valid s"
| "validateCanonicalInput (GoNumber s) = utf8_valid s"
| "validateCanonicalInput (GoMap ms) = list_all (\<lambda>m. utf8_valid (fst m) \<and> validateCanonicalInput (snd m)) ms"
| "validateCanonicalInput (GoSlice xs) = list_all validateCanonicalInput xs"
| "validateCanonicalInput _ = True"

text \<open>\<open>json.Marshal\<close>: the keys of a map sorted, the fields of a struct in their order. The numbers of the
  model are integers, which are always valid.\<close>

abbreviation marshal_members :: "(bytes \<times> bytes) list \<Rightarrow> bytes" where
  "marshal_members kvs \<equiv> ''{'' @ join_comma (map (\<lambda>kv. marshal_string (fst kv) @ '':'' @ snd kv) kvs) @ ''}''"

fun marshal_go :: "go_value \<Rightarrow> bytes" where
  "marshal_go GoNil = ''null''"
| "marshal_go (GoBool b) = (if b then ''true'' else ''false'')"
| "marshal_go (GoNumber n) = n"
| "marshal_go (GoString s) = marshal_string s"
| "marshal_go (GoSlice xs) = ''['' @ join_comma (map marshal_go xs) @ '']''"
| "marshal_go (GoMap ms) = marshal_members (sort_key fst (map (\<lambda>m. (fst m, marshal_go (snd m))) ms))"
| "marshal_go (GoStruct ms) = marshal_members (map (\<lambda>m. (fst m, marshal_go (snd m))) ms)"

text \<open>\<open>CanonicalJSON\<close> of any other value.\<close>

definition CanonicalJSON_value :: "go_value \<Rightarrow> catalog_error + bytes" where
  "CanonicalJSON_value v = (if \<not> validateCanonicalInput v then Inl ErrCanonicalJSON else CanonicalJSON (marshal_go v))"

section \<open>The reader accepts exactly the strict values\<close>

lemma matches_Star_Cls: "matches (Star (Cls p)) s \<longleftrightarrow> list_all p s"
proof (induction s)
  case (Cons c s)
  have "c # s \<in> lang (Star (Cls p)) \<longleftrightarrow> p c \<and> s \<in> lang (Star (Cls p))"
    by (auto simp: star_lang_Cons)
  with Cons show ?case by (simp add: matches_lang del: lang.simps)
qed simp

lemma lang_opt_Cls: "s \<in> lang (Cat (opt (Cls p)) r) \<longleftrightarrow> s \<in> lang r \<or> s \<in> lang (Cat (Cls p) r)"
  by (auto simp: opt_def)

lemma integer_text: "matches integerJSONPattern n \<longleftrightarrow> int_text n"
proof -
  let ?nat = "Alt (Cls (\<lambda>c. c = CHR ''0'')) (Cat (Cls (in_range 49 57)) (Star (Cls is_digit)))"
  have digit: "in_range 49 57 c \<longleftrightarrow> is_digit c \<and> c \<noteq> CHR ''0''" for c
  proof -
    have "byte_of 48 = CHR ''0''" "byte_val (CHR ''0'') = 48" by code_simp+
    then have "c = CHR ''0'' \<longleftrightarrow> byte_val c = 48" using byte_of_val [of c] by metis
    then show ?thesis by (auto simp: is_digit_def in_range_def)
  qed
  have nat: "m \<in> lang ?nat \<longleftrightarrow> m = ''0'' \<or> m \<noteq> [] \<and> hd m \<noteq> CHR ''0'' \<and> list_all is_digit m" for m
    using matches_Star_Cls [of is_digit]
    by (cases m) (auto simp: lang_Cat_Cls digit matches_lang simp del: lang.simps(4,6))
  have "n \<in> lang integerJSONPattern \<longleftrightarrow> n \<in> lang ?nat \<or> (\<exists>m. n = CHR ''-'' # m \<and> m \<in> lang ?nat)"
    unfolding integerJSONPattern_def lang_opt_Cls lang_Cat_Cls [of n "\<lambda>c. c = CHR ''-''"] by blast
  also have "\<dots> \<longleftrightarrow> int_text n"
  proof (cases n)
    case (Cons c r)
    have "\<not> is_digit (CHR ''-'')" by (simp add: is_digit_def in_range_def byte_val_def)
    with Cons show ?thesis unfolding nat by (cases "c = CHR ''-''") (simp_all add: int_text_def)
  qed (unfold nat, simp add: int_text_def)
  finally show ?thesis by (simp add: matches_lang)
qed

fun strict_value :: "json \<Rightarrow> bool" where
  "strict_value (JObj ms) = (distinct (map fst ms) \<and> list_all (\<lambda>m. utf8_valid (fst m) \<and> strict_value (snd m)) ms)"
| "strict_value (JArr es) = list_all strict_value es"
| "strict_value (JNum n) = (n \<noteq> ''-0'' \<and> int_text n)"
| "strict_value (JStr s) = utf8_valid s"
| "strict_value _ = True"

lemma strict_object_step:
  "strict_object (Suc n) result d = Inr (ms, d') \<longleftrightarrow>
     (if \<not> More d then ms = result \<and> d' = d
      else \<exists>key d1 v d2. Token d = Inr (TStr key, d1) \<and> utf8_valid key \<and> key \<notin> set (map fst result)
        \<and> strictJSONToken n d1 = Inr (v, d2) \<and> strict_object n (result @ [(key, v)]) d2 = Inr (ms, d'))"
proof (cases "Token d")
  case (Inr r)
  obtain k d1 where "r = (k, d1)" by (cases r)
  with Inr show ?thesis by (cases k) (auto simp: res_elims)
qed auto

lemma closing_strict:
  "(case Token d of Inr (closing, d3) \<Rightarrow> if closing = x then Inr (v, d3) else Inl ErrCanonicalJSON
      | Inl _ \<Rightarrow> Inl ErrCanonicalJSON) = Inr (w, d') \<longleftrightarrow> Token d = Inr (x, d') \<and> w = v"
  by (auto split: sum.splits)

lemma strict_token_step:
  "strictJSONToken (Suc n) d = Inr (v, d') \<longleftrightarrow>
     (\<exists>d1 ms d2. Token d = Inr (Delim (CHR ''{''), d1) \<and> strict_object n [] d1 = Inr (ms, d2)
        \<and> Token d2 = Inr (Delim (CHR ''}''), d') \<and> v = JObj ms)
     \<or> (\<exists>d1 es d2. Token d = Inr (Delim (CHR ''[''), d1) \<and> strict_array n [] d1 = Inr (es, d2)
        \<and> Token d2 = Inr (Delim (CHR '']''), d') \<and> v = JArr es)
     \<or> (\<exists>tok. Token d = Inr (tok, d') \<and> (\<forall>c. tok \<noteq> Delim c) \<and> v = scalar_value tok \<and> strict_value v)"
proof (cases "Token d")
  case (Inr r)
  obtain k d1 where "r = (k, d1)" by (cases r)
  with Inr show ?thesis
    by (cases k) (auto simp: res_elims closing_strict integer_text split: if_splits)
qed auto

declare strictJSONToken.simps(2) [simp del] strict_object.simps(2) [simp del]

lemma strict_read:
  "(\<forall>d v d'. strictJSONToken n d = Inr (v, d') \<longleftrightarrow> read_value n d = Inr (v, d') \<and> strict_value v)
   \<and> (\<forall>res d ms d'. strict_object n res d = Inr (ms, d') \<longleftrightarrow> (\<exists>ms'. read_members n d = Inr (ms', d') \<and> ms = res @ ms'
        \<and> distinct (map fst ms') \<and> set (map fst ms') \<inter> set (map fst res) = {}
        \<and> list_all (\<lambda>m. utf8_valid (fst m) \<and> strict_value (snd m)) ms'))
   \<and> (\<forall>res d es d'. strict_array n res d = Inr (es, d') \<longleftrightarrow> (\<exists>es'. read_elements n d = Inr (es', d') \<and> es = res @ es'
        \<and> list_all strict_value es'))"
proof (induction n)
  case 0
  then show ?case by simp
next
  case (Suc n)
  note IHv = Suc [THEN conjunct1, rule_format]
  note IHm = Suc [THEN conjunct2, THEN conjunct1, rule_format]
  note IHe = Suc [THEN conjunct2, THEN conjunct2, rule_format]
  have "strictJSONToken (Suc n) d = Inr (v, d') \<longleftrightarrow> read_value (Suc n) d = Inr (v, d') \<and> strict_value v" for d v d'
    unfolding strict_token_step read_value_step IHm IHe by (auto simp: list_all_iff)
  moreover have "strict_object (Suc n) res d = Inr (ms, d') \<longleftrightarrow> (\<exists>ms'. read_members (Suc n) d = Inr (ms', d') \<and> ms = res @ ms'
        \<and> distinct (map fst ms') \<and> set (map fst ms') \<inter> set (map fst res) = {}
        \<and> list_all (\<lambda>m. utf8_valid (fst m) \<and> strict_value (snd m)) ms')" for res d ms d'
  proof (cases "More d")
    case True
    then show ?thesis unfolding strict_object_step read_members_step IHv IHm by (fastforce simp: list_all_iff)
  qed (auto simp: strict_object_step read_members_step)
  moreover have "strict_array (Suc n) res d = Inr (es, d') \<longleftrightarrow> (\<exists>es'. read_elements (Suc n) d = Inr (es', d') \<and> es = res @ es'
        \<and> list_all strict_value es')" for res d es d'
    by (cases "More d") (force simp: res_elims IHv IHe)+
  ultimately show ?case by blast
qed

theorem strictJSONValue_iff:
  "strictJSONValue raw = Inr v \<longleftrightarrow> utf8_valid raw \<and> strict_value v
     \<and> (\<exists>d. read_value (fuel_for raw) (new_decoder raw) = Inr (v, d) \<and> Token d = Inl JEOF)"
proof -
  have "strictJSONValue raw = Inr v \<longleftrightarrow> utf8_valid raw
      \<and> (\<exists>d. strictJSONToken (fuel_for raw) (new_decoder raw) = Inr (v, d) \<and> Token d = Inl JEOF)"
    by (auto simp: strictJSONValue_def split: sum.splits)
  then show ?thesis unfolding strict_read [THEN conjunct1, rule_format] by blast
qed

section \<open>Canonical texts\<close>

lemma quotes_character: "byte_val c < 128 \<Longrightarrow> quotes s b \<Longrightarrow> quotes (c # s) (encode_character c @ b)"
  using quotes_control [of c s b] quotes_ascii [of c s b]
  by (auto simp: encode_character_def intro!: quotes_escape simple_escapes)

lemma quotes_runes: "utf8_valid s \<Longrightarrow> quotes s (encode_runes s)"
proof (induction s rule: measure_induct_rule [where f = length])
  case (less s)
  show ?case
  proof (cases s)
    case Nil
    then show ?thesis by (simp add: encode_runes.simps quotes_Nil)
  next
    case (Cons c r)
    note w = utf8_valid_step [OF less.prems]
    have IH: "quotes (drop (utf8_width s) s) (encode_runes (drop (utf8_width s) s))"
      using less.IH [of "drop (utf8_width s) s"] w Cons by simp
    show ?thesis
    proof (cases "byte_val c < 128")
      case True
      then have "utf8_width s = 1" by (simp add: utf8_width_def Cons)
      then show ?thesis using True IH Cons by (subst encode_runes.simps) (simp add: quotes_character)
    next
      case False
      have "encode_runes s = take (utf8_width s) s @ encode_runes (drop (utf8_width s) s)"
        using False Cons w(1) by (subst encode_runes.simps) simp
      moreover have "128 \<le> byte_val (hd s)" "s \<noteq> []" using False Cons by simp_all
      ultimately show ?thesis using quotes_rune [OF _ w(1) IH] by simp
    qed
  qed
qed

text \<open>The value with the members of every object in the order of their keys.\<close>

fun sort_json :: "json \<Rightarrow> json" where
  "sort_json (JObj ms) = JObj (sort_key fst (map (\<lambda>m. (fst m, sort_json (snd m))) ms))"
| "sort_json (JArr es) = JArr (map sort_json es)"
| "sort_json v = v"

lemma insort_key_map: "map h (insort_key (\<lambda>x. k (h x)) x xs) = insort_key k (h x) (map h xs)"
  by (induction xs) auto

lemma sort_key_map: "sort_key k (map h xs) = map h (sort_key (\<lambda>x. k (h x)) xs)"
  by (induction xs) (simp_all add: insort_key_map)

lemma sort_key_idem [simp]: "sort_key k (sort_key k xs) = sort_key k xs"
proof -
  have "sorted (map k ys) \<Longrightarrow> sort_key k ys = ys" for ys
    by (induction ys) (auto intro: insort_is_Cons)
  then show ?thesis by simp
qed

lemma prints_canonical: "strict_value v \<Longrightarrow> prints (encodeCanonicalValue v) (sort_json v)"
proof (induction v)
  case (JObj ms)
  have val: "quotes (fst m) (encode_runes (fst m)) \<and> prints (encodeCanonicalValue (snd m)) (sort_json (snd m))"
    if "m \<in> set ms" for m
    using JObj that by (cases m) (force simp: list_all_iff quotes_runes)
  let ?b = "\<lambda>m. quoted (encode_runes (fst m)) @ '':'' @ encodeCanonicalValue (snd m)"
  have "prints (''{'' @ join_comma (map ?b (sort_key fst ms)) @ ''}'') (JObj (map (\<lambda>m. (fst m, sort_json (snd m))) (sort_key fst ms)))"
    by (rule prints_obj) (use val in \<open>auto simp: list_all2_map1 list_all2_map2 list_all2_same\<close>)
  then show ?case by (simp add: sort_key_map encodeJSONString_def comp_def)
next
  case (JArr es)
  then have "prints (''['' @ join_comma (map encodeCanonicalValue es) @ '']'') (JArr (map sort_json es))"
    by (intro prints_arr) (auto simp: list_all_iff list_all2_map1 list_all2_map2 list_all2_same)
  then show ?case by simp
qed (auto simp: prints.intros encodeJSONString_def quotes_runes)

lemma strict_sort: "strict_value (sort_json v) = strict_value v"
proof (induction v)
  case (JObj ms)
  have "strict_value (sort_json (snd m)) = strict_value (snd m)" if "m \<in> set ms" for m
    using JObj that by (cases m) auto
  moreover have "distinct (map fst (sort_key fst ms)) = distinct (map fst ms)" by (simp add: distinct_map)
  ultimately show ?case by (auto simp: sort_key_map list_all_iff comp_def)
qed (auto simp: list_all_iff)

lemma sort_sort: "sort_json (sort_json v) = sort_json v"
proof (induction v)
  case (JObj ms)
  then have "map (\<lambda>m. (fst m, sort_json (sort_json (snd m)))) (sort_key fst ms) = map (\<lambda>m. (fst m, sort_json (snd m))) (sort_key fst ms)"
    by (intro map_cong) auto
  then show ?case by (simp add: sort_key_map comp_def)
qed simp_all

lemma encode_sort: "encodeCanonicalValue (sort_json v) = encodeCanonicalValue v"
proof (induction v)
  case (JObj ms)
  then have "encodeCanonicalValue (sort_json (snd m)) = encodeCanonicalValue (snd m)" if "m \<in> set ms" for m
    using that by (cases m) auto
  then show ?case by (auto simp: sort_key_map comp_def intro!: arg_cong [where f = join_comma] map_cong)
next
  case (JArr es)
  then show ?case by (auto simp: comp_def intro!: arg_cong [where f = join_comma] map_cong)
qed simp_all

section \<open>Canonical texts are valid UTF-8\<close>

lemma utf8_valid_Cons: "byte_val c < 128 \<Longrightarrow> utf8_valid (c # s) = utf8_valid s"
  by (subst utf8_valid.simps) (simp add: utf8_width_def)

lemma utf8_valid_append: "utf8_valid a \<Longrightarrow> utf8_valid b \<Longrightarrow> utf8_valid (a @ b)"
proof (induction a rule: measure_induct_rule [where f = length])
  case (less a)
  show ?case
  proof (cases "a = []")
    case False
    note w = utf8_valid_step [OF less.prems(1) False]
    have t: "utf8_width (take (utf8_width a) a) = length (take (utf8_width a) a)" "take (utf8_width a) a \<noteq> []"
      using utf8_width_take [OF w(1)] w(1) False by auto
    have "utf8_width (take (utf8_width a) a @ drop (utf8_width a) a @ b) = utf8_width a"
      using utf8_width_prefix [OF t] utf8_width_take(2) [OF w(1)] by simp
    then have "utf8_width (a @ b) = utf8_width a" by (simp flip: append_assoc)
    moreover have "utf8_valid (drop (utf8_width a) a @ b)" using less.IH [of "drop (utf8_width a) a"] less.prems(2) w False by simp
    ultimately show ?thesis using w(1) utf8_width_take(2) [OF w(1)] by (subst utf8_valid.simps) simp
  qed (use less.prems in simp)
qed

lemma utf8_valid_rune: "0 < utf8_width s \<Longrightarrow> utf8_valid (take (utf8_width s) s)"
  using utf8_width_take [of s] by (subst utf8_valid.simps) (simp add: utf8_valid.simps [of "[]"])

lemma utf8_valid_ascii: "list_all (\<lambda>c. byte_val c < 128) s \<Longrightarrow> utf8_valid s"
  by (induction s) (simp_all add: utf8_valid_Cons utf8_valid.simps [of "[]"])

lemma hex_char_ascii: "n < 16 \<Longrightarrow> byte_val (hex_char n) < 128"
  by (auto simp: hex_char_def byte_val_def byte_of_def)

lemma utf8_valid_character: "byte_val c < 128 \<Longrightarrow> utf8_valid (encode_character c)"
proof (rule utf8_valid_ascii)
  assume c: "byte_val c < 128"
  have "byte_val (CHR 0x5C) < 128" "byte_val (CHR ''b'') < 128" "byte_val (CHR ''f'') < 128" "byte_val (CHR ''n'') < 128"
    "byte_val (CHR ''r'') < 128" "byte_val (CHR ''t'') < 128" "byte_val (CHR ''u'') < 128" "byte_val (CHR ''0'') < 128"
    by (simp_all add: byte_val_def)
  with c show "list_all (\<lambda>c. byte_val c < 128) (encode_character c)"
    by (simp add: encode_character_def hex_char_ascii)
qed

lemma utf8_valid_rune_error: "utf8_valid rune_error"
proof -
  have e: "rune_error = [byte_of 239, byte_of 191, byte_of 189]" by (simp add: rune_error_def encode_rune_def)
  have "utf8_width rune_error = 3"
    unfolding e by (simp add: utf8_width_unfold width2_def width3_def cont_def byte_val_def byte_of_def)
  then have "take (utf8_width rune_error) rune_error = rune_error" by (simp add: e)
  with utf8_valid_rune [of rune_error] \<open>utf8_width rune_error = 3\<close> show ?thesis by simp
qed

lemma utf8_valid_encode_runes: "utf8_valid (encode_runes s)"
proof (induction s rule: measure_induct_rule [where f = length])
  case (less s)
  show ?case
  proof (cases s)
    case Nil
    then show ?thesis by (simp add: encode_runes.simps utf8_valid.simps)
  next
    case (Cons c r)
    have r: "utf8_valid (encode_runes r)" using less.IH [of r] Cons by simp
    consider "byte_val c < 128" | "\<not> byte_val c < 128" "utf8_width s = 0" | "\<not> byte_val c < 128" "0 < utf8_width s" by blast
    then show ?thesis
    proof cases
      case 1
      then have "encode_runes s = encode_character c @ encode_runes r" using Cons by (subst encode_runes.simps) simp
      with r utf8_valid_character [OF 1] show ?thesis by (simp add: utf8_valid_append)
    next
      case 2
      then have "encode_runes s = rune_error @ encode_runes r" using Cons by (subst encode_runes.simps) simp
      with r show ?thesis by (simp add: utf8_valid_append utf8_valid_rune_error)
    next
      case 3
      then have "encode_runes s = take (utf8_width s) s @ encode_runes (drop (utf8_width s) s)"
        using Cons by (subst encode_runes.simps) simp
      moreover have "utf8_valid (encode_runes (drop (utf8_width s) s))" using less.IH Cons 3 by simp
      ultimately show ?thesis using utf8_valid_rune [OF 3(2)] by (simp add: utf8_valid_append)
    qed
  qed
qed

lemma utf8_valid_join: "\<forall>b \<in> set bs. utf8_valid b \<Longrightarrow> utf8_valid (join_comma bs)"
  by (induction bs rule: join_comma.induct)
    (auto simp: utf8_valid.simps [of "[]"] utf8_valid_Cons byte_val_def intro!: utf8_valid_append)

lemma utf8_valid_snoc: "byte_val c < 128 \<Longrightarrow> utf8_valid s \<Longrightarrow> utf8_valid (s @ [c])"
  by (rule utf8_valid_append) (simp_all add: utf8_valid_Cons utf8_valid.simps [of "[]"])

lemma utf8_valid_int: "int_text n \<Longrightarrow> utf8_valid n"
proof (rule utf8_valid_ascii)
  have digit: "is_digit c \<Longrightarrow> byte_val c < 128" for c by (simp add: is_digit_def in_range_def)
  have "byte_val (CHR ''0'') < 128" "byte_val (CHR ''-'') < 128" by (simp_all add: byte_val_def)
  then show "int_text n \<Longrightarrow> list_all (\<lambda>c. byte_val c < 128) n"
    using digit by (cases n) (auto simp: int_text_def list_all_iff split: if_splits)
qed

lemma utf8_valid_quoted: "utf8_valid (encodeJSONString s)"
  using utf8_valid_snoc [OF _ utf8_valid_encode_runes, of "CHR 0x22" s]
  by (simp add: encodeJSONString_def utf8_valid_Cons byte_val_def)

lemma utf8_valid_bracket: "utf8_valid s \<Longrightarrow> byte_val a < 128 \<Longrightarrow> byte_val b < 128 \<Longrightarrow> utf8_valid (a # s @ [b])"
  by (simp add: utf8_valid_Cons utf8_valid_snoc)

lemma utf8_valid_encode: "strict_value v \<Longrightarrow> utf8_valid (encodeCanonicalValue v)"
proof (induction v)
  case (JObj ms)
  have "utf8_valid (encodeJSONString (fst m) @ CHR '':'' # encodeCanonicalValue (snd m))" if "m \<in> set ms" for m
    using JObj that by (cases m) (force simp: list_all_iff utf8_valid_Cons byte_val_def intro!: utf8_valid_append utf8_valid_quoted)
  then have "utf8_valid (join_comma (map (\<lambda>m. encodeJSONString (fst m) @ CHR '':'' # encodeCanonicalValue (snd m)) (sort_key fst ms)))"
    by (intro utf8_valid_join) auto
  then show ?case using utf8_valid_bracket [of _ "CHR ''{''" "CHR ''}''"] by (simp add: sort_key_map comp_def byte_val_def)
next
  case (JArr es)
  then have "utf8_valid (join_comma (map encodeCanonicalValue es))" by (intro utf8_valid_join) (auto simp: list_all_iff)
  then show ?case using utf8_valid_bracket [of _ "CHR ''[''" "CHR '']''"] by (simp add: byte_val_def)
next
  case JNull
  then show ?case by (simp add: utf8_valid_graphic graphic_def in_range_def byte_val_def)
next
  case (JBool b)
  then show ?case by (simp add: utf8_valid_graphic graphic_def in_range_def byte_val_def)
qed (simp_all add: utf8_valid_int utf8_valid_quoted)

section \<open>Properties\<close>

lemma strict_canonical: "strict_value v \<Longrightarrow> strictJSONValue (encodeCanonicalValue v) = Inr (sort_json v)"
proof -
  assume v: "strict_value v"
  have "Token (new_decoder []) = Inl JEOF" by (subst Token.simps) (simp add: new_decoder_def skip_space_def)
  with v show ?thesis
    by (simp add: strictJSONValue_iff utf8_valid_encode strict_sort prints_read [OF prints_canonical])
qed

text \<open>C38. Canonical JSON is a normal form. What \<open>CanonicalJSON\<close> returns is read back by the strict reader as
  the value of the input with its members sorted, and is its own canonical form; and two inputs have the
  same canonical form exactly when their values are equal up to the order of members. So a signature over
  canonical bytes is a signature over the value.\<close>

theorem canonical_normal_form:
  assumes "strictJSONValue raw = Inr v" "strictJSONValue raw' = Inr w"
  shows "CanonicalJSON raw = Inr (encodeCanonicalValue v)
    \<and> strictJSONValue (encodeCanonicalValue v) = Inr (sort_json v)
    \<and> CanonicalJSON (encodeCanonicalValue v) = Inr (encodeCanonicalValue v)
    \<and> (CanonicalJSON raw' = CanonicalJSON raw \<longleftrightarrow> sort_json w = sort_json v)"
proof -
  have strict: "strict_value v" "strict_value w" using assms by (simp_all add: strictJSONValue_iff)
  note read = strict_canonical [OF strict(1)] strict_canonical [OF strict(2)]
  have "encodeCanonicalValue w = encodeCanonicalValue v \<longleftrightarrow> sort_json w = sort_json v"
    using read encode_sort [of v] encode_sort [of w] by (metis Inr_inject)
  with assms read(1) show ?thesis by (simp add: CanonicalJSON_def encode_sort)
qed

definition json_sample :: "string \<Rightarrow> bytes" where
  "json_sample s = map (\<lambda>c. if c = CHR ''~'' then CHR 0x22 else c) s"

theorem canonical_normal_form_witness:
  "CanonicalJSON (json_sample ''{~b~:[true,-12],~a~:null}'') = Inr (json_sample ''{~a~:null,~b~:[true,-12]}'')
   \<and> CanonicalJSON (json_sample '' {~a~ : null, ~b~:[true,-12]} '')
       = CanonicalJSON (json_sample ''{~b~:[true,-12],~a~:null}'')"
proof -
  let ?v = "JObj [(''b'', JArr [JBool True, JNum ''-12'']), (''a'', JNull)]"
  let ?w = "JObj [(''a'', JNull), (''b'', JArr [JBool True, JNum ''-12''])]"
  have "strictJSONValue (json_sample ''{~b~:[true,-12],~a~:null}'') = Inr ?v"
    "strictJSONValue (json_sample '' {~a~ : null, ~b~:[true,-12]} '') = Inr ?w" by code_simp+
  note nf = canonical_normal_form [OF this]
  have "sort_json ?w = sort_json ?v" "encodeCanonicalValue ?v = json_sample ''{~a~:null,~b~:[true,-12]}''" by code_simp+
  with nf show ?thesis by metis
qed

lemma strict_object_fuel:
  assumes "strict_object (Suc n) result d = Inl (CatalogJSON JFuel)"
  shows "\<exists>key d1. Token d = Inr (TStr key, d1) \<and> (strictJSONToken n d1 = Inl (CatalogJSON JFuel)
     \<or> (\<exists>v d2. strictJSONToken n d1 = Inr (v, d2) \<and> strict_object n (result @ [(key, v)]) d2 = Inl (CatalogJSON JFuel)))"
proof (cases "Token d")
  case (Inl e)
  with assms Token_no_fuel [of d] show ?thesis by (auto simp: strict_object.simps split: if_splits)
next
  case (Inr r)
  obtain k d1 where "r = (k, d1)" by (cases r)
  with Inr assms show ?thesis by (cases k) (auto simp: strict_object.simps res_elims split: if_splits)
qed

lemma closing_no_fuel:
  "(case Token d of Inr (closing, d3) \<Rightarrow> if closing = x then Inr (v, d3) else Inl ErrCanonicalJSON
      | Inl _ \<Rightarrow> Inl ErrCanonicalJSON) \<noteq> Inl (CatalogJSON e)"
  by (auto split: sum.splits)

lemma strict_token_fuel:
  assumes "strictJSONToken (Suc n) d = Inl (CatalogJSON JFuel)"
  shows "\<exists>tok d1. Token d = Inr (tok, d1)
     \<and> (strict_object n [] d1 = Inl (CatalogJSON JFuel) \<or> strict_array n [] d1 = Inl (CatalogJSON JFuel))"
proof (cases "Token d")
  case (Inl e)
  with assms Token_no_fuel [of d] show ?thesis by (auto simp: strictJSONToken.simps)
next
  case (Inr r)
  obtain k d1 where "r = (k, d1)" by (cases r)
  with Inr assms show ?thesis
    by (cases k) (auto simp: strictJSONToken.simps res_elims closing_no_fuel split: if_splits)
qed

lemma strict_fuel:
  "(\<forall>d. strictJSONToken n d = Inl (CatalogJSON JFuel) \<longrightarrow> n \<le> 2 * length (d_buf d))
   \<and> (\<forall>res d. strict_object n res d = Inl (CatalogJSON JFuel) \<longrightarrow> n \<le> 2 * length (d_buf d) + 1)
   \<and> (\<forall>res d. strict_array n res d = Inl (CatalogJSON JFuel) \<longrightarrow> n \<le> 2 * length (d_buf d) + 1)"
proof (induction n)
  case (Suc n)
  then have IHv: "strictJSONToken n d = Inl (CatalogJSON JFuel) \<Longrightarrow> n \<le> 2 * length (d_buf d)"
    and IHm: "strict_object n res d = Inl (CatalogJSON JFuel) \<Longrightarrow> n \<le> 2 * length (d_buf d) + 1"
    and IHe: "strict_array n res' d = Inl (CatalogJSON JFuel) \<Longrightarrow> n \<le> 2 * length (d_buf d) + 1" for d res res'
    by blast+
  have shrinks: "strictJSONToken n d = Inr (v, d') \<Longrightarrow> length (d_buf d') < length (d_buf d)" for d v d'
    using strict_read [THEN conjunct1, rule_format] read_value_shrinks by blast
  have "Suc n \<le> 2 * length (d_buf d)" if "strictJSONToken (Suc n) d = Inl (CatalogJSON JFuel)" for d
    using strict_token_fuel [OF that] by (auto dest!: Token_shrinks IHm IHe)
  moreover have "Suc n \<le> 2 * length (d_buf d) + 1" if "strict_object (Suc n) res d = Inl (CatalogJSON JFuel)" for res d
    using strict_object_fuel [OF that] by (auto dest!: Token_shrinks IHm IHv shrinks)
  moreover have "Suc n \<le> 2 * length (d_buf d) + 1" if "strict_array (Suc n) res d = Inl (CatalogJSON JFuel)" for res d
    using that by (auto simp: res_elims split: if_splits dest!: IHv IHe shrinks)
  ultimately show ?case by blast
qed simp

text \<open>C39. The strict reader always ends: the fuel of the model, two units for every byte of the input and two
  more, is never used up, so an error of the model is an error of the code.\<close>

theorem strict_reader_ends: "strictJSONToken (fuel_for raw) (new_decoder raw) \<noteq> Inl (CatalogJSON JFuel)"
  using strict_fuel [of "fuel_for raw"] by (auto simp: fuel_for_def new_decoder_def)

end
