(* ===== verification/Catalog.thy ===== *)
theory Catalog
  imports CanonicalJson
begin

text \<open>
  Signed catalogs (\<open>internal/catalog\<close>): the data of \<open>model.go\<close>, the verifier (\<open>verifier.go\<close>), the builder
  (\<open>builder.go\<close>) and the target resolver (\<open>target_resolver.go\<close>). A Go map read from JSON is its list of
  members with distinct keys. Ed25519 is the parameter \<open>ed\<close> with arguments public key, message and
  signature, the signing provider is the parameter \<open>sign\<close>, and what is proved holds for all of them.
  A \<open>uint64\<close> is a natural number with its bound written out where it is parsed.
\<close>

section \<open>Roles and bundles\<close>

datatype catalog_role = RoleRoot | RoleTargets | RoleSnapshot | RoleTimestamp | RoleRevocation

fun role_text :: "catalog_role \<Rightarrow> string" where
  "role_text RoleRoot = ''root''"
| "role_text RoleTargets = ''targets''"
| "role_text RoleSnapshot = ''snapshot''"
| "role_text RoleTimestamp = ''timestamp''"
| "role_text RoleRevocation = ''revocation''"

definition publicationRoleOrder :: "catalog_role list" where
  "publicationRoleOrder = [RoleRoot, RoleTargets, RoleSnapshot, RoleTimestamp, RoleRevocation]"

record Bundle =
  bu_Root :: bytes
  bu_Targets :: bytes
  bu_Snapshot :: bytes
  bu_Timestamp :: bytes
  bu_Revocation :: bytes

fun Roles :: "Bundle \<Rightarrow> catalog_role \<Rightarrow> bytes" where
  "Roles bundle RoleRoot = bu_Root bundle"
| "Roles bundle RoleTargets = bu_Targets bundle"
| "Roles bundle RoleSnapshot = bu_Snapshot bundle"
| "Roles bundle RoleTimestamp = bu_Timestamp bundle"
| "Roles bundle RoleRevocation = bu_Revocation bundle"

record Versions =
  vs_Root :: nat
  vs_Targets :: nat
  vs_Snapshot :: nat
  vs_Timestamp :: nat
  vs_Revocation :: nat

definition versions_valid :: "Versions \<Rightarrow> bool" where
  "versions_valid v \<longleftrightarrow> 0 < vs_Root v \<and> 0 < vs_Targets v \<and> 0 < vs_Snapshot v \<and> 0 < vs_Timestamp v \<and> 0 < vs_Revocation v"

fun role_version :: "Versions \<Rightarrow> catalog_role \<Rightarrow> nat" where
  "role_version v RoleRoot = vs_Root v"
| "role_version v RoleTargets = vs_Targets v"
| "role_version v RoleSnapshot = vs_Snapshot v"
| "role_version v RoleTimestamp = vs_Timestamp v"
| "role_version v RoleRevocation = vs_Revocation v"

type_synonym members = "(bytes \<times> json) list"

record parsedEnvelope =
  pe_Signed :: members
  pe_Signatures :: "(string \<times> string) list"
  pe_SignedBytes :: bytes
  pe_EnvelopeBytes :: bytes

record rootRole =
  rr_KeyIDs :: "string list"
  rr_Threshold :: nat

record rootMetadata =
  rm_Keys :: "(string \<times> bytes) list"
  rm_Roles :: "(string \<times> rootRole) list"

type_synonym ed25519 = "bytes \<Rightarrow> bytes \<Rightarrow> bytes \<Rightarrow> bool"

section \<open>Reading JSON values\<close>

text \<open>The type assertions \<open>m[k].(string)\<close>, \<open>.(map[string]any)\<close> and \<open>.([]any)\<close>.\<close>

fun as_string :: "json option \<Rightarrow> string option" where
  "as_string (Some (JStr s)) = Some s"
| "as_string _ = None"

fun as_object :: "json option \<Rightarrow> members option" where
  "as_object (Some (JObj ms)) = Some ms"
| "as_object _ = None"

fun as_array :: "json option \<Rightarrow> json list option" where
  "as_array (Some (JArr es)) = Some es"
| "as_array _ = None"

definition base64URLPattern :: regex where
  "base64URLPattern = plus_re (Cls (\<lambda>c. is_upper c \<or> is_lower c \<or> is_digit c \<or> c = CHR ''_'' \<or> c = CHR ''-''))"

definition digest_re :: regex where
  "digest_re = rep (Cls (\<lambda>c. in_range 97 102 c \<or> is_digit c)) 64"

fun text_re :: "string \<Rightarrow> regex" where
  "text_re [] = Epsilon"
| "text_re (c # s) = Cat (chr_re c) (text_re s)"

definition digestPattern :: regex where
  "digestPattern = Cat (opt (text_re ''sha256:'')) digest_re"

definition keyIDPattern :: regex where
  "keyIDPattern = Cat (Cls (\<lambda>c. is_upper c \<or> is_lower c \<or> is_digit c))
     (rep_upto (Cls (\<lambda>c. is_upper c \<or> is_lower c \<or> is_digit c \<or> c = CHR ''.'' \<or> c = CHR ''_'' \<or> c = CHR '':'' \<or> c = CHR ''-'')) 127)"

text \<open>\<open>base64.RawURLEncoding.DecodeString\<close> of a text over its alphabet; the unused bits of the last
  character are not checked.\<close>

definition b64_value :: "char \<Rightarrow> nat option" where
  "b64_value c = (if is_upper c then Some (byte_val c - 65) else if is_lower c then Some (byte_val c - 71)
     else if is_digit c then Some (byte_val c + 4) else if c = CHR ''-'' then Some 62
     else if c = CHR ''_'' then Some 63 else None)"

fun RawURLDecode :: "string \<Rightarrow> bytes option" where
  "RawURLDecode [] = Some []"
| "RawURLDecode [a] = None"
| "RawURLDecode [a, b] = (case (b64_value a, b64_value b) of
     (Some x, Some y) \<Rightarrow> Some [byte_of (x * 4 + y div 16)] | _ \<Rightarrow> None)"
| "RawURLDecode [a, b, c] = (case (b64_value a, b64_value b, b64_value c) of
     (Some x, Some y, Some z) \<Rightarrow> Some [byte_of (x * 4 + y div 16), byte_of (y mod 16 * 16 + z div 4)] | _ \<Rightarrow> None)"
| "RawURLDecode (a # b # c # d # r) = (case (b64_value a, b64_value b, b64_value c, b64_value d) of
     (Some x, Some y, Some z, Some w) \<Rightarrow>
        map_option (\<lambda>t. [byte_of (x * 4 + y div 16), byte_of (y mod 16 * 16 + z div 4), byte_of (z mod 4 * 64 + w)] @ t)
          (RawURLDecode r)
     | _ \<Rightarrow> None)"

definition positiveVersion :: "json option \<Rightarrow> catalog_error + nat" where
  "positiveVersion value = (case value of
       Some (JNum number) \<Rightarrow>
         if \<not> matches integerJSONPattern number \<or> has_prefix number ''-'' then Inl ErrRoleVersionInvalid
         else if dec_value number \<ge> 2 ^ 64 \<or> dec_value number = 0 then Inl ErrRoleVersionInvalid
         else Inr (dec_value number)
     | _ \<Rightarrow> Inl ErrRoleVersionInvalid)"

definition positiveInt :: "json option \<Rightarrow> catalog_error + nat" where
  "positiveInt value = (case positiveVersion value of
       Inr parsed \<Rightarrow> if parsed > 2 ^ 63 - 1 then Inl ErrRootInvalid else Inr parsed
     | Inl _ \<Rightarrow> Inl ErrRootInvalid)"

definition catalog_validDigest :: "string \<Rightarrow> bool" where
  "catalog_validDigest value \<longleftrightarrow> matches digestPattern value"

definition trim_prefix :: "string \<Rightarrow> string \<Rightarrow> string" where
  "trim_prefix s p = (if has_prefix s p then drop (length p) s else s)"

definition equalDigest :: "string \<Rightarrow> string \<Rightarrow> bool" where
  "equalDigest expected actual =
     (let expected = trim_prefix (to_lower expected) ''sha256:''; actual = trim_prefix (to_lower actual) ''sha256:'' in
      if length expected \<noteq> 64 \<or> length actual \<noteq> 64 then False else expected = actual)"

text \<open>\<open>time.Parse(time.RFC3339, s)\<close>: \<open>getnum\<close> reads one or two digits, two when fixed.\<close>

definition getnum :: "bool \<Rightarrow> string \<Rightarrow> (nat \<times> string) option" where
  "getnum fixed s = (case s of
       a # b # r \<Rightarrow> if \<not> is_digit a then None
         else if is_digit b then Some (dec_value [a, b], r)
         else if fixed then None else Some (dec_value [a], b # r)
     | [a] \<Rightarrow> if is_digit a \<and> \<not> fixed then Some (dec_value [a], []) else None
     | [] \<Rightarrow> None)"

definition expect_char :: "char \<Rightarrow> string \<Rightarrow> string option" where
  "expect_char c s = (case s of x # r \<Rightarrow> if x = c then Some r else None | [] \<Rightarrow> None)"

definition parse_fraction :: "string \<Rightarrow> nat \<times> string" where
  "parse_fraction s = (case s of
       c # r \<Rightarrow> if (c = CHR ''.'' \<or> c = CHR '','') \<and> digits_of r \<noteq> [] then
           (let ds = take 9 (digits_of r) in (dec_value ds * 10 ^ (9 - length ds), drop (length (digits_of r)) r))
         else (0, s)
     | [] \<Rightarrow> (0, s))"

definition parse_zone :: "string \<Rightarrow> (int \<times> string) option" where
  "parse_zone s = (case s of
       [] \<Rightarrow> None
     | z # r \<Rightarrow> if z = CHR ''Z'' then Some (0, r)
         else if length s < 6 \<or> s ! 3 \<noteq> CHR '':'' then None
         else (case (getnum True (take 2 r), getnum True (take 2 (drop 3 r))) of
             (Some (hr, []), Some (mm, [])) \<Rightarrow>
               if hr > 24 \<or> mm > 60 then None
               else if z = CHR ''+'' then Some (int (hr * 60 + mm) * 60, drop 6 s)
               else if z = CHR ''-'' then Some (- int (hr * 60 + mm) * 60, drop 6 s)
               else None
           | _ \<Rightarrow> None))"

definition days_in :: "nat \<Rightarrow> nat \<Rightarrow> nat" where
  "days_in month year = (month_lengths year @ [31]) ! (month - 1)"

definition unix_date :: "nat \<Rightarrow> nat \<Rightarrow> nat \<Rightarrow> int" where
  "unix_date year month day =
     (let y = int year - 1 in
      365 * y + y div 4 - y div 100 + y div 400 + int (sum_list (take (month - 1) (month_lengths year))) + int day - 1)"

definition ParseRFC3339 :: "string \<Rightarrow> time option" where
  "ParseRFC3339 s =
     (if length s < 4 \<or> \<not> list_all is_digit (take 4 s) then None
      else let year = dec_value (take 4 s) in
        Option.bind (expect_char (CHR ''-'') (drop 4 s)) (\<lambda>s.
        Option.bind (getnum True s) (\<lambda>(month, s). if month < 1 \<or> 12 < month then None else
        Option.bind (expect_char (CHR ''-'') s) (\<lambda>s.
        Option.bind (getnum True s) (\<lambda>(day, s).
        Option.bind (expect_char (CHR ''T'') s) (\<lambda>s.
        Option.bind (getnum False s) (\<lambda>(hour, s). if 24 \<le> hour then None else
        Option.bind (expect_char (CHR '':'') s) (\<lambda>s.
        Option.bind (getnum True s) (\<lambda>(minute, s). if 60 \<le> minute then None else
        Option.bind (expect_char (CHR '':'') s) (\<lambda>s.
        Option.bind (getnum True s) (\<lambda>(sec, s). if 60 \<le> sec then None else
        (case parse_fraction s of (ns, s) \<Rightarrow>
        Option.bind (parse_zone s) (\<lambda>(offset, s).
          if s \<noteq> [] \<or> day < 1 \<or> days_in month year < day then None
          else Some ((unix_date year month day * 86400 + int (hour * 3600 + minute * 60 + sec) - offset) * second_ns
                     + int ns))))))))))))))"

definition roleExpiry :: "json option \<Rightarrow> catalog_error + time" where
  "roleExpiry value = (case as_string value of
       None \<Rightarrow> Inl ErrRoleExpired
     | Some text \<Rightarrow> of_option ErrRoleExpired (ParseRFC3339 text))"

section \<open>The verifier\<close>

fun parse_signatures :: "json list \<Rightarrow> catalog_error + (string \<times> string) list" where
  "parse_signatures [] = Inr []"
| "parse_signatures (item # items) = (case item of
       JObj entry \<Rightarrow>
         if length entry \<noteq> 2 then Inl ErrEnvelopeInvalid
         else (case (as_string (map_of entry ''keyid''), as_string (map_of entry ''sig'')) of
             (Some keyID, Some value) \<Rightarrow>
               if \<not> matches keyIDPattern keyID \<or> \<not> matches base64URLPattern value then Inl ErrEnvelopeInvalid
               else res_bind (parse_signatures items) (\<lambda>rest. Inr ((keyID, value) # rest))
           | _ \<Rightarrow> Inl ErrEnvelopeInvalid)
     | _ \<Rightarrow> Inl ErrEnvelopeInvalid)"

definition present :: "json option \<Rightarrow> bool" where
  "present v \<longleftrightarrow> v \<noteq> None \<and> v \<noteq> Some JNull"

definition parseEnvelope :: "bytes \<Rightarrow> catalog_error + parsedEnvelope" where
  "parseEnvelope raw = res_bind (strictJSONValue raw) (\<lambda>value. case value of
       JObj object \<Rightarrow>
         if length object \<noteq> 2 \<or> \<not> present (map_of object ''signed'') \<or> \<not> present (map_of object ''signatures'')
         then Inl ErrEnvelopeInvalid
         else (case (as_object (map_of object ''signed''), as_array (map_of object ''signatures'')) of
             (Some signedObject, Some items) \<Rightarrow>
               if items = [] then Inl ErrEnvelopeInvalid
               else res_bind (parse_signatures items) (\<lambda>signatures.
                 Inr \<lparr>pe_Signed = signedObject, pe_Signatures = signatures,
                      pe_SignedBytes = encodeCanonicalValue (JObj signedObject), pe_EnvelopeBytes = encodeCanonicalValue (JObj object)\<rparr>)
           | _ \<Rightarrow> Inl ErrEnvelopeInvalid)
     | _ \<Rightarrow> Inl ErrEnvelopeInvalid)"

text \<open>The loops of \<open>parseRoot\<close>; every failure is the same error, so the order of the map does not show.\<close>

definition root_key :: "string \<Rightarrow> json \<Rightarrow> bytes option" where
  "root_key keyID raw =
     (if \<not> matches keyIDPattern keyID then None
      else (case raw of
          JObj object \<Rightarrow>
            if map_of object ''keytype'' \<noteq> Some (JStr ''ed25519'') \<or> map_of object ''scheme'' \<noteq> Some (JStr ''ed25519'') then None
            else Option.bind (as_object (map_of object ''keyval'')) (\<lambda>keyValue.
              Option.bind (as_string (map_of keyValue ''public'')) (\<lambda>publicText.
                if \<not> matches base64URLPattern publicText then None
                else Option.bind (RawURLDecode publicText) (\<lambda>public. if length public \<noteq> 32 then None else Some public)))
        | _ \<Rightarrow> None))"

fun root_keys :: "members \<Rightarrow> (string \<times> bytes) list option" where
  "root_keys [] = Some []"
| "root_keys ((keyID, raw) # rest) = Option.bind (root_key keyID raw) (\<lambda>public.
     map_option (\<lambda>keys. (keyID, public) # keys) (root_keys rest))"

fun role_key_ids :: "string list \<Rightarrow> string set \<Rightarrow> json list \<Rightarrow> string list option" where
  "role_key_ids known seen [] = Some []"
| "role_key_ids known seen (item # items) = (case item of
       JStr keyID \<Rightarrow>
         if \<not> matches keyIDPattern keyID \<or> keyID \<notin> set known \<or> keyID \<in> seen then None
         else map_option (\<lambda>ids. keyID # ids) (role_key_ids known (insert keyID seen) items)
     | _ \<Rightarrow> None)"

definition root_role :: "string list \<Rightarrow> json \<Rightarrow> rootRole option" where
  "root_role known raw = (case raw of
       JObj object \<Rightarrow> (case (as_array (map_of object ''keyids''), positiveInt (map_of object ''threshold'')) of
           (Some idsRaw, Inr threshold) \<Rightarrow>
             if idsRaw = [] then None
             else Option.bind (role_key_ids known {} idsRaw) (\<lambda>ids.
               if threshold > length ids then None else Some \<lparr>rr_KeyIDs = ids, rr_Threshold = threshold\<rparr>)
         | _ \<Rightarrow> None)
     | _ \<Rightarrow> None)"

fun root_roles :: "string list \<Rightarrow> members \<Rightarrow> (string \<times> rootRole) list option" where
  "root_roles known [] = Some []"
| "root_roles known ((roleName, raw) # rest) = Option.bind (root_role known raw) (\<lambda>role.
     map_option (\<lambda>roles. (roleName, role) # roles) (root_roles known rest))"

definition parseRoot :: "parsedEnvelope \<Rightarrow> catalog_error + rootMetadata" where
  "parseRoot envelope = of_option ErrRootInvalid
     (Option.bind (as_object (map_of (pe_Signed envelope) ''keys'')) (\<lambda>keysObject. if keysObject = [] then None else
      Option.bind (as_object (map_of (pe_Signed envelope) ''roles'')) (\<lambda>rolesObject.
      Option.bind (root_keys keysObject) (\<lambda>keys.
      Option.bind (root_roles (map fst keys) rolesObject) (\<lambda>roles.
        if list_all (\<lambda>required. map_of roles (role_text required) \<noteq> None) publicationRoleOrder
        then Some \<lparr>rm_Keys = keys, rm_Roles = roles\<rparr> else None)))))"

text \<open>The loop over the signatures collects the distinct keys that have signed.\<close>

fun valid_keys :: "ed25519 \<Rightarrow> rootMetadata \<Rightarrow> string list \<Rightarrow> bytes \<Rightarrow> string list \<Rightarrow> (string \<times> string) list \<Rightarrow> string list" where
  "valid_keys ed root allowed signedBytes valid [] = valid"
| "valid_keys ed root allowed signedBytes valid ((keyID, value) # rest) = valid_keys ed root allowed signedBytes
     (if keyID \<notin> set allowed \<or> keyID \<in> set valid then valid
      else (case RawURLDecode value of
          None \<Rightarrow> valid
        | Some decoded \<Rightarrow>
            if length decoded \<noteq> 64 then valid
            else (case map_of (rm_Keys root) keyID of
                None \<Rightarrow> valid
              | Some public \<Rightarrow> if ed public signedBytes decoded then keyID # valid else valid))) rest"

definition verifyRoleSignatures :: "ed25519 \<Rightarrow> rootMetadata \<Rightarrow> parsedEnvelope \<Rightarrow> catalog_role \<Rightarrow> catalog_error option" where
  "verifyRoleSignatures ed root envelope role = (case map_of (rm_Roles root) (role_text role) of
       None \<Rightarrow> Some ErrRootInvalid
     | Some policy \<Rightarrow>
         if rr_Threshold policy < 1 then Some ErrRootInvalid
         else if length (valid_keys ed root (rr_KeyIDs policy) (pe_SignedBytes envelope) [] (pe_Signatures envelope)) < rr_Threshold policy
         then Some ErrSignatureThreshold
         else None)"

definition verifyMetaBinding :: "parsedEnvelope \<Rightarrow> parsedEnvelope \<Rightarrow> string \<Rightarrow> nat \<Rightarrow> catalog_error option" where
  "verifyMetaBinding document binding name version =
     (case Option.bind (as_object (map_of (pe_Signed binding) ''meta'')) (\<lambda>metaObject. as_object (map_of metaObject name)) of
        None \<Rightarrow> Some ErrRoleDigestMismatch
      | Some item \<Rightarrow>
          if positiveVersion (map_of item ''version'') \<noteq> Inr version then Some ErrRoleVersionMismatch
          else (case Option.bind (as_object (map_of item ''hashes'')) (\<lambda>hashes. as_string (map_of hashes ''sha256'')) of
              None \<Rightarrow> Some ErrRoleDigestMismatch
            | Some expected \<Rightarrow>
                if equalDigest expected (sha256_hex (pe_EnvelopeBytes document)) then None else Some ErrRoleDigestMismatch))"

record verifiedTarget =
  vt_Name :: string
  vt_ReleaseID :: string
  vt_ManifestDigest :: string
  vt_ReleaseKeyID :: string

definition required_fields :: "string list" where
  "required_fields = [''product_id'', ''release_id'', ''version'', ''plan_digest'', ''artifact_digest'', ''manifest_digest'',
     ''release_notes_markdown'', ''release_notes_digest'', ''compatibility'', ''compatibility_digest'']"

definition digest_fields :: "string list" where
  "digest_fields = [''plan_digest'', ''artifact_digest'', ''manifest_digest'', ''release_notes_digest'', ''compatibility_digest'']"

definition verify_target :: "string \<Rightarrow> json \<Rightarrow> catalog_error + verifiedTarget" where
  "verify_target name raw = (case raw of
       JObj item \<Rightarrow> (case as_object (map_of item ''custom'') of
           None \<Rightarrow> Inl ErrTargetInvalid
         | Some custom \<Rightarrow>
             if list_ex (\<lambda>required. map_of custom required = None) required_fields then Inl ErrTargetInvalid
             else (case (as_string (map_of custom ''release_id''), as_string (map_of custom ''manifest_digest''),
                         as_string (map_of custom ''release_notes_markdown''), as_string (map_of custom ''release_notes_digest''),
                         as_string (map_of custom ''compatibility_digest'')) of
                 (Some releaseID, Some manifestDigest, Some notes, Some notesDigest, Some compatibilityDigest) \<Rightarrow>
                   if releaseID = [] \<or> \<not> catalog_validDigest manifestDigest then Inl ErrTargetInvalid
                   else if list_ex (\<lambda>field. case as_string (map_of custom field) of None \<Rightarrow> True
                           | Some value \<Rightarrow> \<not> catalog_validDigest value) digest_fields then Inl ErrTargetInvalid
                   else if \<not> equalDigest notesDigest (sha256_hex notes) then Inl ErrReleaseNotesDigestMismatch
                   else if \<not> equalDigest compatibilityDigest (sha256_hex (encodeCanonicalValue (the (map_of custom ''compatibility''))))
                   then Inl ErrCompatibilityDigestMismatch
                   else Inr \<lparr>vt_Name = name, vt_ReleaseID = releaseID, vt_ManifestDigest = manifestDigest,
                             vt_ReleaseKeyID = coalesce (as_string (map_of custom ''release_key_id''))\<rparr>
               | _ \<Rightarrow> Inl ErrTargetInvalid))
     | _ \<Rightarrow> Inl ErrTargetInvalid)"

fun verify_each :: "members \<Rightarrow> catalog_error + verifiedTarget list" where
  "verify_each [] = Inr []"
| "verify_each ((name, raw) # rest) = res_bind (verify_target name raw) (\<lambda>target.
     res_bind (verify_each rest) (\<lambda>targets. Inr (target # targets)))"

definition verifyTargets :: "parsedEnvelope \<Rightarrow> catalog_error + verifiedTarget list" where
  "verifyTargets envelope = (case as_object (map_of (pe_Signed envelope) ''targets'') of
       None \<Rightarrow> Inl ErrTargetInvalid
     | Some items \<Rightarrow> if items = [] then Inl ErrTargetInvalid else verify_each (sort_key fst items))"

record revocation_sets =
  rx_releases :: "string set"
  rx_manifests :: "string set"
  rx_keys :: "string set"

fun collect_revocations :: "json list \<Rightarrow> revocation_sets \<Rightarrow> catalog_error + revocation_sets" where
  "collect_revocations [] sets = Inr sets"
| "collect_revocations (raw # rest) sets = (case raw of
       JObj item \<Rightarrow>
         let releaseID = coalesce (as_string (map_of item ''release_id''));
             manifest = coalesce (as_string (map_of item ''manifest_digest''));
             keyID = coalesce (as_string (map_of item ''key_id''));
             sets = (if releaseID \<noteq> [] then sets\<lparr>rx_releases := insert releaseID (rx_releases sets)\<rparr> else sets) in
         if manifest \<noteq> [] \<and> \<not> catalog_validDigest manifest then Inl ErrEnvelopeInvalid
         else let sets = (if manifest \<noteq> [] then sets\<lparr>rx_manifests := insert manifest (rx_manifests sets)\<rparr> else sets);
                  sets = (if keyID \<noteq> [] then sets\<lparr>rx_keys := insert keyID (rx_keys sets)\<rparr> else sets) in
              collect_revocations rest sets
     | _ \<Rightarrow> Inl ErrEnvelopeInvalid)"

fun revoked_target :: "revocation_sets \<Rightarrow> verifiedTarget list \<Rightarrow> catalog_error option" where
  "revoked_target sets [] = None"
| "revoked_target sets (target # targets) =
     (if vt_Name target \<in> rx_releases sets \<or> vt_ReleaseID target \<in> rx_releases sets
         \<or> vt_ManifestDigest target \<in> rx_manifests sets then Some ErrTargetRevoked
      else if vt_ReleaseKeyID target \<in> rx_keys sets \<and> vt_ReleaseKeyID target \<noteq> [] then Some ErrKeyRevoked
      else revoked_target sets targets)"

definition verifyRevocations :: "parsedEnvelope \<Rightarrow> parsedEnvelope \<Rightarrow> verifiedTarget list \<Rightarrow> catalog_error option" where
  "verifyRevocations revocation targetsEnvelope targets =
     (if map_of (pe_Signed revocation) ''revoked'' \<noteq> None then Some ErrEnvelopeInvalid
      else (case as_array (map_of (pe_Signed revocation) ''revocations'') of
          None \<Rightarrow> Some ErrEnvelopeInvalid
        | Some items \<Rightarrow> (case collect_revocations items \<lparr>rx_releases = {}, rx_manifests = {}, rx_keys = {}\<rparr> of
              Inl e \<Rightarrow> Some e
            | Inr sets \<Rightarrow>
                if list_ex (\<lambda>signature. fst signature \<in> rx_keys sets) (pe_Signatures targetsEnvelope) then Some ErrKeyRevoked
                else revoked_target sets targets)))"

text \<open>The envelopes in role order, and the checks on each of them.\<close>

fun parse_envelopes :: "(catalog_role \<Rightarrow> bytes) \<Rightarrow> catalog_role list \<Rightarrow> catalog_error + (catalog_role \<Rightarrow> parsedEnvelope)" where
  "parse_envelopes roles [] = Inr (\<lambda>_. \<lparr>pe_Signed = [], pe_Signatures = [], pe_SignedBytes = [], pe_EnvelopeBytes = []\<rparr>)"
| "parse_envelopes roles (role # rest) = res_bind (parseEnvelope (roles role)) (\<lambda>envelope.
     res_bind (parse_envelopes roles rest) (\<lambda>envelopes. Inr (envelopes(role := envelope))))"

definition verify_role :: "ed25519 \<Rightarrow> rootMetadata \<Rightarrow> time \<Rightarrow> parsedEnvelope \<Rightarrow> catalog_role \<Rightarrow> catalog_error + nat" where
  "verify_role ed root now envelope role =
     (if as_string (map_of (pe_Signed envelope) ''_type'') \<noteq> Some (role_text role) then Inl ErrRoleTypeInvalid
      else res_bind (positiveVersion (map_of (pe_Signed envelope) ''version'')) (\<lambda>version.
        case roleExpiry (map_of (pe_Signed envelope) ''expires'') of
          Inl _ \<Rightarrow> Inl ErrRoleExpired
        | Inr expires \<Rightarrow>
            if expires \<le> now then Inl ErrRoleExpired
            else (case verifyRoleSignatures ed root envelope role of Some e \<Rightarrow> Inl e | None \<Rightarrow> Inr version)))"

fun verify_roles :: "ed25519 \<Rightarrow> rootMetadata \<Rightarrow> time \<Rightarrow> (catalog_role \<Rightarrow> parsedEnvelope) \<Rightarrow> catalog_role list \<Rightarrow>
    catalog_error + (catalog_role \<Rightarrow> nat)" where
  "verify_roles ed root now envelopes [] = Inr (\<lambda>_. 0)"
| "verify_roles ed root now envelopes (role # rest) = res_bind (verify_role ed root now (envelopes role) role) (\<lambda>version.
     res_bind (verify_roles ed root now envelopes rest) (\<lambda>versions. Inr (versions(role := version))))"

definition Verify :: "ed25519 \<Rightarrow> Bundle \<Rightarrow> time \<Rightarrow> catalog_error + unit" where
  "Verify ed bundle now =
     (if list_ex (\<lambda>role. Roles bundle role = []) publicationRoleOrder then Inl ErrBundleIncomplete
      else res_bind (parseEnvelope (bu_Root bundle)) (\<lambda>rootEnvelope.
        res_bind (parseRoot rootEnvelope) (\<lambda>root.
        res_bind (parse_envelopes (Roles bundle) [RoleTargets, RoleSnapshot, RoleTimestamp, RoleRevocation]) (\<lambda>envelopes.
        let envelopes = envelopes(RoleRoot := rootEnvelope) in
        res_bind (verify_roles ed root now envelopes publicationRoleOrder) (\<lambda>versions.
        res_bind (check_err (verifyMetaBinding (envelopes RoleTargets) (envelopes RoleSnapshot) ''targets.json'' (versions RoleTargets))) (\<lambda>_.
        res_bind (check_err (verifyMetaBinding (envelopes RoleSnapshot) (envelopes RoleTimestamp) ''snapshot.json'' (versions RoleSnapshot))) (\<lambda>_.
        res_bind (verifyTargets (envelopes RoleTargets)) (\<lambda>targets.
          check_err (verifyRevocations (envelopes RoleRevocation) (envelopes RoleTargets) targets)))))))))"

section \<open>Targets\<close>

record TargetMetadata =
  tm_TargetName :: string
  tm_ProductID :: string
  tm_ReleaseID :: string
  tm_Version :: string
  tm_PlanDigest :: string
  tm_ArtifactDigest :: string
  tm_ManifestDigest :: string
  tm_ReleaseNotesMarkdown :: string
  tm_ReleaseNotesDigest :: string
  tm_Compatibility :: bytes
  tm_CompatibilityDigest :: string
  tm_TargetImages :: "string list"
  tm_ImageMode :: string
  tm_OfflineImageBundleDigest :: string

text \<open>\<open>strings.Split\<close> by a non-empty separator.\<close>

function split_sub :: "string \<Rightarrow> string \<Rightarrow> string list" where
  "split_sub sep s = (case s of [] \<Rightarrow> [[]]
     | c # r \<Rightarrow> if has_prefix s sep then [] # split_sub sep (drop (length sep - 1) r)
        else (case split_sub sep r of [] \<Rightarrow> [[c]] | y # ys \<Rightarrow> (c # y) # ys))"
  by pat_completeness auto
termination
  by (relation "measure (\<lambda>(sep, s). length s)") auto

declare split_sub.simps [simp del]

text \<open>\<open>strings.EqualFold\<close> with a text of lower-case hexadecimal digits.\<close>

definition equal_fold :: "string \<Rightarrow> string \<Rightarrow> bool" where
  "equal_fold s t \<longleftrightarrow> map lower_char s = map lower_char t"

definition containerImageReference :: "string \<Rightarrow> string \<Rightarrow> catalog_error + string" where
  "containerImageReference filename digest =
     (let filename = trim_space filename; digest = trim_prefix (to_lower (trim_space digest)) ''sha256:'' in
      if filename = [] \<or> length digest \<noteq> 64 \<or> \<not> matches digestPattern digest then Inl ErrTargetInvalid
      else (case split_sub ''@sha256:'' filename of
          [_] \<Rightarrow> Inr (filename @ ''@sha256:'' @ digest)
        | [name, rest] \<Rightarrow>
            if name = [] \<or> \<not> equal_fold rest digest then Inl ErrTargetInvalid
            else Inr (name @ ''@sha256:'' @ digest)
        | _ \<Rightarrow> Inl ErrTargetInvalid))"

definition isContainerArtifactType :: "string \<Rightarrow> bool" where
  "isContainerArtifactType artifactType \<longleftrightarrow>
     to_lower (trim_space artifactType) \<in> {''container'', ''container-image'', ''oci'', ''oci-image''}"

definition digestWithPrefix :: "bytes \<Rightarrow> string" where
  "digestWithPrefix payload = ''sha256:'' @ sha256_hex payload"

definition digestWithPrefixText :: "string \<Rightarrow> string" where
  "digestWithPrefixText digest =
     (let digest = trim_space (to_lower digest) in if has_prefix digest ''sha256:'' then digest else ''sha256:'' @ digest)"

fun resolve_images :: "ArtifactBinding list \<Rightarrow> ArtifactBinding \<Rightarrow> string list \<Rightarrow> catalog_error + (ArtifactBinding \<times> string list)" where
  "resolve_images [] primary images = Inr (primary, images)"
| "resolve_images (binding # bindings) primary images =
     (if \<not> catalog_validDigest (ab_SHA256 binding) then Inl ErrTargetInvalid
      else if isContainerArtifactType (ab_ArtifactType binding) then
        res_bind (containerImageReference (ab_Filename binding) (ab_SHA256 binding)) (\<lambda>img.
          resolve_images bindings primary (images @ [img]))
      else resolve_images bindings
        (if isContainerArtifactType (ab_ArtifactType primary) then binding else primary) images)"

definition binding_value :: "uuid_lib \<Rightarrow> ArtifactBinding \<Rightarrow> go_value" where
  "binding_value u b = GoStruct [(''artifact_id'', GoString (u_string u (ab_ArtifactID b))), (''artifact_type'', GoString (ab_ArtifactType b)),
     (''filename'', GoString (ab_Filename b)), (''size'', GoNumber (dec_int (ab_Size b))), (''sha256'', GoString (ab_SHA256 b))]"

definition plan_value :: "uuid_lib \<Rightarrow> Release \<Rightarrow> go_value" where
  "plan_value u record = (let row = re_row record; source = rl_source row in
     GoMap [(''product_id'', GoString (rl_product_id row)), (''release_id'', GoString (u_string u (rl_id row))),
       (''version'', GoString (rl_version row)), (''channel'', GoString (rl_channel row)),
       (''source'', GoMap [(''repository'', GoString (so_Repository source)), (''commit_sha'', GoString (so_CommitSHA source)),
          (''tag'', GoString (so_Tag source)), (''pipeline_ref'', GoString (so_PipelineRef source))]),
       (''artifacts'', GoSlice (map (binding_value u) (re_Artifacts record)))])"

definition Resolve_target :: "uuid_lib \<Rightarrow> pg_lib \<Rightarrow> product_db \<Rightarrow> Release \<Rightarrow> catalog_error + TargetMetadata" where
  "Resolve_target u pg products record = (let row = re_row record in
     if u_string u (rl_id row) = [] \<or> rl_product_id row = [] \<or> re_Artifacts record = [] then Inl ErrTargetInvalid
     else res_bind (lift_err CatalogProduct (repo_Get pg (rl_product_id row) products)) (\<lambda>productRecord.
       case CanonicalJSON (rl_compatibility row) of
         Inl _ \<Rightarrow> Inl ErrTargetInvalid
       | Inr compatibility \<Rightarrow> (case CanonicalJSON_value (plan_value u record) of
           Inl _ \<Rightarrow> Inl ErrTargetInvalid
         | Inr plan \<Rightarrow>
             res_bind (resolve_images (re_Artifacts record) (hd (re_Artifacts record)) []) (\<lambda>(primary, images).
               if trim_space (ab_Filename primary) = [] \<or> \<not> catalog_validDigest (ab_SHA256 primary)
                  \<or> \<not> catalog_validDigest (pd_ManifestDigest productRecord) then Inl ErrTargetInvalid
               else Inr \<lparr>tm_TargetName = u_string u (rl_id row), tm_ProductID = rl_product_id row,
                 tm_ReleaseID = u_string u (rl_id row), tm_Version = rl_version row, tm_PlanDigest = digestWithPrefix plan,
                 tm_ArtifactDigest = digestWithPrefixText (ab_SHA256 primary),
                 tm_ManifestDigest = digestWithPrefixText (pd_ManifestDigest productRecord),
                 tm_ReleaseNotesMarkdown = rl_notes row, tm_ReleaseNotesDigest = digestWithPrefixText (rl_notes_sha256 row),
                 tm_Compatibility = rl_compatibility row, tm_CompatibilityDigest = digestWithPrefix compatibility,
                 tm_TargetImages = images, tm_ImageMode = ''online'', tm_OfflineImageBundleDigest = []\<rparr>))))"

definition image_ok :: "string \<Rightarrow> bool" where
  "image_ok img = (case split_sub ''@sha256:'' img of
       [name, digest] \<Rightarrow> name \<noteq> [] \<and> \<not> list_ex (\<lambda>c. byte_val c \<in> {9, 10, 13, 32}) img
          \<and> length digest = 64 \<and> matches digestPattern digest
     | _ \<Rightarrow> False)"

fun images_ok :: "string set \<Rightarrow> string list \<Rightarrow> bool" where
  "images_ok seen [] = True"
| "images_ok seen (img # images) = (image_ok img \<and> img \<notin> seen \<and> images_ok (insert img seen) images)"

definition validateTargetMetadata :: "TargetMetadata \<Rightarrow> catalog_error option" where
  "validateTargetMetadata target =
     (if tm_TargetName target = [] \<or> tm_ProductID target = [] \<or> tm_ReleaseID target = [] \<or> tm_Version target = []
         \<or> tm_ReleaseNotesMarkdown target = [] then Some ErrTargetInvalid
      else if \<not> list_all catalog_validDigest [tm_PlanDigest target, tm_ArtifactDigest target, tm_ManifestDigest target,
         tm_ReleaseNotesDigest target, tm_CompatibilityDigest target] then Some ErrTargetInvalid
      else if \<not> equalDigest (tm_ReleaseNotesDigest target) (sha256_hex (tm_ReleaseNotesMarkdown target))
      then Some ErrReleaseNotesDigestMismatch
      else (case CanonicalJSON (tm_Compatibility target) of
          Inl _ \<Rightarrow> Some ErrTargetInvalid
        | Inr compatibility \<Rightarrow>
            if \<not> equalDigest (tm_CompatibilityDigest target) (sha256_hex compatibility) then Some ErrCompatibilityDigestMismatch
            else if tm_ImageMode target \<noteq> ''online'' \<and> tm_ImageMode target \<noteq> ''offline'' then Some ErrTargetInvalid
            else if tm_ImageMode target = ''offline'' \<and> \<not> catalog_validDigest (tm_OfflineImageBundleDigest target)
            then Some ErrTargetInvalid
            else if tm_ImageMode target = ''online'' \<and> tm_OfflineImageBundleDigest target \<noteq> [] then Some ErrTargetInvalid
            else if \<not> images_ok {} (tm_TargetImages target) then Some ErrTargetInvalid
            else None))"

section \<open>The builder\<close>

definition day_ns :: duration where "day_ns = 86400 * second_ns"
definition targetsLifetime :: duration where "targetsLifetime = 30 * day_ns"
definition snapshotLifetime :: duration where "snapshotLifetime = 7 * day_ns"
definition timestampLifetime :: duration where "timestampLifetime = day_ns"
definition revocationLifetime :: duration where "revocationLifetime = 7 * day_ns"

record RoleKeyRefs =
  kr_Targets :: "string list"
  kr_Snapshot :: "string list"
  kr_Timestamp :: "string list"
  kr_Revocation :: "string list"

record Signature =
  sg_KeyID :: string
  sg_Algorithm :: string
  sg_Value :: bytes

type_synonym signer = "string \<Rightarrow> bytes \<Rightarrow> Signature option"

record Builder =
  bd_root :: parsedEnvelope
  bd_sign :: signer
  bd_keyRefs :: RoleKeyRefs
  bd_resolve :: "Release \<Rightarrow> catalog_error + TargetMetadata"

definition RootVersion :: "Builder \<Rightarrow> nat" where
  "RootVersion builder = (case positiveVersion (map_of (pe_Signed (bd_root builder)) ''version'') of Inl _ \<Rightarrow> 0 | Inr v \<Rightarrow> v)"

definition NewBuilder :: "ed25519 \<Rightarrow> bytes \<Rightarrow> signer option \<Rightarrow> RoleKeyRefs \<Rightarrow>
    (Release \<Rightarrow> catalog_error + TargetMetadata) option \<Rightarrow> catalog_error + Builder" where
  "NewBuilder ed rootBytes provider keyRefs resolver = (case (provider, resolver) of
       (Some sign, Some resolve) \<Rightarrow>
         if rootBytes = [] then Inl ErrBuilderConfiguration
         else res_bind (parseEnvelope rootBytes) (\<lambda>root.
           res_bind (parseRoot root) (\<lambda>rootMetadata.
             if map_of (pe_Signed root) ''_type'' \<noteq> Some (JStr (role_text RoleRoot)) then Inl ErrRoleTypeInvalid
             else res_bind (check_err (verifyRoleSignatures ed rootMetadata root RoleRoot)) (\<lambda>_.
               if kr_Targets keyRefs = [] \<or> kr_Snapshot keyRefs = [] \<or> kr_Timestamp keyRefs = [] \<or> kr_Revocation keyRefs = []
               then Inl ErrBuilderConfiguration
               else Inr \<lparr>bd_root = root, bd_sign = sign, bd_keyRefs = keyRefs, bd_resolve = resolve\<rparr>)))
     | _ \<Rightarrow> Inl ErrBuilderConfiguration)"

fun sign_all :: "signer \<Rightarrow> bytes \<Rightarrow> string set \<Rightarrow> string list \<Rightarrow> catalog_error + (string \<times> bytes) list" where
  "sign_all sign payload seen [] = Inr []"
| "sign_all sign payload seen (keyRef # keyRefs) = (case sign keyRef payload of
       None \<Rightarrow> Inl CatalogSigning
     | Some signature \<Rightarrow>
         if sg_Algorithm signature \<noteq> ''ed25519'' \<or> sg_KeyID signature = [] \<or> length (sg_Value signature) \<noteq> 64
         then Inl ErrSignatureThreshold
         else if sg_KeyID signature \<in> seen then Inl ErrSignatureThreshold
         else res_bind (sign_all sign payload (insert (sg_KeyID signature) seen) keyRefs) (\<lambda>signatures.
           Inr ((sg_KeyID signature, sg_Value signature) # signatures)))"

definition signature_value :: "string \<times> bytes \<Rightarrow> go_value" where
  "signature_value s = GoMap [(''keyid'', GoString (fst s)), (''sig'', GoString (RawURLEncode (snd s)))]"

definition signEnvelope :: "signer \<Rightarrow> string list \<Rightarrow> go_value \<Rightarrow> catalog_error + bytes" where
  "signEnvelope sign keyRefs content = res_bind (CanonicalJSON_value content) (\<lambda>payload.
     res_bind (sign_all sign payload {} keyRefs) (\<lambda>signatures.
       CanonicalJSON_value (GoMap [(''signed'', content),
         (''signatures'', GoSlice (map signature_value (sort_key fst signatures)))])))"

definition metadataBinding :: "nat \<Rightarrow> bytes \<Rightarrow> go_value" where
  "metadataBinding version envelope = GoMap [(''version'', GoNumber (dec_nat version)),
     (''hashes'', GoMap [(''sha256'', GoString (sha256_hex envelope))])]"

fun go_of :: "json \<Rightarrow> go_value" where
  "go_of JNull = GoNil"
| "go_of (JBool b) = GoBool b"
| "go_of (JNum n) = GoNumber n"
| "go_of (JStr s) = GoString s"
| "go_of (JArr es) = GoSlice (map go_of es)"
| "go_of (JObj ms) = GoMap (map (\<lambda>m. (fst m, go_of (snd m))) ms)"

definition mustStrictValue :: "bytes \<Rightarrow> go_value" where
  "mustStrictValue raw = (case strictJSONValue raw of Inl _ \<Rightarrow> GoNil | Inr v \<Rightarrow> go_of v)"

definition roleTime :: "time \<Rightarrow> string" where
  "roleTime t = format_time (truncate_time second_ns t)"

text \<open>Appending no image to a nil slice leaves it nil.\<close>

definition custom_value :: "TargetMetadata \<Rightarrow> go_value" where
  "custom_value target = GoMap ([(''product_id'', GoString (tm_ProductID target)), (''release_id'', GoString (tm_ReleaseID target)),
     (''version'', GoString (tm_Version target)), (''plan_digest'', GoString (tm_PlanDigest target)),
     (''artifact_digest'', GoString (tm_ArtifactDigest target)), (''manifest_digest'', GoString (tm_ManifestDigest target)),
     (''release_notes_markdown'', GoString (tm_ReleaseNotesMarkdown target)), (''release_notes_digest'', GoString (tm_ReleaseNotesDigest target)),
     (''compatibility'', mustStrictValue (tm_Compatibility target)), (''compatibility_digest'', GoString (tm_CompatibilityDigest target)),
     (''target_images'', if tm_TargetImages target = [] then GoNil else GoSlice (map GoString (tm_TargetImages target))),
     (''image_mode'', GoString (tm_ImageMode target))]
     @ (if tm_OfflineImageBundleDigest target \<noteq> []
        then [(''offline_image_bundle_digest'', GoString (tm_OfflineImageBundleDigest target))] else []))"

definition role_header :: "catalog_role \<Rightarrow> nat \<Rightarrow> time \<Rightarrow> (bytes \<times> go_value) list" where
  "role_header role version expires = [(''_type'', GoString (role_text role)), (''version'', GoNumber (dec_nat version)),
     (''expires'', GoString (roleTime expires))]"

definition targets_value :: "TargetMetadata \<Rightarrow> Versions \<Rightarrow> time \<Rightarrow> go_value" where
  "targets_value target versions now = GoMap (role_header RoleTargets (vs_Targets versions) (now + targetsLifetime) @
     [(''targets'', GoMap [(tm_TargetName target, GoMap [
        (''hashes'', GoMap [(''sha256'', GoString (trim_prefix (tm_ArtifactDigest target) ''sha256:''))]),
        (''custom'', custom_value target)])])])"

definition revocation_value :: "Release \<Rightarrow> TargetMetadata \<Rightarrow> go_value list" where
  "revocation_value record target = (case rl_revoked_at (re_row record) of
       None \<Rightarrow> []
     | Some revokedAt \<Rightarrow> [GoMap [(''release_id'', GoString (tm_ReleaseID target)), (''manifest_digest'', GoString (tm_ManifestDigest target)),
         (''key_id'', GoString []), (''reason'', GoString (coalesce (rl_revocation_reason (re_row record)))),
         (''revoked_at'', GoString (roleTime revokedAt))]])"

text \<open>\<open>now\<close> and \<open>later\<close> are the clock at the start and in the final verification.\<close>

definition build :: "ed25519 \<Rightarrow> Builder \<Rightarrow> time \<Rightarrow> time \<Rightarrow> bool \<Rightarrow> Release \<Rightarrow> Versions \<Rightarrow> catalog_error + Bundle" where
  "build ed builder now later allowRevoked record versions =
     (if \<not> versions_valid versions then Inl ErrVersionsInvalid
      else if positiveVersion (map_of (pe_Signed (bd_root builder)) ''version'') \<noteq> Inr (vs_Root versions) then Inl ErrRoleVersionMismatch
      else res_bind (bd_resolve builder record) (\<lambda>target.
        res_bind (check_err (validateTargetMetadata target)) (\<lambda>_.
        let now = truncate_time second_ns now; sign = bd_sign builder; refs = bd_keyRefs builder in
        res_bind (signEnvelope sign (kr_Targets refs) (targets_value target versions now)) (\<lambda>targets.
        res_bind (signEnvelope sign (kr_Snapshot refs) (GoMap (role_header RoleSnapshot (vs_Snapshot versions) (now + snapshotLifetime) @
           [(''meta'', GoMap [(''targets.json'', metadataBinding (vs_Targets versions) targets)])]))) (\<lambda>snapshot.
        res_bind (signEnvelope sign (kr_Timestamp refs) (GoMap (role_header RoleTimestamp (vs_Timestamp versions) (now + timestampLifetime) @
           [(''meta'', GoMap [(''snapshot.json'', metadataBinding (vs_Snapshot versions) snapshot)])]))) (\<lambda>timestamp.
        res_bind (signEnvelope sign (kr_Revocation refs) (GoMap (role_header RoleRevocation (vs_Revocation versions) (now + revocationLifetime) @
           [(''revocations'', GoSlice (revocation_value record target))]))) (\<lambda>revocation.
        let bundle = \<lparr>bu_Root = pe_EnvelopeBytes (bd_root builder), bu_Targets = targets, bu_Snapshot = snapshot,
              bu_Timestamp = timestamp, bu_Revocation = revocation\<rparr> in
        case Verify ed bundle later of
          Inr _ \<Rightarrow> Inr bundle
        | Inl e \<Rightarrow> if allowRevoked \<and> e = ErrTargetRevoked then Inr bundle else Inl e)))))))"

definition Build :: "ed25519 \<Rightarrow> Builder \<Rightarrow> time \<Rightarrow> time \<Rightarrow> Release \<Rightarrow> Versions \<Rightarrow> catalog_error + Bundle" where
  "Build ed builder now later record versions = build ed builder now later False record versions"

definition BuildRevocation :: "ed25519 \<Rightarrow> Builder \<Rightarrow> time \<Rightarrow> time \<Rightarrow> Release \<Rightarrow> Versions \<Rightarrow> catalog_error + Bundle" where
  "BuildRevocation ed builder now later record versions =
     (if rl_revoked_at (re_row record) = None \<or> trim_space (coalesce (rl_revocation_reason (re_row record))) = []
      then Inl ErrTargetInvalid
      else build ed builder now later True record versions)"

end
