(* ===== verification/ReleaseService.thy ===== *)
theory ReleaseService
  imports Release
begin

text \<open>
  The release service (\<open>internal/release/service.go\<close>): validating and creating a release, submitting,
  approving, rejecting, publishing, retrying and revoking it, and reading it. Every operation reads,
  decides, and then runs one transaction. The reading half of an operation is a function of a state
  of its own (\<open>transition_request\<close>, \<open>publication_request\<close>, \<open>revocation_request\<close>), the transaction is an
  action: between the two other transactions may run, and the history of the last sections lets them.
\<close>

section \<open>Patterns and limits\<close>

definition maximumReleaseNotesBytes :: nat where "maximumReleaseNotesBytes = 1024 * 1024"
definition maximumCompatibilityBytes :: nat where "maximumCompatibilityBytes = 64 * 1024"
definition maximumReleaseArtifacts :: nat where "maximumReleaseArtifacts = 64"

abbreviation is_letter :: "char \<Rightarrow> bool" where
  "is_letter c \<equiv> is_lower c \<or> is_upper c"

abbreviation ident_char :: "char \<Rightarrow> bool" where
  "ident_char c \<equiv> is_digit c \<or> is_letter c \<or> c = CHR ''-''"

definition numeric_identifier :: regex where
  "numeric_identifier = Alt (chr_re (CHR ''0'')) (Cat (Cls (\<lambda>c. is_digit c \<and> c \<noteq> CHR ''0'')) (Star (Cls is_digit)))"

definition prerelease_identifier :: regex where
  "prerelease_identifier = Alt numeric_identifier
     (Cat (Star (Cls is_digit)) (Cat (Cls (\<lambda>c. is_letter c \<or> c = CHR ''-'')) (Star (Cls ident_char))))"

definition dotted :: "regex \<Rightarrow> regex" where
  "dotted r = Cat r (Star (Cat (chr_re (CHR ''.'')) r))"

definition semverPattern :: regex where
  "semverPattern = Cat numeric_identifier (Cat (chr_re (CHR ''.'')) (Cat numeric_identifier
     (Cat (chr_re (CHR ''.'')) (Cat numeric_identifier
     (Cat (opt (Cat (chr_re (CHR ''-'')) (dotted prerelease_identifier)))
          (opt (Cat (chr_re (CHR ''+'')) (dotted (plus_re (Cls ident_char))))))))))"

definition digestPattern :: regex where
  "digestPattern = rep (Cls is_hex) 64"

definition idempotencyPattern :: regex where
  "idempotencyPattern = Cat (Cls (\<lambda>c. is_letter c \<or> is_digit c))
     (rep_between (Cls (\<lambda>c. is_letter c \<or> is_digit c \<or> c = CHR ''.'' \<or> c = CHR ''_'' \<or> c = CHR '':'' \<or> c = CHR ''-'')) 7 127)"

section \<open>Validating a command\<close>

definition validDigest :: "bytes \<Rightarrow> string \<Rightarrow> bool" where
  "validDigest payload declared \<longleftrightarrow> matches digestPattern declared \<and> sha256_hex payload = declared"

definition productHasChannel :: "Product \<Rightarrow> string \<Rightarrow> bool" where
  "productHasChannel record channel \<longleftrightarrow>
     list_ex (\<lambda>c. ch_ProductID c = pd_ID record \<and> ch_Name c = channel) (pd_Channels record)"

definition normalizedSource :: "Source \<Rightarrow> Source" where
  "normalizedSource source = \<lparr>so_Repository = trim_space (so_Repository source), so_CommitSHA = trim_space (so_CommitSHA source),
     so_Tag = trim_space (so_Tag source), so_PipelineRef = trim_space (so_PipelineRef source)\<rparr>"

definition validateSource :: "Source \<Rightarrow> release_error option" where
  "validateSource source =
     (let normalized = normalizedSource source in
      if so_Repository normalized = [] \<or> length (so_Repository normalized) > 2048
         \<or> \<not> matches commitSHAPattern (so_CommitSHA normalized) \<or> so_Tag normalized = [] \<or> length (so_Tag normalized) > 255
         \<or> so_PipelineRef normalized = [] \<or> length (so_PipelineRef normalized) > 512
         \<or> containsControl (so_Repository normalized) \<or> containsControl (so_Tag normalized)
         \<or> containsControl (so_PipelineRef normalized)
      then Some ErrSourceInvalid else None)"

text \<open>\<open>validateUniqueJSONValue\<close> answers with the decoder behind the value, or fails; the fuel is that of
  \<open>read_value\<close>.\<close>

fun validateUniqueJSONValue :: "nat \<Rightarrow> decoder \<Rightarrow> decoder option"
and unique_object :: "nat \<Rightarrow> bytes set \<Rightarrow> decoder \<Rightarrow> decoder option"
and unique_array :: "nat \<Rightarrow> decoder \<Rightarrow> decoder option" where
  "validateUniqueJSONValue 0 d = None"
| "validateUniqueJSONValue (Suc n) d = (case Token d of
       Inl _ \<Rightarrow> None
     | Inr (tok, d1) \<Rightarrow> (case tok of
           Delim delimiter \<Rightarrow>
             if delimiter = CHR ''{'' then
               (case unique_object n {} d1 of None \<Rightarrow> None
                | Some d2 \<Rightarrow> (case Token d2 of
                     Inr (closing, d3) \<Rightarrow> if closing = Delim (CHR ''}'') then Some d3 else None
                   | Inl _ \<Rightarrow> None))
             else if delimiter = CHR ''['' then
               (case unique_array n d1 of None \<Rightarrow> None
                | Some d2 \<Rightarrow> (case Token d2 of
                     Inr (closing, d3) \<Rightarrow> if closing = Delim (CHR '']'') then Some d3 else None
                   | Inl _ \<Rightarrow> None))
             else None
         | _ \<Rightarrow> Some d1))"
| "unique_object 0 seen d = None"
| "unique_object (Suc n) seen d =
     (if \<not> More d then Some d
      else (case Token d of
          Inl _ \<Rightarrow> None
        | Inr (keyToken, d1) \<Rightarrow> (case keyToken of
              TStr key \<Rightarrow>
                if key \<in> seen then None
                else (case validateUniqueJSONValue n d1 of None \<Rightarrow> None
                      | Some d2 \<Rightarrow> unique_object n (insert key seen) d2)
            | _ \<Rightarrow> None)))"
| "unique_array 0 d = None"
| "unique_array (Suc n) d =
     (if \<not> More d then Some d
      else (case validateUniqueJSONValue n d of None \<Rightarrow> None | Some d2 \<Rightarrow> unique_array n d2))"

definition validateCompatibility :: "bytes \<Rightarrow> string list \<Rightarrow> release_error option" where
  "validateCompatibility payload requiredKeys = (case validateUniqueJSONValue (fuel_for payload) (new_decoder payload) of
       None \<Rightarrow> Some ErrCompatibilityInvalid
     | Some d \<Rightarrow>
         if Token d \<noteq> Inl JEOF then Some ErrCompatibilityInvalid
         else (case parse_json payload of
             Some (JObj ms) \<Rightarrow>
               let values = map_of (rev ms) in
               if length (remdups (map fst ms)) \<noteq> length requiredKeys then Some ErrCompatibilityInvalid
               else if list_ex (\<lambda>key. values key = None \<or> values key = Some JNull) requiredKeys
               then Some ErrCompatibilityInvalid
               else None
           | _ \<Rightarrow> Some ErrCompatibilityInvalid))"

definition validateCreateCommand :: "CreateCommand \<Rightarrow> Product \<Rightarrow> release_error option" where
  "validateCreateCommand command productRecord =
     (let channel = trim_space (cc_Channel command); version = trim_space (cc_Version command) in
      if pd_ID productRecord \<noteq> cc_ProductID command \<or> pd_Status productRecord \<noteq> ProductStatusActive
         \<or> pd_VersionScheme productRecord \<noteq> ''semver'' then Some ErrProductInvalid
      else if channel = [] \<or> \<not> productHasChannel productRecord channel then Some ErrChannelInvalid
      else if version \<noteq> cc_Version command \<or> \<not> matches semverPattern version then Some ErrVersionInvalid
      else if cc_ReleaseNotes command = [] \<or> length (cc_ReleaseNotes command) > maximumReleaseNotesBytes
         \<or> \<not> utf8_valid (cc_ReleaseNotes command) then Some ErrReleaseNotesInvalid
      else if \<not> validDigest (cc_ReleaseNotes command) (cc_ReleaseNotesSHA256 command) then Some ErrReleaseNotesMismatch
      else if cc_Compatibility command = [] \<or> length (cc_Compatibility command) > maximumCompatibilityBytes
      then Some ErrCompatibilityInvalid
      else if \<not> validDigest (cc_Compatibility command) (cc_CompatibilitySHA256 command) then Some ErrCompatibilityMismatch
      else (case validateCompatibility (cc_Compatibility command) (pd_CompatibilityKeys productRecord) of
          Some e \<Rightarrow> Some e
        | None \<Rightarrow>
            if cc_ArtifactIDs command = [] \<or> length (cc_ArtifactIDs command) > maximumReleaseArtifacts
            then Some ErrArtifactsInvalid
            else validateSource (cc_Source command)))"

section \<open>Dependencies and authorization\<close>

record release_service =
  rsv_repository :: bool
  rsv_transactor :: bool
  rsv_products :: bool
  rsv_artifacts :: "artifact_service option"
  rsv_auditor :: bool
  rsv_jobs :: bool

definition release_dependencies :: "release_service \<Rightarrow> release_error option" where
  "release_dependencies service =
     (if \<not> rsv_repository service then Some ErrRepositoryRequired
      else if \<not> rsv_transactor service then Some ErrTransactorRequired
      else if \<not> rsv_products service then Some ErrProductReaderRequired
      else if rsv_artifacts service = None then Some ErrArtifactReaderRequired
      else if \<not> rsv_auditor service then Some ErrAuditAppenderRequired
      else if \<not> rsv_jobs service then Some ErrJobEnqueuerRequired
      else None)"

definition requireReleaseLookup :: "Principal \<Rightarrow> string \<Rightarrow> string \<Rightarrow> release_error option" where
  "requireReleaseLookup who action productID = (case RequireProductActionCandidate who action productID of
       None \<Rightarrow> None
     | Some e \<Rightarrow> if p_Governed who then Some ErrReleaseNotFound else Some (ReleaseIdentity e))"

definition requireExplicitApprover :: "Principal \<Rightarrow> identity_error option" where
  "requireExplicitApprover who =
     (if p_Governed who then
        (if list_ex (\<lambda>s. rs_Role s = RoleApprover \<and> rs_Effect s = ''allow'') (p_RoleScopes who) then None
         else Some ErrActionDenied)
      else if list_ex (\<lambda>r. r = RoleApprover) (p_Roles who) then None
      else Some ErrActionDenied)"

text \<open>The check of the explicit approver, with the error a governed principal sees.\<close>

definition approver_error :: "Principal \<Rightarrow> release_error option" where
  "approver_error who = (case requireExplicitApprover who of
       None \<Rightarrow> None
     | Some e \<Rightarrow> if p_Governed who then Some ErrReleaseNotFound else Some (ReleaseIdentity e))"

text \<open>Reading a release for an action: the release, then the permission in its channel.\<close>

definition authorized_release :: "Principal \<Rightarrow> string \<Rightarrow> string \<Rightarrow> uuid \<Rightarrow> release_db \<Rightarrow> release_error + Release" where
  "authorized_release who action productID releaseID db =
     res_bind (loadRelease productID releaseID db) (\<lambda>current.
       if RequireInChannel who action productID (rl_channel (re_row current)) \<noteq> None then Inl ErrReleaseNotFound
       else Inr current)"

definition Release_Get :: "release_service \<Rightarrow> Principal \<Rightarrow> string \<Rightarrow> uuid \<Rightarrow> release_db \<Rightarrow> release_error + Release" where
  "Release_Get service who productID releaseID db =
     (let productID = trim_space productID in
      res_bind (check_err (release_dependencies service)) (\<lambda>_.
      res_bind (check_err (requireReleaseLookup who ActionProductRead productID)) (\<lambda>_.
        authorized_release who ActionProductRead productID releaseID db)))"

section \<open>Creating a release\<close>

fun collect_artifacts :: "artifact_service \<Rightarrow> Principal \<Rightarrow> string \<Rightarrow> uuid set \<Rightarrow> uuid list \<Rightarrow> platform_db \<Rightarrow>
    release_error + ArtifactBinding list" where
  "collect_artifacts artifacts who productID seen [] db = Inr []"
| "collect_artifacts artifacts who productID seen (artifactID # ids) db =
     (if artifactID = uuid_Nil then Inl ErrArtifactsInvalid
      else if artifactID \<in> seen then Inl ErrArtifactsInvalid
      else (case Artifact_Get artifacts who productID artifactID db of
          Inl e \<Rightarrow> if e = ErrArtifactNotFound then Inl ErrArtifactProductMismatch else Inl (ReleaseArtifact e)
        | Inr a \<Rightarrow>
            if ar_ProductID a \<noteq> productID then Inl ErrArtifactProductMismatch
            else res_bind (collect_artifacts artifacts who productID (insert artifactID seen) ids db) (\<lambda>bindings.
              Inr (\<lparr>ab_ArtifactID = ar_ID a, ab_ArtifactType = ar_ArtifactType a, ab_Filename = ar_Filename a,
                    ab_Size = ar_Size a, ab_SHA256 = ar_SHA256 a\<rparr> # bindings))))"

definition new_release :: "Principal \<Rightarrow> CreateCommand \<Rightarrow> ArtifactBinding list \<Rightarrow> uuid \<Rightarrow> time \<Rightarrow> Release" where
  "new_release who command bindings releaseID now = \<lparr>re_row =
     \<lparr>rl_id = releaseID, rl_product_id = cc_ProductID command, rl_channel = trim_space (cc_Channel command),
      rl_version = trim_space (cc_Version command), rl_status = StatusDraft, rl_lock_version = 1,
      rl_notes = cc_ReleaseNotes command, rl_notes_sha256 = cc_ReleaseNotesSHA256 command,
      rl_compatibility = cc_Compatibility command, rl_compatibility_sha256 = cc_CompatibilitySHA256 command,
      rl_source = normalizedSource (cc_Source command), rl_created_by = trim_space (p_Subject who),
      rl_created_at = now, rl_updated_at = now, rl_submitted_by = None, rl_submitted_at = None, rl_approved_by = None,
      rl_approved_at = None, rl_rejected_by = None, rl_rejected_at = None, rl_rejection_reason = None,
      rl_revoked_at = None, rl_revoked_by = None, rl_revocation_reason = None, rl_failure_code = None\<rparr>,
     re_Artifacts = bindings\<rparr>"

text \<open>The clock of a call, cut to microseconds.\<close>

abbreviation call_time :: "artifact_call \<Rightarrow> time" where
  "call_time call \<equiv> truncate_time microsecond (cl_now call)"

definition create_request :: "pg_lib \<Rightarrow> release_service \<Rightarrow> artifact_call \<Rightarrow> Principal \<Rightarrow> CreateCommand \<Rightarrow> release_db \<Rightarrow>
    release_error + Release" where
  "create_request pg service call who command db =
     res_bind (check_err (release_dependencies service)) (\<lambda>_.
       let command = command\<lparr>cc_ProductID := trim_space (cc_ProductID command)\<rparr>; productID = cc_ProductID command in
       res_bind (check_err (map_option ReleaseIdentity
          (RequireInChannel who ActionReleaseCreate productID (cc_Channel command)))) (\<lambda>_.
       res_bind (lift_err ReleaseProduct (repo_Get pg productID (pl_products (rd_platform db)))) (\<lambda>productRecord.
       res_bind (check_err (validateCreateCommand command productRecord)) (\<lambda>_.
       res_bind (of_option ErrArtifactReaderRequired (rsv_artifacts service)) (\<lambda>artifacts.
       res_bind (collect_artifacts artifacts who productID {} (cc_ArtifactIDs command) (rd_platform db)) (\<lambda>bindings.
       res_bind (of_option ReleaseUUIDUnavailable (cl_id call)) (\<lambda>releaseID.
         Inr (new_release who command bindings releaseID (call_time call)))))))))"

definition release_audit :: "uuid_lib \<Rightarrow> artifact_call \<Rightarrow> Principal \<Rightarrow> RequestContext \<Rightarrow> string \<Rightarrow> string \<Rightarrow> string \<Rightarrow>
    string \<Rightarrow> string \<Rightarrow> metadata \<Rightarrow> (release_db, release_error, Event) action" where
  "release_audit u call who request action productID rtype rid outcome md =
     on_platform (on_log ReleaseAudit (Append u \<lparr>as_repository = True, as_jobEnqueuer = True\<rparr> (cl_audit call)
       \<lparr>ac_Actor = who, ac_Action = action, ac_ProductID = productID, ac_ResourceType = rtype, ac_ResourceID = rid,
        ac_Outcome = outcome, ac_RequestID = rc_RequestID request, ac_SourceIP = rc_SourceIP request,
        ac_Metadata = md\<rparr>))"

definition create_tx :: "uuid_lib \<Rightarrow> artifact_call \<Rightarrow> Principal \<Rightarrow> RequestContext \<Rightarrow> Release \<Rightarrow>
    (release_db, release_error, Release) action" where
  "create_tx u call who request record =
     within_tx (act_bind (release_Create record) (\<lambda>_.
       act_bind (release_audit u call who request ''release.create'' (rl_product_id (re_row record)) ''release''
           (u_string u (rl_id (re_row record))) OutcomeSuccess
           [(''channel'', AnyString (rl_channel (re_row record))), (''version'', AnyString (rl_version (re_row record))),
            (''artifact_count'', AnyInt (int (length (re_Artifacts record))))]) (\<lambda>_.
       act_return record)))"

definition service_Create :: "uuid_lib \<Rightarrow> pg_lib \<Rightarrow> release_service \<Rightarrow> artifact_call \<Rightarrow> Principal \<Rightarrow> CreateCommand \<Rightarrow>
    RequestContext \<Rightarrow> (release_db, release_error, Release) action" where
  "service_Create u pg service call who command request =
     act_bind (act_read (create_request pg service call who command)) (create_tx u call who request)"

section \<open>Transitions\<close>

fun releaseAuditAction :: "release_status \<Rightarrow> string" where
  "releaseAuditAction StatusSubmitted = ''release.submit''"
| "releaseAuditAction StatusApproved = ''release.approve''"
| "releaseAuditAction StatusRejected = ''release.reject''"
| "releaseAuditAction StatusPublishing = ''release.publish''"
| "releaseAuditAction StatusPublished = ''release.complete''"
| "releaseAuditAction StatusFailed = ''release.fail''"
| "releaseAuditAction StatusDraft = ''release.transition''"

text \<open>\<open>transitionAuthorized\<close>: the guard on the state read, then the transaction.\<close>

definition transition_guard :: "Release \<Rightarrow> release_status \<Rightarrow> release_error + Release" where
  "transition_guard current target =
     (if TransitionAllowed (rl_status (re_row current)) target then Inr current else Inl ErrInvalidTransition)"

definition transition_tx :: "uuid_lib \<Rightarrow> artifact_call \<Rightarrow> Principal \<Rightarrow> RequestContext \<Rightarrow> int \<Rightarrow> release_status \<Rightarrow> string \<Rightarrow>
    Release \<Rightarrow> (release_db, release_error, Release) action" where
  "transition_tx u call who request expectedLockVersion target reason current =
     (let row = re_row current in
      within_tx (act_bind (Transition (cl_db_now call)
          \<lparr>tc_ReleaseID = rl_id row, tc_ProductID = rl_product_id row, tc_From = rl_status row, tc_To = target,
           tc_ExpectedLockVersion = expectedLockVersion, tc_Actor = trim_space (p_Subject who), tc_Reason = reason,
           tc_At = call_time call\<rparr>) (\<lambda>updated.
        act_bind (release_audit u call who request (releaseAuditAction target) (rl_product_id row) ''release''
            (u_string u (rl_id row)) OutcomeSuccess
            [(''from'', AnyString (status_text (rl_status row))), (''to'', AnyString (status_text target)),
             (''lock_version'', AnyInt (rl_lock_version (re_row updated)))]) (\<lambda>_.
        act_return updated))))"

definition submit_request :: "release_service \<Rightarrow> Principal \<Rightarrow> string \<Rightarrow> uuid \<Rightarrow> release_db \<Rightarrow> release_error + Release" where
  "submit_request service who productID releaseID db =
     (let productID = trim_space productID in
      res_bind (check_err (release_dependencies service)) (\<lambda>_.
      res_bind (check_err (requireReleaseLookup who ActionReleaseSubmit productID)) (\<lambda>_.
      res_bind (authorized_release who ActionReleaseSubmit productID releaseID db) (\<lambda>current.
        transition_guard current StatusSubmitted))))"

definition Submit :: "uuid_lib \<Rightarrow> release_service \<Rightarrow> artifact_call \<Rightarrow> Principal \<Rightarrow> string \<Rightarrow> uuid \<Rightarrow> int \<Rightarrow> RequestContext \<Rightarrow>
    (release_db, release_error, Release) action" where
  "Submit u service call who productID releaseID expectedLockVersion request =
     act_bind (act_read (submit_request service who productID releaseID))
       (transition_tx u call who request expectedLockVersion StatusSubmitted [])"

text \<open>The decision on a submitted release; nobody decides on his own submission.\<close>

definition not_submitter :: "Principal \<Rightarrow> Release \<Rightarrow> release_error + Release" where
  "not_submitter who current =
     (if trim_space (coalesce (rl_submitted_by (re_row current))) = trim_space (p_Subject who)
      then Inl ErrSelfApprovalForbidden else Inr current)"

definition approve_request :: "release_service \<Rightarrow> Principal \<Rightarrow> string \<Rightarrow> uuid \<Rightarrow> release_db \<Rightarrow> release_error + Release" where
  "approve_request service who productID releaseID db =
     (let productID = trim_space productID in
      res_bind (check_err (release_dependencies service)) (\<lambda>_.
      res_bind (check_err (requireReleaseLookup who ActionReleaseApprove productID)) (\<lambda>_.
      res_bind (check_err (approver_error who)) (\<lambda>_.
      res_bind (authorized_release who ActionReleaseApprove productID releaseID db) (\<lambda>current.
      res_bind (not_submitter who current) (\<lambda>current.
        transition_guard current StatusApproved))))))"

definition Approve :: "uuid_lib \<Rightarrow> release_service \<Rightarrow> artifact_call \<Rightarrow> Principal \<Rightarrow> string \<Rightarrow> uuid \<Rightarrow> int \<Rightarrow> RequestContext \<Rightarrow>
    (release_db, release_error, Release) action" where
  "Approve u service call who productID releaseID expectedLockVersion request =
     act_bind (act_read (approve_request service who productID releaseID))
       (transition_tx u call who request expectedLockVersion StatusApproved [])"

definition reason_ok :: "string \<Rightarrow> bool" where
  "reason_ok reason \<longleftrightarrow> reason \<noteq> [] \<and> length reason \<le> 2048 \<and> \<not> containsControl reason"

definition reject_request :: "release_service \<Rightarrow> Principal \<Rightarrow> string \<Rightarrow> uuid \<Rightarrow> string \<Rightarrow> release_db \<Rightarrow> release_error + Release" where
  "reject_request service who productID releaseID reason db =
     (let productID = trim_space productID in
      res_bind (check_err (release_dependencies service)) (\<lambda>_.
      res_bind (check_err (requireReleaseLookup who ActionReleaseApprove productID)) (\<lambda>_.
      res_bind (check_err (approver_error who)) (\<lambda>_.
      if \<not> reason_ok (trim_space reason) then Inl ErrRejectionReasonRequired
      else res_bind (authorized_release who ActionReleaseApprove productID releaseID db) (\<lambda>current.
      res_bind (not_submitter who current) (\<lambda>current.
        transition_guard current StatusRejected))))))"

definition Reject :: "uuid_lib \<Rightarrow> release_service \<Rightarrow> artifact_call \<Rightarrow> Principal \<Rightarrow> string \<Rightarrow> uuid \<Rightarrow> int \<Rightarrow> string \<Rightarrow> RequestContext \<Rightarrow>
    (release_db, release_error, Release) action" where
  "Reject u service call who productID releaseID expectedLockVersion reason request =
     act_bind (act_read (reject_request service who productID releaseID reason))
       (transition_tx u call who request expectedLockVersion StatusRejected (trim_space reason))"

section \<open>Publication and revocation\<close>

definition newAttempt :: "uuid option \<Rightarrow> uuid \<Rightarrow> attempt_kind \<Rightarrow> string \<Rightarrow> string \<Rightarrow> time \<Rightarrow> release_error + Attempt" where
  "newAttempt fresh releaseID kind idempotencyKey actor now =
     res_bind (of_option ReleaseUUIDUnavailable fresh) (\<lambda>attemptID.
       Inr \<lparr>am_ID = attemptID, am_ReleaseID = releaseID, am_Kind = kind, am_Number = 0, am_IdempotencyKey = idempotencyKey,
            am_Status = AttemptStatusPending, am_ErrorCode = None, am_CreatedBy = trim_space actor,
            am_CreatedAt = now, am_UpdatedAt = now\<rparr>)"

definition enqueueReleaseJob :: "uuid_lib \<Rightarrow> artifact_call \<Rightarrow> string \<Rightarrow> Attempt \<Rightarrow> time \<Rightarrow> (release_db, release_error, unit) action" where
  "enqueueReleaseJob u call kind attempt now =
     act_bind (act_lift (lift_err ReleaseJobs (New (ca_job_id (cl_audit call)) kind (am_ReleaseID attempt)
        (marshal_string_map [(''release_id'', u_string u (am_ReleaseID attempt)), (''attempt_id'', u_string u (am_ID attempt))])
        now))) (\<lambda>job.
     on_platform (on_outbox ReleaseJobs (Enqueue (cl_db_now call) job)))"

definition loadOperationResult :: "string \<Rightarrow> uuid \<Rightarrow> Attempt \<Rightarrow> release_db \<Rightarrow> release_error + OperationResult" where
  "loadOperationResult productID releaseID attempt db =
     res_bind (loadRelease productID releaseID db) (\<lambda>current. Inr \<lparr>or_Release = current, or_Attempt = attempt\<rparr>)"

text \<open>What the reading half of a publication or revocation ends with: the result of an earlier call
  with the same key, or the release read and the attempt to record.\<close>

datatype operation_start = Replay OperationResult | Start Release Attempt

definition existing_or :: "string \<Rightarrow> uuid \<Rightarrow> attempt_kind \<Rightarrow> string \<Rightarrow> (release_error + operation_start) \<Rightarrow> release_db \<Rightarrow>
    release_error + operation_start" where
  "existing_or productID releaseID kind idempotencyKey otherwise db = (case FindAttempt releaseID kind idempotencyKey db of
       Inr existing \<Rightarrow> res_bind (loadOperationResult productID releaseID existing db) (\<lambda>r. Inr (Replay r))
     | Inl findErr \<Rightarrow> if findErr \<noteq> ErrAttemptNotFound then Inl findErr else otherwise)"

definition publication_request :: "release_service \<Rightarrow> artifact_call \<Rightarrow> Principal \<Rightarrow> string \<Rightarrow> attempt_kind \<Rightarrow> string \<Rightarrow> uuid \<Rightarrow>
    string \<Rightarrow> release_db \<Rightarrow> release_error + operation_start" where
  "publication_request service call who action kind productID releaseID idempotencyKey db =
     (let productID = trim_space productID; idempotencyKey = trim_space idempotencyKey in
      res_bind (check_err (release_dependencies service)) (\<lambda>_.
      res_bind (check_err (requireReleaseLookup who action productID)) (\<lambda>_.
      res_bind (check_err (if kind = AttemptKindRetry then approver_error who else None)) (\<lambda>_.
      if \<not> matches idempotencyPattern idempotencyKey then Inl ErrIdempotencyKeyInvalid
      else res_bind (authorized_release who action productID releaseID db) (\<lambda>current.
        existing_or productID releaseID kind idempotencyKey
          (if \<not> TransitionAllowed (rl_status (re_row current)) StatusPublishing then Inl ErrInvalidTransition
           else res_bind (newAttempt (cl_id call) releaseID kind idempotencyKey (p_Subject who) (call_time call)) (\<lambda>attempt.
             Inr (Start current attempt))) db)))))"

text \<open>The transaction: the attempt found under the advisory lock, or the release moved and its attempt,
  job and audit event recorded. \<open>apply\<close> is the change of the release, \<open>action\<close> the audit action.\<close>

definition operation_tx :: "uuid_lib \<Rightarrow> artifact_call \<Rightarrow> Principal \<Rightarrow> RequestContext \<Rightarrow> string \<Rightarrow> string \<Rightarrow> string \<Rightarrow>
    (Attempt \<Rightarrow> Release \<Rightarrow> metadata) \<Rightarrow> (release_db, release_error, Release) action \<Rightarrow> Attempt \<Rightarrow>
    (release_db, release_error, Attempt + Release \<times> Attempt) action" where
  "operation_tx u call who request productID action jobKind md apply attempt =
     (let releaseID = am_ReleaseID attempt in
      within_tx (act_bind (LockOperation releaseID (am_Kind attempt) (am_IdempotencyKey attempt)) (\<lambda>_.
        act_try (act_read (FindAttempt releaseID (am_Kind attempt) (am_IdempotencyKey attempt))) (\<lambda>found. case found of
            Inr existing \<Rightarrow> act_return (Inl existing)
          | Inl findErr \<Rightarrow>
              if findErr \<noteq> ErrAttemptNotFound then act_fail findErr
              else act_bind apply (\<lambda>updated.
                act_bind (CreateAttempt attempt) (\<lambda>attempt.
                act_bind (enqueueReleaseJob u call jobKind attempt (call_time call)) (\<lambda>_.
                act_bind (release_audit u call who request action productID ''release'' (u_string u releaseID)
                    OutcomeSuccess (md attempt updated)) (\<lambda>_.
                act_return (Inr (updated, attempt))))))))))"

definition finish_operation :: "string \<Rightarrow> uuid \<Rightarrow> Attempt + Release \<times> Attempt \<Rightarrow> (release_db, release_error, OperationResult) action" where
  "finish_operation productID releaseID r = (case r of
       Inl existing \<Rightarrow> act_read (loadOperationResult productID releaseID existing)
     | Inr (updated, attempt) \<Rightarrow> act_return \<lparr>or_Release = updated, or_Attempt = attempt\<rparr>)"

definition publication_tx :: "uuid_lib \<Rightarrow> artifact_call \<Rightarrow> Principal \<Rightarrow> RequestContext \<Rightarrow> string \<Rightarrow> int \<Rightarrow> Release \<Rightarrow> Attempt \<Rightarrow>
    (release_db, release_error, Attempt + Release \<times> Attempt) action" where
  "publication_tx u call who request productID expectedLockVersion current attempt =
     operation_tx u call who request productID ''release.publish'' ''catalog.publish.v1''
       (\<lambda>attempt updated. [(''attempt_id'', AnyString (u_string u (am_ID attempt))),
          (''attempt_kind'', AnyString (kind_text (am_Kind attempt))),
          (''lock_version'', AnyInt (rl_lock_version (re_row updated)))])
       (Transition (cl_db_now call)
          \<lparr>tc_ReleaseID = am_ReleaseID attempt, tc_ProductID = productID, tc_From = rl_status (re_row current),
           tc_To = StatusPublishing, tc_ExpectedLockVersion = expectedLockVersion,
           tc_Actor = trim_space (p_Subject who), tc_Reason = [], tc_At = call_time call\<rparr>)
       attempt"

definition startPublication :: "uuid_lib \<Rightarrow> release_service \<Rightarrow> artifact_call \<Rightarrow> Principal \<Rightarrow> string \<Rightarrow> string \<Rightarrow> uuid \<Rightarrow> int \<Rightarrow>
    attempt_kind \<Rightarrow> string \<Rightarrow> RequestContext \<Rightarrow> (release_db, release_error, OperationResult) action" where
  "startPublication u service call who action productID releaseID expectedLockVersion kind idempotencyKey request =
     act_bind (act_read (publication_request service call who action kind productID releaseID idempotencyKey)) (\<lambda>start.
       case start of
         Replay result \<Rightarrow> act_return result
       | Start current attempt \<Rightarrow>
           act_bind (publication_tx u call who request (trim_space productID) expectedLockVersion current attempt)
             (finish_operation (trim_space productID) releaseID))"

definition service_Publish :: "uuid_lib \<Rightarrow> release_service \<Rightarrow> artifact_call \<Rightarrow> Principal \<Rightarrow> string \<Rightarrow> uuid \<Rightarrow> int \<Rightarrow> string \<Rightarrow>
    RequestContext \<Rightarrow> (release_db, release_error, OperationResult) action" where
  "service_Publish u service call who productID releaseID expectedLockVersion idempotencyKey request =
     startPublication u service call who ActionReleasePublish productID releaseID expectedLockVersion AttemptKindPublish
       idempotencyKey request"

definition Retry :: "uuid_lib \<Rightarrow> release_service \<Rightarrow> artifact_call \<Rightarrow> Principal \<Rightarrow> string \<Rightarrow> uuid \<Rightarrow> int \<Rightarrow> string \<Rightarrow>
    RequestContext \<Rightarrow> (release_db, release_error, OperationResult) action" where
  "Retry u service call who productID releaseID expectedLockVersion idempotencyKey request =
     startPublication u service call who ActionReleaseApprove productID releaseID expectedLockVersion AttemptKindRetry
       idempotencyKey request"

definition revocation_request :: "release_service \<Rightarrow> artifact_call \<Rightarrow> Principal \<Rightarrow> string \<Rightarrow> uuid \<Rightarrow> string \<Rightarrow> string \<Rightarrow>
    release_db \<Rightarrow> release_error + operation_start" where
  "revocation_request service call who productID releaseID reason idempotencyKey db =
     (let productID = trim_space productID; idempotencyKey = trim_space idempotencyKey in
      res_bind (check_err (release_dependencies service)) (\<lambda>_.
      res_bind (check_err (requireReleaseLookup who ActionReleaseApprove productID)) (\<lambda>_.
      res_bind (check_err (approver_error who)) (\<lambda>_.
      if \<not> reason_ok (trim_space reason) then Inl ErrRevocationReasonRequired
      else if \<not> matches idempotencyPattern idempotencyKey then Inl ErrIdempotencyKeyInvalid
      else res_bind (authorized_release who ActionReleaseApprove productID releaseID db) (\<lambda>current.
        existing_or productID releaseID AttemptKindRevoke idempotencyKey
          (if rl_revoked_at (re_row current) \<noteq> None then Inl ErrReleaseAlreadyRevoked
           else if rl_status (re_row current) \<noteq> StatusPublished then Inl ErrInvalidTransition
           else res_bind (newAttempt (cl_id call) releaseID AttemptKindRevoke idempotencyKey (p_Subject who) (call_time call))
             (\<lambda>attempt. Inr (Start current attempt))) db)))))"

definition revocation_tx :: "uuid_lib \<Rightarrow> artifact_call \<Rightarrow> Principal \<Rightarrow> RequestContext \<Rightarrow> string \<Rightarrow> int \<Rightarrow> string \<Rightarrow> Attempt \<Rightarrow>
    (release_db, release_error, Attempt + Release \<times> Attempt) action" where
  "revocation_tx u call who request productID expectedLockVersion reason attempt =
     operation_tx u call who request productID ''release.revoke'' ''catalog.revoke.v1''
       (\<lambda>attempt updated. [(''attempt_id'', AnyString (u_string u (am_ID attempt))), (''reason'', AnyString reason),
          (''lock_version'', AnyInt (rl_lock_version (re_row updated)))])
       (repo_Revoke (cl_db_now call)
          \<lparr>rv_ReleaseID = am_ReleaseID attempt, rv_ProductID = productID, rv_ExpectedLockVersion = expectedLockVersion,
           rv_Actor = trim_space (p_Subject who), rv_Reason = reason, rv_At = call_time call\<rparr>)
       attempt"

definition service_Revoke :: "uuid_lib \<Rightarrow> release_service \<Rightarrow> artifact_call \<Rightarrow> Principal \<Rightarrow> string \<Rightarrow> uuid \<Rightarrow> int \<Rightarrow> string \<Rightarrow>
    string \<Rightarrow> RequestContext \<Rightarrow> (release_db, release_error, OperationResult) action" where
  "service_Revoke u service call who productID releaseID expectedLockVersion reason idempotencyKey request =
     act_bind (act_read (revocation_request service call who productID releaseID reason idempotencyKey)) (\<lambda>start.
       case start of
         Replay result \<Rightarrow> act_return result
       | Start current attempt \<Rightarrow>
           act_bind (revocation_tx u call who request (trim_space productID) expectedLockVersion (trim_space reason) attempt)
             (finish_operation (trim_space productID) releaseID))"

end
