(* ===== verification/Publication.thy ===== *)
theory Publication
  imports Catalog ReleaseService
begin

text \<open>
  Publishing signed catalogs (\<open>internal/catalog\<close>): the tables \<open>catalog_version_counters\<close>,
  \<open>catalog_versions\<close>, \<open>catalog_role_documents\<close> and \<open>catalog_current_pointers\<close> with their constraints and
  triggers (migrations 000006 and 000007), the repository over them (\<open>repository.go\<close>,
  \<open>postgres_repository.go\<close>) and the publication service (\<open>publication_service.go\<close>), which works on the
  object store and the database. A clock reading and the identifiers of one call are in \<open>publication_call\<close>.
\<close>

section \<open>Records and tables\<close>

record RoleDocument =
  do_Role :: catalog_role
  do_Version :: nat
  do_EnvelopeSHA256 :: string
  do_ObjectKey :: string
  do_Signatures :: bytes
  do_Envelope :: bytes

record VersionRecord =
  vr_ID :: uuid
  vr_AttemptID :: uuid
  vr_ProductID :: string
  vr_Channel :: string
  vr_ReleaseID :: uuid
  vr_Versions :: Versions
  vr_BundleSHA256 :: string
  vr_Roles :: "catalog_role \<Rightarrow> RoleDocument option"
  vr_CreatedAt :: time
  vr_PublishedAt :: "time option"

record counter_row =
  ct_product_id :: string
  ct_channel :: string
  ct_versions :: Versions

record version_row =
  cv_id :: uuid
  cv_attempt :: "uuid option"
  cv_product_id :: string
  cv_channel :: string
  cv_release_id :: uuid
  cv_versions :: Versions
  cv_bundle_sha256 :: string
  cv_created_at :: time
  cv_published_at :: "time option"

record document_row =
  dr_version_id :: uuid
  dr_role :: catalog_role
  dr_version :: nat
  dr_sha256 :: string
  dr_object_key :: string
  dr_signatures :: bytes
  dr_envelope :: "bytes option"

record pointer_row =
  po_product_id :: string
  po_channel :: string
  po_version_id :: uuid
  po_switched_at :: time

record catalog_db =
  cb_release :: release_db
  cb_counters :: "counter_row list"
  cb_versions :: "version_row list"
  cb_documents :: "document_row list"
  cb_pointers :: "pointer_row list"

abbreviation counter_key :: "counter_row \<Rightarrow> string \<times> string" where
  "counter_key c \<equiv> (ct_product_id c, ct_channel c)"

abbreviation pointer_key :: "pointer_row \<Rightarrow> string \<times> string" where
  "pointer_key p \<equiv> (po_product_id p, po_channel p)"

abbreviation document_key :: "document_row \<Rightarrow> uuid \<times> catalog_role" where
  "document_key d \<equiv> (dr_version_id d, dr_role d)"

definition wrap_err :: "('e \<Rightarrow> 'f) \<Rightarrow> ('s, 'e, 'a) action \<Rightarrow> ('s, 'f, 'a) action" where
  "wrap_err f m = (\<lambda>s. case m s of (r, s') \<Rightarrow> (lift_err f r, s'))"

definition on_release :: "(release_db, 'e, 'a) action \<Rightarrow> (catalog_db, 'e, 'a) action" where
  "on_release m = (\<lambda>db. case m (cb_release db) of (r, rel) \<Rightarrow> (r, db\<lparr>cb_release := rel\<rparr>))"

definition with_store :: "('s, 'e, 'a) action \<Rightarrow> ('s \<times> catalog_db, 'e, 'a) action" where
  "with_store m = (\<lambda>(st, db). case m st of (r, st') \<Rightarrow> (r, st', db))"

definition with_db :: "(catalog_db, 'e, 'a) action \<Rightarrow> ('s \<times> catalog_db, 'e, 'a) action" where
  "with_db m = (\<lambda>(st, db). case m db of (r, db') \<Rightarrow> (r, st, db'))"

definition channel_exists :: "string \<Rightarrow> string \<Rightarrow> catalog_db \<Rightarrow> bool" where
  "channel_exists productID channel db \<longleftrightarrow>
     tbl_has (\<lambda>c. (ch_ProductID c, ch_Name c)) (pr_channels (pl_products (rd_platform (cb_release db)))) (productID, channel)"

section \<open>Version counters\<close>

definition bigint_versions :: "Versions \<Rightarrow> bool" where
  "bigint_versions v \<longleftrightarrow> list_all (\<lambda>role. int (role_version v role) \<le> int8_max) publicationRoleOrder"

text \<open>The statement inserts the first versions of a channel or advances all but the root version.\<close>

definition next_versions :: "nat \<Rightarrow> Versions \<Rightarrow> Versions" where
  "next_versions rootVersion v = \<lparr>vs_Root = rootVersion, vs_Targets = vs_Targets v + 1, vs_Snapshot = vs_Snapshot v + 1,
     vs_Timestamp = vs_Timestamp v + 1, vs_Revocation = vs_Revocation v + 1\<rparr>"

definition ReserveVersions :: "string \<Rightarrow> string \<Rightarrow> nat \<Rightarrow> (catalog_db, catalog_error, Versions) action" where
  "ReserveVersions productID channel rootVersion =
     (if productID = [] \<or> channel = [] \<or> rootVersion = 0 then act_fail ErrVersionsInvalid
      else act_write (\<lambda>db.
        if \<not> pg_text productID \<or> \<not> pg_text channel \<or> int rootVersion > int8_max then Inl CatalogDatabase
        else (case tbl_get counter_key (cb_counters db) (productID, channel) of
            None \<Rightarrow>
              let versions = \<lparr>vs_Root = rootVersion, vs_Targets = 1, vs_Snapshot = 1, vs_Timestamp = 1, vs_Revocation = 1\<rparr> in
              if \<not> channel_exists productID channel db then Inl CatalogDatabase
              else Inr (versions, db\<lparr>cb_counters := cb_counters db @
                [\<lparr>ct_product_id = productID, ct_channel = channel, ct_versions = versions\<rparr>]\<rparr>)
          | Some row \<Rightarrow>
              if \<not> vs_Root (ct_versions row) \<le> rootVersion then Inl ErrMetadataVersionRollback
              else let versions = next_versions rootVersion (ct_versions row) in
                if \<not> bigint_versions versions then Inl CatalogDatabase
                else Inr (versions, db\<lparr>cb_counters := tbl_put counter_key (row\<lparr>ct_versions := versions\<rparr>) (cb_counters db)\<rparr>))))"

section \<open>Version records\<close>

definition maximumRoleEnvelopeBytes :: nat where "maximumRoleEnvelopeBytes = 4 * 1024 * 1024"

fun valid_signature_items :: "string set \<Rightarrow> json list \<Rightarrow> bool" where
  "valid_signature_items seen [] = True"
| "valid_signature_items seen (rawItem # items) = (case rawItem of
       JObj item \<Rightarrow> length item = 2 \<and> (case (as_string (map_of item ''keyid''), as_string (map_of item ''sig'')) of
           (Some keyID, Some signatureText) \<Rightarrow>
             matches keyIDPattern keyID \<and> matches base64URLPattern signatureText \<and> keyID \<notin> seen
             \<and> (case RawURLDecode signatureText of None \<Rightarrow> False | Some signature \<Rightarrow> length signature = 64)
             \<and> valid_signature_items (insert keyID seen) items
         | _ \<Rightarrow> False)
     | _ \<Rightarrow> False)"

definition validSignatures :: "bytes \<Rightarrow> bool" where
  "validSignatures raw = (case strictJSONValue raw of
       Inr (JArr items) \<Rightarrow> items \<noteq> [] \<and> valid_signature_items {} items
     | _ \<Rightarrow> False)"

definition validCatalogObjectKey :: "string \<Rightarrow> bool" where
  "validCatalogObjectKey value \<longleftrightarrow> has_prefix value ''catalogs/'' \<and> \<not> contains_sub value ''..''
     \<and> \<not> list_ex (\<lambda>c. byte_val c \<in> {92, 0, 13, 10}) value \<and> length value \<le> 2048"

definition unprefixedDigest :: "string \<Rightarrow> bool" where
  "unprefixedDigest value \<longleftrightarrow> length value = 64 \<and> matches Catalog.digestPattern value \<and> \<not> has_prefix value ''sha256:''"

definition valid_document :: "VersionRecord \<Rightarrow> catalog_role \<Rightarrow> bool" where
  "valid_document record role = (case vr_Roles record role of
       None \<Rightarrow> False
     | Some document \<Rightarrow> do_Role document = role \<and> do_Version document = role_version (vr_Versions record) role
         \<and> unprefixedDigest (do_EnvelopeSHA256 document) \<and> validCatalogObjectKey (do_ObjectKey document) \<and> validSignatures (do_Signatures document)
         \<and> (vr_AttemptID record \<noteq> uuid_Nil \<longrightarrow> do_Envelope document \<noteq> [] \<and> length (do_Envelope document) \<le> maximumRoleEnvelopeBytes))"

definition validateVersionRecord :: "VersionRecord \<Rightarrow> catalog_error option" where
  "validateVersionRecord record =
     (if vr_ID record = uuid_Nil \<or> vr_ReleaseID record = uuid_Nil \<or> vr_ProductID record = [] \<or> vr_Channel record = []
         \<or> vr_CreatedAt record = 0 \<or> \<not> versions_valid (vr_Versions record)
         \<or> list_ex (\<lambda>role. vr_Roles record role = None) publicationRoleOrder \<or> \<not> unprefixedDigest (vr_BundleSHA256 record)
      then Some ErrVersionRecordInvalid
      else if list_all (valid_document record) publicationRoleOrder then None
      else Some ErrVersionRecordInvalid)"

text \<open>The unique violations of a statement are the only ones \<open>mapCatalogDatabaseError\<close> tells apart from
  others, besides the message of a rollback.\<close>

definition version_conflict :: "version_row \<Rightarrow> version_row \<Rightarrow> bool" where
  "version_conflict row r \<longleftrightarrow> cv_id r = cv_id row \<or> cv_attempt row \<noteq> None \<and> cv_attempt r = cv_attempt row
     \<or> cv_product_id r = cv_product_id row \<and> cv_channel r = cv_channel row
       \<and> list_ex (\<lambda>role. role_version (cv_versions r) role = role_version (cv_versions row) role)
           [RoleTargets, RoleSnapshot, RoleTimestamp, RoleRevocation]"

definition insert_version :: "VersionRecord \<Rightarrow> (catalog_db, catalog_error, unit) action" where
  "insert_version record = act_write (\<lambda>db.
     let row = \<lparr>cv_id = vr_ID record, cv_attempt = (if vr_AttemptID record = uuid_Nil then None else Some (vr_AttemptID record)),
           cv_product_id = vr_ProductID record, cv_channel = vr_Channel record, cv_release_id = vr_ReleaseID record,
           cv_versions = vr_Versions record, cv_bundle_sha256 = vr_BundleSHA256 record,
           cv_created_at = pg_timestamp (vr_CreatedAt record), cv_published_at = None\<rparr> in
     if \<not> pg_text (vr_ProductID record) \<or> \<not> pg_text (vr_Channel record) \<or> \<not> bigint_versions (vr_Versions record) then Inl CatalogDatabase
     else if list_ex (version_conflict row) (cb_versions db) then Inl ErrVersionRecordExists
     else if \<not> channel_exists (cv_product_id row) (cv_channel row) db
       \<or> \<not> tbl_has (\<lambda>r. (rl_id r, rl_product_id r)) (rd_releases (cb_release db)) (cv_release_id row, cv_product_id row)
       \<or> (case cv_attempt row of None \<Rightarrow> False | Some a \<Rightarrow> \<not> tbl_has am_ID (rd_attempts (cb_release db)) a)
     then Inl CatalogDatabase
     else Inr ((), db\<lparr>cb_versions := cb_versions db @ [row]\<rparr>))"

text \<open>One document, with the trigger \<open>validate_catalog_role_version\<close>.\<close>

definition insert_document :: "uuid \<Rightarrow> RoleDocument \<Rightarrow> (catalog_db, catalog_error, unit) action" where
  "insert_document catalogVersionID document = act_write (\<lambda>db.
     let row = \<lparr>dr_version_id = catalogVersionID, dr_role = do_Role document, dr_version = do_Version document, dr_sha256 = do_EnvelopeSHA256 document,
           dr_object_key = do_ObjectKey document, dr_signatures = do_Signatures document,
           dr_envelope = (if do_Envelope document = [] then None else Some (do_Envelope document))\<rparr> in
     if \<not> pg_text (do_ObjectKey document) \<or> \<not> pg_length_between 1 2048 (do_ObjectKey document) then Inl CatalogDatabase
     else (case tbl_get cv_id (cb_versions db) catalogVersionID of
         None \<Rightarrow> Inl CatalogDatabase
       | Some version \<Rightarrow>
           if role_version (cv_versions version) (do_Role document) \<noteq> do_Version document then Inl CatalogDatabase
           else if tbl_has document_key (cb_documents db) (document_key row) then Inl ErrVersionRecordExists
           else Inr ((), db\<lparr>cb_documents := cb_documents db @ [row]\<rparr>)))"

fun insert_documents :: "VersionRecord \<Rightarrow> catalog_role list \<Rightarrow> (catalog_db, catalog_error, unit) action" where
  "insert_documents record [] = act_return ()"
| "insert_documents record (role # roles) = (case vr_Roles record role of
       None \<Rightarrow> act_fail ErrVersionRecordInvalid
     | Some document \<Rightarrow> act_bind (insert_document (vr_ID record) document) (\<lambda>_. insert_documents record roles))"

definition catalog_Create :: "VersionRecord \<Rightarrow> (catalog_db, catalog_error, unit) action" where
  "catalog_Create record = act_bind (act_lift (check_err (validateVersionRecord record))) (\<lambda>_.
     act_bind (insert_version record) (\<lambda>_. insert_documents record publicationRoleOrder))"

definition scanVersionRecord :: "version_row \<Rightarrow> VersionRecord" where
  "scanVersionRecord row = \<lparr>vr_ID = cv_id row, vr_AttemptID = (case cv_attempt row of None \<Rightarrow> uuid_Nil | Some a \<Rightarrow> a),
     vr_ProductID = cv_product_id row, vr_Channel = cv_channel row, vr_ReleaseID = cv_release_id row, vr_Versions = cv_versions row,
     vr_BundleSHA256 = cv_bundle_sha256 row, vr_Roles = (\<lambda>_. None), vr_CreatedAt = cv_created_at row, vr_PublishedAt = cv_published_at row\<rparr>"

definition scan_document :: "pg_lib \<Rightarrow> document_row \<Rightarrow> RoleDocument" where
  "scan_document pg row = \<lparr>do_Role = dr_role row, do_Version = dr_version row, do_EnvelopeSHA256 = dr_sha256 row, do_ObjectKey = dr_object_key row,
     do_Signatures = pg_jsonb_text pg (dr_signatures row), do_Envelope = (case dr_envelope row of None \<Rightarrow> [] | Some e \<Rightarrow> e)\<rparr>"

definition loadRoleDocuments :: "pg_lib \<Rightarrow> uuid \<Rightarrow> catalog_db \<Rightarrow> catalog_error + (catalog_role \<Rightarrow> RoleDocument option)" where
  "loadRoleDocuments pg catalogVersionID db =
     (let result = (\<lambda>role. map_option (scan_document pg) (tbl_get document_key (cb_documents db) (catalogVersionID, role))) in
      if list_ex (\<lambda>role. result role = None) publicationRoleOrder then Inl ErrBundleIncomplete else Inr result)"

definition load_version :: "pg_lib \<Rightarrow> version_row \<Rightarrow> catalog_db \<Rightarrow> catalog_error + VersionRecord" where
  "load_version pg row db = res_bind (loadRoleDocuments pg (cv_id row) db) (\<lambda>roles. Inr ((scanVersionRecord row)\<lparr>vr_Roles := roles\<rparr>))"

definition FindByAttempt :: "pg_lib \<Rightarrow> uuid \<Rightarrow> catalog_db \<Rightarrow> catalog_error + VersionRecord" where
  "FindByAttempt pg attemptID db =
     (if attemptID = uuid_Nil then Inl ErrVersionRecordNotFound
      else (case tbl_get cv_attempt (cb_versions db) (Some attemptID) of
          None \<Rightarrow> Inl ErrVersionRecordNotFound
        | Some row \<Rightarrow> load_version pg row db))"

definition catalog_Get :: "pg_lib \<Rightarrow> uuid \<Rightarrow> catalog_db \<Rightarrow> catalog_error + VersionRecord" where
  "catalog_Get pg catalogVersionID db = (case tbl_get cv_id (cb_versions db) catalogVersionID of
       None \<Rightarrow> Inl ErrVersionRecordNotFound
     | Some row \<Rightarrow> load_version pg row db)"

section \<open>The current catalog\<close>

definition versions_below :: "Versions \<Rightarrow> Versions \<Rightarrow> bool" where
  "versions_below v w \<longleftrightarrow> list_ex (\<lambda>role. role_version v role < role_version w role) publicationRoleOrder"

text \<open>The trigger \<open>validate_catalog_current_switch\<close>: on the insert it marks the version as published, on the
  update it refuses a rollback.\<close>

definition switch_candidate :: "string \<Rightarrow> string \<Rightarrow> uuid \<Rightarrow> catalog_db \<Rightarrow> version_row option" where
  "switch_candidate productID channel catalogVersionID db = (case tbl_get cv_id (cb_versions db) catalogVersionID of
       None \<Rightarrow> None
     | Some candidate \<Rightarrow>
         if cv_product_id candidate \<noteq> productID \<or> cv_channel candidate \<noteq> channel
            \<or> length (filter (\<lambda>d. dr_version_id d = catalogVersionID) (cb_documents db)) \<noteq> 5
         then None else Some candidate)"

definition mark_published :: "version_row \<Rightarrow> time \<Rightarrow> version_row" where
  "mark_published candidate at = (if cv_published_at candidate = None then candidate\<lparr>cv_published_at := Some at\<rparr> else candidate)"

definition rolls_back :: "version_row \<Rightarrow> pointer_row \<Rightarrow> catalog_db \<Rightarrow> bool" where
  "rolls_back candidate old db = (case tbl_get cv_id (cb_versions db) (po_version_id old) of
       None \<Rightarrow> False
     | Some previous \<Rightarrow> versions_below (cv_versions candidate) (cv_versions previous))"

definition SetCurrent :: "string \<Rightarrow> string \<Rightarrow> uuid \<Rightarrow> time \<Rightarrow> (catalog_db, catalog_error, unit) action" where
  "SetCurrent productID channel catalogVersionID switchedAt =
     (if productID = [] \<or> channel = [] \<or> catalogVersionID = uuid_Nil \<or> switchedAt = 0 then act_fail ErrVersionRecordInvalid
      else act_write (\<lambda>db.
        if \<not> pg_text productID \<or> \<not> pg_text channel then Inl CatalogDatabase
        else (case switch_candidate productID channel catalogVersionID db of
            None \<Rightarrow> Inl CatalogDatabase
          | Some candidate \<Rightarrow>
              let at = pg_timestamp switchedAt; version = mark_published candidate at;
                  pointer = \<lparr>po_product_id = productID, po_channel = channel, po_version_id = catalogVersionID, po_switched_at = at\<rparr>;
                  db1 = db\<lparr>cb_versions := tbl_put cv_id version (cb_versions db)\<rparr> in
              if cv_published_at candidate = None \<and> at < cv_created_at candidate then Inl CatalogDatabase
              else (case tbl_get pointer_key (cb_pointers db) (productID, channel) of
                  None \<Rightarrow> Inr ((), db1\<lparr>cb_pointers := cb_pointers db @ [pointer]\<rparr>)
                | Some old \<Rightarrow>
                    if rolls_back candidate old db then Inl ErrMetadataVersionRollback
                    else Inr ((), db1\<lparr>cb_pointers := tbl_put pointer_key pointer (cb_pointers db)\<rparr>)))))"

definition Current :: "pg_lib \<Rightarrow> string \<Rightarrow> string \<Rightarrow> catalog_db \<Rightarrow> catalog_error + VersionRecord" where
  "Current pg productID channel db =
     (if \<not> pg_text productID \<or> \<not> pg_text channel then Inl CatalogDatabase
      else (case tbl_get pointer_key (cb_pointers db) (productID, channel) of
          None \<Rightarrow> Inl ErrCurrentCatalogNotFound
        | Some pointer \<Rightarrow>
            (case tbl_get (\<lambda>r. (cv_id r, cv_product_id r, cv_channel r)) (cb_versions db) (po_version_id pointer, productID, channel) of
               None \<Rightarrow> Inl ErrCurrentCatalogNotFound
             | Some row \<Rightarrow> load_version pg row db)))"


section \<open>Building a version record\<close>

definition JobKindCatalogPublish :: string where "JobKindCatalogPublish = ''catalog.publish.v1''"
definition JobKindCatalogRevoke :: string where "JobKindCatalogRevoke = ''catalog.revoke.v1''"
definition publicationObjectMediaType :: string where "publicationObjectMediaType = ''application/json''"

text \<open>\<open>path.Join\<close>: the non-empty elements, cleaned of empty, \<open>.\<close> and \<open>..\<close> segments.\<close>

fun join_slash :: "string list \<Rightarrow> string" where
  "join_slash [] = []"
| "join_slash [x] = x"
| "join_slash (x # xs) = x @ ''/'' @ join_slash xs"

fun clean_segments :: "bool \<Rightarrow> string list \<Rightarrow> string list \<Rightarrow> string list" where
  "clean_segments rooted acc [] = rev acc"
| "clean_segments rooted acc (x # xs) =
     (if x = [] \<or> x = ''.'' then clean_segments rooted acc xs
      else if x = ''..'' then clean_segments rooted (case acc of
           [] \<Rightarrow> if rooted then [] else [x]
         | y # ys \<Rightarrow> if y = ''..'' then x # acc else ys) xs
      else clean_segments rooted (x # acc) xs)"

definition path_Clean :: "string \<Rightarrow> string" where
  "path_Clean p = (let rooted = has_prefix p ''/''; segments = clean_segments rooted [] (split_on (CHR ''/'') p);
       cleaned = (if rooted then ''/'' else []) @ join_slash segments in if cleaned = [] then ''.'' else cleaned)"

definition path_Join :: "string list \<Rightarrow> string" where
  "path_Join elements = (let elements = filter (\<lambda>e. e \<noteq> []) elements in if elements = [] then [] else path_Clean (join_slash elements))"

record publication_call =
  pc_build_now :: time
  pc_verify_now :: time
  pc_created_now :: time
  pc_now :: time
  pc_db_now :: time
  pc_id :: "uuid option"
  pc_audit :: audit_call

definition publicationSignatures :: "bytes \<Rightarrow> catalog_error + bytes" where
  "publicationSignatures envelope = res_bind (strictJSONValue envelope) (\<lambda>value. case value of
       JObj object \<Rightarrow> (case as_array (map_of object ''signatures'') of
           Some signatures \<Rightarrow> if signatures = [] then Inl ErrEnvelopeInvalid else Inr (marshal_go (GoSlice (map go_of signatures)))
         | None \<Rightarrow> Inl ErrEnvelopeInvalid)
     | _ \<Rightarrow> Inl ErrEnvelopeInvalid)"

definition publication_document :: "uuid_lib \<Rightarrow> uuid \<Rightarrow> Release \<Rightarrow> Versions \<Rightarrow> Bundle \<Rightarrow> catalog_role \<Rightarrow> catalog_error + RoleDocument" where
  "publication_document u catalogID releaseRecord versions bundle role =
     (let envelope = Roles bundle role in
      if envelope = [] \<or> length envelope > maximumRoleEnvelopeBytes then Inl ErrBundleIncomplete
      else res_bind (publicationSignatures envelope) (\<lambda>signatures.
        Inr \<lparr>do_Role = role, do_Version = role_version versions role, do_EnvelopeSHA256 = sha256_hex envelope,
          do_ObjectKey = path_Join [''catalogs'', rl_product_id (re_row releaseRecord), rl_channel (re_row releaseRecord),
             u_string u catalogID, role_text role @ ''.json''],
          do_Signatures = signatures, do_Envelope = envelope\<rparr>))"

fun publication_documents :: "uuid_lib \<Rightarrow> uuid \<Rightarrow> Release \<Rightarrow> Versions \<Rightarrow> Bundle \<Rightarrow> catalog_role list \<Rightarrow>
    catalog_error + (catalog_role \<Rightarrow> RoleDocument option)" where
  "publication_documents u catalogID releaseRecord versions bundle [] = Inr (\<lambda>_. None)"
| "publication_documents u catalogID releaseRecord versions bundle (role # roles) =
     res_bind (publication_document u catalogID releaseRecord versions bundle role) (\<lambda>document.
     res_bind (publication_documents u catalogID releaseRecord versions bundle roles) (\<lambda>documents.
       Inr (documents(role := Some document))))"

definition bundle_hash :: "Bundle \<Rightarrow> string" where
  "bundle_hash bundle = sha256_hex (concat (map (\<lambda>role. role_text role @ [CHR 0x00] @ Sum256 (Roles bundle role)) publicationRoleOrder))"

definition newPublicationRecord :: "uuid_lib \<Rightarrow> uuid \<Rightarrow> uuid \<Rightarrow> Release \<Rightarrow> Versions \<Rightarrow> Bundle \<Rightarrow> time \<Rightarrow> catalog_error + VersionRecord" where
  "newPublicationRecord u catalogID attemptID releaseRecord versions bundle now =
     (if catalogID = uuid_Nil \<or> attemptID = uuid_Nil then Inl ErrPublicationConfiguration
      else res_bind (publication_documents u catalogID releaseRecord versions bundle publicationRoleOrder) (\<lambda>roles.
        Inr \<lparr>vr_ID = catalogID, vr_AttemptID = attemptID, vr_ProductID = rl_product_id (re_row releaseRecord),
          vr_Channel = rl_channel (re_row releaseRecord), vr_ReleaseID = rl_id (re_row releaseRecord), vr_Versions = versions,
          vr_BundleSHA256 = bundle_hash bundle, vr_Roles = roles, vr_CreatedAt = truncate_time microsecond now, vr_PublishedAt = None\<rparr>))"

text \<open>The service: the builder resolves targets in the product registry as it is when it builds.\<close>

record publication_service =
  pv_ed :: ed25519
  pv_root :: parsedEnvelope
  pv_sign :: signer
  pv_keyRefs :: RoleKeyRefs

definition service_builder :: "uuid_lib \<Rightarrow> pg_lib \<Rightarrow> publication_service \<Rightarrow> catalog_db \<Rightarrow> Builder" where
  "service_builder u pg service db = \<lparr>bd_root = pv_root service, bd_sign = pv_sign service, bd_keyRefs = pv_keyRefs service,
     bd_resolve = Resolve_target u pg (pl_products (rd_platform (cb_release db)))\<rparr>"

definition service_root_version :: "publication_service \<Rightarrow> nat" where
  "service_root_version service =
     (case positiveVersion (map_of (pe_Signed (pv_root service)) ''version'') of Inl _ \<Rightarrow> 0 | Inr v \<Rightarrow> v)"

record publication_config =
  cf_Catalogs :: bool
  cf_Releases :: bool
  cf_Transactor :: bool
  cf_Builder :: "publication_service option"
  cf_Store :: bool
  cf_Auditor :: bool
  cf_Clock :: bool

definition NewPublicationService :: "publication_config \<Rightarrow> catalog_error + publication_service" where
  "NewPublicationService config = (case cf_Builder config of
       None \<Rightarrow> Inl ErrPublicationConfiguration
     | Some service \<Rightarrow>
         if \<not> cf_Catalogs config \<or> \<not> cf_Releases config \<or> \<not> cf_Transactor config \<or> \<not> cf_Store config \<or> \<not> cf_Auditor config
            \<or> \<not> cf_Clock config \<or> service_root_version service = 0
         then Inl ErrPublicationConfiguration else Inr service)"

type_synonym build_fun = "ed25519 \<Rightarrow> Builder \<Rightarrow> time \<Rightarrow> time \<Rightarrow> Release \<Rightarrow> Versions \<Rightarrow> catalog_error + Bundle"

definition createPublicationRecordWithBuilder :: "uuid_lib \<Rightarrow> pg_lib \<Rightarrow> publication_service \<Rightarrow> publication_call \<Rightarrow> build_fun \<Rightarrow> Release \<Rightarrow> uuid \<Rightarrow>
    (catalog_db, catalog_error, VersionRecord) action" where
  "createPublicationRecordWithBuilder u pg service call build_catalog releaseRecord attemptID =
     within_tx (act_bind (ReserveVersions (rl_product_id (re_row releaseRecord)) (rl_channel (re_row releaseRecord)) (service_root_version service)) (\<lambda>versions.
       act_bind (act_read (\<lambda>db. build_catalog (pv_ed service) (service_builder u pg service db) (pc_build_now call) (pc_verify_now call)
           releaseRecord versions)) (\<lambda>bundle.
       act_bind (act_lift (of_option CatalogUUIDUnavailable (pc_id call))) (\<lambda>catalogID.
       act_bind (act_lift (newPublicationRecord u catalogID attemptID releaseRecord versions bundle (pc_created_now call))) (\<lambda>record.
       act_bind (catalog_Create record) (\<lambda>_. act_return record))))))"

section \<open>Storing the roles\<close>

definition verifyRoleObject :: "'s minio_core \<Rightarrow> RoleDocument \<Rightarrow> ('s, catalog_error, unit) action" where
  "verifyRoleObject core document =
     act_bind (wrap_err CatalogStore (Open core (do_ObjectKey document) 0 (-1))) (\<lambda>(rd, information).
       if oi_Size information \<noteq> int (length (do_Envelope document)) \<or> oi_Size information > int maximumRoleEnvelopeBytes
       then act_fail ErrPublicationDigestMismatch
       else let limit = maximumRoleEnvelopeBytes + 1; written = take limit (rd_bytes rd) in
         if rd_fails rd \<and> length (rd_bytes rd) < limit then act_fail CatalogRead
         else if int (length written) \<noteq> oi_Size information \<or> \<not> equal_fold (sha256_hex written) (do_EnvelopeSHA256 document)
         then act_fail ErrPublicationDigestMismatch
         else act_return ())"

text \<open>The deferred call deletes the staging object once it is complete and aborts the upload before.\<close>

definition staging_key :: "uuid_lib \<Rightarrow> uuid \<Rightarrow> RoleDocument \<Rightarrow> string" where
  "staging_key u catalogID document = path_Join [''uploads'', ''catalogs'', u_string u catalogID, role_text (do_Role document) @ ''.json'']"

definition promote_role :: "'s minio_core \<Rightarrow> string \<Rightarrow> RoleDocument \<Rightarrow> ('s, catalog_error, unit) action" where
  "promote_role core stagingKey document =
     act_try (act_try (Promote core stagingKey (do_ObjectKey document)) (\<lambda>p. case p of
         Inl e \<Rightarrow> if e \<noteq> store_error.ErrObjectAlreadyExists then act_fail (CatalogStore e) else verifyRoleObject core document
       | Inr _ \<Rightarrow> verifyRoleObject core document)) (\<lambda>r.
     act_try (store_Delete core stagingKey) (\<lambda>_. act_lift r))"

definition upload_role :: "'s minio_core \<Rightarrow> string \<Rightarrow> string \<Rightarrow> RoleDocument \<Rightarrow> ('s, catalog_error, unit) action" where
  "upload_role core stagingKey uploadID document =
     (let abort = (\<lambda>e. act_try (AbortMultipart core stagingKey uploadID) (\<lambda>_. act_fail (CatalogStore e))) in
      act_try (store_PutPart core stagingKey uploadID 1 (Some (do_Envelope document)) (int (length (do_Envelope document))) (do_EnvelopeSHA256 document)) (\<lambda>p.
      case p of
        Inl e \<Rightarrow> abort e
      | Inr part \<Rightarrow> act_try (CompleteMultipart core stagingKey uploadID [part]) (\<lambda>c. case c of
            Inl e \<Rightarrow> abort e
          | Inr _ \<Rightarrow> promote_role core stagingKey document)))"

definition persistRole :: "uuid_lib \<Rightarrow> 's minio_core \<Rightarrow> uuid \<Rightarrow> RoleDocument \<Rightarrow> ('s, catalog_error, unit) action" where
  "persistRole u core catalogID document =
     (if do_Envelope document = [] \<or> length (do_Envelope document) > maximumRoleEnvelopeBytes then act_fail ErrEnvelopeInvalid
      else act_try (Stat core (do_ObjectKey document)) (\<lambda>r. case r of
          Inr _ \<Rightarrow> verifyRoleObject core document
        | Inl e \<Rightarrow>
            if e \<noteq> store_error.ErrObjectNotFound then act_fail (CatalogStore e)
            else act_bind (wrap_err CatalogStore (BeginMultipart core (staging_key u catalogID document) publicationObjectMediaType)) (\<lambda>uploadID.
              upload_role core (staging_key u catalogID document) uploadID document)))"

fun persist_roles :: "uuid_lib \<Rightarrow> 's minio_core \<Rightarrow> VersionRecord \<Rightarrow> catalog_role list \<Rightarrow> ('s, catalog_error, unit) action" where
  "persist_roles u core record [] = act_return ()"
| "persist_roles u core record (role # roles) = (case vr_Roles record role of
       None \<Rightarrow> act_fail ErrEnvelopeInvalid
     | Some document \<Rightarrow> act_bind (persistRole u core (vr_ID record) document) (\<lambda>_. persist_roles u core record roles))"

section \<open>Jobs\<close>

record PublicationJobPayload =
  pj_ReleaseID :: uuid
  pj_AttemptID :: uuid

text \<open>A \<open>uuid.UUID\<close> reads a JSON string; null leaves it as it is.\<close>

definition decode_uuid :: "uuid_lib \<Rightarrow> json \<Rightarrow> uuid \<Rightarrow> uuid option" where
  "decode_uuid u v old = (case v of JStr s \<Rightarrow> u_parse u s | JNull \<Rightarrow> Some old | _ \<Rightarrow> None)"

definition payload_field :: "uuid_lib \<Rightarrow> bytes \<times> json \<Rightarrow> PublicationJobPayload \<Rightarrow> PublicationJobPayload option" where
  "payload_field u m r =
     (if fold_name (fst m) = ''release_id'' then map_option (\<lambda>x. r\<lparr>pj_ReleaseID := x\<rparr>) (decode_uuid u (snd m) (pj_ReleaseID r))
      else if fold_name (fst m) = ''attempt_id'' then map_option (\<lambda>x. r\<lparr>pj_AttemptID := x\<rparr>) (decode_uuid u (snd m) (pj_AttemptID r))
      else None)"

definition decode_payload :: "uuid_lib \<Rightarrow> bytes \<Rightarrow> PublicationJobPayload option" where
  "decode_payload u payload = (let empty = \<lparr>pj_ReleaseID = uuid_Nil, pj_AttemptID = uuid_Nil\<rparr> in case parse_json payload of
       Some (JObj ms) \<Rightarrow> decode_fields (payload_field u) ms empty
     | Some JNull \<Rightarrow> Some empty
     | _ \<Rightarrow> None)"

definition decodeCatalogJob :: "uuid_lib \<Rightarrow> Job \<Rightarrow> string \<Rightarrow> catalog_error + PublicationJobPayload" where
  "decodeCatalogJob u job expectedKind =
     (if j_ID job = uuid_Nil \<or> j_Kind job \<noteq> expectedKind \<or> j_AggregateID job = uuid_Nil \<or> j_Payload job = [] then Inl ErrPublicationJobInvalid
      else (case decode_payload u (j_Payload job) of
          None \<Rightarrow> Inl ErrPublicationJobInvalid
        | Some payload \<Rightarrow>
            if pj_ReleaseID payload = uuid_Nil \<or> pj_AttemptID payload = uuid_Nil \<or> pj_ReleaseID payload \<noteq> j_AggregateID job
            then Inl ErrPublicationJobInvalid else Inr payload))"

definition workerPrincipal :: "string \<Rightarrow> Principal" where
  "workerPrincipal productID = \<lparr>p_Subject = ''release-worker'', p_Kind = ''workload'', p_IdentitySourceID = [], p_GovernedUserID = [],
     p_Roles = [''publisher''], p_ProductIDs = [productID], p_TokenID = [], p_Provider = ''api-token'', p_Governed = False, p_RoleScopes = [],
     p_AuthenticatedAt = 0, p_AuthenticationAssurance = 0\<rparr>"

definition catalog_audit :: "uuid_lib \<Rightarrow> publication_call \<Rightarrow> Job \<Rightarrow> string \<Rightarrow> string \<Rightarrow> string \<Rightarrow> string \<Rightarrow> string \<Rightarrow> metadata \<Rightarrow>
    (catalog_db, catalog_error, Event) action" where
  "catalog_audit u call job action productID rtype rid outcome md =
     on_release (on_platform (on_log CatalogAudit (Append u \<lparr>as_repository = True, as_jobEnqueuer = True\<rparr> (pc_audit call)
       \<lparr>ac_Actor = workerPrincipal productID, ac_Action = action, ac_ProductID = productID, ac_ResourceType = rtype, ac_ResourceID = rid,
        ac_Outcome = outcome, ac_RequestID = u_string u (j_ID job), ac_SourceIP = [], ac_Metadata = md\<rparr>)))"

text \<open>The release and the attempt a job names.\<close>

definition load_job :: "uuid_lib \<Rightarrow> Job \<Rightarrow> string \<Rightarrow> catalog_db \<Rightarrow> catalog_error + (PublicationJobPayload \<times> Release \<times> Attempt)" where
  "load_job u job kind db = res_bind (decodeCatalogJob u job kind) (\<lambda>payload.
     res_bind (lift_err CatalogRelease (GetByID (pj_ReleaseID payload) (cb_release db))) (\<lambda>releaseRecord.
     res_bind (lift_err CatalogRelease (GetAttemptByID (pj_AttemptID payload) (cb_release db))) (\<lambda>attempt.
       Inr (payload, releaseRecord, attempt))))"

abbreviation release_id :: "Release \<Rightarrow> uuid" where "release_id r \<equiv> rl_id (re_row r)"
abbreviation pub_time :: "publication_call \<Rightarrow> time" where "pub_time call \<equiv> truncate_time microsecond (pc_now call)"

definition same_scope :: "VersionRecord \<Rightarrow> Release \<Rightarrow> bool" where
  "same_scope record releaseRecord \<longleftrightarrow> vr_ReleaseID record = release_id releaseRecord
     \<and> vr_ProductID record = rl_product_id (re_row releaseRecord) \<and> vr_Channel record = rl_channel (re_row releaseRecord)"

definition already_current :: "pg_lib \<Rightarrow> VersionRecord \<Rightarrow> catalog_db \<Rightarrow> catalog_error + unit" where
  "already_current pg record db = (case Current pg (vr_ProductID record) (vr_Channel record) db of
       Inr current \<Rightarrow> if vr_ID current = vr_ID record then Inr () else Inl ErrPublicationStateInvalid
     | Inl _ \<Rightarrow> Inl ErrPublicationStateInvalid)"

text \<open>The transaction that makes a stored catalog current.\<close>

definition switch_tx :: "uuid_lib \<Rightarrow> publication_call \<Rightarrow> Job \<Rightarrow> VersionRecord \<Rightarrow> string \<Rightarrow> Release \<Rightarrow> uuid \<Rightarrow> (release_db, release_error, unit) action \<Rightarrow>
    (catalog_db, catalog_error, unit) action" where
  "switch_tx u call job record action releaseRecord attemptID complete =
     within_tx (act_bind (SetCurrent (vr_ProductID record) (vr_Channel record) (vr_ID record) (pub_time call)) (\<lambda>_.
       act_bind (on_release (wrap_err CatalogRelease complete)) (\<lambda>_.
       act_bind (catalog_audit u call job action (vr_ProductID record) ''catalog'' (u_string u (vr_ID record)) OutcomeSuccess
         [(''release_id'', AnyString (u_string u (release_id releaseRecord))), (''attempt_id'', AnyString (u_string u attemptID)),
          (''bundle_sha256'', AnyString (vr_BundleSHA256 record))]) (\<lambda>_. act_return ()))))"

definition find_or_create :: "pg_lib \<Rightarrow> uuid \<Rightarrow> (catalog_db, catalog_error, VersionRecord) action \<Rightarrow> (catalog_db, catalog_error, VersionRecord) action" where
  "find_or_create pg attemptID create_record = act_try (act_read (FindByAttempt pg attemptID)) (\<lambda>r. case r of
       Inr record \<Rightarrow> act_return record
     | Inl e \<Rightarrow> if e = ErrVersionRecordNotFound then create_record else act_fail e)"

definition Publish :: "uuid_lib \<Rightarrow> pg_lib \<Rightarrow> 's minio_core \<Rightarrow> publication_service \<Rightarrow> publication_call \<Rightarrow> Job \<Rightarrow> ('s \<times> catalog_db, catalog_error, unit) action" where
  "Publish u pg core service call job =
     act_bind (with_db (act_read (load_job u job JobKindCatalogPublish))) (\<lambda>(payload, releaseRecord, attempt).
     let status = rl_status (re_row releaseRecord) in
     if am_ReleaseID attempt \<noteq> release_id releaseRecord \<or> am_Kind attempt \<noteq> AttemptKindPublish then act_fail ErrPublicationJobInvalid
     else act_bind (with_db (find_or_create pg (pj_AttemptID payload)
         (if status \<noteq> StatusPublishing then act_fail ErrPublicationStateInvalid
          else createPublicationRecordWithBuilder u pg service call Build releaseRecord (pj_AttemptID payload)))) (\<lambda>record.
       if \<not> same_scope record releaseRecord then act_fail ErrPublicationJobInvalid
       else if status = StatusPublished then with_db (act_read (already_current pg record))
       else if status \<noteq> StatusPublishing then act_fail ErrPublicationStateInvalid
       else act_bind (with_store (persist_roles u core record publicationRoleOrder)) (\<lambda>_.
         with_db (switch_tx u call job record ''catalog.publish.complete'' releaseRecord (pj_AttemptID payload)
           (CompletePublication (pc_db_now call) (release_id releaseRecord) (pj_AttemptID payload) (pub_time call))))))"

definition Revoke :: "uuid_lib \<Rightarrow> pg_lib \<Rightarrow> 's minio_core \<Rightarrow> publication_service \<Rightarrow> publication_call \<Rightarrow> Job \<Rightarrow> ('s \<times> catalog_db, catalog_error, unit) action" where
  "Revoke u pg core service call job =
     act_bind (with_db (act_read (load_job u job JobKindCatalogRevoke))) (\<lambda>(payload, releaseRecord, attempt).
     if am_ReleaseID attempt \<noteq> release_id releaseRecord \<or> am_Kind attempt \<noteq> AttemptKindRevoke
        \<or> rl_status (re_row releaseRecord) \<noteq> StatusPublished \<or> rl_revoked_at (re_row releaseRecord) = None
        \<or> trim_space (coalesce (rl_revocation_reason (re_row releaseRecord))) = [] then act_fail ErrPublicationStateInvalid
     else act_bind (with_db (find_or_create pg (pj_AttemptID payload)
         (createPublicationRecordWithBuilder u pg service call BuildRevocation releaseRecord (pj_AttemptID payload)))) (\<lambda>record.
       if \<not> same_scope record releaseRecord then act_fail ErrPublicationJobInvalid
       else if am_Status attempt = AttemptStatusSucceeded then with_db (act_read (already_current pg record))
       else if am_Status attempt \<noteq> AttemptStatusPending then act_fail ErrPublicationStateInvalid
       else act_bind (with_store (persist_roles u core record publicationRoleOrder)) (\<lambda>_.
         with_db (switch_tx u call job record ''catalog.revoke.complete'' releaseRecord (pj_AttemptID payload)
           (CompleteRevocation (release_id releaseRecord) (pj_AttemptID payload) (pub_time call))))))"

section \<open>Failures\<close>

definition publicationErrorCode :: "catalog_error \<Rightarrow> string" where
  "publicationErrorCode err =
     (if err \<in> {ErrPublicationDigestMismatch, CatalogStore store_error.ErrDigestMismatch} then ''catalog_digest_mismatch''
      else if err \<in> {CatalogStore store_error.ErrConfigurationInvalid, CatalogStore store_error.ErrUploadNotFound,
          CatalogStore store_error.ErrObjectNotFound, CatalogStore store_error.ErrSizeMismatch} then ''catalog_store_failed''
      else if err \<in> {ErrSignatureThreshold, ErrEnvelopeInvalid, ErrTargetInvalid, ErrRoleDigestMismatch, ErrRoleVersionMismatch}
      then ''catalog_build_failed''
      else if err = ErrPublicationJobInvalid then ''catalog_job_invalid''
      else ''catalog_publication_failed'')"

text \<open>\<open>describe\<close> prints an error; nothing looks at the printed text.\<close>

definition Handle :: "(catalog_error \<Rightarrow> go_error) \<Rightarrow> uuid_lib \<Rightarrow> pg_lib \<Rightarrow> 's minio_core \<Rightarrow> publication_service \<Rightarrow> publication_call \<Rightarrow> Job \<Rightarrow>
    ('s \<times> catalog_db, go_error, unit) action" where
  "Handle describe u pg core service call job = wrap_err (\<lambda>err. NewCodedError (publicationErrorCode err) (Some (describe err)))
     (if j_Kind job = JobKindCatalogPublish then Publish u pg core service call job
      else if j_Kind job = JobKindCatalogRevoke then Revoke u pg core service call job
      else act_fail ErrPublicationJobInvalid)"

definition fail_tx :: "uuid_lib \<Rightarrow> publication_call \<Rightarrow> Job \<Rightarrow> string \<Rightarrow> Release \<Rightarrow> Attempt \<Rightarrow> string \<Rightarrow> (release_db, release_error, unit) action \<Rightarrow>
    (catalog_db, catalog_error, unit) action" where
  "fail_tx u call job action releaseRecord attempt code fail_release =
     within_tx (act_bind (on_release (wrap_err CatalogRelease fail_release)) (\<lambda>_.
       act_bind (catalog_audit u call job action (rl_product_id (re_row releaseRecord)) ''release'' (u_string u (release_id releaseRecord)) OutcomeFailed
         [(''attempt_id'', AnyString (u_string u (am_ID attempt))), (''error_code'', AnyString code)]) (\<lambda>_. act_return ())))"

definition handleRevocationDeadLetter :: "uuid_lib \<Rightarrow> publication_call \<Rightarrow> Job \<Rightarrow> string \<Rightarrow> (catalog_db, catalog_error, unit) action" where
  "handleRevocationDeadLetter u call job code =
     act_bind (act_read (load_job u job JobKindCatalogRevoke)) (\<lambda>(payload, releaseRecord, attempt).
     if am_ReleaseID attempt \<noteq> release_id releaseRecord \<or> am_Kind attempt \<noteq> AttemptKindRevoke
        \<or> rl_status (re_row releaseRecord) \<noteq> StatusPublished \<or> rl_revoked_at (re_row releaseRecord) = None then act_fail ErrPublicationStateInvalid
     else let code = ErrorCode (Some (NewCodedError code (Some (ErrorString ''catalog revocation failed'')))) in
       if am_Status attempt = AttemptStatusFailed \<and> coalesce (am_ErrorCode attempt) = code then act_return ()
       else if am_Status attempt \<noteq> AttemptStatusPending then act_fail ErrPublicationStateInvalid
       else fail_tx u call job ''catalog.revoke.failed'' releaseRecord attempt code
         (FailRevocation (release_id releaseRecord) (am_ID attempt) code (pub_time call)))"

definition HandleDeadLetter :: "uuid_lib \<Rightarrow> publication_call \<Rightarrow> Job \<Rightarrow> string \<Rightarrow> (catalog_db, catalog_error, unit) action" where
  "HandleDeadLetter u call job code =
     (if j_Kind job = JobKindCatalogRevoke then handleRevocationDeadLetter u call job code
      else act_bind (act_read (load_job u job JobKindCatalogPublish)) (\<lambda>(payload, releaseRecord, attempt).
        if am_ReleaseID attempt \<noteq> release_id releaseRecord \<or> am_Kind attempt \<noteq> AttemptKindPublish then act_fail ErrPublicationJobInvalid
        else let code = ErrorCode (Some (NewCodedError code (Some (ErrorString ''publication failed'')))); row = re_row releaseRecord in
          if rl_status row = StatusFailed \<and> am_Status attempt = AttemptStatusFailed \<and> coalesce (rl_failure_code row) = code
             \<and> coalesce (am_ErrorCode attempt) = code then act_return ()
          else if rl_status row \<noteq> StatusPublishing \<or> am_Status attempt \<noteq> AttemptStatusPending then act_fail ErrPublicationStateInvalid
          else fail_tx u call job ''catalog.publish.failed'' releaseRecord attempt code
            (FailPublication (pc_db_now call) (release_id releaseRecord) (am_ID attempt) code (pub_time call))))"

end
