(* ===== verification/Workflow.thy ===== *)
theory Workflow
  imports ReleaseService
begin

text \<open>
  What the release service guarantees: an abstract workflow of one release, the histories of the
  release tables in which every operation may have read any earlier state, and the refinement of the
  workflow by these histories.
\<close>

section \<open>The workflow of a release\<close>

record workflow_state =
  wf_status :: release_status
  wf_lock :: int
  wf_submitted_by :: "string option"
  wf_approved_by :: "string option"
  wf_rejected_by :: "string option"
  wf_revocation :: "time option \<times> string option \<times> string option"

inductive workflow :: "workflow_state \<Rightarrow> workflow_state \<Rightarrow> bool" where
  submit: "wf_status w = StatusDraft \<Longrightarrow>
    workflow w (w\<lparr>wf_status := StatusSubmitted, wf_lock := wf_lock w + 1, wf_submitted_by := Some a\<rparr>)"
| approve: "\<lbrakk>wf_status w = StatusSubmitted; wf_submitted_by w = Some b; a \<noteq> b\<rbrakk> \<Longrightarrow>
    workflow w (w\<lparr>wf_status := StatusApproved, wf_lock := wf_lock w + 1, wf_approved_by := Some a\<rparr>)"
| reject: "\<lbrakk>wf_status w = StatusSubmitted; wf_submitted_by w = Some b; a \<noteq> b\<rbrakk> \<Longrightarrow>
    workflow w (w\<lparr>wf_status := StatusRejected, wf_lock := wf_lock w + 1, wf_rejected_by := Some a\<rparr>)"
| publish: "wf_status w = StatusApproved \<or> wf_status w = StatusFailed \<Longrightarrow>
    workflow w (w\<lparr>wf_status := StatusPublishing, wf_lock := wf_lock w + 1\<rparr>)"
| finish: "\<lbrakk>wf_status w = StatusPublishing; to = StatusPublished \<or> to = StatusFailed\<rbrakk> \<Longrightarrow>
    workflow w (w\<lparr>wf_status := to, wf_lock := wf_lock w + 1\<rparr>)"
| revoke: "\<lbrakk>wf_status w = StatusPublished; fst (wf_revocation w) = None\<rbrakk> \<Longrightarrow>
    workflow w (w\<lparr>wf_lock := wf_lock w + 1, wf_revocation := (Some t, Some a, Some reason)\<rparr>)"

definition view :: "release_row \<Rightarrow> workflow_state" where
  "view r = \<lparr>wf_status = rl_status r, wf_lock = rl_lock_version r, wf_submitted_by = rl_submitted_by r,
     wf_approved_by = rl_approved_by r, wf_rejected_by = rl_rejected_by r, wf_revocation = revocation_of r\<rparr>"

lemma view_simps [simp]:
  "wf_status (view r) = rl_status r" "wf_lock (view r) = rl_lock_version r"
  "wf_submitted_by (view r) = rl_submitted_by r" "wf_approved_by (view r) = rl_approved_by r"
  "wf_rejected_by (view r) = rl_rejected_by r" "wf_revocation (view r) = revocation_of r"
  "view (r\<lparr>rl_updated_at := t\<rparr>) = view r"
  by (simp_all add: view_def revocation_of_def)

text \<open>The steps of the workflow, for a row of the table.\<close>

lemmas workflow_rows = workflow.submit [where w = "view r" for r, simplified] workflow.approve [where w = "view r" for r, simplified]
  workflow.reject [where w = "view r" for r, simplified] workflow.publish [where w = "view r" for r, simplified]
  workflow.finish [where w = "view r" for r, simplified] workflow.revoke [where w = "view r" for r, simplified]

text \<open>A release leaves the states before the decision for good.\<close>

fun phase :: "release_status \<Rightarrow> nat" where
  "phase StatusDraft = 0"
| "phase StatusSubmitted = 1"
| "phase _ = 2"

lemma workflow_phase:
  "workflow w v \<Longrightarrow> phase (wf_status w) \<le> phase (wf_status v) \<and>
     (phase (wf_status w) < 2 \<longrightarrow> phase (wf_status w) < phase (wf_status v))"
  by (induction rule: workflow.induct) auto

lemma workflow_star_phase:
  assumes "workflow\<^sup>*\<^sup>* w v"
  shows "phase (wf_status w) \<le> phase (wf_status v)"
  using assms by (induction rule: rtranclp_induct) (auto dest: workflow_phase)

lemma workflow_early_same:
  assumes "workflow\<^sup>*\<^sup>* w v" "phase (wf_status v) = phase (wf_status w)" "phase (wf_status w) < 2"
  shows "v = w"
  using assms(1)
proof (cases rule: converse_rtranclpE)
  case (step y)
  then show ?thesis using assms workflow_phase [OF step(1)] workflow_star_phase [OF step(2)] by linarith
qed simp

lemma workflow_lock: "workflow w v \<Longrightarrow> wf_lock v = wf_lock w + 1"
  by (induction rule: workflow.induct) auto

lemma workflow_star_lock: "workflow\<^sup>*\<^sup>* w v \<Longrightarrow> wf_lock w \<le> wf_lock v"
  by (induction rule: rtranclp_induct) (auto dest: workflow_lock)

text \<open>A revoked release does not move any more.\<close>

lemma workflow_revoked: "wf_status w = StatusPublished \<Longrightarrow> fst (wf_revocation w) \<noteq> None \<Longrightarrow> \<not> workflow w v"
  by (auto elim: workflow.cases)

lemma workflow_star_revoked:
  "workflow\<^sup>*\<^sup>* w v \<Longrightarrow> wf_status w = StatusPublished \<Longrightarrow> fst (wf_revocation w) \<noteq> None \<Longrightarrow> v = w"
  by (erule converse_rtranclpE) (auto dest: workflow_revoked)

section \<open>What a transaction changes\<close>

lemma on_platform_run [act_simps]:
  "on_platform m db = (r, db') \<longleftrightarrow> (\<exists>pl. m (rd_platform db) = (r, pl) \<and> db' = db\<lparr>rd_platform := pl\<rparr>)"
  by (cases "m (rd_platform db)") (auto simp: on_platform_def)

definition tables :: "release_db \<Rightarrow> release_row list \<times> release_artifact_row list \<times> Attempt list" where
  "tables db = (rd_releases db, rd_artifacts db, rd_attempts db)"

lemma release_audit_tables: "release_audit u call who rq action p rt rid oc md db = (r, db') \<Longrightarrow> tables db' = tables db"
  by (auto simp: release_audit_def act_simps tables_def)

lemma enqueue_tables: "enqueueReleaseJob u call kind a now db = (r, db') \<Longrightarrow> tables db' = tables db"
  by (cases r) (auto simp: enqueueReleaseJob_def act_simps tables_def)

text \<open>One row of \<open>releases\<close> is replaced.\<close>

definition replaced :: "release_db \<Rightarrow> release_row \<Rightarrow> release_row \<Rightarrow> release_db \<Rightarrow> bool" where
  "replaced db old new db' \<longleftrightarrow> old \<in> set (rd_releases db) \<and> release_fixed new = release_fixed old \<and> release_row_ok new
     \<and> rd_releases db' = tbl_put rl_id new (rd_releases db)"

lemma protect_Some:
  assumes "protect_release_transition db_now old new = Some row"
  shows "\<exists>t. row = new\<lparr>rl_updated_at := t\<rparr>" "release_fixed row = release_fixed old"
  using assms by (auto simp: protect_release_transition_def release_fixed_def split: if_splits)

lemma update_release_Inr:
  assumes "update_release db_now p f db = (Inr r, db')"
  shows "r = None \<and> db' = db \<or> (\<exists>old new t. r = Some new \<and> p old \<and> new = (f old)\<lparr>rl_updated_at := t\<rparr>
     \<and> replaced db old new db' \<and> rd_attempts db' = rd_attempts db)"
proof (cases "find p (rd_releases db)")
  case None
  then show ?thesis using assms by (simp add: update_release_def act_simps)
next
  case (Some old)
  then have old: "old \<in> set (rd_releases db)" "p old" by (auto simp: find_Some_iff)
  from assms Some obtain row where row: "protect_release_transition db_now old (f old) = Some row" "release_row_ok row"
      "r = Some row" "db' = db\<lparr>rd_releases := tbl_put rl_id row (rd_releases db)\<rparr>"
    by (auto simp: update_release_def act_simps split: option.splits if_splits)
  then show ?thesis using old protect_Some [OF row(1)] by (force simp: replaced_def)
qed

lemma Transition_Inr:
  assumes "Transition db_now cmd db = (Inr rel, db')"
  shows "\<exists>old t. transition_where cmd old \<and> re_row rel = (transition_set cmd old)\<lparr>rl_updated_at := t\<rparr>
     \<and> replaced db old (re_row rel) db' \<and> rd_attempts db' = rd_attempts db"
  using assms by (auto simp: Transition_def act_simps with_artifacts_def dest!: update_release_Inr
      split: if_splits option.splits) blast

lemma repo_Revoke_Inr:
  assumes "repo_Revoke db_now cmd db = (Inr rel, db')"
  shows "\<exists>old t. revoke_where cmd old \<and> re_row rel = (revoke_set cmd old)\<lparr>rl_updated_at := t\<rparr>
     \<and> replaced db old (re_row rel) db' \<and> rd_attempts db' = rd_attempts db"
  using assms by (auto simp: repo_Revoke_def act_simps with_artifacts_def res_elims dest!: update_release_Inr
      split: if_splits option.splits) blast

definition transition_command :: "artifact_call \<Rightarrow> Principal \<Rightarrow> int \<Rightarrow> release_status \<Rightarrow> string \<Rightarrow> release_row \<Rightarrow> TransitionCommand" where
  "transition_command call who v target reason row =
     \<lparr>tc_ReleaseID = rl_id row, tc_ProductID = rl_product_id row, tc_From = rl_status row, tc_To = target,
      tc_ExpectedLockVersion = v, tc_Actor = trim_space (p_Subject who), tc_Reason = reason, tc_At = call_time call\<rparr>"

lemma transition_tx_Inr:
  assumes "transition_tx u call who rq v target reason current db = (Inr rel, db')"
  shows "\<exists>old t. let cmd = transition_command call who v target reason (re_row current) in
     transition_where cmd old \<and> re_row rel = (transition_set cmd old)\<lparr>rl_updated_at := t\<rparr>
     \<and> replaced db old (re_row rel) db' \<and> rd_attempts db' = rd_attempts db"
proof -
  obtain mid e where tr: "Transition (cl_db_now call) (transition_command call who v target reason (re_row current)) db = (Inr rel, mid)"
      and au: "release_audit u call who rq (releaseAuditAction target) (rl_product_id (re_row current)) ''release''
            (u_string u (rl_id (re_row current))) OutcomeSuccess
            [(''from'', AnyString (status_text (rl_status (re_row current)))), (''to'', AnyString (status_text target)),
             (''lock_version'', AnyInt (rl_lock_version (re_row rel)))] mid = (Inr e, db')"
    using assms by (auto simp: transition_tx_def transition_command_def act_simps Let_def)
  have "rd_releases db' = rd_releases mid" "rd_attempts db' = rd_attempts mid"
    using release_audit_tables [OF au] by (auto simp: tables_def)
  then show ?thesis using Transition_Inr [OF tr] by (auto simp: Let_def replaced_def)
qed

lemma transition_tx_Inl: "transition_tx u call who rq v target reason current db = (Inl e, db') \<Longrightarrow> db' = db"
  by (auto simp: transition_tx_def act_simps Let_def)

text \<open>The row of a new attempt.\<close>

definition attempt_ident :: "Attempt \<Rightarrow> uuid \<times> uuid \<times> attempt_kind \<times> string" where
  "attempt_ident a = (am_ID a, am_ReleaseID a, am_Kind a, am_IdempotencyKey a)"

lemma CreateAttempt_Inr:
  assumes "CreateAttempt a db = (Inr b, db')"
  shows "\<exists>row. db' = db\<lparr>rd_attempts := rd_attempts db @ [row]\<rparr> \<and> attempt_ident row = attempt_ident a
     \<and> am_Status row = am_Status a \<and> attempt_ident b = attempt_ident a \<and> am_Status b = am_Status a \<and> am_Number b = am_Number row
     \<and> \<not> tbl_has am_ID (rd_attempts db) (am_ID a) \<and> \<not> tbl_has attempt_key (rd_attempts db) (attempt_key a)
     \<and> tbl_has rl_id (rd_releases db) (am_ReleaseID a)"
  using assms by (auto simp: CreateAttempt_def act_simps Let_def attempt_ident_def split: if_splits)

lemma operation_tx_Inr:
  assumes "operation_tx u call who rq p action jobKind md apply a db = (Inr r, db')"
  shows "(\<exists>ex. r = Inl ex \<and> db' = db \<and> FindAttempt (am_ReleaseID a) (am_Kind a) (am_IdempotencyKey a) db = Inr ex)
    \<or> (\<exists>upd b mid mid'. r = Inr (upd, b) \<and> apply db = (Inr upd, mid) \<and> CreateAttempt a mid = (Inr b, mid')
        \<and> tables db' = tables mid')"
proof (cases r)
  case (Inl ex)
  then show ?thesis using assms
    by (auto simp: operation_tx_def LockOperation_def act_simps Let_def split: if_splits)
next
  case (Inr ub)
  obtain upd b where ub: "ub = (upd, b)" by (cases ub)
  obtain mid mid' t ev where "apply db = (Inr upd, mid)" "CreateAttempt a mid = (Inr b, mid')"
      "enqueueReleaseJob u call jobKind b (call_time call) mid' = (Inr (), t)"
      "release_audit u call who rq action p ''release'' (u_string u (am_ReleaseID a)) OutcomeSuccess (md b upd) t = (Inr ev, db')"
    using assms Inr ub by (auto simp: operation_tx_def LockOperation_def act_simps Let_def split: if_splits)
  then show ?thesis using Inr ub release_audit_tables enqueue_tables by metis
qed

lemma operation_tx_Inl: "operation_tx u call who rq p action jobKind md apply a db = (Inl e, db') \<Longrightarrow> db' = db"
  by (auto simp: operation_tx_def act_simps Let_def)

section \<open>Histories\<close>

text \<open>One transaction of the release service, run on the state \<open>db\<close>. The reading half of the operation saw
  some state of \<open>snapshots\<close>.\<close>

inductive service_operation :: "uuid_lib \<Rightarrow> pg_lib \<Rightarrow> release_db set \<Rightarrow> release_db \<Rightarrow> release_db \<Rightarrow> bool" for u pg snapshots where
  create: "\<lbrakk>s \<in> snapshots; create_request pg service call who command s = Inr record;
     create_tx u call who request record db = (r, db')\<rbrakk> \<Longrightarrow> service_operation u pg snapshots db db'"
| submit: "\<lbrakk>s \<in> snapshots; submit_request service who productID releaseID s = Inr current;
     transition_tx u call who request v StatusSubmitted [] current db = (r, db')\<rbrakk> \<Longrightarrow> service_operation u pg snapshots db db'"
| approve: "\<lbrakk>s \<in> snapshots; approve_request service who productID releaseID s = Inr current;
     transition_tx u call who request v StatusApproved [] current db = (r, db')\<rbrakk> \<Longrightarrow> service_operation u pg snapshots db db'"
| reject: "\<lbrakk>s \<in> snapshots; reject_request service who productID releaseID reason s = Inr current;
     transition_tx u call who request v StatusRejected (trim_space reason) current db = (r, db')\<rbrakk> \<Longrightarrow>
     service_operation u pg snapshots db db'"
| publish: "\<lbrakk>s \<in> snapshots;
     publication_request service call who action kind productID releaseID key s = Inr (Start current attempt);
     action = ActionReleasePublish \<and> kind = AttemptKindPublish \<or> action = ActionReleaseApprove \<and> kind = AttemptKindRetry;
     publication_tx u call who request (trim_space productID) v current attempt db = (r', db')\<rbrakk> \<Longrightarrow>
     service_operation u pg snapshots db db'"
| revoke: "\<lbrakk>s \<in> snapshots;
     revocation_request service call who productID releaseID reason key s = Inr (Start current attempt);
     revocation_tx u call who request (trim_space productID) v (trim_space reason) attempt db = (r', db')\<rbrakk> \<Longrightarrow>
     service_operation u pg snapshots db db'"

text \<open>One transaction of the service or of the worker. Transactions of the other components only change the
  platform's tables.\<close>

inductive operation :: "uuid_lib \<Rightarrow> pg_lib \<Rightarrow> release_db set \<Rightarrow> release_db \<Rightarrow> release_db \<Rightarrow> bool" for u pg snapshots where
  service: "service_operation u pg snapshots db db' \<Longrightarrow> operation u pg snapshots db db'"
| complete: "within_tx (CompletePublication db_now releaseID attemptID at) db = (q, db') \<Longrightarrow> operation u pg snapshots db db'"
| fail: "within_tx (FailPublication db_now releaseID attemptID code at) db = (q, db') \<Longrightarrow> operation u pg snapshots db db'"
| revoked: "within_tx (CompleteRevocation releaseID attemptID at) db = (q, db') \<Longrightarrow> operation u pg snapshots db db'"
| revocation_failed: "within_tx (FailRevocation releaseID attemptID code at) db = (q, db') \<Longrightarrow> operation u pg snapshots db db'"
| other: "operation u pg snapshots db (db\<lparr>rd_platform := pl\<rparr>)"

section \<open>The effect on the releases\<close>

abbreviation release_at :: "release_db \<Rightarrow> uuid \<Rightarrow> release_row option" where
  "release_at db x \<equiv> tbl_get rl_id (rd_releases db) x"

definition releases_ok :: "release_db \<Rightarrow> bool" where
  "releases_ok db \<longleftrightarrow> distinct (map rl_id (rd_releases db)) \<and> (\<forall>r\<in>set (rd_releases db). release_row_ok r)"

lemma release_fixed_id: "release_fixed r = release_fixed r' \<Longrightarrow> rl_id r = rl_id r'"
  by (simp add: release_fixed_def)

text \<open>The rows that are there stay, with their identity, along the workflow.\<close>

definition evolves :: "release_db \<Rightarrow> release_db \<Rightarrow> bool" where
  "evolves db db' \<longleftrightarrow> (\<forall>x r. release_at db x = Some r \<longrightarrow>
     (\<exists>r'. release_at db' x = Some r' \<and> release_fixed r' = release_fixed r \<and> workflow\<^sup>*\<^sup>* (view r) (view r')))"

interpretation ev: evolution evolves
  by unfold_locales (fastforce simp: evolves_def intro: rtranclp_trans)+

definition draft_view :: workflow_state where
  "draft_view = \<lparr>wf_status = StatusDraft, wf_lock = 1, wf_submitted_by = None, wf_approved_by = None, wf_rejected_by = None,
     wf_revocation = (None, None, None)\<rparr>"

text \<open>One step: a release keeps its workflow state or makes one step of the workflow; a new one is a
  draft.\<close>

definition advances :: "release_db \<Rightarrow> release_db \<Rightarrow> bool" where
  "advances db db' \<longleftrightarrow>
     (\<forall>x r. release_at db x = Some r \<longrightarrow> (\<exists>r'. release_at db' x = Some r' \<and> release_fixed r' = release_fixed r
        \<and> (view r' = view r \<or> workflow (view r) (view r'))))
   \<and> (\<forall>x r'. release_at db' x = Some r' \<longrightarrow> release_at db x = None \<longrightarrow> view r' = draft_view)"

lemma advances_evolves: "advances db db' \<Longrightarrow> evolves db db'"
  by (fastforce simp: advances_def evolves_def)

lemma advances_same: "rd_releases db' = rd_releases db \<Longrightarrow> advances db db'"
  by (auto simp: advances_def)

text \<open>All the ways in which a transaction changes \<open>releases\<close> and \<open>release_attempts\<close>.\<close>

definition attempt_added :: "Attempt \<Rightarrow> release_db \<Rightarrow> release_db \<Rightarrow> bool" where
  "attempt_added a db db' \<longleftrightarrow> (\<exists>row. rd_attempts db' = rd_attempts db @ [row] \<and> attempt_ident row = attempt_ident a
     \<and> am_Status row = am_Status a \<and> \<not> tbl_has am_ID (rd_attempts db) (am_ID a)
     \<and> \<not> tbl_has attempt_key (rd_attempts db) (attempt_key a) \<and> release_at db (am_ReleaseID a) \<noteq> None)"

definition attempt_settled :: "uuid \<Rightarrow> uuid \<Rightarrow> attempt_status \<Rightarrow> release_db \<Rightarrow> release_db \<Rightarrow> bool" where
  "attempt_settled x i status db db' \<longleftrightarrow>
     rows_affected (\<lambda>a. am_ID a = i \<and> am_ReleaseID a = x \<and> am_Status a = AttemptStatusPending) (rd_attempts db) = 1
   \<and> (\<exists>code at. rd_attempts db' = update_where (\<lambda>a. am_ID a = i \<and> am_ReleaseID a = x \<and> am_Status a = AttemptStatusPending)
        (\<lambda>a. a\<lparr>am_Status := status, am_ErrorCode := code, am_UpdatedAt := at\<rparr>) (rd_attempts db))"

inductive effect :: "release_db \<Rightarrow> release_db \<Rightarrow> bool" where
  same: "\<lbrakk>rd_releases db' = rd_releases db; rd_attempts db' = rd_attempts db\<rbrakk> \<Longrightarrow> effect db db'"
| create: "\<lbrakk>rd_releases db' = rd_releases db @ [row]; rd_attempts db' = rd_attempts db; release_at db (rl_id row) = None;
     release_row_ok row; view row = draft_view\<rbrakk> \<Longrightarrow> effect db db'"
| decide: "\<lbrakk>replaced db old new db'; rd_attempts db' = rd_attempts db; workflow (view old) (view new);
     phase (rl_status old) < 2\<rbrakk> \<Longrightarrow> effect db db'"
| start: "\<lbrakk>replaced db old new db'; attempt_added a db db'; am_ReleaseID a = rl_id old; am_Kind a \<noteq> AttemptKindRevoke;
     am_Status a = AttemptStatusPending; rl_status old = StatusApproved \<or> rl_status old = StatusFailed;
     view new = (view old)\<lparr>wf_status := StatusPublishing, wf_lock := rl_lock_version old + 1\<rparr>\<rbrakk> \<Longrightarrow> effect db db'"
| revoke: "\<lbrakk>replaced db old new db'; attempt_added a db db'; am_ReleaseID a = rl_id old; am_Kind a = AttemptKindRevoke;
     rl_status old = StatusPublished; rl_revoked_at old = None;
     view new = (view old)\<lparr>wf_lock := rl_lock_version old + 1, wf_revocation := (Some t, Some actor, Some reason)\<rparr>\<rbrakk> \<Longrightarrow>
     effect db db'"
| finish: "\<lbrakk>replaced db old new db'; rl_status old = StatusPublishing;
     view new = (view old)\<lparr>wf_status := status, wf_lock := rl_lock_version old + 1\<rparr>;
     status = StatusPublished \<and> st = AttemptStatusSucceeded \<or> status = StatusFailed \<and> st = AttemptStatusFailed;
     lock_attempt AttemptKindPublish (rl_id old) i db = Inr a; am_Status a = AttemptStatusPending;
     attempt_settled (rl_id old) i st db db'\<rbrakk> \<Longrightarrow> effect db db'"
| settle: "\<lbrakk>rd_releases db' = rd_releases db; lock_attempt AttemptKindRevoke x i db = Inr a;
     attempt_settled x i st db db'; st \<noteq> AttemptStatusPending\<rbrakk> \<Longrightarrow> effect db db'"

lemma view_transition:
  "view (transition_set cmd r) = (view r)\<lparr>wf_status := tc_To cmd, wf_lock := rl_lock_version r + 1,
     wf_submitted_by := (if tc_To cmd = StatusSubmitted then Some (tc_Actor cmd) else rl_submitted_by r),
     wf_approved_by := (if tc_To cmd = StatusApproved then Some (tc_Actor cmd) else rl_approved_by r),
     wf_rejected_by := (if tc_To cmd = StatusRejected then Some (tc_Actor cmd) else rl_rejected_by r)\<rparr>"
  by (simp add: view_def transition_set_def Let_def revocation_of_def)

lemma find_release_at:
  assumes "releases_ok db" "find_release p x db = Some r"
  shows "release_at db x = Some r" "rl_product_id r = p"
  using assms tbl_get_unique [of rl_id "rd_releases db" r]
  by (auto simp: releases_ok_def find_release_def find_Some_iff)

lemma loadRelease_at:
  assumes "releases_ok db" "loadRelease p x db = Inr rel"
  shows "release_at db x = Some (re_row rel)" "rl_id (re_row rel) = x" "rl_product_id (re_row rel) = p"
proof -
  have f: "find_release p x db = Some (re_row rel)"
    using assms(2) by (auto simp: loadRelease_def with_artifacts_def split: if_splits option.splits)
  then show "release_at db x = Some (re_row rel)" "rl_product_id (re_row rel) = p" using find_release_at [OF assms(1)] by auto
  then show "rl_id (re_row rel) = x" by (auto dest: tbl_get_key)
qed

lemma authorized_release_load:
  "authorized_release who action p x db = Inr rel \<Longrightarrow> loadRelease p x db = Inr rel"
  by (auto simp: authorized_release_def res_elims split: if_splits)

lemma transition_effect:
  assumes "transition_tx u call who rq v target reason current db = (r, db')" "phase (rl_status (re_row current)) < 2"
    and "\<And>old t. let cmd = transition_command call who v target reason (re_row current) in
       old \<in> set (rd_releases db) \<longrightarrow> transition_where cmd old \<longrightarrow>
       workflow (view old) (view ((transition_set cmd old)\<lparr>rl_updated_at := t\<rparr>))"
  shows "effect db db'"
proof (cases r)
  case (Inl e)
  then show ?thesis using assms transition_tx_Inl [of u call who rq v target reason current db e db'] by (auto intro: effect.same)
next
  case (Inr rel)
  obtain old t where cmd: "transition_where (transition_command call who v target reason (re_row current)) old"
      "re_row rel = (transition_set (transition_command call who v target reason (re_row current)) old)\<lparr>rl_updated_at := t\<rparr>"
      "replaced db old (re_row rel) db'" "rd_attempts db' = rd_attempts db"
    using transition_tx_Inr [OF assms(1) [unfolded Inr]] by (auto simp: Let_def)
  then have "workflow (view old) (view (re_row rel))" "phase (rl_status old) < 2"
    using assms(2) assms(3) [of old t] by (auto simp: Let_def replaced_def transition_where_def transition_command_def)
  then show ?thesis using effect.decide cmd by blast
qed

lemma view_submit: "view (transition_set (transition_command call who v StatusSubmitted reason cur) r)
    = (view r)\<lparr>wf_status := StatusSubmitted, wf_lock := wf_lock (view r) + 1, wf_submitted_by := Some (trim_space (p_Subject who))\<rparr>"
  and view_approve: "view (transition_set (transition_command call who v StatusApproved reason cur) r)
    = (view r)\<lparr>wf_status := StatusApproved, wf_lock := wf_lock (view r) + 1, wf_approved_by := Some (trim_space (p_Subject who))\<rparr>"
  and view_reject: "view (transition_set (transition_command call who v StatusRejected reason cur) r)
    = (view r)\<lparr>wf_status := StatusRejected, wf_lock := wf_lock (view r) + 1, wf_rejected_by := Some (trim_space (p_Subject who))\<rparr>"
  unfolding view_transition by (simp_all add: transition_command_def view_def)

lemma where_command: "transition_where (transition_command call who v target reason cur) old \<longleftrightarrow>
    rl_id old = rl_id cur \<and> rl_product_id old = rl_product_id cur \<and> rl_status old = rl_status cur \<and> rl_lock_version old = v"
  by (simp add: transition_where_def transition_command_def)

lemma submit_effect:
  assumes "submit_request service who p x s = Inr current"
    "transition_tx u call who rq v StatusSubmitted [] current db = (r, db')"
  shows "effect db db'"
proof -
  have "TransitionAllowed (rl_status (re_row current)) StatusSubmitted"
    using assms(1) by (auto simp: submit_request_def transition_guard_def Let_def res_elims split: if_splits)
  then have "rl_status (re_row current) = StatusDraft" by (cases "rl_status (re_row current)") auto
  then show ?thesis
    by (intro transition_effect [OF assms(2)]) (auto simp: Let_def where_command view_submit intro!: workflow_rows)
qed

text \<open>The decision: the submission it was checked against is the one in the table.\<close>

definition decision_checked :: "Principal \<Rightarrow> uuid \<Rightarrow> release_db \<Rightarrow> Release \<Rightarrow> bool" where
  "decision_checked who x s current \<longleftrightarrow> release_at s x = Some (re_row current) \<and> rl_id (re_row current) = x
     \<and> rl_status (re_row current) = StatusSubmitted
     \<and> trim_space (coalesce (rl_submitted_by (re_row current))) \<noteq> trim_space (p_Subject who)"

lemma decision_guard:
  assumes "releases_ok s" "authorized_release who action p x s = Inr cur" "not_submitter who cur = Inr cur'"
    "transition_guard cur' target = Inr current" "target = StatusApproved \<or> target = StatusRejected"
  shows "decision_checked who x s current"
proof -
  have eq: "current = cur" "trim_space (coalesce (rl_submitted_by (re_row cur))) \<noteq> trim_space (p_Subject who)"
    using assms(3,4) by (auto simp: not_submitter_def transition_guard_def split: if_splits)
  have "TransitionAllowed (rl_status (re_row cur)) target"
    using assms(3,4) by (auto simp: not_submitter_def transition_guard_def split: if_splits)
  then have "rl_status (re_row cur) = StatusSubmitted" using assms(5) by (cases "rl_status (re_row cur)") auto
  then show ?thesis using eq loadRelease_at [OF assms(1) authorized_release_load [OF assms(2)]]
    by (simp add: decision_checked_def)
qed

lemma approve_checked:
  "releases_ok s \<Longrightarrow> approve_request service who p x s = Inr current \<Longrightarrow> decision_checked who x s current"
  by (auto simp: approve_request_def Let_def res_elims intro: decision_guard)

lemma reject_checked:
  "releases_ok s \<Longrightarrow> reject_request service who p x reason s = Inr current \<Longrightarrow> decision_checked who x s current"
  by (auto simp: reject_request_def Let_def res_elims split: if_splits intro: decision_guard)

lemma decision_other_person:
  assumes "releases_ok db" "evolves s db" "decision_checked who x s current"
    "old \<in> set (rd_releases db)" "rl_id old = x" "rl_status old = StatusSubmitted"
  obtains b where "rl_submitted_by old = Some b" "trim_space (p_Subject who) \<noteq> b"
proof -
  have "release_at db x = Some old"
    using assms by (auto simp: releases_ok_def intro: tbl_get_unique)
  then have "workflow\<^sup>*\<^sup>* (view (re_row current)) (view old)"
    using assms(2,3) by (force simp: evolves_def decision_checked_def)
  then have "view old = view (re_row current)"
    using workflow_early_same assms(3,6) by (simp add: decision_checked_def)
  then have "rl_submitted_by old = rl_submitted_by (re_row current)" by (metis view_simps(3))
  moreover have "rl_submitted_by old \<noteq> None"
    using assms(1,4,6) by (auto simp: releases_ok_def release_row_ok_def submission_consistent_def)
  ultimately obtain b where b: "rl_submitted_by old = Some b" "rl_submitted_by (re_row current) = Some b" by auto
  then have "trim_space b \<noteq> trim_space (p_Subject who)" using assms(3) by (simp add: decision_checked_def coalesce_def)
  then have "trim_space (p_Subject who) \<noteq> b" by auto
  then show ?thesis using b that by blast
qed

lemma decision_effect:
  assumes "releases_ok db" "evolves s db" "decision_checked who x s current"
    "target = StatusApproved \<or> target = StatusRejected"
    "transition_tx u call who rq v target reason current db = (r, db')"
  shows "effect db db'"
proof (rule transition_effect [OF assms(5)], goal_cases)
  case 1
  show ?case using assms(3) by (simp add: decision_checked_def)
next
  case (2 old t)
  show ?case unfolding Let_def where_command
  proof (intro impI)
    assume old: "old \<in> set (rd_releases db)" and "rl_id old = rl_id (re_row current) \<and> rl_product_id old = rl_product_id (re_row current)
       \<and> rl_status old = rl_status (re_row current) \<and> rl_lock_version old = v"
    then have o: "rl_id old = x" "rl_status old = StatusSubmitted" using assms(3) by (auto simp: decision_checked_def)
    obtain b where "rl_submitted_by old = Some b" "trim_space (p_Subject who) \<noteq> b"
      using decision_other_person [OF assms(1-3) old o] by blast
    then show "workflow (view old)
        (view ((transition_set (transition_command call who v target reason (re_row current)) old)\<lparr>rl_updated_at := t\<rparr>))"
      using assms(4) o by (auto simp: view_approve view_reject intro!: workflow_rows)
  qed
qed

lemma start_request:
  assumes "publication_request service call who action kind p x key s = Inr (Start current a)"
  shows "TransitionAllowed (rl_status (re_row current)) StatusPublishing" "am_ReleaseID a = x" "am_Kind a = kind"
    "am_Status a = AttemptStatusPending"
  using assms by (auto simp: publication_request_def existing_or_def newAttempt_def Let_def res_elims split: if_splits sum.splits)

lemma revocation_start:
  assumes "revocation_request service call who p x reason key s = Inr (Start current a)"
  shows "am_ReleaseID a = x" "am_Kind a = AttemptKindRevoke" "am_Status a = AttemptStatusPending"
  using assms by (auto simp: revocation_request_def existing_or_def newAttempt_def Let_def res_elims split: if_splits sum.splits)


lemma attempt_addedI:
  assumes "rd_releases mid = tbl_put rl_id new (rd_releases db)" "rd_attempts mid = rd_attempts db"
    "CreateAttempt a mid = (Inr b, mid')" "tables db' = tables mid'"
  shows "attempt_added a db db'" "rd_releases db' = rd_releases mid"
proof -
  have "map rl_id (rd_releases mid) = map rl_id (rd_releases db)" using assms(1) by simp
  then have "release_at mid x = None \<longleftrightarrow> release_at db x = None" for x
    unfolding tbl_get_None by (metis image_set)
  then show "attempt_added a db db'" "rd_releases db' = rd_releases mid"
    using assms CreateAttempt_Inr [OF assms(3)] by (auto simp: attempt_added_def tables_def tbl_has_get)
qed

text \<open>What the transactions of a publication and of a revocation do: nothing, or one start.\<close>

lemma publication_tx_cases:
  assumes "publication_tx u call who rq p v current a db = (r, db')"
  obtains (same) "db' = db" "\<nexists>q. r = Inr (Inr q)"
  | (start) old upd b where "replaced db old (re_row upd) db'" "attempt_added a db db'" "rl_id old = am_ReleaseID a"
      "rl_status old = rl_status (re_row current)" "rl_lock_version old = v" "r = Inr (Inr (upd, b))"
      "attempt_ident b = attempt_ident a" "am_Status b = am_Status a"
      "view (re_row upd) = (view old)\<lparr>wf_status := StatusPublishing, wf_lock := rl_lock_version old + 1\<rparr>"
proof (cases r)
  case (Inl e)
  then show ?thesis using assms that(1) by (auto simp: publication_tx_def dest: operation_tx_Inl)
next
  case (Inr q)
  let ?cmd = "\<lparr>tc_ReleaseID = am_ReleaseID a, tc_ProductID = p, tc_From = rl_status (re_row current),
     tc_To = StatusPublishing, tc_ExpectedLockVersion = v, tc_Actor = trim_space (p_Subject who), tc_Reason = [],
     tc_At = call_time call\<rparr>"
  from operation_tx_Inr [OF assms [unfolded publication_tx_def Inr]] consider ex where "db' = db" "q = Inl ex"
    | upd b mid mid' where "q = Inr (upd, b)" "Transition (cl_db_now call) ?cmd db = (Inr upd, mid)"
        "CreateAttempt a mid = (Inr b, mid')" "tables db' = tables mid'" by blast
  then show ?thesis
  proof cases
    case 2
    obtain old t where old: "transition_where ?cmd old" "re_row upd = (transition_set ?cmd old)\<lparr>rl_updated_at := t\<rparr>"
        "replaced db old (re_row upd) mid" "rd_attempts mid = rd_attempts db"
      using Transition_Inr [OF 2(2)] by blast
    have mid: "rd_releases mid = tbl_put rl_id (re_row upd) (rd_releases db)" using old(3) by (simp add: replaced_def)
    have "view (re_row upd) = (view old)\<lparr>wf_status := StatusPublishing, wf_lock := rl_lock_version old + 1\<rparr>"
      using old(2) by (simp add: view_def transition_set_def Let_def revocation_of_def)
    then show ?thesis
      using that(2) [of old upd b] attempt_addedI [OF mid old(4) 2(3,4)] old(1,3) Inr 2(1) CreateAttempt_Inr [OF 2(3)]
      by (auto simp: transition_where_def replaced_def)
  qed (use that(1) Inr in blast)
qed

lemma revocation_tx_cases:
  assumes "revocation_tx u call who rq p v reason a db = (r, db')"
  obtains (same) "db' = db" "\<nexists>q. r = Inr (Inr q)"
  | (start) old upd b where "replaced db old (re_row upd) db'" "attempt_added a db db'" "rl_id old = am_ReleaseID a"
      "rl_status old = StatusPublished" "rl_revoked_at old = None" "rl_lock_version old = v" "r = Inr (Inr (upd, b))"
      "attempt_ident b = attempt_ident a" "am_Status b = am_Status a"
      "view (re_row upd) = (view old)\<lparr>wf_lock := rl_lock_version old + 1,
         wf_revocation := (Some (pg_timestamp (call_time call)), Some (trim_space (p_Subject who)), Some reason)\<rparr>"
proof (cases r)
  case (Inl e)
  then show ?thesis using assms that(1) by (auto simp: revocation_tx_def dest: operation_tx_Inl)
next
  case (Inr q)
  let ?cmd = "\<lparr>rv_ReleaseID = am_ReleaseID a, rv_ProductID = p, rv_ExpectedLockVersion = v,
     rv_Actor = trim_space (p_Subject who), rv_Reason = reason, rv_At = call_time call\<rparr>"
  from operation_tx_Inr [OF assms [unfolded revocation_tx_def Inr]] consider ex where "db' = db" "q = Inl ex"
    | upd b mid mid' where "q = Inr (upd, b)" "repo_Revoke (cl_db_now call) ?cmd db = (Inr upd, mid)"
        "CreateAttempt a mid = (Inr b, mid')" "tables db' = tables mid'" by blast
  then show ?thesis
  proof cases
    case 2
    obtain old t where old: "revoke_where ?cmd old" "re_row upd = (revoke_set ?cmd old)\<lparr>rl_updated_at := t\<rparr>"
        "replaced db old (re_row upd) mid" "rd_attempts mid = rd_attempts db"
      using repo_Revoke_Inr [OF 2(2)] by blast
    have mid: "rd_releases mid = tbl_put rl_id (re_row upd) (rd_releases db)" using old(3) by (simp add: replaced_def)
    have "view (re_row upd) = (view old)\<lparr>wf_lock := rl_lock_version old + 1,
         wf_revocation := (Some (pg_timestamp (call_time call)), Some (trim_space (p_Subject who)), Some reason)\<rparr>"
      using old(2) by (simp add: view_def revoke_set_def revocation_of_def)
    then show ?thesis
      using that(2) [of old upd b] attempt_addedI [OF mid old(4) 2(3,4)] old(1,3) Inr 2(1) CreateAttempt_Inr [OF 2(3)]
      by (auto simp: revoke_where_def replaced_def)
  qed (use that(1) Inr in blast)
qed

lemma publication_effect:
  assumes "publication_request service call who action kind p' x key s = Inr (Start current a)" "kind \<noteq> AttemptKindRevoke"
    "publication_tx u call who rq p v current a db = (r, db')"
  shows "effect db db'"
  using assms(3)
proof (cases rule: publication_tx_cases)
  case (start old upd b)
  have "rl_status old = StatusApproved \<or> rl_status old = StatusFailed"
    using start_request(1) [OF assms(1)] start(4) by (cases "rl_status (re_row current)") auto
  then show ?thesis using effect.start [OF start(1,2)] start start_request [OF assms(1)] assms(2) by simp
qed (auto intro: effect.same)

lemma revocation_effect:
  assumes "revocation_request service call who p' x reason' key s = Inr (Start current a)"
    "revocation_tx u call who rq p v reason a db = (r, db')"
  shows "effect db db'"
  using assms(2)
proof (cases rule: revocation_tx_cases)
  case (start old upd b)
  then show ?thesis using effect.revoke [OF start(1,2)] revocation_start [OF assms(1)] by simp
qed (auto intro: effect.same)

lemma settle_attempt_Inr:
  assumes "settle_attempt x i st code at db = (Inr (), db')"
  shows "rd_releases db' = rd_releases db \<and> attempt_settled x i st db db'"
  using assms by (auto simp: settle_attempt_def attempt_settled_def act_simps Let_def split: if_splits) blast

lemma settle_publication_Inr:
  assumes "settle_publication db_now x i status st code at db = (Inr (), db')"
  shows "\<exists>old new. replaced db old new db' \<and> rl_id old = x \<and> rl_status old = StatusPublishing
     \<and> view new = (view old)\<lparr>wf_status := status, wf_lock := rl_lock_version old + 1\<rparr> \<and> attempt_settled x i st db db'"
proof -
  obtain r mid where up: "update_release db_now (\<lambda>r. rl_id r = x \<and> rl_status r = StatusPublishing) (set_publication status code at) db = (Inr r, mid)"
      and r: "r \<noteq> None" and st: "settle_attempt x i st code at mid = (Inr (), db')"
    using assms by (auto simp: settle_publication_def act_simps split: if_splits)
  obtain old t where old: "rl_id old = x" "rl_status old = StatusPublishing" "replaced db old ((set_publication status code at old)\<lparr>rl_updated_at := t\<rparr>) mid"
      "rd_attempts mid = rd_attempts db"
    using update_release_Inr [OF up] r by blast
  have "view ((set_publication status code at old)\<lparr>rl_updated_at := t\<rparr>) = (view old)\<lparr>wf_status := status, wf_lock := rl_lock_version old + 1\<rparr>"
    by (simp add: view_def set_publication_def revocation_of_def)
  then show ?thesis using old settle_attempt_Inr [OF st] by (force simp: replaced_def attempt_settled_def)
qed

lemma CompletePublication_Inr:
  assumes "CompletePublication db_now x i at db = (Inr (), db')"
  shows "db' = db \<or> (\<exists>a t. lock_attempt AttemptKindPublish x i db = Inr a \<and> am_Status a = AttemptStatusPending
    \<and> settle_publication db_now x i StatusPublished AttemptStatusSucceeded None t db = (Inr (), db'))"
  using assms by (auto simp: CompletePublication_def act_simps split: if_splits)

lemma FailPublication_Inr:
  assumes "FailPublication db_now x i code at db = (Inr (), db')"
  shows "db' = db \<or> (\<exists>a c t. lock_attempt AttemptKindPublish x i db = Inr a \<and> am_Status a = AttemptStatusPending
    \<and> settle_publication db_now x i StatusFailed AttemptStatusFailed (Some c) t db = (Inr (), db'))"
  using assms by (auto simp: FailPublication_def act_simps Let_def split: if_splits)

lemma publication_end_effect:
  "within_tx (CompletePublication db_now x i at) db = (r, db') \<Longrightarrow> effect db db'"
  "within_tx (FailPublication db_now x i code at) db = (r, db') \<Longrightarrow> effect db db'"
  by (cases r; auto simp: within_tx_Inr within_tx_Inl intro: effect.same effect.finish
      dest!: CompletePublication_Inr FailPublication_Inr settle_publication_Inr)+

lemma revocation_end_effect:
  "within_tx (CompleteRevocation x i at) db = (r, db') \<Longrightarrow> effect db db'"
  "within_tx (FailRevocation x i code at) db = (r, db') \<Longrightarrow> effect db db'"
  by (cases r; auto simp: CompleteRevocation_def FailRevocation_def act_simps Let_def intro: effect.same effect.settle
      split: if_splits dest!: settle_attempt_Inr)+

lemma bind_artifacts_frame:
  "bind_artifacts x p n bs db = (Inr (), db') \<Longrightarrow> rd_releases db' = rd_releases db \<and> rd_attempts db' = rd_attempts db"
  by (induction bs arbitrary: n db) (fastforce simp: act_simps split: if_splits)+

lemma create_effect:
  assumes req: "create_request pg service call who command s = Inr rec" and run: "create_tx u call who rq rec db = (r, db')"
  shows "effect db db'"
proof (cases r)
  case (Inl e)
  then show ?thesis using run by (auto simp: create_tx_def act_simps intro: effect.same)
next
  case (Inr rel)
  then obtain m1 m2 ev where ins: "insert_release (re_row rec) db = (Inr (), m1)"
      and bind: "bind_artifacts (rl_id (re_row rec)) (rl_product_id (re_row rec)) 0 (re_Artifacts rec) m1 = (Inr (), m2)"
      and aud: "release_audit u call who rq ''release.create'' (rl_product_id (re_row rec)) ''release''
           (u_string u (rl_id (re_row rec))) OutcomeSuccess
           [(''channel'', AnyString (rl_channel (re_row rec))), (''version'', AnyString (rl_version (re_row rec))),
            (''artifact_count'', AnyInt (int (length (re_Artifacts rec))))] m2 = (Inr ev, db')"
    using run by (auto simp: create_tx_def release_Create_def act_simps)
  obtain row where row: "m1 = db\<lparr>rd_releases := rd_releases db @ [row]\<rparr>" "release_row_ok row" "release_at db (rl_id row) = None"
      "rl_status row = rl_status (re_row rec)" "rl_lock_version row = rl_lock_version (re_row rec)" "rl_submitted_by row = None"
      "rl_approved_by row = None" "rl_rejected_by row = None" "revocation_of row = (None, None, None)"
    using ins by (auto simp: insert_release_def act_simps Let_def tbl_has_get revocation_of_def split: if_splits)
  have "rl_status (re_row rec) = StatusDraft" "rl_lock_version (re_row rec) = 1"
    using req by (auto simp: create_request_def Let_def res_elims new_release_def)
  then have "view row = draft_view" using row by (simp add: view_def draft_view_def)
  moreover have "rd_releases db' = rd_releases db @ [row]" "rd_attempts db' = rd_attempts db"
    using release_audit_tables [OF aud] bind_artifacts_frame [OF bind] row(1) by (auto simp: tables_def)
  ultimately show ?thesis using effect.create row(2,3) by blast
qed

lemma service_effect:
  assumes "service_operation u pg snaps db db'" "releases_ok db" "\<And>s. s \<in> snaps \<Longrightarrow> releases_ok s \<and> evolves s db"
  shows "effect db db'"
  using assms(1)
proof cases
  case create
  show ?thesis by (rule create_effect [OF create(2,3)])
next
  case submit
  show ?thesis by (rule submit_effect [OF submit(2,3)])
next
  case (approve s service who productID releaseID current)
  then show ?thesis using assms(2,3) decision_effect [OF assms(2) _ approve_checked] by blast
next
  case (reject s service who productID releaseID reason current)
  then show ?thesis using assms(2,3) decision_effect [OF assms(2) _ reject_checked] by blast
next
  case publish
  show ?thesis by (rule publication_effect [OF publish(2) _ publish(4)]) (use publish(3) in auto)
next
  case revoke
  show ?thesis by (rule revocation_effect [OF revoke(2,3)])
qed

lemma operation_effect:
  assumes "operation u pg snaps db db'" "releases_ok db" "\<And>s. s \<in> snaps \<Longrightarrow> releases_ok s \<and> evolves s db"
  shows "effect db db'"
  using assms(1)
proof cases
  case service
  then show ?thesis using assms(2,3) by (rule service_effect)
next
  case complete
  then show ?thesis by (rule publication_end_effect)
next
  case fail
  then show ?thesis by (rule publication_end_effect)
next
  case revoked
  then show ?thesis by (rule revocation_end_effect)
next
  case revocation_failed
  then show ?thesis by (rule revocation_end_effect)
next
  case other
  then show ?thesis by (auto intro: effect.same)
qed

section \<open>Invariants\<close>

lemma effect_replaced:
  assumes "effect db db'"
  shows "rd_releases db' = rd_releases db
    \<or> (\<exists>row. rd_releases db' = rd_releases db @ [row] \<and> release_at db (rl_id row) = None \<and> release_row_ok row \<and> view row = draft_view)
    \<or> (\<exists>old new. replaced db old new db' \<and> workflow (view old) (view new))"
  using assms
proof cases
  case (start old new a)
  then have "workflow (view old) (view new)" by (auto intro!: workflow_rows)
  then show ?thesis using start(1) by blast
next
  case (revoke old new a t actor reason)
  then have "workflow (view old) (view new)" by (auto simp: revocation_of_def intro!: workflow_rows)
  then show ?thesis using revoke(1) by blast
next
  case (finish old new status st i a)
  then have "workflow (view old) (view new)" by (auto intro!: workflow_rows)
  then show ?thesis using finish(1) by blast
qed blast+

lemma replaced_row:
  assumes "releases_ok db" "replaced db old new db'"
  shows "release_at db (rl_id old) = Some old" "rl_id new = rl_id old"
    "\<And>x. release_at db' x = (if x = rl_id old then Some new else release_at db x)"
proof -
  show old: "release_at db (rl_id old) = Some old"
    using assms by (auto simp: releases_ok_def replaced_def intro: tbl_get_unique)
  show ids: "rl_id new = rl_id old" using assms(2) by (auto simp: replaced_def dest: release_fixed_id)
  show "release_at db' x = (if x = rl_id old then Some new else release_at db x)" for x
    using assms(2) old ids by (auto simp: replaced_def tbl_simps)
qed

lemma effect_advances:
  assumes "effect db db'" "releases_ok db"
  shows "advances db db' \<and> releases_ok db'"
  using effect_replaced [OF assms(1)]
proof (elim disjE exE conjE)
  fix row
  assume row: "rd_releases db' = rd_releases db @ [row]" "release_at db (rl_id row) = None" "release_row_ok row" "view row = draft_view"
  then have "releases_ok db'" using assms(2) by (auto simp: releases_ok_def tbl_get_None)
  moreover have "advances db db'" using row by (auto simp: advances_def tbl_simps split: option.splits if_splits)
  ultimately show ?thesis by simp
next
  fix old new
  assume rep: "replaced db old new db'" and "workflow (view old) (view new)"
  moreover have "release_fixed new = release_fixed old" using rep by (simp add: replaced_def)
  moreover have "releases_ok db'"
    using assms(2) rep set_tbl_put [of rl_id new "rd_releases db"] by (auto simp: releases_ok_def replaced_def)
  ultimately show ?thesis using replaced_row [OF assms(2) rep] by (auto simp: advances_def)
qed (use assms(2) advances_same in \<open>auto simp: releases_ok_def\<close>)

text \<open>The open publication attempts of a release.\<close>

definition open_attempt :: "uuid \<Rightarrow> Attempt \<Rightarrow> bool" where
  "open_attempt x a \<longleftrightarrow> am_ReleaseID a = x \<and> am_Kind a \<noteq> AttemptKindRevoke \<and> am_Status a = AttemptStatusPending"

definition attempts_ok :: "release_db \<Rightarrow> bool" where
  "attempts_ok db \<longleftrightarrow> distinct (map am_ID (rd_attempts db)) \<and> distinct (map attempt_key (rd_attempts db))
     \<and> (\<forall>a\<in>set (rd_attempts db). release_at db (am_ReleaseID a) \<noteq> None)
     \<and> (\<forall>x r. release_at db x = Some r \<longrightarrow>
          length (filter (open_attempt x) (rd_attempts db)) = (if rl_status r = StatusPublishing then 1 else 0))"

text \<open>An attempt stays, and once settled it does not change.\<close>

definition attempts_evolve :: "release_db \<Rightarrow> release_db \<Rightarrow> bool" where
  "attempts_evolve db db' \<longleftrightarrow> (\<forall>k a. tbl_get attempt_key (rd_attempts db) k = Some a \<longrightarrow>
     (\<exists>a'. tbl_get attempt_key (rd_attempts db') k = Some a' \<and> attempt_ident a' = attempt_ident a \<and> am_Number a' = am_Number a
        \<and> (am_Status a \<noteq> AttemptStatusPending \<longrightarrow> a' = a)))"

interpretation ea: evolution attempts_evolve
  by unfold_locales (fastforce simp: attempts_evolve_def)+

lemma filter_update_where:
  "(\<And>a. p a \<Longrightarrow> \<not> q (f a)) \<Longrightarrow> filter q (update_where p f rows) = filter (\<lambda>a. q a \<and> \<not> p a) rows"
  by (induction rows) (auto simp: update_where_def)

lemma added_attempts:
  assumes "attempt_added a db db'"
  shows "attempts_evolve db db'" "distinct (map am_ID (rd_attempts db)) \<Longrightarrow> distinct (map am_ID (rd_attempts db'))"
    "distinct (map attempt_key (rd_attempts db)) \<Longrightarrow> distinct (map attempt_key (rd_attempts db'))"
    "am_ReleaseID ` set (rd_attempts db') = insert (am_ReleaseID a) (am_ReleaseID ` set (rd_attempts db))"
    "length (filter (open_attempt x) (rd_attempts db')) =
       length (filter (open_attempt x) (rd_attempts db)) + (if open_attempt x a then 1 else 0)"
proof -
  obtain row where row: "rd_attempts db' = rd_attempts db @ [row]" "attempt_ident row = attempt_ident a" "am_Status row = am_Status a"
      "tbl_get am_ID (rd_attempts db) (am_ID a) = None" "tbl_get attempt_key (rd_attempts db) (attempt_key a) = None"
    using assms by (auto simp: attempt_added_def tbl_has_get)
  then have ident: "am_ID row = am_ID a" "attempt_key row = attempt_key a" by (auto simp: attempt_ident_def)
  show "attempts_evolve db db'" using row(1) by (auto simp: attempts_evolve_def tbl_simps)
  show "distinct (map am_ID (rd_attempts db'))" if "distinct (map am_ID (rd_attempts db))"
    using that row ident by (simp add: tbl_get_None)
  show "distinct (map attempt_key (rd_attempts db'))" if "distinct (map attempt_key (rd_attempts db))"
    using that row(1,5) ident(2) by (auto simp: tbl_get_None)
  show "am_ReleaseID ` set (rd_attempts db') = insert (am_ReleaseID a) (am_ReleaseID ` set (rd_attempts db))"
    using row(1) ident(2) by auto
  show "length (filter (open_attempt x) (rd_attempts db')) =
       length (filter (open_attempt x) (rd_attempts db)) + (if open_attempt x a then 1 else 0)"
    using row(1,3) ident(2) by (simp add: open_attempt_def)
qed

lemma settled_attempts:
  assumes "attempt_settled x i st db db'" "st \<noteq> AttemptStatusPending"
  shows "attempts_evolve db db'" "map am_ID (rd_attempts db') = map am_ID (rd_attempts db)"
    "map attempt_key (rd_attempts db') = map attempt_key (rd_attempts db)"
    "filter (open_attempt y) (rd_attempts db') =
       filter (\<lambda>a. open_attempt y a \<and> \<not> (am_ID a = i \<and> am_ReleaseID a = x)) (rd_attempts db)"
proof -
  let ?p = "\<lambda>a. am_ID a = i \<and> am_ReleaseID a = x \<and> am_Status a = AttemptStatusPending"
  obtain code at where up: "rd_attempts db' = update_where ?p (\<lambda>a. a\<lparr>am_Status := st, am_ErrorCode := code, am_UpdatedAt := at\<rparr>) (rd_attempts db)"
    using assms by (auto simp: attempt_settled_def)
  show "map am_ID (rd_attempts db') = map am_ID (rd_attempts db)" "map attempt_key (rd_attempts db') = map attempt_key (rd_attempts db)"
    unfolding up by (simp_all add: update_where_keys)
  have "tbl_get attempt_key (rd_attempts db') k =
      map_option (\<lambda>a. if ?p a then a\<lparr>am_Status := st, am_ErrorCode := code, am_UpdatedAt := at\<rparr> else a)
        (tbl_get attempt_key (rd_attempts db) k)" for k
    unfolding up by (rule tbl_get_update) simp
  then show "attempts_evolve db db'" by (auto simp: attempts_evolve_def attempt_ident_def)
  have "filter (open_attempt y) (rd_attempts db') = filter (\<lambda>a. open_attempt y a \<and> \<not> ?p a) (rd_attempts db)"
    unfolding up using assms(2) by (intro filter_update_where) (simp add: open_attempt_def)
  also have "\<dots> = filter (\<lambda>a. open_attempt y a \<and> \<not> (am_ID a = i \<and> am_ReleaseID a = x)) (rd_attempts db)"
    by (rule filter_cong) (auto simp: open_attempt_def)
  finally show "filter (open_attempt y) (rd_attempts db') =
       filter (\<lambda>a. open_attempt y a \<and> \<not> (am_ID a = i \<and> am_ReleaseID a = x)) (rd_attempts db)" .
qed

lemma lock_attempt_row:
  assumes "lock_attempt kind x i db = Inr a"
  shows "a \<in> set (rd_attempts db)" "am_ID a = i" "am_ReleaseID a = x" "am_Kind a = kind"
  using assms by (auto simp: lock_attempt_def GetAttemptByID_def res_elims split: if_splits dest: tbl_get_Some)

lemma attempts_okI:
  assumes "attempts_ok db" "distinct (map am_ID (rd_attempts db'))" "distinct (map attempt_key (rd_attempts db'))"
    "\<And>x. release_at db x \<noteq> None \<Longrightarrow> release_at db' x \<noteq> None"
    "\<And>x. x \<in> am_ReleaseID ` set (rd_attempts db') \<Longrightarrow> x \<in> am_ReleaseID ` set (rd_attempts db) \<or> release_at db x \<noteq> None"
    "\<And>x r. release_at db' x = Some r \<Longrightarrow>
       length (filter (open_attempt x) (rd_attempts db')) = (if rl_status r = StatusPublishing then 1 else 0)"
  shows "attempts_ok db'"
proof -
  have "release_at db' (am_ReleaseID a) \<noteq> None" if "a \<in> set (rd_attempts db')" for a
    using that assms(1) assms(4,5) [of "am_ReleaseID a"] by (auto simp: attempts_ok_def)
  then show ?thesis using assms(2,3,6) by (simp add: attempts_ok_def)
qed

lemma open_attempts_of:
  "attempts_ok db \<Longrightarrow> release_at db x = Some r \<Longrightarrow>
   length (filter (open_attempt x) (rd_attempts db)) = (if rl_status r = StatusPublishing then 1 else 0)"
  by (simp add: attempts_ok_def)

lemma replaced_attempts:
  assumes "releases_ok db" "attempts_ok db" "replaced db old new db'" "attempts_evolve db db'"
    "distinct (map am_ID (rd_attempts db'))" "distinct (map attempt_key (rd_attempts db'))"
    "am_ReleaseID ` set (rd_attempts db') \<subseteq> insert (rl_id old) (am_ReleaseID ` set (rd_attempts db))"
    "\<And>x. x \<noteq> rl_id old \<Longrightarrow> length (filter (open_attempt x) (rd_attempts db')) = length (filter (open_attempt x) (rd_attempts db))"
    "length (filter (open_attempt (rl_id old)) (rd_attempts db')) = (if rl_status new = StatusPublishing then 1 else 0)"
  shows "attempts_ok db' \<and> attempts_evolve db db'"
proof -
  note row = replaced_row [OF assms(1,3)]
  have "length (filter (open_attempt x) (rd_attempts db')) = (if rl_status r = StatusPublishing then 1 else 0)"
    if "release_at db' x = Some r" for x r
    using that row(3) assms(8,9) open_attempts_of [OF assms(2)] by (cases "x = rl_id old") auto
  then have "attempts_ok db'"
    using assms(5-7) row by (intro attempts_okI [OF assms(2)]) auto
  then show ?thesis using assms(4) by blast
qed

lemma only_open_attempt:
  assumes "length (filter q rows) = 1" "a \<in> set rows" "q a"
  shows "filter q rows = [a]"
proof -
  obtain b where b: "filter q rows = [b]" using assms(1) by (auto simp: length_Suc_conv)
  have "a \<in> set (filter q rows)" using assms(2,3) by simp
  then show ?thesis using b by simp
qed

lemma effect_attempts:
  assumes "effect db db'" "releases_ok db" "attempts_ok db"
  shows "attempts_ok db' \<and> attempts_evolve db db'"
  using assms(1)
proof cases
  case same
  then show ?thesis using assms(3) by (simp add: attempts_ok_def attempts_evolve_def)
next
  case (create row)
  have "rl_id row \<notin> am_ReleaseID ` set (rd_attempts db)"
    using create(3) assms(3) by (auto simp: attempts_ok_def)
  then have "filter (open_attempt (rl_id row)) (rd_attempts db) = []" by (force simp: filter_empty_conv open_attempt_def)
  moreover have "rl_status row = StatusDraft" using create(5) by (simp add: view_def draft_view_def)
  ultimately show ?thesis using create assms(3)
    by (auto simp: attempts_evolve_def tbl_simps attempts_ok_def split: option.splits if_splits)
next
  case (decide old new)
  note row = replaced_row [OF assms(2) decide(1)]
  have "rl_status new \<noteq> StatusPublishing" "rl_status old \<noteq> StatusPublishing"
    using decide(3,4) by (auto elim!: workflow.cases simp: view_def)
  then show ?thesis
    using open_attempts_of [OF assms(3) row(1)] decide(2) assms(3)
    by (intro replaced_attempts [OF assms(2,3) decide(1)]) (auto simp: attempts_ok_def attempts_evolve_def)
next
  case (start old new a)
  note row = replaced_row [OF assms(2) start(1)] and added = added_attempts [OF start(2)]
  have "rl_status new = StatusPublishing" "rl_status old \<noteq> StatusPublishing" using start(6,7) by (auto simp: view_def)
  moreover have "open_attempt x a \<longleftrightarrow> x = rl_id old" for x using start by (auto simp: open_attempt_def)
  ultimately show ?thesis
    using open_attempts_of [OF assms(3) row(1)] assms(3) added start(3)
    by (intro replaced_attempts [OF assms(2,3) start(1)]) (auto simp: attempts_ok_def)
next
  case (revoke old new a t actor reason)
  note row = replaced_row [OF assms(2) revoke(1)] and added = added_attempts [OF revoke(2)]
  have "rl_status new = StatusPublished" using revoke(5,7) by (auto simp: view_def)
  moreover have "\<not> open_attempt x a" for x using revoke(4) by (simp add: open_attempt_def)
  ultimately show ?thesis
    using open_attempts_of [OF assms(3) row(1)] assms(3) added revoke(3,5)
    by (intro replaced_attempts [OF assms(2,3) revoke(1)]) (auto simp: attempts_ok_def)
next
  case (finish old new status st i a)
  note row = replaced_row [OF assms(2) finish(1)] and locked = lock_attempt_row [OF finish(5)]
  have st: "st \<noteq> AttemptStatusPending" "rl_status new \<noteq> StatusPublishing" using finish(3,4) by (auto simp: view_def)
  note settled = settled_attempts [OF finish(7) st(1)]
  have "filter (open_attempt (rl_id old)) (rd_attempts db) = [a]"
    using open_attempts_of [OF assms(3) row(1)] finish(2,6) locked by (intro only_open_attempt) (simp_all add: open_attempt_def)
  moreover have "filter (open_attempt (rl_id old)) (rd_attempts db') =
      filter (\<lambda>a. \<not> (am_ID a = i \<and> am_ReleaseID a = rl_id old)) (filter (open_attempt (rl_id old)) (rd_attempts db))"
    by (simp only: settled(4) filter_filter)
  ultimately have "filter (open_attempt (rl_id old)) (rd_attempts db') = []" using locked(2,3) by simp
  moreover have "filter (open_attempt x) (rd_attempts db') = filter (open_attempt x) (rd_attempts db)" if "x \<noteq> rl_id old" for x
    unfolding settled(4) using that by (intro filter_cong) (auto simp: open_attempt_def)
  moreover have "am_ReleaseID ` set (rd_attempts db') = am_ReleaseID ` set (rd_attempts db)"
    using arg_cong [OF settled(3), of "\<lambda>ks. fst ` set ks"] by (simp add: image_image)
  ultimately show ?thesis
    using st assms(3) settled by (intro replaced_attempts [OF assms(2,3) finish(1)]) (auto simp: attempts_ok_def)
next
  case (settle x i a st)
  note settled = settled_attempts [OF settle(3,4)] and locked = lock_attempt_row [OF settle(2)]
  have "inj_on am_ID (set (rd_attempts db))" using assms(3) by (simp add: attempts_ok_def distinct_map)
  then have "\<not> open_attempt y a'" if "a' \<in> set (rd_attempts db)" "am_ID a' = i" for a' y
    using that locked inj_onD [of am_ID "set (rd_attempts db)" a' a] by (simp add: open_attempt_def)
  then have "filter (open_attempt y) (rd_attempts db') = filter (open_attempt y) (rd_attempts db)" for y
    unfolding settled(4) by (intro filter_cong refl) blast
  moreover have "am_ReleaseID ` set (rd_attempts db') = am_ReleaseID ` set (rd_attempts db)"
    using arg_cong [OF settled(3), of "\<lambda>ks. fst ` set ks"] by (simp add: image_image)
  ultimately have "attempts_ok db'"
    using assms(3) settled settle(1) by (intro attempts_okI [OF assms(3)]) (auto simp: attempts_ok_def)
  then show ?thesis using settled(1) by blast
qed

text \<open>Nobody decided on his own submission.\<close>

definition decided_apart :: "workflow_state \<Rightarrow> bool" where
  "decided_apart w \<longleftrightarrow> (\<forall>a. wf_approved_by w = Some a \<or> wf_rejected_by w = Some a \<longrightarrow>
     (\<exists>b. wf_submitted_by w = Some b \<and> a \<noteq> b)) \<and> (wf_status w = StatusDraft \<longrightarrow> wf_approved_by w = None \<and> wf_rejected_by w = None)"

lemma workflow_apart: "workflow w v \<Longrightarrow> decided_apart w \<Longrightarrow> decided_apart v"
  by (induction rule: workflow.induct) (auto simp: decided_apart_def)

definition sound :: "release_db \<Rightarrow> bool" where
  "sound db \<longleftrightarrow> releases_ok db \<and> attempts_ok db \<and> (\<forall>x r. release_at db x = Some r \<longrightarrow> decided_apart (view r))"

lemma empty_sound: "tables db = ([], [], []) \<Longrightarrow> sound db"
  by (simp add: tables_def sound_def releases_ok_def attempts_ok_def tbl_get_def)

definition later :: "release_db \<Rightarrow> release_db \<Rightarrow> bool" where
  "later db db' \<longleftrightarrow> evolves db db' \<and> attempts_evolve db db'"

interpretation la: evolution later
  by unfold_locales (auto simp: later_def intro: ev.R_refl ev.R_trans ea.R_refl ea.R_trans)

lemma effect_sound:
  assumes "effect db db'" "sound db"
  shows "sound db' \<and> advances db db' \<and> later db db'"
proof -
  have ok: "releases_ok db" "attempts_ok db" using assms(2) by (auto simp: sound_def)
  note adv = effect_advances [OF assms(1) ok(1)] and att = effect_attempts [OF assms(1) ok]
  have "decided_apart (view r')" if r': "release_at db' x = Some r'" for x r'
  proof (cases "release_at db x")
    case None
    then have "view r' = draft_view" using adv r' by (auto simp: advances_def)
    then show ?thesis by (simp add: decided_apart_def draft_view_def)
  next
    case (Some r)
    then have "view r' = view r \<or> workflow (view r) (view r')" using adv r' by (fastforce simp: advances_def)
    moreover have "decided_apart (view r)" using Some assms(2) by (auto simp: sound_def)
    ultimately show ?thesis using workflow_apart by auto
  qed
  then show ?thesis using adv att advances_evolves by (auto simp: sound_def later_def)
qed

text \<open>The states of the tables, the latest first. A history starts with empty tables or any other sound
  state.\<close>

inductive history :: "uuid_lib \<Rightarrow> pg_lib \<Rightarrow> release_db list \<Rightarrow> bool" for u pg where
  start: "sound db \<Longrightarrow> history u pg [db]"
| step: "history u pg (db # h) \<Longrightarrow> operation u pg (set (db # h)) db db' \<Longrightarrow> history u pg (db' # db # h)"

inductive_cases history_stepE: "history u pg (db' # db # h)"

lemma operation_sound:
  assumes "operation u pg snaps db db'" "sound db" "\<And>s. s \<in> snaps \<Longrightarrow> sound s \<and> later s db"
  shows "effect db db'"
  using assms(2,3) by (intro operation_effect [OF assms(1)]) (auto simp: sound_def later_def)

lemma history_ok:
  assumes "history u pg h"
  shows "h \<noteq> [] \<and> (\<forall>s\<in>set h. sound s \<and> later s (hd h))"
  using assms
proof (induction rule: history.induct)
  case (start db)
  then show ?case by (simp add: la.R_refl)
next
  case (step db h db')
  have "effect db db'" using operation_sound [OF step.hyps(2)] step.IH by auto
  then have "sound db'" "later db db'" using effect_sound step.IH by auto
  then show ?case using step.IH la.R_refl la.R_trans by fastforce
qed

lemma history_effect:
  assumes "history u pg (db' # db # h)"
  shows "effect db db' \<and> sound db"
proof -
  have prev: "history u pg (db # h)" "operation u pg (set (db # h)) db db'" using assms by (auto elim: history_stepE)
  then have "effect db db'" using operation_sound [OF prev(2)] history_ok [OF prev(1)] by auto
  then show ?thesis using history_ok [OF prev(1)] by simp
qed

lemma history_later: "history u pg (db # h) \<Longrightarrow> s \<in> set (db # h) \<Longrightarrow> sound s \<and> later s db"
  using history_ok [of u pg "db # h"] by auto

end
