(* ===== verification/ReleaseRules.thy ===== *)
theory ReleaseRules
  imports Workflow
begin

text \<open>
  Further guarantees of the release service over the histories of \<open>Workflow\<close>: optimistic locking,
  idempotency keys, atomic starts of a publication, what a retried publication ends in, who may read
  a release, and which compatibility documents a release may carry.
\<close>

section \<open>The release state machine\<close>

text \<open>C1. Every history of the release tables refines the workflow, even when each operation decided on
  an arbitrarily old reading: in one step a release keeps its identity and content, and its state
  either stays or makes exactly one step of the workflow, which advances the lock version by one; a
  release that appears is a draft with lock version 1.\<close>

theorem histories_refine_workflow:
  assumes "history u pg (db' # db # h)"
  shows "(\<forall>x r. release_at db x = Some r \<longrightarrow> (\<exists>r'. release_at db' x = Some r' \<and> release_fixed r' = release_fixed r
      \<and> (view r' = view r \<or> workflow (view r) (view r') \<and> rl_lock_version r' = rl_lock_version r + 1)))
    \<and> (\<forall>x r'. release_at db' x = Some r' \<longrightarrow> release_at db x = None \<longrightarrow> view r' = draft_view)"
proof -
  have "advances db db'" using history_effect [OF assms] effect_sound by blast
  then show ?thesis using workflow_lock by (fastforce simp: advances_def)
qed

text \<open>C2. Separation of duties. In every history the person who approved or rejected a release is not the
  person who submitted it, although the check runs on a reading that may be out of date by the time
  the decision is written.\<close>

theorem separation_of_duties:
  assumes "history u pg (db # h)" "release_at db x = Some r" "rl_approved_by r = Some a \<or> rl_rejected_by r = Some a"
  shows "\<exists>b. rl_submitted_by r = Some b \<and> a \<noteq> b"
proof -
  have "decided_apart (view r)" using history_ok [OF assms(1)] assms(2) by (auto simp: sound_def)
  then show ?thesis using assms(3) by (auto simp: decided_apart_def)
qed

text \<open>C6. A revocation is final: once a release is revoked, its row never leaves PUBLISHED and its lock
  version, its revocation time, actor and reason never change in any later state.\<close>

theorem revocation_final:
  assumes "history u pg (db' # h)" "db \<in> set (db' # h)" "release_at db x = Some r" "rl_revoked_at r \<noteq> None"
  shows "\<exists>r'. release_at db' x = Some r' \<and> rl_status r' = StatusPublished \<and> view r' = view r"
proof -
  note ok = history_later [OF assms(1,2)]
  obtain r' where r': "release_at db' x = Some r'" "workflow\<^sup>*\<^sup>* (view r) (view r')"
    using ok assms(3) by (auto simp: later_def evolves_def)
  have "release_row_ok r" using ok assms(3) by (auto simp: sound_def releases_ok_def dest: tbl_get_Some)
  then have "rl_status r = StatusPublished"
    using assms(4) by (auto simp: release_row_ok_def revocation_consistent_def)
  then have "view r' = view r" using workflow_star_revoked [OF r'(2)] assms(4) by (auto simp: revocation_of_def)
  then show ?thesis using r'(1) \<open>rl_status r = StatusPublished\<close> by (metis view_simps(1))
qed

section \<open>Optimistic locking\<close>

text \<open>A store with a version per key, whose versions never fall, and a write that expects a version and
  advances it.\<close>

locale versioned =
  fixes version :: "'s \<Rightarrow> 'k \<Rightarrow> int option"
    and after :: "'s \<Rightarrow> 's \<Rightarrow> bool"
    and cas :: "'k \<Rightarrow> int \<Rightarrow> 's \<Rightarrow> 's \<Rightarrow> bool"
  assumes version_mono: "after s t \<Longrightarrow> version s k = Some v \<Longrightarrow> \<exists>w. version t k = Some w \<and> v \<le> w"
    and cas_expects: "cas k v s t \<Longrightarrow> version s k = Some v"
    and cas_bumps: "cas k v s t \<Longrightarrow> version t k = Some (v + 1)"
begin

lemma cas_order: "cas k v s t \<Longrightarrow> after t s' \<Longrightarrow> cas k w s' t' \<Longrightarrow> v < w"
  using cas_bumps version_mono cas_expects by fastforce

lemma cas_once: "cas k v s t \<Longrightarrow> after t s' \<Longrightarrow> \<not> cas k v s' t'"
  using cas_order by blast

end

text \<open>The successful writes of the service to a release.\<close>

inductive release_write :: "uuid_lib \<Rightarrow> uuid \<Rightarrow> int \<Rightarrow> release_db \<Rightarrow> release_db \<Rightarrow> bool" for u where
  transition: "\<lbrakk>transition_tx u call who rq v target reason current db = (Inr rel, db'); rl_id (re_row current) = x\<rbrakk> \<Longrightarrow>
     release_write u x v db db'"
| publication: "\<lbrakk>publication_tx u call who rq p v current a db = (Inr (Inr q), db'); am_ReleaseID a = x\<rbrakk> \<Longrightarrow>
     release_write u x v db db'"
| revocation: "\<lbrakk>revocation_tx u call who rq p v reason a db = (Inr (Inr q), db'); am_ReleaseID a = x\<rbrakk> \<Longrightarrow>
     release_write u x v db db'"

definition release_version :: "release_db \<Rightarrow> uuid \<Rightarrow> int option" where
  "release_version db x = map_option rl_lock_version (release_at db x)"

lemma transition_set_lock: "rl_lock_version (transition_set cmd r) = rl_lock_version r + 1"
  by (simp add: transition_set_def Let_def)

lemma view_lock: "view new = w \<Longrightarrow> rl_lock_version new = wf_lock w"
  by auto

lemma release_write_row:
  assumes "release_write u x v db db'"
  shows "\<exists>old new. replaced db old new db' \<and> rl_id old = x \<and> rl_lock_version old = v \<and> rl_lock_version new = v + 1"
  using assms
proof cases
  case (transition call who rq target reason current rel)
  obtain old t where "transition_where (transition_command call who v target reason (re_row current)) old"
      "re_row rel = (transition_set (transition_command call who v target reason (re_row current)) old)\<lparr>rl_updated_at := t\<rparr>"
      "replaced db old (re_row rel) db'"
    using transition_tx_Inr [OF transition(1)] by (auto simp: Let_def)
  moreover from this have "rl_lock_version (re_row rel) = rl_lock_version old + 1" by (simp add: transition_set_lock)
  ultimately show ?thesis using transition(2) unfolding where_command by blast
next
  case (publication call who rq p current a q)
  from publication(1) show ?thesis
  proof (cases rule: publication_tx_cases)
    case (start old upd b)
    then show ?thesis using publication(2) view_lock [of "re_row upd"] by auto
  qed simp
next
  case (revocation call who rq p reason a q)
  from revocation(1) show ?thesis
  proof (cases rule: revocation_tx_cases)
    case (start old upd b)
    then show ?thesis using revocation(2) view_lock [of "re_row upd"] by auto
  qed simp
qed

interpretation rv: versioned release_version later "\<lambda>x v db db'. sound db \<and> release_write u x v db db'" for u
proof
  fix s t k v
  assume "later s t" "release_version s k = Some v"
  then show "\<exists>w. release_version t k = Some w \<and> v \<le> w"
    using workflow_star_lock by (fastforce simp: later_def evolves_def release_version_def)
next
  fix k v s t
  assume w: "sound s \<and> release_write u k v s t"
  then obtain old new where "replaced s old new t" "rl_id old = k" "rl_lock_version old = v" "rl_lock_version new = v + 1"
    using release_write_row by blast
  then show "release_version s k = Some v" "release_version t k = Some (v + 1)"
    using w replaced_row [of s old new t] by (auto simp: release_version_def sound_def)
qed

text \<open>C3. No lost updates. When an operation succeeded with some expected lock version of a release, no
  operation that expects the same lock version succeeds on any later state: of concurrent requests
  that start from one version at most one is carried out.\<close>

theorem lock_version_wins_once:
  assumes "history u pg (db2 # h)" "db0 \<in> set (db2 # h)" "db1 \<in> set (db2 # h)" "release_write u x v db0 db1"
  shows "\<not> release_write u x v db2 db3"
proof -
  have "sound db0" "sound db2" "later db1 db2" using history_later [OF assms(1)] assms(2,3) by auto
  then show ?thesis using rv.cas_once assms(4) by blast
qed

section \<open>Idempotency keys\<close>

lemma existing_attempt:
  assumes "history u pg (db' # h)" "db \<in> set (db' # h)" "a \<in> set (rd_attempts db)"
  obtains a' where "tbl_get attempt_key (rd_attempts db') (attempt_key a) = Some a'"
    "attempt_ident a' = attempt_ident a" "am_Number a' = am_Number a"
proof -
  have ok: "sound db" "later db db'" using history_later [OF assms(1,2)] by auto
  have "tbl_get attempt_key (rd_attempts db) (attempt_key a) = Some a"
    using ok(1) assms(3) by (auto simp: sound_def attempts_ok_def intro: tbl_get_unique)
  then obtain a' where "tbl_get attempt_key (rd_attempts db') (attempt_key a) = Some a'"
      "attempt_ident a' = attempt_ident a" "am_Number a' = am_Number a"
    using ok(2) unfolding later_def attempts_evolve_def by blast
  then show ?thesis by (rule that)
qed

text \<open>An operation that only answers with the attempt \<open>a\<close>.\<close>

definition replays :: "Attempt \<Rightarrow> (release_db, release_error, OperationResult) action \<Rightarrow> release_db \<Rightarrow> bool" where
  "replays a m db \<longleftrightarrow> snd (m db) = db \<and> (\<forall>res. fst (m db) = Inr res \<longrightarrow>
     attempt_ident (or_Attempt res) = attempt_ident a \<and> am_Number (or_Attempt res) = am_Number a)"

lemma replaysI:
  assumes "\<And>r d. m db = (r, d) \<Longrightarrow> d = db \<and> (\<forall>res. r = Inr res \<longrightarrow>
     attempt_ident (or_Attempt res) = attempt_ident a \<and> am_Number (or_Attempt res) = am_Number a)"
  shows "replays a m db"
  using assms by (cases "m db") (auto simp: replays_def)

lemma existing_or_found:
  assumes "tbl_get attempt_key (rd_attempts db) (x, kind, k) = Some a'" "existing_or p x kind k other db = Inr start"
  shows "\<exists>res. start = Replay res \<and> or_Attempt res = a'"
  using assms by (auto simp: existing_or_def FindAttempt_def loadOperationResult_def res_elims split: sum.splits if_splits)

lemma publication_replay:
  assumes "tbl_get attempt_key (rd_attempts db) (x, kind, trim_space key) = Some a'"
    "startPublication u service call who action p x v kind key rq db = (r, db')"
  shows "db' = db \<and> (\<forall>res. r = Inr res \<longrightarrow> or_Attempt res = a')"
proof (cases "publication_request service call who action kind p x key db")
  case (Inl e)
  then show ?thesis using assms(2) by (auto simp: startPublication_def act_bind_def act_read_def)
next
  case (Inr start)
  then have "\<exists>res. start = Replay res \<and> or_Attempt res = a'"
    using existing_or_found [OF assms(1)] by (auto simp: publication_request_def Let_def res_elims split: if_splits)
  then show ?thesis using assms(2) Inr by (auto simp: startPublication_def act_bind_def act_read_def act_return_def)
qed

lemma revocation_replay:
  assumes "tbl_get attempt_key (rd_attempts db) (x, AttemptKindRevoke, trim_space key) = Some a'"
    "service_Revoke u service call who p x v reason key rq db = (r, db')"
  shows "db' = db \<and> (\<forall>res. r = Inr res \<longrightarrow> or_Attempt res = a')"
proof (cases "revocation_request service call who p x reason key db")
  case (Inl e)
  then show ?thesis using assms(2) by (auto simp: service_Revoke_def act_bind_def act_read_def)
next
  case (Inr start)
  then have "\<exists>res. start = Replay res \<and> or_Attempt res = a'"
    using existing_or_found [OF assms(1)] by (auto simp: revocation_request_def Let_def res_elims split: if_splits)
  then show ?thesis using assms(2) Inr by (auto simp: service_Revoke_def act_bind_def act_read_def act_return_def)
qed


section \<open>A publication starts as a whole\<close>

lemma operation_tx_start:
  assumes "operation_tx u call who rq p action jobKind md apply a db = (Inr (Inr (upd, b)), db')"
  shows "\<exists>mid mid' t ev. apply db = (Inr upd, mid) \<and> CreateAttempt a mid = (Inr b, mid')
    \<and> enqueueReleaseJob u call jobKind b (call_time call) mid' = (Inr (), t)
    \<and> release_audit u call who rq action p ''release'' (u_string u (am_ReleaseID a)) OutcomeSuccess (md b upd) t = (Inr ev, db')"
  using assms by (auto simp: operation_tx_def LockOperation_def act_simps Let_def split: if_splits)

lemma enqueueReleaseJob_Inr:
  assumes "enqueueReleaseJob u call kind a now db = (Inr (), db')"
  shows "\<exists>job. pl_outbox (rd_platform db') = pl_outbox (rd_platform db) @ [job] \<and> r_kind job = trim_space kind
    \<and> r_aggregate_id job = am_ReleaseID a \<and> r_status job = StatusPending \<and> pl_audit (rd_platform db') = pl_audit (rd_platform db)"
proof -
  obtain job rows where job: "New (ca_job_id (cl_audit call)) kind (am_ReleaseID a)
        (marshal_string_map [(''release_id'', u_string u (am_ReleaseID a)), (''attempt_id'', u_string u (am_ID a))]) now
        = (Inr job :: unit job_error + Job)"
      "Enqueue (cl_db_now call) job (pl_outbox (rd_platform db)) = (Inr () :: unit job_error + unit, rows)"
      "db' = db\<lparr>rd_platform := (rd_platform db)\<lparr>pl_outbox := rows\<rparr>\<rparr>"
    using assms by (auto simp: enqueueReleaseJob_def act_simps)
  then show ?thesis using Enqueue_Inr [OF job(2)] New_Inr [OF job(1)] by auto
qed

lemma release_audit_Inr:
  assumes "release_audit u call who rq action p rt rid oc md db = (Inr e, db')"
  shows "au_events (pl_audit (rd_platform db')) = au_events (pl_audit (rd_platform db)) @ [e] \<and> ev_Action e = trim_space action
    \<and> ev_Outcome e = oc \<and> pl_outbox (rd_platform db') = pl_outbox (rd_platform db)"
  using assms by (auto simp: release_audit_def act_simps dest: Append_event)

lemma publish_words: "trim_space ''catalog.publish.v1'' = ''catalog.publish.v1''" "trim_space ''release.publish'' = ''release.publish''"
  by (rule trim_space_graphic; simp add: graphic_def in_range_def byte_val_def)+

lemma finish_Inr_state: "finish_operation p x q db = (r, db') \<Longrightarrow> db' = db"
  by (cases q) (auto simp: finish_operation_def act_simps split: prod.splits)

lemma startPublication_changed:
  assumes run: "startPublication u service call who action p x v kind key rq db = (r, db')" and ch: "db' \<noteq> db"
  obtains current a upd b where "publication_request service call who action kind p x key db = Inr (Start current a)"
    "publication_tx u call who rq (trim_space p) v current a db = (Inr (Inr (upd, b)), db')"
    "r = Inr \<lparr>or_Release = upd, or_Attempt = b\<rparr>"
proof (cases "publication_request service call who action kind p x key db")
  case (Inl e)
  then show ?thesis using run ch by (auto simp: startPublication_def act_bind_def act_read_def)
next
  case (Inr start)
  show ?thesis
  proof (cases start)
    case (Replay res)
    then show ?thesis using run ch Inr by (auto simp: startPublication_def act_bind_def act_read_def act_return_def)
  next
    case (Start current a)
    obtain q mid where tx: "publication_tx u call who rq (trim_space p) v current a db = (q, mid)" by (metis surj_pair)
    have fin: "act_bind (publication_tx u call who rq (trim_space p) v current a) (finish_operation (trim_space p) x) db = (r, db')"
      using run Inr Start by (simp add: startPublication_def act_bind_def act_read_def)
    from tx show ?thesis
    proof (cases rule: publication_tx_cases)
      case same
      then have "db' = db" using fin tx by (cases q) (auto simp: act_bind_def dest: finish_Inr_state)
      then show ?thesis using ch by blast
    next
      case (start old upd b)
      then show ?thesis using that [of current a upd b] fin tx Inr Start
        by (auto simp: act_bind_def finish_operation_def act_return_def)
    qed
  qed
qed

text \<open>C5. Starting a publication is atomic: a publish or retry request either leaves every table as it was, or
  it succeeds and then all of it happened: the release went from APPROVED or FAILED with the expected
  lock version to PUBLISHING, and exactly one attempt, one pending job for this release and one
  audit event were added.\<close>

theorem publication_atomic:
  assumes run: "startPublication u service call who action p x v kind key rq db = (r, db')" and ch: "db' \<noteq> db" and ok: "sound db"
  shows "\<exists>res old new row job ev. r = Inr res \<and> release_at db x = Some old \<and> release_at db' x = Some new
     \<and> (rl_status old = StatusApproved \<or> rl_status old = StatusFailed) \<and> rl_lock_version old = v
     \<and> rl_status new = StatusPublishing \<and> rl_lock_version new = v + 1
     \<and> rd_attempts db' = rd_attempts db @ [row] \<and> attempt_ident row = attempt_ident (or_Attempt res)
     \<and> am_Kind row = kind \<and> am_Status row = AttemptStatusPending
     \<and> pl_outbox (rd_platform db') = pl_outbox (rd_platform db) @ [job] \<and> r_kind job = ''catalog.publish.v1'' \<and> r_aggregate_id job = x
     \<and> au_events (pl_audit (rd_platform db')) = au_events (pl_audit (rd_platform db)) @ [ev]
     \<and> ev_Action ev = ''release.publish'' \<and> ev_Outcome ev = OutcomeSuccess"
proof -
  obtain current a upd b where req: "publication_request service call who action kind p x key db = Inr (Start current a)"
      and tx: "publication_tx u call who rq (trim_space p) v current a db = (Inr (Inr (upd, b)), db')"
      and r: "r = Inr \<lparr>or_Release = upd, or_Attempt = b\<rparr>"
    using startPublication_changed [OF run ch] by blast
  note a = start_request [OF req]
  obtain old where rep: "replaced db old (re_row upd) db'" and add: "attempt_added a db db'" and old: "rl_id old = am_ReleaseID a"
      "rl_status old = rl_status (re_row current)" "rl_lock_version old = v" "attempt_ident b = attempt_ident a"
      "view (re_row upd) = (view old)\<lparr>wf_status := StatusPublishing, wf_lock := rl_lock_version old + 1\<rparr>"
    using tx by (cases rule: publication_tx_cases) auto
  have status: "rl_status old = StatusApproved \<or> rl_status old = StatusFailed"
    using a(1) old(2) by (cases "rl_status (re_row current)") auto
  have new: "rl_status (re_row upd) = StatusPublishing" "rl_lock_version (re_row upd) = v + 1"
    using old(3) arg_cong [OF old(5), of wf_status] arg_cong [OF old(5), of wf_lock] by simp_all
  note rows = replaced_row [of db old "re_row upd" db'] and ok' = ok [unfolded sound_def]
  obtain mid mid' t ev where mid: "Transition (cl_db_now call)
          \<lparr>tc_ReleaseID = am_ReleaseID a, tc_ProductID = trim_space p, tc_From = rl_status (re_row current),
           tc_To = StatusPublishing, tc_ExpectedLockVersion = v,
           tc_Actor = trim_space (p_Subject who), tc_Reason = [], tc_At = call_time call\<rparr> db = (Inr upd, mid)"
      "CreateAttempt a mid = (Inr b, mid')"
      "enqueueReleaseJob u call ''catalog.publish.v1'' b (call_time call) mid' = (Inr (), t)"
      "\<exists>md. release_audit u call who rq ''release.publish'' (trim_space p) ''release'' (u_string u (am_ReleaseID a)) OutcomeSuccess md t = (Inr ev, db')"
    using operation_tx_start [OF tx [unfolded publication_tx_def]] by blast
  have plat: "rd_platform mid' = rd_platform db"
    using mid(1,2) by (auto simp: Transition_def update_release_def CreateAttempt_def act_simps Let_def split: if_splits option.splits)
  obtain md where au: "release_audit u call who rq ''release.publish'' (trim_space p) ''release'' (u_string u (am_ReleaseID a)) OutcomeSuccess md t = (Inr ev, db')"
    using mid(4) by blast
  obtain job where job: "pl_outbox (rd_platform db') = pl_outbox (rd_platform db) @ [job]" "r_kind job = ''catalog.publish.v1''" "r_aggregate_id job = x"
    using enqueueReleaseJob_Inr [OF mid(3)] release_audit_Inr [OF au] plat old(4) a(2) by (auto simp: publish_words attempt_ident_def)
  have events: "au_events (pl_audit (rd_platform db')) = au_events (pl_audit (rd_platform db)) @ [ev]" "ev_Action ev = ''release.publish''"
      "ev_Outcome ev = OutcomeSuccess"
    using release_audit_Inr [OF au] enqueueReleaseJob_Inr [OF mid(3)] plat by (auto simp: publish_words)
  obtain row where row: "rd_attempts db' = rd_attempts db @ [row]" "attempt_ident row = attempt_ident a" "am_Status row = am_Status a"
    using add by (auto simp: attempt_added_def)
  have "am_Kind row = kind" using row(2) a(3) by (simp add: attempt_ident_def)
  then show ?thesis
    using r rows rep ok' old a status new row job events by (intro exI [of _ "\<lparr>or_Release = upd, or_Attempt = b\<rparr>"] exI [of _ old]
      exI [of _ "re_row upd"] exI [of _ row] exI [of _ job] exI [of _ ev]) simp
qed

section \<open>A retried publication never ends\<close>

definition retrying :: "uuid \<Rightarrow> release_db \<Rightarrow> bool" where
  "retrying x db \<longleftrightarrow> (\<exists>r. release_at db x = Some r \<and> rl_status r = StatusPublishing)
     \<and> (\<exists>a\<in>set (rd_attempts db). open_attempt x a \<and> am_Kind a = AttemptKindRetry)"

lemma retrying_other:
  assumes "releases_ok db" "replaced db old new db'" "rl_status old \<noteq> StatusPublishing" "retrying x db"
    "set (rd_attempts db) \<subseteq> set (rd_attempts db')"
  shows "retrying x db'"
  using replaced_row [OF assms(1,2)] assms(3-5) by (auto simp: retrying_def)

lemma retrying_effect:
  assumes "effect db db'" "sound db" "retrying x db"
  shows "retrying x db'"
proof -
  have ok: "releases_ok db" "attempts_ok db" using assms(2) by (auto simp: sound_def)
  obtain r b where r: "release_at db x = Some r" "rl_status r = StatusPublishing"
      and b: "b \<in> set (rd_attempts db)" "open_attempt x b" "am_Kind b = AttemptKindRetry"
    using assms(3) by (auto simp: retrying_def)
  have kept: "b \<in> set (rd_attempts db')" if "attempt_settled y i st db db'" "st \<noteq> AttemptStatusPending" "\<not> (am_ID b = i \<and> am_ReleaseID b = y)" for y i st
  proof -
    have "b \<in> set (filter (\<lambda>a. open_attempt x a \<and> \<not> (am_ID a = i \<and> am_ReleaseID a = y)) (rd_attempts db))" using that(3) b by simp
    then have "b \<in> set (filter (open_attempt x) (rd_attempts db'))" using settled_attempts(4) [OF that(1,2), of x] by simp
    then show ?thesis by simp
  qed
  show ?thesis using assms(1)
  proof cases
    case same
    then show ?thesis using assms(3) by (simp add: retrying_def)
  next
    case (create row)
    then show ?thesis using assms(3) by (auto simp: retrying_def tbl_simps)
  next
    case (decide old new)
    then show ?thesis using assms(3) by (intro retrying_other [OF ok(1) decide(1)]) auto
  next
    case (start old new a)
    then show ?thesis using assms(3) by (intro retrying_other [OF ok(1) start(1)]) (auto simp: attempt_added_def)
  next
    case (revoke old new a)
    then show ?thesis using assms(3) by (intro retrying_other [OF ok(1) revoke(1)]) (auto simp: attempt_added_def)
  next
    case (finish old new status st i a)
    have "rl_id old \<noteq> x"
    proof
      assume "rl_id old = x"
      then have "filter (open_attempt x) (rd_attempts db) = [a]" "filter (open_attempt x) (rd_attempts db) = [b]"
        using open_attempts_of [OF ok(2) r(1)] r(2) finish(6) lock_attempt_row [OF finish(5)] b
        by (auto intro!: only_open_attempt simp: open_attempt_def)
      then show False using lock_attempt_row(4) [OF finish(5)] b(3) by simp
    qed
    moreover have "st \<noteq> AttemptStatusPending" using finish(4) by auto
    ultimately show ?thesis
      using kept [OF finish(7)] b r replaced_row [OF ok(1) finish(1)] by (auto simp: retrying_def open_attempt_def)
  next
    case (settle y i a st)
    have "inj_on am_ID (set (rd_attempts db))" using ok(2) by (simp add: attempts_ok_def distinct_map)
    then have "am_ID b \<noteq> i"
      using lock_attempt_row [OF settle(2)] b inj_onD [of am_ID "set (rd_attempts db)" b a] by auto
    then show ?thesis using kept [OF settle(3,4)] b r settle(1) by (auto simp: retrying_def)
  qed
qed

lemma retrying_forever:
  assumes "history u pg (h' @ db # h)" "retrying x db"
  shows "\<forall>s\<in>set h'. retrying x s"
  using assms(1)
proof (induction h')
  case (Cons s h')
  obtain prev rest where prev: "h' @ db # h = prev # rest" by (cases h') auto
  have "history u pg (prev # rest)" using Cons.prems prev by (auto elim: history_stepE)
  then have "\<forall>s\<in>set h'. retrying x s" using Cons.IH prev by simp
  moreover from this have "retrying x prev" using prev assms(2) by (cases h') auto
  moreover have "effect prev s" "sound prev" using history_effect [of u pg s prev rest] Cons.prems prev by auto
  ultimately show ?case using retrying_effect by auto
qed simp

text \<open>C29. A retried publication never ends. Once a release is PUBLISHING by a retry attempt, in every later
  state of every history it is still PUBLISHING and the attempt is still pending: the worker settles
  attempts of the kind publish only, and nothing else moves a release out of PUBLISHING.\<close>

theorem retried_release_stuck:
  assumes "history u pg (h' @ db # h)" "release_at db x = Some r" "rl_status r = StatusPublishing"
    "a \<in> set (rd_attempts db)" "am_ReleaseID a = x" "am_Kind a = AttemptKindRetry" "am_Status a = AttemptStatusPending"
    "s \<in> set h'"
  shows "\<exists>r' a'. release_at s x = Some r' \<and> rl_status r' = StatusPublishing
    \<and> a' \<in> set (rd_attempts s) \<and> am_ReleaseID a' = x \<and> am_Kind a' = AttemptKindRetry \<and> am_Status a' = AttemptStatusPending"
proof -
  have "retrying x db" using assms(2-7) by (auto simp: retrying_def open_attempt_def)
  then have "retrying x s" using retrying_forever [OF assms(1)] assms(8) by blast
  then show ?thesis by (auto simp: retrying_def open_attempt_def)
qed

section \<open>Reading a release\<close>

text \<open>C27. A governed principal learns nothing about releases it may not read. A read succeeds exactly when the
  release exists under the product and the authorizer allows \<open>product.read\<close> in the channel of the
  release; in every other case, release or no release, the answer is the same not-found error. The
  coarse check in front never refuses what the fine one allows.\<close>

theorem governed_read_exact:
  assumes "p_Governed who" "release_dependencies service = None" "pg_text (trim_space p)"
  shows "Release_Get service who p x db = (case find_release (trim_space p) x db of
      None \<Rightarrow> Inl ErrReleaseNotFound
    | Some row \<Rightarrow> if RequireInChannel who ActionProductRead (trim_space p) (rl_channel row) = None
        then Inr (with_artifacts row db) else Inl ErrReleaseNotFound)"
proof (cases "RequireProductActionCandidate who ActionProductRead (trim_space p)")
  case None
  then show ?thesis using assms
    by (auto simp: Release_Get_def requireReleaseLookup_def authorized_release_def loadRelease_def with_artifacts_def split: option.splits)
next
  case (Some e)
  have "isProductScoped ActionProductRead" by (simp add: isProductScoped_def)
  then have no: "RequireInChannel who ActionProductRead (trim_space p) c \<noteq> None" for c
    using Some RequireInChannel_candidate by fastforce
  have "Release_Get service who p x db = Inl ErrReleaseNotFound"
    using assms Some by (simp add: Release_Get_def requireReleaseLookup_def)
  then show ?thesis using no by (cases "find_release (trim_space p) x db") auto
qed

section \<open>Compatibility documents\<close>

definition result_option :: "'e + 'a \<Rightarrow> 'a option" where
  "result_option r = (case r of Inl _ \<Rightarrow> None | Inr x \<Rightarrow> Some x)"

text \<open>The walk of the release service accepts what the walk of the product manifest accepts.\<close>

lemma validate_inspect:
  "(\<forall>d. validateUniqueJSONValue n d = result_option (inspectJSONValue n d))
   \<and> (\<forall>seen d. unique_object n seen d = result_option (inspect_members n seen d))
   \<and> (\<forall>d. unique_array n d = result_option (inspect_elements n d))"
proof (induction n)
  case 0
  then show ?case by (simp add: result_option_def)
next
  case (Suc n)
  have "result_option (res_bind r f) = (case result_option r of None \<Rightarrow> None | Some x \<Rightarrow> result_option (f x))"
    for r :: "product_error + decoder" and f :: "decoder \<Rightarrow> product_error + decoder"
    by (cases r) (simp_all add: result_option_def)
  moreover have "result_option (Inl e :: product_error + decoder) = None" "result_option (Inr x :: product_error + decoder) = Some x" for e x
    by (simp_all add: result_option_def)
  ultimately show ?case
    using Suc by (auto simp: inspectJSONValue.simps(2) inspect_members.simps(2) split: sum.split prod.split token.split option.split)
qed

lemma unique_value_read:
  "validateUniqueJSONValue n d = Some d' \<longleftrightarrow> (\<exists>v. read_value n d = Inr (v, d') \<and> unique_keys v)"
  using inspect_read [of n] validate_inspect [of n] by (auto simp: result_option_def split: sum.splits)

lemma Token_EOF: "skip_space (d_buf d) = [] \<Longrightarrow> Token d = Inl JEOF"
  by (subst Token.simps) simp

lemma required_keys_exact:
  assumes "distinct (map fst ms)" "distinct req"
  shows "length (remdups (map fst ms)) = length req \<and> \<not> list_ex (\<lambda>key. map_of (rev ms) key = None \<or> map_of (rev ms) key = Some JNull) req
     \<longleftrightarrow> set (map fst ms) = set req \<and> (\<forall>m\<in>set ms. snd m \<noteq> JNull)"
proof -
  have rev: "map_of (rev ms) = map_of ms" using assms(1) by (intro map_of_inject_set [THEN iffD2]) (simp_all add: rev_map [symmetric])
  have dom: "map_of ms k = None \<longleftrightarrow> k \<notin> set (map fst ms)" for k by (simp add: map_of_eq_None_iff)
  have val: "map_of ms k = Some v \<longleftrightarrow> (k, v) \<in> set ms" for k v using assms(1) by simp
  have len: "length (remdups (map fst ms)) = card (set (map fst ms))" by (simp add: length_remdups_card_conv)
  have req: "length req = card (set req)" using assms(2) by (simp add: distinct_card)
  show ?thesis
  proof
    assume a: "length (remdups (map fst ms)) = length req \<and> \<not> list_ex (\<lambda>key. map_of (rev ms) key = None \<or> map_of (rev ms) key = Some JNull) req"
    then have "set req \<subseteq> set (map fst ms)" using rev dom by (auto simp: list_ex_iff)
    then have eq: "set (map fst ms) = set req" using a len req card_subset_eq [of "set (map fst ms)" "set req"] by simp
    moreover have "snd m \<noteq> JNull" if "m \<in> set ms" for m
    proof
      assume "snd m = JNull"
      then have "(fst m, JNull) \<in> set ms" using that by (metis prod.collapse)
      then have "map_of (rev ms) (fst m) = Some JNull" "fst m \<in> set req" using that eq rev val [of "fst m" JNull] by auto
      then show False using a by (auto simp: list_ex_iff)
    qed
    ultimately show "set (map fst ms) = set req \<and> (\<forall>m\<in>set ms. snd m \<noteq> JNull)" by blast
  next
    assume b: "set (map fst ms) = set req \<and> (\<forall>m\<in>set ms. snd m \<noteq> JNull)"
    then show "length (remdups (map fst ms)) = length req \<and> \<not> list_ex (\<lambda>key. map_of (rev ms) key = None \<or> map_of (rev ms) key = Some JNull) req"
      using len req rev dom val by (auto simp: list_ex_iff)
  qed
qed


section \<open>Witnesses\<close>

definition sample_releaser :: Principal where
  "sample_releaser = sample_principal ''ana'' ''human'' 1 [sample_scope ''approver'' ''allow'' ''platform'' [] [],
     sample_scope ''admin'' ''allow'' ''platform'' [] []]"

definition full_release_service :: release_service where
  "full_release_service = \<lparr>rsv_repository = True, rsv_transactor = True, rsv_products = True, rsv_artifacts = Some full_service,
     rsv_auditor = True, rsv_jobs = True\<rparr>"

text \<open>A release submitted by another person, in the given state.\<close>

definition sample_release :: "release_status \<Rightarrow> int \<Rightarrow> string option \<Rightarrow> string option \<Rightarrow> release_row" where
  "sample_release status lock approver revoker = \<lparr>rl_id = 20, rl_product_id = ''p1'', rl_channel = ''x'', rl_version = ''1.0.0'',
     rl_status = status, rl_lock_version = lock, rl_notes = ''x'', rl_notes_sha256 = sample_digest, rl_compatibility = ''{}'',
     rl_compatibility_sha256 = sample_digest,
     rl_source = \<lparr>so_Repository = ''x'', so_CommitSHA = replicate 40 (CHR ''0''), so_Tag = ''x'', so_PipelineRef = ''x''\<rparr>,
     rl_created_by = ''x'', rl_created_at = 1000, rl_updated_at = 1000, rl_submitted_by = Some ''x'', rl_submitted_at = Some 1000,
     rl_approved_by = approver, rl_approved_at = map_option (\<lambda>_. 1000) approver, rl_rejected_by = None, rl_rejected_at = None,
     rl_rejection_reason = None, rl_revoked_at = map_option (\<lambda>_. 1000) revoker, rl_revoked_by = revoker,
     rl_revocation_reason = revoker, rl_failure_code = None\<rparr>"

definition sample_attempt :: "attempt_kind \<Rightarrow> attempt_status \<Rightarrow> Attempt" where
  "sample_attempt kind status = \<lparr>am_ID = 30, am_ReleaseID = 20, am_Kind = kind, am_Number = 1, am_IdempotencyKey = ''release.create'',
     am_Status = status, am_ErrorCode = None, am_CreatedBy = ''ana'', am_CreatedAt = 1000, am_UpdatedAt = 1000\<rparr>"

definition sample_releases :: "release_row \<Rightarrow> Attempt list \<Rightarrow> release_db" where
  "sample_releases row attempts = \<lparr>rd_platform = snd sample_platform, rd_releases = [row], rd_artifacts = [], rd_attempts = attempts\<rparr>"

lemma release_words:
  "list_all graphic ''1.0.0''" "list_all graphic ''20''" "list_all graphic ''release.approve''" "list_all graphic ''release.publish''"
  "list_all graphic ''catalog.publish.v1''" "list_all graphic ''{}''" "list_all graphic (replicate 40 (CHR ''0''))"
  by (simp_all add: graphic_def in_range_def byte_val_def numeral_eq_Suc)

lemmas release_text = release_words [THEN trim_space_graphic] release_words [THEN pg_text_graphic] release_words [THEN pg_length_graphic]

lemma sample_commit: "matches commitSHAPattern (replicate 40 (CHR ''0''))"
  by (simp add: commitSHAPattern_def matches_lang)
     (simp add: lang_rep_Cls is_hex_def is_digit_def in_range_def byte_val_def list_all_length)

lemma sample_release_ok:
  assumes "(status, approver, revoker) \<in> {(StatusSubmitted, None, None), (StatusApproved, Some ''x'', None), (StatusApproved, Some ''ana'', None),
     (StatusPublishing, Some ''ana'', None), (StatusPublished, Some ''ana'', None), (StatusPublished, Some ''ana'', Some ''ana'')}" "1 \<le> lock" "lock \<le> 9"
  shows "release_row_ok (sample_release status lock approver revoker)"
  using assms sample_commit sample_digest_format
  by (auto simp: release_row_ok_def sample_release_def pg_length_between_def sample_text release_text sample_json_object
      submission_consistent_def decision_consistent_def revocation_consistent_def null_or_def int8_max_def)

lemma sample_sound:
  assumes "release_row_ok row" "rl_id row = 20" "rl_submitted_by row = Some ''x''" "rl_approved_by row \<noteq> Some ''x''" "rl_rejected_by row = None"
    "rl_status row \<noteq> StatusDraft"
    "attempts = [] \<and> rl_status row \<noteq> StatusPublishing \<or> (\<exists>kind. kind \<noteq> AttemptKindRevoke \<and> attempts = [sample_attempt kind AttemptStatusPending] \<and> rl_status row = StatusPublishing)
      \<or> (\<exists>kind. attempts = [sample_attempt kind AttemptStatusSucceeded] \<and> rl_status row \<noteq> StatusPublishing)"
  shows "sound (sample_releases row attempts)"
  using assms by (auto simp: sound_def sample_releases_def releases_ok_def attempts_ok_def tbl_get_def open_attempt_def sample_attempt_def
      decided_apart_def split: if_splits)

lemma dec_nat_20: "u_string sample_uuid 20 = ''20''"
  by code_simp

lemma release_patterns: "matches auditActionPattern ''release.approve''" "matches auditActionPattern ''release.publish''"
  by (simp_all add: auditActionPattern_def name_segment_def plus_re_def name_separator_def is_lower_def is_digit_def in_range_def byte_val_def)

lemma sample_release_audit:
  assumes "action = ''release.approve'' \<or> action = ''release.publish''" "encodeRedactedMetadata md = Inr js" "json_object js"
    "pl_audit (rd_platform db) = empty_audit"
  shows "\<exists>e db'. release_audit sample_uuid sample_call sample_releaser sample_request action ''p1'' ''release'' (u_string sample_uuid 20)
     OutcomeSuccess md db = (Inr e, db')"
proof -
  let ?c = "\<lparr>ac_Actor = sample_releaser, ac_Action = action, ac_ProductID = ''p1'', ac_ResourceType = ''release'',
    ac_ResourceID = u_string sample_uuid 20, ac_Outcome = OutcomeSuccess, ac_RequestID = rc_RequestID sample_request,
    ac_SourceIP = rc_SourceIP sample_request, ac_Metadata = md\<rparr>"
  let ?e = "sample_event\<lparr>ev_OccurredAt := 5000, ev_Action := action, ev_ResourceID := ''20'', ev_Metadata := js, ev_PreviousHash := []\<rparr>"
  have "new_event sample_uuid (cl_audit sample_call) ?c = Inr ?e"
    using assms(1,2) release_patterns sample_patterns(2) unfolding dec_nat_20
    by (auto simp: new_event_def sample_releaser_def sample_principal_def sample_event_def sample_uuid_def sample_call_def
        sample_request_def sample_text release_text Let_def Validate_def)
  moreover have "event_insertable [] (?e\<lparr>ev_PreviousHash := zeroHash, ev_OccurredAt := t, ev_EventHash := h\<rparr>)" if "hash_format h" for h t
    using that assms(1,3) by (auto simp: event_insertable_def sample_event_def pg_length_between_def sample_text release_text
        tbl_has_def zeroHash_format inet_ok_def)
  moreover have "pg_text (partition_key (ev_ProductID ?e))"
    by (simp add: sample_event_def partition_key_def sample_text)
  ultimately have "\<exists>e au. Append sample_uuid \<lparr>as_repository = True, as_jobEnqueuer = True\<rparr> (cl_audit sample_call) ?c empty_audit = (Inr e, au)"
    by (intro append_first [where ?e0.0 = ?e]) auto
  then show ?thesis using assms(4) by (auto simp: release_audit_def on_log_def on_platform_def)
qed

lemma sample_allowed:
  "RequireInChannel sample_releaser ActionReleaseApprove ''p1'' ''x'' = None"
  "RequireInChannel sample_releaser ActionReleasePublish ''p1'' ''x'' = None"
  "RequireInChannel sample_releaser ActionProductRead ''p1'' ''x'' = None"
  by (simp_all add: RequireInChannel_def Validate_def sample_releaser_def sample_principal_def sample_scope_def requireGoverned_def
      isProductScoped_def scopeAllowedByAuthenticationAssurance_def rolePermitsAction_def permissions_def scopeMatches_def sample_text)

lemma sample_lookup:
  "requireReleaseLookup sample_releaser ActionReleaseApprove ''p1'' = None"
  "requireReleaseLookup sample_releaser ActionReleasePublish ''p1'' = None"
  using RequireInChannel_candidate [OF _ sample_allowed(1)] RequireInChannel_candidate [OF _ sample_allowed(2)]
  by (simp_all add: requireReleaseLookup_def isProductScoped_def)

lemma sample_dependencies: "release_dependencies full_release_service = None"
  by (simp add: release_dependencies_def full_release_service_def)

lemma sample_load:
  assumes "rl_id row = 20" "rl_product_id row = ''p1''" "rl_channel row = ''x''"
    "action \<in> {ActionReleaseApprove, ActionReleasePublish}"
  shows "authorized_release sample_releaser action ''p1'' 20 (sample_releases row attempts)
     = Inr (with_artifacts row (sample_releases row attempts))"
  using assms sample_allowed
  by (auto simp: authorized_release_def loadRelease_def find_release_def sample_releases_def with_artifacts_def sample_text)

abbreviation sample_submitted :: release_db where
  "sample_submitted \<equiv> sample_releases (sample_release StatusSubmitted 2 None None) []"

lemma sample_approve_request:
  "approve_request full_release_service sample_releaser ''p1'' 20 sample_submitted
     = Inr (with_artifacts (sample_release StatusSubmitted 2 None None) sample_submitted)"
proof -
  have "approver_error sample_releaser = None"
    by (simp add: approver_error_def requireExplicitApprover_def sample_releaser_def sample_principal_def sample_scope_def)
  moreover have "authorized_release sample_releaser ActionReleaseApprove ''p1'' 20 sample_submitted
     = Inr (with_artifacts (sample_release StatusSubmitted 2 None None) sample_submitted)"
    by (rule sample_load) (simp_all add: sample_release_def)
  ultimately show ?thesis
    by (simp add: approve_request_def sample_dependencies sample_lookup sample_text not_submitter_def transition_guard_def
        with_artifacts_def coalesce_def)
      (simp add: sample_release_def sample_releaser_def sample_principal_def sample_text)
qed

lemma sample_approve_metadata:
  "\<exists>js. encodeRedactedMetadata [(''from'', AnyString (status_text StatusSubmitted)), (''to'', AnyString (status_text StatusApproved)),
     (''lock_version'', AnyInt 3)] = Inr js \<and> json_object js"
proof -
  let ?js = "marshal_any (AnyMap (redactMap [(''from'', AnyString (status_text StatusSubmitted)), (''to'', AnyString (status_text StatusApproved)),
     (''lock_version'', AnyInt 3)]))"
  have "json_object ?js" by code_simp
  moreover have "length ?js \<le> 99" by code_simp
  ultimately show ?thesis by (simp add: encodeRedactedMetadata_def maximumMetadataBytes_def Let_def del: marshal_any.simps)
qed

lemma sample_call_values: "cl_db_now sample_call = 5000" "call_time sample_call = 5000" "cl_id sample_call = Some 9"
    "ca_job_id (cl_audit sample_call) = Some 2" "pg_timestamp 5000 = 5000"
  by (simp_all add: sample_call_def truncate_time_def microsecond_def pg_timestamp_def)

text \<open>A transition on the one row of the sample tables.\<close>

lemma sample_update:
  assumes "p row" "protect_release_transition 5000 row (f row) = Some new" "release_row_ok new" "rl_id new = rl_id row"
  shows "update_release 5000 p f (sample_releases row attempts) = (Inr (Some new), sample_releases new attempts)"
  using assms by (simp add: update_release_def act_write_def sample_releases_def tbl_put_def)

definition sample_approved :: release_row where
  "sample_approved = (sample_release StatusApproved 3 (Some ''ana'') None)\<lparr>rl_approved_at := Some 5000, rl_updated_at := 5000\<rparr>"

lemma sample_approved_ok: "release_row_ok sample_approved"
  using sample_release_ok [of StatusApproved "Some ''ana''" None 3]
  by (simp add: release_row_ok_def sample_approved_def submission_consistent_def decision_consistent_def revocation_consistent_def sample_release_def)

lemma sample_approve:
  "\<exists>rel db'. transition_tx sample_uuid sample_call sample_releaser sample_request 2 StatusApproved []
      (with_artifacts (sample_release StatusSubmitted 2 None None) sample_submitted) sample_submitted = (Inr rel, db')
    \<and> rd_releases db' = [sample_approved] \<and> rd_attempts db' = []"
proof -
  let ?row = "sample_release StatusSubmitted 2 None None"
  let ?cmd = "\<lparr>tc_ReleaseID = 20, tc_ProductID = ''p1'', tc_From = StatusSubmitted, tc_To = StatusApproved, tc_ExpectedLockVersion = 2,
    tc_Actor = ''ana'', tc_Reason = [], tc_At = 5000\<rparr>"
  have "protect_release_transition 5000 ?row (transition_set ?cmd ?row) = Some sample_approved"
    by (simp add: protect_release_transition_def transition_set_def release_fixed_def sample_release_def sample_approved_def
        sample_call_values revocation_of_def)
  moreover have "transition_where ?cmd ?row" by (simp add: transition_where_def sample_release_def)
  moreover have "rl_id sample_approved = rl_id ?row" by (simp add: sample_approved_def sample_release_def)
  ultimately have up: "update_release 5000 (transition_where ?cmd) (transition_set ?cmd) sample_submitted
      = (Inr (Some sample_approved), sample_releases sample_approved [])"
    by (intro sample_update sample_approved_ok)
  have tr: "Transition 5000 ?cmd sample_submitted = (Inr (with_artifacts sample_approved (sample_releases sample_approved [])), sample_releases sample_approved [])"
    by (simp add: Transition_def act_bind_def act_read_def up sample_text)
  obtain js where js: "encodeRedactedMetadata [(''from'', AnyString (status_text StatusSubmitted)), (''to'', AnyString (status_text StatusApproved)),
     (''lock_version'', AnyInt 3)] = Inr js" "json_object js"
    using sample_approve_metadata by blast
  have "pl_audit (rd_platform (sample_releases sample_approved [])) = empty_audit" by (simp add: sample_releases_def sample_platform_def)
  then obtain e db' where au: "release_audit sample_uuid sample_call sample_releaser sample_request ''release.approve'' ''p1'' ''release'' (u_string sample_uuid 20)
     OutcomeSuccess [(''from'', AnyString (status_text StatusSubmitted)), (''to'', AnyString (status_text StatusApproved)),
     (''lock_version'', AnyInt 3)] (sample_releases sample_approved []) = (Inr e, db')"
    using sample_release_audit [OF _ js, of "''release.approve''"] by blast
  have row: "rl_id ?row = 20" "rl_product_id ?row = ''p1''" "rl_status ?row = StatusSubmitted" "rl_lock_version sample_approved = 3"
    by (simp_all add: sample_release_def sample_approved_def)
  have "trim_space (p_Subject sample_releaser) = ''ana''" by (simp add: sample_releaser_def sample_principal_def sample_text)
  then have "transition_tx sample_uuid sample_call sample_releaser sample_request 2 StatusApproved [] (with_artifacts ?row sample_submitted) sample_submitted
      = (Inr (with_artifacts sample_approved (sample_releases sample_approved [])), db')"
    using tr au row by (simp add: transition_tx_def within_tx_def act_bind_def act_return_def with_artifacts_def sample_call_values Let_def)
  moreover have "rd_releases db' = [sample_approved]" "rd_attempts db' = []"
    using release_audit_tables [OF au] by (auto simp: tables_def sample_releases_def)
  ultimately show ?thesis by blast
qed

definition plain_pg :: pg_lib where
  "plain_pg = \<lparr>pg_inet_host = (\<lambda>s. s), pg_jsonb_text = (\<lambda>s. s)\<rparr>"

lemma sample_history:
  "\<exists>db. history sample_uuid pg [db, sample_submitted] \<and> rd_releases db = [sample_approved]
     \<and> release_write sample_uuid 20 2 sample_submitted db"
proof -
  obtain rel db where run: "transition_tx sample_uuid sample_call sample_releaser sample_request 2 StatusApproved []
      (with_artifacts (sample_release StatusSubmitted 2 None None) sample_submitted) sample_submitted = (Inr rel, db)"
      "rd_releases db = [sample_approved]"
    using sample_approve by blast
  have "sound sample_submitted"
    by (rule sample_sound [OF sample_release_ok]) (auto simp: sample_release_def)
  then have "history sample_uuid pg [sample_submitted]" by (rule history.start)
  moreover have "operation sample_uuid pg (set [sample_submitted]) sample_submitted db"
    by (rule operation.service [OF service_operation.approve [OF _ sample_approve_request run(1)]]) simp
  ultimately have "history sample_uuid pg [db, sample_submitted]" by (rule history.step)
  moreover have "release_write sample_uuid 20 2 sample_submitted db"
    by (rule release_write.transition [OF run(1)]) (simp add: with_artifacts_def sample_release_def)
  ultimately show ?thesis using run(2) by blast
qed

theorem histories_refine_workflow_witness:
  "\<exists>db r'. history sample_uuid plain_pg [db, sample_submitted] \<and> release_at db 20 = Some r' \<and> rl_status r' = StatusApproved
     \<and> workflow (view (sample_release StatusSubmitted 2 None None)) (view r')"
proof -
  obtain db where db: "history sample_uuid plain_pg [db, sample_submitted]" "rd_releases db = [sample_approved]"
    using sample_history by blast
  have "release_at sample_submitted 20 = Some (sample_release StatusSubmitted 2 None None)" "release_at db 20 = Some sample_approved"
    using db(2) by (simp_all add: tbl_get_def sample_releases_def) (simp_all add: sample_release_def sample_approved_def)
  moreover have "view sample_approved \<noteq> view (sample_release StatusSubmitted 2 None None)" "rl_status sample_approved = StatusApproved"
    by (simp_all add: view_def sample_approved_def sample_release_def)
  ultimately show ?thesis using histories_refine_workflow [OF db(1)] db(1) by fastforce
qed

theorem separation_of_duties_witness:
  "\<exists>db r. history sample_uuid plain_pg [db, sample_submitted] \<and> release_at db 20 = Some r \<and> rl_approved_by r = Some ''ana''
     \<and> (\<exists>b. rl_submitted_by r = Some b \<and> ''ana'' \<noteq> b)"
proof -
  obtain db where db: "history sample_uuid plain_pg [db, sample_submitted]" "rd_releases db = [sample_approved]"
    using sample_history by blast
  have "release_at db 20 = Some sample_approved" "rl_approved_by sample_approved = Some ''ana''"
    using db(2) by (simp_all add: tbl_get_def) (simp_all add: sample_release_def sample_approved_def)
  then show ?thesis using separation_of_duties [OF db(1), of 20 sample_approved "''ana''"] db(1) by blast
qed

theorem lock_version_wins_once_witness:
  "\<exists>db. release_write sample_uuid 20 2 sample_submitted db \<and> \<not> release_write sample_uuid 20 2 db db"
proof -
  obtain db where db: "history sample_uuid plain_pg [db, sample_submitted]" "release_write sample_uuid 20 2 sample_submitted db"
    using sample_history by blast
  then show ?thesis using lock_version_wins_once [OF db(1), of sample_submitted db 20 2 db] by auto
qed

theorem revocation_final_witness:
  "\<exists>r'. release_at (sample_releases (sample_release StatusPublished 6 (Some ''ana'') (Some ''ana'')) []) 20 = Some r'
     \<and> rl_status r' = StatusPublished \<and> view r' = view (sample_release StatusPublished 6 (Some ''ana'') (Some ''ana''))"
proof -
  let ?row = "sample_release StatusPublished 6 (Some ''ana'') (Some ''ana'')"
  have "sound (sample_releases ?row [])"
    by (rule sample_sound [OF sample_release_ok]) (auto simp: sample_release_def)
  then have "history sample_uuid plain_pg [sample_releases ?row []]" by (rule history.start)
  moreover have "release_at (sample_releases ?row []) 20 = Some ?row" "rl_revoked_at ?row \<noteq> None"
    by (simp_all add: tbl_get_def sample_releases_def) (simp_all add: sample_release_def)
  ultimately show ?thesis using revocation_final [of sample_uuid plain_pg "sample_releases ?row []" "[]" "sample_releases ?row []" 20 ?row] by simp
qed


text \<open>The worker reports the retried publication complete; the report is refused.\<close>

theorem retried_release_stuck_witness:
  "let db = sample_releases (sample_release StatusPublishing 6 (Some ''ana'') None) [sample_attempt AttemptKindRetry AttemptStatusPending] in
   within_tx (CompletePublication 5000 20 30 5000) db = (Inl ErrAttemptNotFound, db)
   \<and> (\<exists>r' a'. release_at db 20 = Some r' \<and> rl_status r' = StatusPublishing
    \<and> a' \<in> set (rd_attempts db) \<and> am_ReleaseID a' = 20 \<and> am_Kind a' = AttemptKindRetry \<and> am_Status a' = AttemptStatusPending)"
proof -
  let ?row = "sample_release StatusPublishing 6 (Some ''ana'') None"
  let ?a = "sample_attempt AttemptKindRetry AttemptStatusPending"
  let ?db = "sample_releases ?row [?a]"
  have "sound ?db"
    by (rule sample_sound [OF sample_release_ok]) (auto simp: sample_release_def)
  then have "history sample_uuid plain_pg [?db]" by (rule history.start)
  moreover have run: "within_tx (CompletePublication 5000 20 30 5000) ?db = (Inl ErrAttemptNotFound, ?db)"
    by (simp add: within_tx_def CompletePublication_def act_bind_def act_read_def lock_attempt_def GetAttemptByID_def tbl_get_def
        sample_releases_def sample_attempt_def)
  ultimately have "history sample_uuid plain_pg ([?db] @ ?db # [])"
    using operation.complete [OF run] by (auto intro: history.step)
  moreover have "release_at ?db 20 = Some ?row" "rl_status ?row = StatusPublishing" "?a \<in> set (rd_attempts ?db)"
      "am_ReleaseID ?a = 20" "am_Kind ?a = AttemptKindRetry" "am_Status ?a = AttemptStatusPending"
    by (simp_all add: tbl_get_def sample_releases_def sample_attempt_def) (simp_all add: sample_release_def)
  ultimately show ?thesis using retried_release_stuck [of sample_uuid plain_pg "[?db]" ?db "[]" 20 ?row ?a ?db] run by (simp add: Let_def)
qed

theorem governed_read_exact_witness:
  "\<exists>row. Release_Get full_release_service sample_releaser ''p1'' 20 sample_submitted = Inr (with_artifacts row sample_submitted)
     \<and> rl_status row = StatusSubmitted"
proof -
  have "find_release ''p1'' 20 sample_submitted = Some (sample_release StatusSubmitted 2 None None)"
      "rl_channel (sample_release StatusSubmitted 2 None None) = ''x''" "rl_status (sample_release StatusSubmitted 2 None None) = StatusSubmitted"
    by (simp_all add: find_release_def sample_releases_def) (simp_all add: sample_release_def)
  moreover have "p_Governed sample_releaser" by (simp add: sample_releaser_def sample_principal_def)
  ultimately show ?thesis
    using governed_read_exact [of sample_releaser full_release_service "''p1''" 20 sample_submitted] sample_allowed(3) sample_dependencies
    by (intro exI [of _ "sample_release StatusSubmitted 2 None None"]) (simp add: sample_text)
qed

definition sample_compatibility :: bytes where
  "sample_compatibility = ''{'' @ [CHR 0x22] @ ''os'' @ [CHR 0x22] @ '':1}''"


abbreviation sample_ready :: release_db where
  "sample_ready \<equiv> sample_releases sample_approved []"

lemma sample_approved_row: "rl_id sample_approved = 20" "rl_product_id sample_approved = ''p1''" "rl_channel sample_approved = ''x''"
    "rl_status sample_approved = StatusApproved" "rl_lock_version sample_approved = 3" "rl_submitted_by sample_approved = Some ''x''"
    "rl_approved_by sample_approved = Some ''ana''" "rl_rejected_by sample_approved = None"
  by (simp_all add: sample_approved_def sample_release_def)

lemma sample_key: "matches idempotencyPattern ''release.create''"
  by code_simp

definition sample_new_attempt :: Attempt where
  "sample_new_attempt = \<lparr>am_ID = 9, am_ReleaseID = 20, am_Kind = AttemptKindPublish, am_Number = 0, am_IdempotencyKey = ''release.create'',
     am_Status = AttemptStatusPending, am_ErrorCode = None, am_CreatedBy = ''ana'', am_CreatedAt = 5000, am_UpdatedAt = 5000\<rparr>"

lemma sample_subject: "trim_space (p_Subject sample_releaser) = ''ana''"
  by (simp add: sample_releaser_def sample_principal_def sample_text)

lemma sample_publication_request:
  "publication_request full_release_service sample_call sample_releaser ActionReleasePublish AttemptKindPublish ''p1'' 20 ''release.create'' sample_ready
     = Inr (Start (with_artifacts sample_approved sample_ready) sample_new_attempt)"
proof -
  have "FindAttempt 20 AttemptKindPublish ''release.create'' sample_ready = Inl ErrAttemptNotFound"
    by (simp add: FindAttempt_def sample_releases_def tbl_get_def sample_text)
  then show ?thesis
    using sample_load [of sample_approved ActionReleasePublish "[]"] sample_approved_row sample_key
    by (simp add: publication_request_def sample_dependencies sample_lookup sample_text existing_or_def newAttempt_def
        sample_call_values sample_subject sample_new_attempt_def with_artifacts_def)
qed

definition sample_publishing :: release_row where
  "sample_publishing = sample_approved\<lparr>rl_status := StatusPublishing, rl_lock_version := 4\<rparr>"

lemma sample_publishing_ok: "release_row_ok sample_publishing"
  using sample_approved_ok
  by (simp add: release_row_ok_def sample_publishing_def submission_consistent_def decision_consistent_def revocation_consistent_def
      sample_approved_row int8_max_def)

lemma sample_publish_transition:
  "Transition 5000 \<lparr>tc_ReleaseID = 20, tc_ProductID = ''p1'', tc_From = StatusApproved, tc_To = StatusPublishing, tc_ExpectedLockVersion = 3,
      tc_Actor = ''ana'', tc_Reason = [], tc_At = 5000\<rparr> sample_ready
    = (Inr (with_artifacts sample_publishing (sample_releases sample_publishing [])), sample_releases sample_publishing [])"
proof -
  let ?cmd = "\<lparr>tc_ReleaseID = 20, tc_ProductID = ''p1'', tc_From = StatusApproved, tc_To = StatusPublishing, tc_ExpectedLockVersion = 3,
      tc_Actor = ''ana'', tc_Reason = [], tc_At = 5000\<rparr>"
  have "protect_release_transition 5000 sample_approved (transition_set ?cmd sample_approved) = Some sample_publishing"
    by (simp add: protect_release_transition_def transition_set_def release_fixed_def sample_call_values revocation_of_def Let_def
        sample_approved_row sample_publishing_def) (simp add: sample_approved_def sample_release_def)
  moreover have "transition_where ?cmd sample_approved" by (simp add: transition_where_def sample_approved_row)
  moreover have "rl_id sample_publishing = rl_id sample_approved" by (simp add: sample_publishing_def)
  ultimately have "update_release 5000 (transition_where ?cmd) (transition_set ?cmd) sample_ready
      = (Inr (Some sample_publishing), sample_releases sample_publishing [])"
    by (intro sample_update sample_publishing_ok)
  then show ?thesis by (simp add: Transition_def act_bind_def act_read_def sample_text)
qed

lemma sample_job_payload: "json_object (marshal_string_map [(''release_id'', u_string sample_uuid 20), (''attempt_id'', u_string sample_uuid 9)])"
  by code_simp

lemma sample_publish_metadata:
  "\<exists>js. encodeRedactedMetadata [(''attempt_id'', AnyString (u_string sample_uuid 9)), (''attempt_kind'', AnyString (kind_text AttemptKindPublish)),
     (''lock_version'', AnyInt 4)] = Inr js \<and> json_object js"
proof -
  let ?js = "marshal_any (AnyMap (redactMap [(''attempt_id'', AnyString (u_string sample_uuid 9)), (''attempt_kind'', AnyString (kind_text AttemptKindPublish)),
     (''lock_version'', AnyInt 4)]))"
  have "json_object ?js" by code_simp
  moreover have "length ?js \<le> 99" by code_simp
  ultimately show ?thesis by (simp add: encodeRedactedMetadata_def maximumMetadataBytes_def Let_def del: marshal_any.simps)
qed

lemma sample_start:
  "\<exists>upd b db'. publication_tx sample_uuid sample_call sample_releaser sample_request ''p1'' 3 (with_artifacts sample_approved sample_ready)
      sample_new_attempt sample_ready = (Inr (Inr (upd, b)), db') \<and> rd_attempts db' \<noteq> []"
proof -
  let ?mid = "sample_releases sample_publishing []"
  let ?b = "sample_new_attempt\<lparr>am_Number := 1\<rparr>"
  have create: "CreateAttempt sample_new_attempt ?mid = (Inr ?b, ?mid\<lparr>rd_attempts := [?b]\<rparr>)"
    by (simp add: CreateAttempt_def act_write_def Let_def sample_releases_def next_attempt_number_def sample_new_attempt_def tbl_has_def
        int4_max_def pg_length_between_def sample_text sample_call_values sample_publishing_def sample_approved_row)
  obtain ob where enq: "enqueueReleaseJob sample_uuid sample_call ''catalog.publish.v1'' ?b 5000 (?mid\<lparr>rd_attempts := [?b]\<rparr>)
      = (Inr (), ?mid\<lparr>rd_attempts := [?b], rd_platform := (snd sample_platform)\<lparr>pl_outbox := ob\<rparr>\<rparr>)"
    using sample_job_payload
    by (simp add: enqueueReleaseJob_def New_def Enqueue_def act_bind_def act_lift_def act_write_def on_outbox_def on_platform_def
        sample_call_values sample_new_attempt_def release_text tbl_has_def sample_releases_def sample_platform_def)
  obtain js where js: "encodeRedactedMetadata [(''attempt_id'', AnyString (u_string sample_uuid 9)), (''attempt_kind'', AnyString (kind_text AttemptKindPublish)),
     (''lock_version'', AnyInt 4)] = Inr js" "json_object js"
    using sample_publish_metadata by blast
  obtain e db' where au: "release_audit sample_uuid sample_call sample_releaser sample_request ''release.publish'' ''p1'' ''release'' (u_string sample_uuid 20)
     OutcomeSuccess [(''attempt_id'', AnyString (u_string sample_uuid 9)), (''attempt_kind'', AnyString (kind_text AttemptKindPublish)),
     (''lock_version'', AnyInt 4)] (?mid\<lparr>rd_attempts := [?b], rd_platform := (snd sample_platform)\<lparr>pl_outbox := ob\<rparr>\<rparr>) = (Inr e, db')"
    using sample_release_audit [OF _ js, of "''release.publish''" "?mid\<lparr>rd_attempts := [?b], rd_platform := (snd sample_platform)\<lparr>pl_outbox := ob\<rparr>\<rparr>"]
    by (auto simp: sample_platform_def)
  have find: "FindAttempt 20 AttemptKindPublish ''release.create'' sample_ready = Inl ErrAttemptNotFound"
    by (simp add: FindAttempt_def sample_releases_def tbl_get_def sample_text)
  have b: "am_ReleaseID sample_new_attempt = 20" "am_Kind sample_new_attempt = AttemptKindPublish" "am_ID sample_new_attempt = 9"
      "am_IdempotencyKey sample_new_attempt = ''release.create''"
    by (simp_all add: sample_new_attempt_def)
  have lock: "rl_lock_version sample_publishing = 4" by (simp add: sample_publishing_def)
  have "publication_tx sample_uuid sample_call sample_releaser sample_request ''p1'' 3 (with_artifacts sample_approved sample_ready)
      sample_new_attempt sample_ready = (Inr (Inr (with_artifacts sample_publishing ?mid, ?b)), db')"
    using sample_publish_transition create enq au find b lock sample_approved_row
    by (simp add: publication_tx_def operation_tx_def within_tx_def act_bind_def act_try_def act_read_def act_return_def LockOperation_def
        sample_text sample_call_values sample_subject with_artifacts_def Let_def)
  moreover have "rd_attempts db' \<noteq> []" using release_audit_tables [OF au] by (auto simp: tables_def)
  ultimately show ?thesis by blast
qed

theorem publication_atomic_witness:
  "\<exists>res db' job. startPublication sample_uuid full_release_service sample_call sample_releaser ActionReleasePublish ''p1'' 20 3 AttemptKindPublish
       ''release.create'' sample_request sample_ready = (Inr res, db')
     \<and> (\<exists>new. release_at db' 20 = Some new \<and> rl_status new = StatusPublishing \<and> rl_lock_version new = 4)
     \<and> pl_outbox (rd_platform db') = [job] \<and> r_kind job = ''catalog.publish.v1''"
proof -
  obtain upd b db' where tx: "publication_tx sample_uuid sample_call sample_releaser sample_request ''p1'' 3 (with_artifacts sample_approved sample_ready)
      sample_new_attempt sample_ready = (Inr (Inr (upd, b)), db')" "rd_attempts db' \<noteq> []"
    using sample_start by blast
  have run: "startPublication sample_uuid full_release_service sample_call sample_releaser ActionReleasePublish ''p1'' 20 3 AttemptKindPublish
       ''release.create'' sample_request sample_ready = (Inr \<lparr>or_Release = upd, or_Attempt = b\<rparr>, db')"
    using tx(1) sample_publication_request
    by (simp add: startPublication_def act_bind_def act_read_def act_return_def finish_operation_def sample_text)
  have "db' \<noteq> sample_ready" using tx(2) by (auto simp: sample_releases_def)
  moreover have "sound sample_ready" by (rule sample_sound [OF sample_approved_ok]) (simp_all add: sample_approved_row)
  ultimately show ?thesis using publication_atomic [OF run] run by (fastforce simp: sample_releases_def sample_platform_def)
qed

end
