(* ===== verification/PublicationTables.thy ===== *)
theory PublicationTables
  imports Publication ReleaseRules
begin

text \<open>
  The tables of the catalogs: their invariant, how each statement of the repository changes them, and
  the histories of these tables and the release tables in which the transactions of the release service and of the
  publication worker interleave.
\<close>

section \<open>Running actions\<close>

lemma wrap_err_run [act_simps]: "wrap_err f m s = (r, s') \<longleftrightarrow> (\<exists>q. m s = (q, s') \<and> r = lift_err f q)"
  by (cases "m s") (auto simp: wrap_err_def)

lemma on_release_run [act_simps]:
  "on_release m db = (r, db') \<longleftrightarrow> (\<exists>rel. m (cb_release db) = (r, rel) \<and> db' = db\<lparr>cb_release := rel\<rparr>)"
  by (cases "m (cb_release db)") (auto simp: on_release_def)

lemma with_store_run [act_simps]:
  "with_store m s = (r, s') \<longleftrightarrow> (\<exists>st. m (fst s) = (r, st) \<and> s' = (st, snd s))"
  by (cases s; cases "m (fst s)") (auto simp: with_store_def)

lemma with_db_run [act_simps]:
  "with_db m s = (r, s') \<longleftrightarrow> (\<exists>db. m (snd s) = (r, db) \<and> s' = (fst s, db))"
  by (cases s; cases "m (snd s)") (auto simp: with_db_def)

section \<open>The tables of the catalogs\<close>

definition versions_le :: "Versions \<Rightarrow> Versions \<Rightarrow> bool" where
  "versions_le v w \<longleftrightarrow> (\<forall>role. role_version v role \<le> role_version w role)"

lemma versions_le_refl [simp]: "versions_le v v"
  by (simp add: versions_le_def)

lemma versions_le_trans: "versions_le v w \<Longrightarrow> versions_le w x \<Longrightarrow> versions_le v x"
  unfolding versions_le_def by (meson le_trans)

lemma role_order [simp]: "set publicationRoleOrder = UNIV"
  by (auto simp: publicationRoleOrder_def) (metis catalog_role.exhaust)

lemma each_role: "list_all p publicationRoleOrder \<longleftrightarrow> (\<forall>role. p role)" "list_ex p publicationRoleOrder \<longleftrightarrow> (\<exists>role. p role)"
  by (simp_all add: list_all_iff list_ex_iff)

lemma not_below: "\<not> versions_below v w \<longleftrightarrow> versions_le w v"
  by (auto simp: versions_below_def versions_le_def each_role not_less)

text \<open>A version row changes once, when it is published.\<close>

definition version_kept :: "version_row \<Rightarrow> version_row \<Rightarrow> bool" where
  "version_kept row row' \<longleftrightarrow> row' = row \<or> cv_published_at row = None \<and> (\<exists>t. row' = row\<lparr>cv_published_at := Some t\<rparr>)"

lemma version_kept_refl [simp]: "version_kept row row"
  by (simp add: version_kept_def)

lemma version_kept_trans: "version_kept a b \<Longrightarrow> version_kept b c \<Longrightarrow> version_kept a c"
  by (auto simp: version_kept_def)

definition current_row :: "catalog_db \<Rightarrow> string \<times> string \<Rightarrow> version_row option" where
  "current_row db k = (case tbl_get pointer_key (cb_pointers db) k of None \<Rightarrow> None
     | Some p \<Rightarrow> tbl_get cv_id (cb_versions db) (po_version_id p))"

definition catalog_evolves :: "catalog_db \<Rightarrow> catalog_db \<Rightarrow> bool" where
  "catalog_evolves db db' \<longleftrightarrow>
     (\<forall>x row. tbl_get cv_id (cb_versions db) x = Some row \<longrightarrow>
        (\<exists>row'. tbl_get cv_id (cb_versions db') x = Some row' \<and> version_kept row row'))
   \<and> (\<forall>k d. tbl_get document_key (cb_documents db) k = Some d \<longrightarrow> tbl_get document_key (cb_documents db') k = Some d)
   \<and> (\<forall>k row. current_row db k = Some row \<longrightarrow>
        (\<exists>row'. current_row db' k = Some row' \<and> versions_le (cv_versions row) (cv_versions row')))
   \<and> (\<forall>k c. tbl_get counter_key (cb_counters db) k = Some c \<longrightarrow>
        (\<exists>c'. tbl_get counter_key (cb_counters db') k = Some c' \<and> versions_le (ct_versions c) (ct_versions c')))"

lemma evolves_version:
  "catalog_evolves db db' \<Longrightarrow> tbl_get cv_id (cb_versions db) x = Some row \<Longrightarrow>
    \<exists>row'. tbl_get cv_id (cb_versions db') x = Some row' \<and> version_kept row row'"
  by (simp add: catalog_evolves_def)

lemma evolves_document:
  "catalog_evolves db db' \<Longrightarrow> tbl_get document_key (cb_documents db) k = Some d \<Longrightarrow> tbl_get document_key (cb_documents db') k = Some d"
  unfolding catalog_evolves_def by blast

lemma evolves_current:
  "catalog_evolves db db' \<Longrightarrow> current_row db k = Some row \<Longrightarrow>
    \<exists>row'. current_row db' k = Some row' \<and> versions_le (cv_versions row) (cv_versions row')"
  unfolding catalog_evolves_def by blast

lemma evolves_counter:
  "catalog_evolves db db' \<Longrightarrow> tbl_get counter_key (cb_counters db) k = Some c \<Longrightarrow>
    \<exists>c'. tbl_get counter_key (cb_counters db') k = Some c' \<and> versions_le (ct_versions c) (ct_versions c')"
  unfolding catalog_evolves_def by blast

lemma catalog_evolves_trans:
  assumes "catalog_evolves a b" "catalog_evolves b c"
  shows "catalog_evolves a c"
  unfolding catalog_evolves_def
proof (intro conjI allI impI)
  fix x row assume "tbl_get cv_id (cb_versions a) x = Some row"
  then show "\<exists>row'. tbl_get cv_id (cb_versions c) x = Some row' \<and> version_kept row row'"
    using evolves_version [OF assms(1)] evolves_version [OF assms(2)] version_kept_trans by blast
next
  fix k d assume "tbl_get document_key (cb_documents a) k = Some d"
  then show "tbl_get document_key (cb_documents c) k = Some d" using assms by (intro evolves_document [OF assms(2)] evolves_document [OF assms(1)])
next
  fix k row assume "current_row a k = Some row"
  then show "\<exists>row'. current_row c k = Some row' \<and> versions_le (cv_versions row) (cv_versions row')"
    using evolves_current [OF assms(1)] evolves_current [OF assms(2)] versions_le_trans by blast
next
  fix k e assume "tbl_get counter_key (cb_counters a) k = Some e"
  then show "\<exists>c'. tbl_get counter_key (cb_counters c) k = Some c' \<and> versions_le (ct_versions e) (ct_versions c')"
    using evolves_counter [OF assms(1)] evolves_counter [OF assms(2)] versions_le_trans by blast
qed

interpretation ce: evolution catalog_evolves
  by unfold_locales (auto intro: catalog_evolves_trans, simp add: catalog_evolves_def version_kept_def)

definition catalog_tables :: "catalog_db \<Rightarrow> counter_row list \<times> version_row list \<times> document_row list \<times> pointer_row list" where
  "catalog_tables db = (cb_counters db, cb_versions db, cb_documents db, cb_pointers db)"

lemma current_row_same:
  "cb_versions db' = cb_versions db \<Longrightarrow> cb_pointers db' = cb_pointers db \<Longrightarrow> current_row db' = current_row db"
  by (auto simp: current_row_def fun_eq_iff split: option.splits)

lemma same_tables_evolve: "catalog_tables db' = catalog_tables db \<Longrightarrow> catalog_evolves db db'"
  using current_row_same [of db' db] by (auto simp: catalog_evolves_def catalog_tables_def version_kept_def)

lemma on_release_evolves: "keeps catalog_evolves (on_release m)"
  by (rule keepsI) (auto simp: act_simps catalog_tables_def intro: same_tables_evolve)

lemma next_versions_le: "vs_Root v \<le> n \<Longrightarrow> versions_le v (next_versions n v)"
  unfolding versions_le_def by (rule allI, rename_tac role, case_tac role) (auto simp: next_versions_def)

lemma ReserveVersions_Inr:
  assumes "ReserveVersions p c n db = (Inr v, db')"
  shows "\<exists>row. catalog_tables db' = (cb_counters db', cb_versions db, cb_documents db, cb_pointers db) \<and> counter_key row = (p, c) \<and> ct_versions row = v
     \<and> (tbl_get counter_key (cb_counters db) (p, c) = None \<and> cb_counters db' = cb_counters db @ [row]
        \<or> (\<exists>old. tbl_get counter_key (cb_counters db) (p, c) = Some old \<and> vs_Root (ct_versions old) \<le> n
             \<and> v = next_versions n (ct_versions old) \<and> cb_counters db' = tbl_put counter_key row (cb_counters db)))
     \<and> cb_release db' = cb_release db"
proof (cases "tbl_get counter_key (cb_counters db) (p, c)")
  case None
  then show ?thesis using assms by (auto simp: ReserveVersions_def act_simps Let_def catalog_tables_def split: if_splits)
next
  case (Some old)
  then have "db' = db\<lparr>cb_counters := tbl_put counter_key (old\<lparr>ct_versions := v\<rparr>) (cb_counters db)\<rparr>" "v = next_versions n (ct_versions old)"
      "vs_Root (ct_versions old) \<le> n"
    using assms by (auto simp: ReserveVersions_def act_simps Let_def split: if_splits)
  moreover have "counter_key (old\<lparr>ct_versions := v\<rparr>) = (p, c)" using tbl_get_key [OF Some] by simp
  ultimately show ?thesis using Some by (intro exI [of _ "old\<lparr>ct_versions := v\<rparr>"]) (auto simp: catalog_tables_def)
qed

lemma ReserveVersions_evolves: "keeps catalog_evolves (ReserveVersions p c n)"
proof (rule keepsI)
  fix db r db' assume run: "ReserveVersions p c n db = (r, db')"
  show "catalog_evolves db db'"
  proof (cases r)
    case (Inl e)
    then have "db' = db" using run by (auto simp: ReserveVersions_def act_simps split: if_splits)
    then show ?thesis by (simp add: ce.R_refl)
  next
    case (Inr v)
    from ReserveVersions_Inr [OF run [unfolded Inr]] current_row_same [of db' db] show ?thesis
      by (auto simp: catalog_evolves_def catalog_tables_def version_kept_def tbl_simps next_versions_le)
  qed
qed

lemma insert_version_Inr:
  assumes "insert_version rec db = (Inr x, db')"
  shows "\<exists>row. db' = db\<lparr>cb_versions := cb_versions db @ [row]\<rparr> \<and> (\<forall>r\<in>set (cb_versions db). \<not> version_conflict row r)
     \<and> row = \<lparr>cv_id = vr_ID rec, cv_attempt = (if vr_AttemptID rec = uuid_Nil then None else Some (vr_AttemptID rec)),
           cv_product_id = vr_ProductID rec, cv_channel = vr_Channel rec, cv_release_id = vr_ReleaseID rec,
           cv_versions = vr_Versions rec, cv_bundle_sha256 = vr_BundleSHA256 rec,
           cv_created_at = pg_timestamp (vr_CreatedAt rec), cv_published_at = None\<rparr>"
  using assms by (auto simp: insert_version_def act_simps Let_def list_ex_iff split: if_splits)

lemma insert_version_evolves: "keeps catalog_evolves (insert_version rec)"
proof (rule keepsI)
  fix db r db' assume run: "insert_version rec db = (r, db')"
  show "catalog_evolves db db'"
  proof (cases r)
    case (Inl e)
    then have "db' = db" using run by (auto simp: insert_version_def act_simps)
    then show ?thesis by (simp add: ce.R_refl)
  next
    case (Inr v)
    from insert_version_Inr [OF run [unfolded Inr]] show ?thesis
      by (auto simp: catalog_evolves_def current_row_def version_kept_def tbl_simps split: option.splits)
  qed
qed

definition document_of :: "uuid \<Rightarrow> RoleDocument \<Rightarrow> document_row" where
  "document_of x d = \<lparr>dr_version_id = x, dr_role = do_Role d, dr_version = do_Version d, dr_sha256 = do_EnvelopeSHA256 d,
     dr_object_key = do_ObjectKey d, dr_signatures = do_Signatures d, dr_envelope = (if do_Envelope d = [] then None else Some (do_Envelope d))\<rparr>"

lemma insert_document_Inr:
  assumes "insert_document x d db = (Inr y, db')"
  shows "db' = db\<lparr>cb_documents := cb_documents db @ [document_of x d]\<rparr> \<and> tbl_get document_key (cb_documents db) (x, do_Role d) = None"
  using assms by (auto simp: insert_document_def act_simps Let_def document_of_def tbl_has_get split: if_splits option.splits)

lemma insert_document_evolves: "keeps catalog_evolves (insert_document x d)"
proof (rule keepsI)
  fix db r db' assume run: "insert_document x d db = (r, db')"
  show "catalog_evolves db db'"
  proof (cases r)
    case (Inl e)
    then have "db' = db" using run by (auto simp: insert_document_def act_simps)
    then show ?thesis by (simp add: ce.R_refl)
  next
    case (Inr v)
    from insert_document_Inr [OF run [unfolded Inr]] current_row_same [of db' db] show ?thesis
      by (auto simp: catalog_evolves_def version_kept_def tbl_simps)
  qed
qed

lemma insert_documents_evolves: "keeps catalog_evolves (insert_documents rec roles)"
  by (induction roles) (auto intro!: ce.keeps_rules insert_document_evolves split: option.splits)

lemma catalog_Create_evolves: "keeps catalog_evolves (catalog_Create rec)"
  unfolding catalog_Create_def by (intro ce.keeps_rules insert_version_evolves insert_documents_evolves)

text \<open>The switch of the current catalog.\<close>

lemma SetCurrent_Inr:
  assumes "SetCurrent p c x at db = (Inr y, db')"
  shows "\<exists>cand ptr. switch_candidate p c x db = Some cand
     \<and> pointer_key ptr = (p, c) \<and> po_version_id ptr = x
     \<and> cb_versions db' = tbl_put cv_id (mark_published cand (pg_timestamp at)) (cb_versions db)
     \<and> cb_documents db' = cb_documents db \<and> cb_counters db' = cb_counters db \<and> cb_release db' = cb_release db
     \<and> (tbl_get pointer_key (cb_pointers db) (p, c) = None \<and> cb_pointers db' = cb_pointers db @ [ptr]
        \<or> (\<exists>old. tbl_get pointer_key (cb_pointers db) (p, c) = Some old \<and> \<not> rolls_back cand old db
             \<and> cb_pointers db' = tbl_put pointer_key ptr (cb_pointers db)))"
proof -
  obtain cand where "switch_candidate p c x db = Some cand"
    using assms by (auto simp: SetCurrent_def act_simps split: if_splits option.splits)
  then show ?thesis using assms
    by (intro exI [of _ cand] exI [of _ "\<lparr>po_product_id = p, po_channel = c, po_version_id = x, po_switched_at = pg_timestamp at\<rparr>"])
      (auto simp: SetCurrent_def act_simps Let_def split: if_splits option.splits)
qed

lemma switch_candidate_Some:
  assumes "switch_candidate p c x db = Some cand"
  shows "tbl_get cv_id (cb_versions db) x = Some cand" "cv_id cand = x" "cv_product_id cand = p" "cv_channel cand = c"
    "length (filter (\<lambda>d. dr_version_id d = x) (cb_documents db)) = 5"
  using assms by (auto simp: switch_candidate_def split: option.splits if_splits dest: tbl_get_key)

lemma mark_published_simps [simp]:
  "cv_id (mark_published row t) = cv_id row" "cv_product_id (mark_published row t) = cv_product_id row"
  "cv_channel (mark_published row t) = cv_channel row" "cv_versions (mark_published row t) = cv_versions row"
  "cv_release_id (mark_published row t) = cv_release_id row" "cv_attempt (mark_published row t) = cv_attempt row"
  "\<exists>at. cv_published_at (mark_published row t) = Some at" "version_kept row (mark_published row t)"
  by (auto simp: mark_published_def version_kept_def)

lemma SetCurrent_evolves: "keeps catalog_evolves (SetCurrent p c x at)"
proof (rule keepsI)
  fix db r db' assume run: "SetCurrent p c x at db = (r, db')"
  show "catalog_evolves db db'"
  proof (cases r)
    case (Inl e)
    then have "db' = db" using run by (auto simp: SetCurrent_def act_simps split: if_splits)
    then show ?thesis by (simp add: ce.R_refl)
  next
    case (Inr y)
    obtain cand ptr where sw: "switch_candidate p c x db = Some cand" and ptr: "pointer_key ptr = (p, c)" "po_version_id ptr = x"
      and db': "cb_versions db' = tbl_put cv_id (mark_published cand (pg_timestamp at)) (cb_versions db)"
        "cb_documents db' = cb_documents db" "cb_counters db' = cb_counters db"
      and ps: "tbl_get pointer_key (cb_pointers db) (p, c) = None \<and> cb_pointers db' = cb_pointers db @ [ptr]
        \<or> (\<exists>old. tbl_get pointer_key (cb_pointers db) (p, c) = Some old \<and> \<not> rolls_back cand old db
             \<and> cb_pointers db' = tbl_put pointer_key ptr (cb_pointers db))"
      using SetCurrent_Inr [OF run [unfolded Inr]] by blast
    note cand = switch_candidate_Some [OF sw]
    have row: "tbl_get cv_id (cb_versions db') z =
        (if z = x then Some (mark_published cand (pg_timestamp at)) else tbl_get cv_id (cb_versions db) z)" for z
      unfolding db' using cand by (simp add: tbl_simps)
    have "\<exists>row'. current_row db' k = Some row' \<and> versions_le (cv_versions rw) (cv_versions row')" if k: "current_row db k = Some rw" for k rw
    proof (cases "k = (p, c)")
      case True
      then obtain old where old: "tbl_get pointer_key (cb_pointers db) (p, c) = Some old" "tbl_get cv_id (cb_versions db) (po_version_id old) = Some rw"
        using k by (auto simp: current_row_def split: option.splits)
      then have "\<not> rolls_back cand old db" "tbl_get pointer_key (cb_pointers db') (p, c) = Some ptr" using ps ptr by (auto simp: tbl_simps)
      then show ?thesis using True old row ptr by (simp add: current_row_def rolls_back_def not_below)
    next
      case False
      then have "tbl_get pointer_key (cb_pointers db') k = tbl_get pointer_key (cb_pointers db) k" using ps ptr
        by (auto simp: tbl_simps split: option.splits)
      then show ?thesis using k row cand by (auto simp: current_row_def split: option.splits)
    qed
    then show ?thesis using row cand db' by (auto simp: catalog_evolves_def)
  qed
qed

section \<open>The invariant of the tables\<close>

text \<open>The roles whose versions count the catalogs of a channel.\<close>

definition serial_roles :: "catalog_role set" where
  "serial_roles = - {RoleRoot}"

lemma serial_list: "list_ex P [RoleTargets, RoleSnapshot, RoleTimestamp, RoleRevocation] \<longleftrightarrow> (\<exists>role\<in>serial_roles. P role)"
  by (auto simp: serial_roles_def) (metis catalog_role.exhaust)

definition complete :: "catalog_db \<Rightarrow> uuid \<Rightarrow> bool" where
  "complete db x \<longleftrightarrow> (\<forall>role. tbl_get document_key (cb_documents db) (x, role) \<noteq> None)"

definition keys_ok :: "catalog_db \<Rightarrow> bool" where
  "keys_ok db \<longleftrightarrow> distinct (map counter_key (cb_counters db)) \<and> distinct (map pointer_key (cb_pointers db))
     \<and> distinct (map document_key (cb_documents db)) \<and> distinct (map cv_id (cb_versions db))
     \<and> (\<forall>r\<in>set (cb_versions db). cv_attempt r \<noteq> None \<longrightarrow> tbl_get cv_attempt (cb_versions db) (cv_attempt r) = Some r)
     \<and> (\<forall>role\<in>serial_roles. distinct (map (\<lambda>r. (cv_product_id r, cv_channel r, role_version (cv_versions r) role)) (cb_versions db)))"

definition counted :: "catalog_db \<Rightarrow> version_row \<Rightarrow> bool" where
  "counted db row \<longleftrightarrow> (\<exists>c. tbl_get counter_key (cb_counters db) (cv_product_id row, cv_channel row) = Some c
     \<and> versions_le (cv_versions row) (ct_versions c))"

definition pointed :: "catalog_db \<Rightarrow> pointer_row \<Rightarrow> bool" where
  "pointed db p \<longleftrightarrow> complete db (po_version_id p) \<and> (\<exists>row. tbl_get cv_id (cb_versions db) (po_version_id p) = Some row
     \<and> pointer_key p = (cv_product_id row, cv_channel row) \<and> cv_published_at row \<noteq> None)"

definition document_ok :: "document_row \<Rightarrow> bool" where
  "document_ok d \<longleftrightarrow> validCatalogObjectKey (dr_object_key d)
     \<and> (\<exists>e. dr_envelope d = Some e \<and> e \<noteq> [] \<and> length e \<le> maximumRoleEnvelopeBytes \<and> dr_sha256 d = sha256_hex e)"

definition catalog_ok :: "catalog_db \<Rightarrow> bool" where
  "catalog_ok db \<longleftrightarrow> keys_ok db \<and> (\<forall>row\<in>set (cb_versions db). counted db row) \<and> (\<forall>p\<in>set (cb_pointers db). pointed db p)
     \<and> (\<forall>d\<in>set (cb_documents db). document_ok d)"

text \<open>A later state keeps what a row and a pointer need.\<close>

lemma counted_later:
  assumes "catalog_evolves db db'" "counted db row"
  shows "counted db' row"
  using assms(2) evolves_counter [OF assms(1)] versions_le_trans unfolding counted_def by blast

lemma complete_later: "catalog_evolves db db' \<Longrightarrow> complete db x \<Longrightarrow> complete db' x"
  unfolding complete_def using evolves_document by fastforce

lemma pointed_later:
  assumes "catalog_evolves db db'" "pointed db p"
  shows "pointed db' p"
proof -
  obtain row where row: "tbl_get cv_id (cb_versions db) (po_version_id p) = Some row" "pointer_key p = (cv_product_id row, cv_channel row)"
      "cv_published_at row \<noteq> None" "complete db (po_version_id p)"
    using assms(2) by (auto simp: pointed_def)
  then have "tbl_get cv_id (cb_versions db') (po_version_id p) = Some row"
    using evolves_version [OF assms(1) row(1)] by (auto simp: version_kept_def)
  then show ?thesis using row complete_later [OF assms(1)] by (simp add: pointed_def)
qed

lemma catalog_okI:
  assumes "catalog_ok db" "catalog_evolves db db'" "keys_ok db'"
    "\<And>row. row \<in> set (cb_versions db') \<Longrightarrow>
       row \<in> set (cb_versions db) \<or> (\<exists>old\<in>set (cb_versions db). version_kept old row) \<or> counted db' row"
    "\<And>p. p \<in> set (cb_pointers db') \<Longrightarrow> p \<in> set (cb_pointers db) \<or> pointed db' p"
    "\<And>d. d \<in> set (cb_documents db') \<Longrightarrow> d \<in> set (cb_documents db) \<or> document_ok d"
  shows "catalog_ok db'"
proof -
  have "counted db' row" if "row \<in> set (cb_versions db')" for row
  proof -
    have "counted db' row" if "old \<in> set (cb_versions db)" "version_kept old row" for old
      using counted_later [OF assms(2), of old] assms(1) that by (auto simp: catalog_ok_def version_kept_def counted_def)
    then show ?thesis using assms(4) [OF that] version_kept_refl by blast
  qed
  moreover have "pointed db' p" if "p \<in> set (cb_pointers db')" for p
    using assms(5) [OF that] assms(1) pointed_later [OF assms(2)] by (auto simp: catalog_ok_def)
  moreover have "document_ok d" if "d \<in> set (cb_documents db')" for d
    using assms(6) [OF that] assms(1) by (auto simp: catalog_ok_def)
  ultimately show ?thesis using assms(3) by (simp add: catalog_ok_def)
qed

lemma same_tables_ok:
  assumes "catalog_ok db" "catalog_tables db' = catalog_tables db"
  shows "catalog_ok db'"
proof (rule catalog_okI [OF assms(1) same_tables_evolve [OF assms(2)]])
  show "keys_ok db'" using assms by (simp add: catalog_ok_def keys_ok_def catalog_tables_def)
qed (use assms(2) in \<open>auto simp: catalog_tables_def\<close>)

lemma ReserveVersions_ok:
  assumes "catalog_ok db" "ReserveVersions p c n db = (Inr v, db')"
  shows "catalog_ok db'"
proof (rule catalog_okI [OF assms(1) keepsD [OF ReserveVersions_evolves assms(2)]])
  show "keys_ok db'" using assms(1) ReserveVersions_Inr [OF assms(2)]
    by (auto simp: catalog_ok_def keys_ok_def catalog_tables_def tbl_get_None)
qed (use ReserveVersions_Inr [OF assms(2)] in \<open>auto simp: catalog_tables_def\<close>)

lemma put_mark:
  assumes "distinct (map cv_id rows)" "tbl_get cv_id rows x = Some cand"
  shows "tbl_put cv_id (mark_published cand t) rows = map (\<lambda>r. if cv_id r = x then mark_published r t else r) rows"
  unfolding tbl_put_def
proof (rule map_cong [OF refl], goal_cases)
  case (1 r)
  have "r = cand" if "cv_id r = x" using tbl_get_unique [OF assms(1) 1] assms(2) that by simp
  then show ?case using assms(2) by (auto dest: tbl_get_key)
qed

lemma tbl_get_map:
  assumes "\<And>r. k (f r) = k r"
  shows "tbl_get k (map f rows) x = map_option f (tbl_get k rows x)"
  by (induction rows) (auto simp: tbl_get_def assms)

lemma keys_marked:
  assumes "keys_ok db" "cb_versions db' = map (\<lambda>r. if cv_id r = x then mark_published r t else r) (cb_versions db)"
    "cb_documents db' = cb_documents db" "cb_counters db' = cb_counters db" "distinct (map pointer_key (cb_pointers db'))"
  shows "keys_ok db'"
proof -
  let ?f = "\<lambda>r. if cv_id r = x then mark_published r t else r"
  have get: "tbl_get cv_attempt (cb_versions db') a = map_option ?f (tbl_get cv_attempt (cb_versions db) a)" for a
    unfolding assms(2) by (rule tbl_get_map) simp
  have "tbl_get cv_attempt (cb_versions db') (cv_attempt r) = Some r" if r: "r \<in> set (cb_versions db')" "cv_attempt r \<noteq> None" for r
  proof -
    obtain q where q: "q \<in> set (cb_versions db)" "r = ?f q" using r(1) unfolding assms(2) set_map by blast
    then have "cv_attempt r = cv_attempt q" by simp
    then show ?thesis using q r(2) assms(1) get by (simp add: keys_ok_def)
  qed
  moreover have "map (\<lambda>r. (cv_product_id r, cv_channel r, role_version (cv_versions r) role)) (cb_versions db')
      = map (\<lambda>r. (cv_product_id r, cv_channel r, role_version (cv_versions r) role)) (cb_versions db)" for role
    unfolding assms(2) by simp
  moreover have "map cv_id (cb_versions db') = map cv_id (cb_versions db)" unfolding assms(2) by simp
  ultimately show ?thesis using assms(1,3-5) unfolding keys_ok_def by (intro conjI ballI impI) simp_all
qed

text \<open>Five documents with different roles are one of each.\<close>

lemma five_documents:
  assumes "distinct (map document_key docs)" "length (filter (\<lambda>d. dr_version_id d = x) docs) = 5"
  shows "tbl_get document_key docs (x, role) \<noteq> None"
proof -
  let ?ds = "filter (\<lambda>d. dr_version_id d = x) docs"
  have roles: "(UNIV :: catalog_role set) = {RoleRoot, RoleTargets, RoleSnapshot, RoleTimestamp, RoleRevocation}"
    using role_order by (simp add: publicationRoleOrder_def)
  have "inj_on document_key (set docs)" using assms(1) by (simp add: distinct_map)
  then have "inj_on dr_role (set ?ds)" by (auto simp: inj_on_def)
  then have "distinct (map dr_role ?ds)" using assms(1) by (simp add: distinct_map)
  then have "card (dr_role ` set ?ds) = 5" using distinct_card [of "map dr_role ?ds"] assms(2) by simp
  moreover have "finite (UNIV :: catalog_role set)" "card (UNIV :: catalog_role set) = 5" unfolding roles by simp_all
  ultimately have "dr_role ` set ?ds = UNIV" by (intro card_subset_eq) simp_all
  then obtain d where "d \<in> set docs" "dr_version_id d = x" "dr_role d = role" by (metis (mono_tags) UNIV_I image_iff mem_Collect_eq set_filter)
  then show ?thesis using tbl_get_unique [OF assms(1)] by fastforce
qed

lemma SetCurrent_ok:
  assumes ok: "catalog_ok db" and run: "SetCurrent p c x at db = (Inr y, db')"
  shows "catalog_ok db'" "current_row db' (p, c) \<noteq> None" "\<exists>ptr. tbl_get pointer_key (cb_pointers db') (p, c) = Some ptr \<and> po_version_id ptr = x"
proof -
  obtain cand ptr where sw: "switch_candidate p c x db = Some cand" and ptr: "pointer_key ptr = (p, c)" "po_version_id ptr = x"
    and db': "cb_versions db' = tbl_put cv_id (mark_published cand (pg_timestamp at)) (cb_versions db)"
      "cb_documents db' = cb_documents db" "cb_counters db' = cb_counters db"
    and ps: "tbl_get pointer_key (cb_pointers db) (p, c) = None \<and> cb_pointers db' = cb_pointers db @ [ptr]
      \<or> (\<exists>old. tbl_get pointer_key (cb_pointers db) (p, c) = Some old \<and> cb_pointers db' = tbl_put pointer_key ptr (cb_pointers db))"
    using SetCurrent_Inr [OF run] by blast
  note cand = switch_candidate_Some [OF sw]
  have keys: "keys_ok db" using ok by (simp add: catalog_ok_def)
  have marked: "cb_versions db' = map (\<lambda>r. if cv_id r = x then mark_published r (pg_timestamp at) else r) (cb_versions db)"
    unfolding db' using put_mark cand(1) keys by (simp add: keys_ok_def)
  have pkeys: "distinct (map pointer_key (cb_pointers db'))" using ps ptr keys by (auto simp: keys_ok_def tbl_get_None)
  have get: "tbl_get cv_id (cb_versions db') x = Some (mark_published cand (pg_timestamp at))"
    unfolding db' using cand by (simp add: tbl_simps)
  show ptr': "\<exists>ptr. tbl_get pointer_key (cb_pointers db') (p, c) = Some ptr \<and> po_version_id ptr = x"
    using ps ptr by (auto simp: tbl_simps)
  then show "current_row db' (p, c) \<noteq> None" using get by (auto simp: current_row_def)
  have "complete db' x" using five_documents [OF _ cand(5)] keys db' by (simp add: complete_def keys_ok_def)
  then have "pointed db' ptr" using get ptr cand by (auto simp: pointed_def)
  moreover have "set (cb_pointers db') \<subseteq> insert ptr (set (cb_pointers db))" using ps set_tbl_put by fastforce
  moreover have "\<exists>old\<in>set (cb_versions db). version_kept old row" if row: "row \<in> set (cb_versions db')" for row
  proof -
    obtain r where "r \<in> set (cb_versions db)" "row = (if cv_id r = x then mark_published r (pg_timestamp at) else r)"
      using row unfolding marked set_map by blast
    then show ?thesis by (intro bexI [of _ r]) simp_all
  qed
  ultimately show "catalog_ok db'"
    by (intro catalog_okI [OF ok keepsD [OF SetCurrent_evolves run] keys_marked [OF keys marked db'(2,3) pkeys]]) (auto simp: db'(2))
qed

text \<open>A record is inserted with all its documents.\<close>

lemma insert_documents_Inr:
  assumes "insert_documents rec roles db = (Inr x, db')"
  shows "db' = db\<lparr>cb_documents := cb_documents db @ map (\<lambda>role. document_of (vr_ID rec) (the (vr_Roles rec role))) roles\<rparr>
     \<and> (\<forall>role\<in>set roles. vr_Roles rec role \<noteq> None)
     \<and> (distinct (map document_key (cb_documents db)) \<longrightarrow> distinct (map document_key (cb_documents db')))"
  using assms
proof (induction roles arbitrary: db)
  case (Cons role roles)
  then obtain d mid where d: "vr_Roles rec role = Some d" "insert_document (vr_ID rec) d db = (Inr (), mid)"
      "insert_documents rec roles mid = (Inr x, db')"
    by (auto simp: act_simps split: option.splits)
  have mid: "mid = db\<lparr>cb_documents := cb_documents db @ [document_of (vr_ID rec) d]\<rparr>"
      "distinct (map document_key (cb_documents db)) \<Longrightarrow> distinct (map document_key (cb_documents mid))"
    using insert_document_Inr [OF d(2)] by (auto simp: document_of_def tbl_get_None)
  note ih = Cons.IH [OF d(3)]
  show ?case
  proof (intro conjI impI)
    show "db' = db\<lparr>cb_documents := cb_documents db @ map (\<lambda>role. document_of (vr_ID rec) (the (vr_Roles rec role))) (role # roles)\<rparr>"
      using ih mid(1) d(1) by simp
    show "\<forall>role\<in>set (role # roles). vr_Roles rec role \<noteq> None" using ih d(1) by simp
    show "distinct (map document_key (cb_documents db'))" if "distinct (map document_key (cb_documents db))" using ih mid(2) [OF that] by blast
  qed
qed (simp add: act_simps)

definition version_of :: "VersionRecord \<Rightarrow> version_row" where
  "version_of rec = \<lparr>cv_id = vr_ID rec, cv_attempt = (if vr_AttemptID rec = uuid_Nil then None else Some (vr_AttemptID rec)),
     cv_product_id = vr_ProductID rec, cv_channel = vr_Channel rec, cv_release_id = vr_ReleaseID rec,
     cv_versions = vr_Versions rec, cv_bundle_sha256 = vr_BundleSHA256 rec,
     cv_created_at = pg_timestamp (vr_CreatedAt rec), cv_published_at = None\<rparr>"

lemma catalog_Create_Inr:
  assumes "catalog_Create rec db = (Inr x, db')"
  shows "db' = db\<lparr>cb_versions := cb_versions db @ [version_of rec],
       cb_documents := cb_documents db @ map (\<lambda>role. document_of (vr_ID rec) (the (vr_Roles rec role))) publicationRoleOrder\<rparr>"
    "\<And>r. r \<in> set (cb_versions db) \<Longrightarrow> \<not> version_conflict (version_of rec) r"
    "\<And>role. valid_document rec role"
    "distinct (map document_key (cb_documents db)) \<Longrightarrow> distinct (map document_key (cb_documents db'))"
proof -
  obtain mid where val: "validateVersionRecord rec = None" and ins: "insert_version rec db = (Inr (), mid)"
    and docs: "insert_documents rec publicationRoleOrder mid = (Inr x, db')"
    using assms by (auto simp: catalog_Create_def act_simps)
  have mid: "mid = db\<lparr>cb_versions := cb_versions db @ [version_of rec]\<rparr>"
      "\<forall>r\<in>set (cb_versions db). \<not> version_conflict (version_of rec) r"
    using insert_version_Inr [OF ins] by (auto simp: version_of_def)
  show "db' = db\<lparr>cb_versions := cb_versions db @ [version_of rec],
       cb_documents := cb_documents db @ map (\<lambda>role. document_of (vr_ID rec) (the (vr_Roles rec role))) publicationRoleOrder\<rparr>"
    "\<And>r. r \<in> set (cb_versions db) \<Longrightarrow> \<not> version_conflict (version_of rec) r"
    using insert_documents_Inr [OF docs] mid by simp_all
  show "distinct (map document_key (cb_documents db'))" if "distinct (map document_key (cb_documents db))"
  proof -
    have "distinct (map document_key (cb_documents mid))" using that mid(1) by simp
    then show ?thesis using insert_documents_Inr [OF docs] by blast
  qed
  show "valid_document rec role" for role
    using val by (auto simp: validateVersionRecord_def each_role split: if_splits)
qed

lemma create_ok:
  assumes ok: "catalog_ok db" and run: "catalog_Create rec db = (Inr x, db')" and counter: "counted db (version_of rec)"
    and docs: "vr_AttemptID rec \<noteq> uuid_Nil" "\<And>role d. vr_Roles rec role = Some d \<Longrightarrow> do_EnvelopeSHA256 d = sha256_hex (do_Envelope d)"
  shows "catalog_ok db'"
proof -
  note new = catalog_Create_Inr [OF run]
  have keys: "keys_ok db" using ok by (simp add: catalog_ok_def)
  have "cv_id r \<noteq> cv_id (version_of rec)" "cv_attempt (version_of rec) \<noteq> None \<Longrightarrow> cv_attempt r \<noteq> cv_attempt (version_of rec)"
    if "r \<in> set (cb_versions db)" for r
    using new(2) [OF that] by (auto simp: version_conflict_def)
  then have "cv_id (version_of rec) \<notin> cv_id ` set (cb_versions db)"
    "cv_attempt (version_of rec) \<noteq> None \<Longrightarrow> tbl_get cv_attempt (cb_versions db) (cv_attempt (version_of rec)) = None"
    by (force simp: tbl_get_None)+
  moreover have "(cv_product_id (version_of rec), cv_channel (version_of rec), role_version (cv_versions (version_of rec)) role)
      \<notin> (\<lambda>r. (cv_product_id r, cv_channel r, role_version (cv_versions r) role)) ` set (cb_versions db)" if role: "role \<in> serial_roles" for role
  proof
    assume "(cv_product_id (version_of rec), cv_channel (version_of rec), role_version (cv_versions (version_of rec)) role)
      \<in> (\<lambda>r. (cv_product_id r, cv_channel r, role_version (cv_versions r) role)) ` set (cb_versions db)"
    then obtain r where r: "r \<in> set (cb_versions db)" "cv_product_id r = cv_product_id (version_of rec)" "cv_channel r = cv_channel (version_of rec)"
        "role_version (cv_versions r) role = role_version (cv_versions (version_of rec)) role" by auto
    then have "version_conflict (version_of rec) r" using role unfolding version_conflict_def serial_list by blast
    then show False using new(2) r(1) by blast
  qed
  moreover have "distinct (map document_key (cb_documents db'))" using new(4) keys by (simp add: keys_ok_def)
  moreover have "cb_versions db' = cb_versions db @ [version_of rec]" "cb_counters db' = cb_counters db" "cb_pointers db' = cb_pointers db"
    using new(1) by simp_all
  ultimately have "keys_ok db'" using keys unfolding keys_ok_def
    by (intro conjI ballI impI) (auto simp: tbl_get_snoc split: option.splits)
  moreover have "counted db' (version_of rec)" using counter new(1) by (simp add: counted_def)
  moreover have "document_ok (document_of (vr_ID rec) (the (vr_Roles rec role)))" for role
    using new(3) [of role] docs by (auto simp: valid_document_def document_ok_def document_of_def split: option.splits)
  ultimately show ?thesis using new(1) by (intro catalog_okI [OF ok keepsD [OF catalog_Create_evolves run]]) auto
qed

lemma new_record:
  assumes "newPublicationRecord u x a rel v b now = Inr rec"
  shows "vr_ID rec = x" "vr_AttemptID rec = a" "vr_Versions rec = v" "vr_ProductID rec = rl_product_id (re_row rel)"
    "vr_Channel rec = rl_channel (re_row rel)" "vr_ReleaseID rec = release_id rel" "x \<noteq> uuid_Nil" "a \<noteq> uuid_Nil"
  using assms by (auto simp: newPublicationRecord_def res_elims split: if_splits)

lemma publication_documents_Inr:
  assumes "publication_documents u x rel v b roles = Inr ds" "ds role = Some d"
  shows "do_EnvelopeSHA256 d = sha256_hex (do_Envelope d)"
  using assms
  by (induction roles arbitrary: ds) (auto simp: publication_document_def Let_def res_elims split: if_splits)

lemma new_record_documents:
  "newPublicationRecord u x a rel v b now = Inr rec \<Longrightarrow> vr_Roles rec role = Some d \<Longrightarrow> do_EnvelopeSHA256 d = sha256_hex (do_Envelope d)"
  by (auto simp: newPublicationRecord_def res_elims split: if_splits dest: publication_documents_Inr)

lemma createPublicationRecord_Inr:
  assumes "createPublicationRecordWithBuilder u pg service call mk rel a db = (Inr rec, db')"
  shows "\<exists>v x b now mid. ReserveVersions (rl_product_id (re_row rel)) (rl_channel (re_row rel)) (service_root_version service) db = (Inr v, mid)
     \<and> mk (pv_ed service) (service_builder u pg service mid) (pc_build_now call) (pc_verify_now call) rel v = Inr b
     \<and> newPublicationRecord u x a rel v b now = Inr rec \<and> catalog_Create rec mid = (Inr (), db')"
  using assms by (auto simp: createPublicationRecordWithBuilder_def act_simps) blast

lemma createPublicationRecord_evolves:
  "keeps catalog_evolves (createPublicationRecordWithBuilder u pg service call mk rel a)"
  unfolding createPublicationRecordWithBuilder_def
  by (intro ce.keeps_rules ReserveVersions_evolves catalog_Create_evolves)

lemma reserved_counter:
  assumes "ReserveVersions p c n db = (Inr v, db')"
  shows "\<exists>row. tbl_get counter_key (cb_counters db') (p, c) = Some row \<and> ct_versions row = v"
  using ReserveVersions_Inr [OF assms] by (auto simp: tbl_simps)

lemma createPublicationRecord_ok:
  assumes "catalog_ok db" "createPublicationRecordWithBuilder u pg service call mk rel a db = (r, db')"
  shows "catalog_ok db'"
proof (cases r)
  case (Inl e)
  then show ?thesis using assms by (auto simp: createPublicationRecordWithBuilder_def act_simps)
next
  case (Inr rec)
  obtain v x b now mid where reserve: "ReserveVersions (rl_product_id (re_row rel)) (rl_channel (re_row rel)) (service_root_version service) db = (Inr v, mid)"
    and new: "newPublicationRecord u x a rel v b now = Inr rec" and create: "catalog_Create rec mid = (Inr (), db')"
    using createPublicationRecord_Inr [OF assms(2) [unfolded Inr]] by blast
  have "counted mid (version_of rec)"
    using reserved_counter [OF reserve] new_record [OF new] by (auto simp: counted_def version_of_def)
  then show ?thesis
    using create_ok [OF ReserveVersions_ok [OF assms(1) reserve] create] new_record(2,8) [OF new] new_record_documents [OF new] by blast
qed

section \<open>What a transaction of the service does to the attempts\<close>

definition attempts_extend :: "release_db \<Rightarrow> release_db \<Rightarrow> bool" where
  "attempts_extend db db' \<longleftrightarrow> (\<exists>rows. rd_attempts db' = rd_attempts db @ rows)"

interpretation ax: evolution attempts_extend
  by unfold_locales (auto simp: attempts_extend_def)

lemma same_attempts: "rd_attempts db' = rd_attempts db \<Longrightarrow> attempts_extend db db'"
  by (simp add: attempts_extend_def)

lemma on_platform_extend: "keeps attempts_extend (on_platform m)"
  by (rule keepsI) (auto simp: act_simps intro: same_attempts)

lemma update_release_extend: "keeps attempts_extend (update_release now p f)"
  unfolding update_release_def
  by (rule ax.keeps_write) (auto intro: same_attempts ax.R_refl split: option.splits if_splits)

lemma bind_artifacts_extend: "keeps attempts_extend (bind_artifacts x p n bs)"
  by (induction bs arbitrary: n)
    (auto intro!: ax.keeps_rules ax.keeps_write simp: attempts_extend_def split: if_splits)

lemma service_keeps:
  "keeps attempts_extend (release_audit u call who rq action p rt rid oc md)"
  "keeps attempts_extend (enqueueReleaseJob u call kind a now)"
  "keeps attempts_extend (Transition now cmd)" "keeps attempts_extend (repo_Revoke now rcmd)"
  "keeps attempts_extend (insert_release row)" "keeps attempts_extend (CreateAttempt a)"
  "keeps attempts_extend (LockOperation x k key)"
  unfolding release_audit_def enqueueReleaseJob_def Transition_def repo_Revoke_def insert_release_def CreateAttempt_def LockOperation_def
  by (auto intro!: ax.keeps_rules ax.keeps_write on_platform_extend update_release_extend
      simp: Let_def attempts_extend_def split: if_splits)

lemma tx_extend:
  "keeps attempts_extend (create_tx u call who rq rec)"
  "keeps attempts_extend (transition_tx u call who rq v target reason current)"
  "keeps attempts_extend (publication_tx u call who rq p v current a)"
  "keeps attempts_extend (revocation_tx u call who rq p v reason a)"
  unfolding create_tx_def release_Create_def transition_tx_def publication_tx_def revocation_tx_def operation_tx_def Let_def
  by (auto intro!: ax.keeps_rules service_keeps bind_artifacts_extend split: sum.splits)

lemma service_extend: "service_operation u pg snaps db db' \<Longrightarrow> attempts_extend db db'"
  by (induction rule: service_operation.induct) (auto dest: keepsD [OF tx_extend(1)] keepsD [OF tx_extend(2)] keepsD [OF tx_extend(3)] keepsD [OF tx_extend(4)])

text \<open>A settled attempt is not an extension, so the service never publishes a release.\<close>

lemma settled_not_extend:
  assumes "attempt_settled x i st db db'" "st \<noteq> AttemptStatusPending"
  shows "\<not> attempts_extend db db'"
proof
  let ?p = "\<lambda>a. am_ID a = i \<and> am_ReleaseID a = x \<and> am_Status a = AttemptStatusPending"
  obtain code at where up: "rd_attempts db' = update_where ?p (\<lambda>a. a\<lparr>am_Status := st, am_ErrorCode := code, am_UpdatedAt := at\<rparr>) (rd_attempts db)"
      and one: "rows_affected ?p (rd_attempts db) = 1"
    using assms(1) by (auto simp: attempt_settled_def)
  assume "attempts_extend db db'"
  moreover have "length (rd_attempts db') = length (rd_attempts db)" using up by (simp add: update_where_def)
  ultimately have "rd_attempts db' = rd_attempts db" by (auto simp: attempts_extend_def)
  then have "filter ?p (rd_attempts db) = filter (\<lambda>a. ?p a \<and> \<not> ?p a) (rd_attempts db)"
    using up filter_update_where [of ?p ?p "\<lambda>a. a\<lparr>am_Status := st, am_ErrorCode := code, am_UpdatedAt := at\<rparr>" "rd_attempts db"] assms(2) by simp
  then show False using one by (simp add: rows_affected_def)
qed

definition published :: "release_db \<Rightarrow> uuid \<Rightarrow> bool" where
  "published db x \<longleftrightarrow> (\<exists>r. release_at db x = Some r \<and> rl_status r = StatusPublished)"

lemma replaced_published:
  assumes "releases_ok db" "replaced db old new db'" "rl_status new = StatusPublished \<Longrightarrow> rl_status old = StatusPublished" "published db' x"
  shows "published db x"
  using assms replaced_row [OF assms(1,2)] by (auto simp: published_def split: if_splits)

lemma effect_published:
  assumes "effect db db'" "releases_ok db" "published db' x"
  shows "published db x \<or> (\<exists>i st. attempt_settled x i st db db' \<and> st = AttemptStatusSucceeded)"
  using assms(1)
proof cases
  case (create row)
  then show ?thesis using assms(3) by (auto simp: published_def tbl_simps view_def draft_view_def split: option.splits if_splits)
next
  case (decide old new)
  then have "rl_status new \<noteq> StatusPublished" by (auto elim!: workflow.cases simp: view_def)
  then show ?thesis using replaced_published [OF assms(2) decide(1) _ assms(3)] by blast
next
  case (start old new a)
  then have "rl_status new \<noteq> StatusPublished" by (auto simp: view_def)
  then show ?thesis using replaced_published [OF assms(2) start(1) _ assms(3)] by blast
next
  case (revoke old new a t actor reason)
  then show ?thesis using replaced_published [OF assms(2) revoke(1) _ assms(3)] by blast
next
  case (finish old new status st i a)
  have "x = rl_id old \<and> rl_status new = StatusPublished \<or> published db x"
    using replaced_row [OF assms(2) finish(1)] assms(3) by (auto simp: published_def split: if_splits)
  moreover have "rl_status new = status" using finish(3) by (simp add: view_def)
  ultimately show ?thesis using finish(4,7) by auto
qed (use assms(3) in \<open>auto simp: published_def\<close>)

lemma service_published:
  assumes "service_operation u pg snaps db db'" "effect db db'" "releases_ok db" "published db' x"
  shows "published db x"
  using effect_published [OF assms(2-4)] settled_not_extend service_extend [OF assms(1)] by blast

section \<open>Histories of the catalogs\<close>

text \<open>The worker holds a record of the table.\<close>

definition held :: "VersionRecord \<Rightarrow> catalog_db \<Rightarrow> bool" where
  "held rec db \<longleftrightarrow> (\<exists>row. tbl_get cv_id (cb_versions db) (vr_ID rec) = Some row \<and> cv_release_id row = vr_ReleaseID rec
     \<and> cv_product_id row = vr_ProductID rec \<and> cv_channel row = vr_Channel rec)"

text \<open>One transaction of the release service or of the publication worker. What the worker decided on, the
  release and the record, comes from some state of \<open>snapshots\<close>.\<close>

inductive catalog_step :: "uuid_lib \<Rightarrow> pg_lib \<Rightarrow> catalog_db set \<Rightarrow> catalog_db \<Rightarrow> catalog_db \<Rightarrow> bool" for u pg snapshots where
  service: "service_operation u pg (cb_release ` snapshots) (cb_release db) rel \<Longrightarrow> catalog_step u pg snapshots db (db\<lparr>cb_release := rel\<rparr>)"
| other: "catalog_step u pg snapshots db (db\<lparr>cb_release := (cb_release db)\<lparr>rd_platform := pl\<rparr>\<rparr>)"
| create: "createPublicationRecordWithBuilder u pg service call mk rel a db = (r, db') \<Longrightarrow> catalog_step u pg snapshots db db'"
| publish: "\<lbrakk>s \<in> snapshots; GetByID x (cb_release s) = Inr rel; held rec s; same_scope rec rel;
     switch_tx u call job rec action rel a (CompletePublication now (release_id rel) a at) db = (q, db')\<rbrakk> \<Longrightarrow> catalog_step u pg snapshots db db'"
| revoke: "\<lbrakk>s \<in> snapshots; GetByID x (cb_release s) = Inr rel; held rec s; same_scope rec rel;
     switch_tx u call job rec action rel a (CompleteRevocation (release_id rel) a at) db = (q, db')\<rbrakk> \<Longrightarrow> catalog_step u pg snapshots db db'"
| fail: "fail_tx u call job action rel attempt code (FailPublication now x a c at) db = (q, db') \<Longrightarrow> catalog_step u pg snapshots db db'"
| revocation_failed: "fail_tx u call job action rel attempt code (FailRevocation x a c at) db = (q, db') \<Longrightarrow> catalog_step u pg snapshots db db'"

text \<open>A catalog that has been published for a release.\<close>

definition served :: "catalog_db \<Rightarrow> release_row \<Rightarrow> bool" where
  "served db r \<longleftrightarrow> (\<exists>row. tbl_get cv_id (cb_versions db) (cv_id row) = Some row \<and> cv_release_id row = rl_id r
     \<and> cv_product_id row = rl_product_id r \<and> cv_channel row = rl_channel r \<and> cv_published_at row \<noteq> None \<and> complete db (cv_id row))"

definition published_served :: "catalog_db \<Rightarrow> bool" where
  "published_served db \<longleftrightarrow> (\<forall>x r. release_at (cb_release db) x = Some r \<longrightarrow> rl_status r = StatusPublished \<longrightarrow> served db r)"

definition catalog_sound :: "catalog_db \<Rightarrow> bool" where
  "catalog_sound db \<longleftrightarrow> sound (cb_release db) \<and> catalog_ok db \<and> published_served db"

definition catalog_later :: "catalog_db \<Rightarrow> catalog_db \<Rightarrow> bool" where
  "catalog_later db db' \<longleftrightarrow> later (cb_release db) (cb_release db') \<and> catalog_evolves db db'"

interpretation cl: evolution catalog_later
  by unfold_locales (auto simp: catalog_later_def intro: la.R_refl la.R_trans ce.R_refl ce.R_trans)

inductive catalog_history :: "uuid_lib \<Rightarrow> pg_lib \<Rightarrow> catalog_db list \<Rightarrow> bool" for u pg where
  start: "catalog_sound db \<Longrightarrow> catalog_history u pg [db]"
| step: "catalog_history u pg (db # h) \<Longrightarrow> catalog_step u pg (set (db # h)) db db' \<Longrightarrow> catalog_history u pg (db' # db # h)"

inductive_cases catalog_history_stepE: "catalog_history u pg (db' # db # h)"

subsection \<open>The release tables in a step\<close>

lemma catalog_audit_frame:
  "catalog_audit u call job action p rt rid oc md db = (r, db') \<Longrightarrow>
    catalog_tables db' = catalog_tables db \<and> tables (cb_release db') = tables (cb_release db)"
  by (auto simp: catalog_audit_def act_simps catalog_tables_def tables_def)

lemma create_frame: "createPublicationRecordWithBuilder u pg service call mk rel a db = (r, db') \<Longrightarrow> cb_release db' = cb_release db"
  by (cases r) (auto simp: createPublicationRecordWithBuilder_def act_simps dest!: ReserveVersions_Inr catalog_Create_Inr(1))

lemma SetCurrent_frame: "SetCurrent p c x at db = (Inr y, db') \<Longrightarrow> cb_release db' = cb_release db"
  by (auto dest!: SetCurrent_Inr)

lemma switch_tx_Inr:
  assumes "switch_tx u call job rec action rel a m db = (Inr x, db')"
  shows "\<exists>mid rl. SetCurrent (vr_ProductID rec) (vr_Channel rec) (vr_ID rec) (pub_time call) db = (Inr (), mid)
     \<and> m (cb_release db) = (Inr (), rl) \<and> catalog_tables db' = catalog_tables mid \<and> tables (cb_release db') = tables rl"
proof -
  obtain mid e mid' where "SetCurrent (vr_ProductID rec) (vr_Channel rec) (vr_ID rec) (pub_time call) db = (Inr (), mid)"
      "on_release (wrap_err CatalogRelease m) mid = (Inr (), mid')"
      "catalog_audit u call job action (vr_ProductID rec) ''catalog'' (u_string u (vr_ID rec)) OutcomeSuccess
         [(''release_id'', AnyString (u_string u (release_id rel))), (''attempt_id'', AnyString (u_string u a)),
          (''bundle_sha256'', AnyString (vr_BundleSHA256 rec))] mid' = (Inr e, db')"
    using assms by (auto simp: switch_tx_def act_simps)
  then show ?thesis using SetCurrent_frame catalog_audit_frame
    by (fastforce simp: act_simps catalog_tables_def)
qed

lemma switch_tx_Inl: "switch_tx u call job rec action rel a m db = (Inl e, db') \<Longrightarrow> db' = db"
  by (auto simp: switch_tx_def act_simps)

lemma fail_tx_Inr:
  assumes "fail_tx u call job action rel attempt code m db = (Inr x, db')"
  shows "\<exists>rl. m (cb_release db) = (Inr (), rl) \<and> catalog_tables db' = catalog_tables db \<and> tables (cb_release db') = tables rl"
proof -
  obtain mid e where "on_release (wrap_err CatalogRelease m) db = (Inr (), mid)"
      "catalog_audit u call job action (rl_product_id (re_row rel)) ''release'' (u_string u (release_id rel)) OutcomeFailed
         [(''attempt_id'', AnyString (u_string u (am_ID attempt))), (''error_code'', AnyString code)] mid = (Inr e, db')"
    using assms by (auto simp: fail_tx_def act_simps)
  then show ?thesis using catalog_audit_frame by (fastforce simp: act_simps catalog_tables_def)
qed

lemma fail_tx_Inl: "fail_tx u call job action rel attempt code m db = (Inl e, db') \<Longrightarrow> db' = db"
  by (auto simp: fail_tx_def act_simps)

text \<open>The effect on the release tables of a transaction that ends in an audit event.\<close>

lemma effect_tables:
  assumes "effect db mid" "tables db' = tables mid"
  shows "effect db db'"
proof -
  have eq: "rd_releases db' = rd_releases mid" "rd_attempts db' = rd_attempts mid" using assms(2) by (auto simp: tables_def)
  have same: "replaced db old new db' \<longleftrightarrow> replaced db old new mid" "attempt_added a db db' \<longleftrightarrow> attempt_added a db mid"
    "attempt_settled x i st db db' \<longleftrightarrow> attempt_settled x i st db mid" for old new a x i st
    using eq by (simp_all add: replaced_def attempt_added_def attempt_settled_def)
  show ?thesis using assms(1)
  proof cases
    case (create row)
    then show ?thesis using eq by (intro effect.create [of db' db row]) simp_all
  next
    case (decide old new)
    then show ?thesis using eq same by (intro effect.decide [of db old new]) simp_all
  next
    case (start old new a)
    then show ?thesis using same by (intro effect.start [of db old new db' a]) simp_all
  next
    case (revoke old new a t actor reason)
    then show ?thesis using same by (intro effect.revoke [of db old new db' a t actor reason]) simp_all
  next
    case (finish old new status st i a)
    then show ?thesis using same by (intro effect.finish [of db old new db' status st i a]) simp_all
  next
    case (settle x i a st)
    then show ?thesis using eq same by (intro effect.settle [of db' db x i a st]) simp_all
  qed (use eq in \<open>auto intro: effect.same\<close>)
qed

lemma tx_effect:
  assumes "switch_tx u call job rec action rel a m db = (q, db') \<or> fail_tx u call job action rel attempt code m db = (q, db')"
    "\<And>r rl. within_tx m (cb_release db) = (r, rl) \<Longrightarrow> effect (cb_release db) rl"
  shows "effect (cb_release db) (cb_release db')"
proof (cases q)
  case (Inl e)
  then have "db' = db" using assms(1) unfolding Inl by (auto dest: switch_tx_Inl fail_tx_Inl)
  then show ?thesis by (simp add: effect.same)
next
  case (Inr x)
  then obtain rl where "m (cb_release db) = (Inr (), rl)" "tables (cb_release db') = tables rl"
    using assms(1) unfolding Inr by (auto dest!: switch_tx_Inr fail_tx_Inr)
  then show ?thesis using assms(2) [of "Inr ()" rl] effect_tables by (auto simp: act_simps)
qed

lemma catalog_step_effect:
  assumes "catalog_step u pg snaps db db'" "sound (cb_release db)" "\<And>s. s \<in> snaps \<Longrightarrow> sound (cb_release s) \<and> later (cb_release s) (cb_release db)"
  shows "effect (cb_release db) (cb_release db')"
  using assms(1)
proof cases
  case (service rel)
  then show ?thesis using assms(2,3) by (auto simp: sound_def later_def intro!: service_effect)
next
  case other
  then show ?thesis by (auto intro: effect.same)
next
  case create
  then show ?thesis using create_frame by (metis effect.same)
next
  case (publish s x rel rec call job action a now at q)
  then show ?thesis using publication_end_effect(1) by (blast intro: tx_effect)
next
  case (revoke s x rel rec call job action a at q)
  then show ?thesis using revocation_end_effect(1) by (blast intro: tx_effect)
next
  case (fail call job action rel attempt code now x a c at q)
  then show ?thesis using publication_end_effect(2) by (blast intro: tx_effect)
next
  case (revocation_failed call job action rel attempt code x a c at q)
  then show ?thesis using revocation_end_effect(2) by (blast intro: tx_effect)
qed

subsection \<open>The catalog tables in a step\<close>

lemma tx_evolves:
  "keeps catalog_evolves (switch_tx u call job rec action rel a m)"
  "keeps catalog_evolves (fail_tx u call job action rel attempt code m)"
  unfolding switch_tx_def fail_tx_def catalog_audit_def
  by (intro ce.keeps_rules SetCurrent_evolves on_release_evolves)+

lemma catalog_step_evolves: "catalog_step u pg snaps db db' \<Longrightarrow> catalog_evolves db db'"
proof (induction rule: catalog_step.induct)
  case create
  then show ?case using keepsD [OF createPublicationRecord_evolves] by blast
qed (auto simp: catalog_tables_def intro: same_tables_evolve dest: keepsD [OF tx_evolves(1)] keepsD [OF tx_evolves(2)])

lemma switch_ok:
  assumes "catalog_ok db" "switch_tx u call job rec action rel a m db = (q, db')"
  shows "catalog_ok db'"
proof (cases q)
  case (Inl e)
  then show ?thesis using assms switch_tx_Inl by blast
next
  case (Inr x)
  then obtain mid where "SetCurrent (vr_ProductID rec) (vr_Channel rec) (vr_ID rec) (pub_time call) db = (Inr (), mid)"
      "catalog_tables db' = catalog_tables mid"
    using switch_tx_Inr assms(2) by blast
  then show ?thesis using SetCurrent_ok(1) [OF assms(1)] same_tables_ok by blast
qed

lemma fail_ok: "catalog_ok db \<Longrightarrow> fail_tx u call job action rel attempt code m db = (q, db') \<Longrightarrow> catalog_ok db'"
  by (cases q) (auto dest!: fail_tx_Inl fail_tx_Inr intro: same_tables_ok)

lemma catalog_step_ok: "catalog_step u pg snaps db db' \<Longrightarrow> catalog_ok db \<Longrightarrow> catalog_ok db'"
proof (induction rule: catalog_step.induct)
  case create
  then show ?case using createPublicationRecord_ok by blast
qed (auto simp: catalog_tables_def intro: same_tables_ok switch_ok fail_ok)

lemma version_kept_row:
  assumes "version_kept row row'"
  shows "cv_id row' = cv_id row" "cv_product_id row' = cv_product_id row" "cv_channel row' = cv_channel row"
    "cv_release_id row' = cv_release_id row" "cv_versions row' = cv_versions row" "cv_attempt row' = cv_attempt row"
    "cv_published_at row \<noteq> None \<Longrightarrow> row' = row"
  using assms by (auto simp: version_kept_def)

lemma served_later:
  assumes "catalog_evolves db db'" "served db r"
  shows "served db' r"
proof -
  obtain row where row: "tbl_get cv_id (cb_versions db) (cv_id row) = Some row" "cv_release_id row = rl_id r"
      "cv_product_id row = rl_product_id r" "cv_channel row = rl_channel r" "cv_published_at row \<noteq> None" "complete db (cv_id row)"
    using assms(2) by (auto simp: served_def)
  then have "tbl_get cv_id (cb_versions db') (cv_id row) = Some row"
    using evolves_version [OF assms(1) row(1)] version_kept_row(7) by auto
  then show ?thesis using row complete_later [OF assms(1)] unfolding served_def by blast
qed

lemma served_fixed: "served db r \<Longrightarrow> release_fixed r' = release_fixed r \<Longrightarrow> served db r'"
  by (auto simp: served_def release_fixed_def)

lemma held_later:
  assumes "catalog_evolves db db'" "held rec db"
  shows "held rec db'"
proof -
  obtain row where row: "tbl_get cv_id (cb_versions db) (vr_ID rec) = Some row" "cv_release_id row = vr_ReleaseID rec"
      "cv_product_id row = vr_ProductID rec" "cv_channel row = vr_Channel rec"
    using assms(2) by (auto simp: held_def)
  then show ?thesis using evolves_version [OF assms(1) row(1)] version_kept_row by (auto simp: held_def)
qed

text \<open>The transaction of a publication leaves a catalog that serves the release.\<close>

lemma switch_serves:
  assumes ok: "catalog_ok db" and run: "switch_tx u call job rec action rel a m db = (Inr x, db')" and "held rec db" "same_scope rec rel"
  shows "served db' (re_row rel)"
proof -
  obtain mid where sw: "SetCurrent (vr_ProductID rec) (vr_Channel rec) (vr_ID rec) (pub_time call) db = (Inr (), mid)"
      and same: "catalog_tables db' = catalog_tables mid"
    using switch_tx_Inr [OF run] by blast
  obtain ptr where ptr: "tbl_get pointer_key (cb_pointers mid) (vr_ProductID rec, vr_Channel rec) = Some ptr" "po_version_id ptr = vr_ID rec"
    using SetCurrent_ok(3) [OF ok sw] by blast
  moreover have "catalog_ok mid" by (rule SetCurrent_ok(1) [OF ok sw])
  ultimately have "pointed mid ptr" by (auto simp: catalog_ok_def dest: tbl_get_Some)
  then obtain row where row: "tbl_get cv_id (cb_versions mid) (vr_ID rec) = Some row" "cv_published_at row \<noteq> None" "complete mid (vr_ID rec)"
    using ptr by (auto simp: pointed_def)
  have "held rec mid" by (rule held_later [OF keepsD [OF SetCurrent_evolves sw] assms(3)])
  then have "served mid (re_row rel)" unfolding served_def using row assms(4) tbl_get_key [OF row(1)]
    by (intro exI [of _ row]) (auto simp: held_def same_scope_def)
  then show ?thesis using served_later [OF same_tables_evolve [OF same]] by blast
qed

lemma GetByID_row:
  assumes "releases_ok db" "GetByID x db = Inr rel"
  shows "release_at db x = Some (re_row rel)" "release_id rel = x"
proof -
  obtain p where "loadRelease p x db = Inr rel" using assms(2) by (auto simp: GetByID_def split: option.splits)
  then show "release_at db x = Some (re_row rel)" "release_id rel = x" using loadRelease_at [OF assms(1)] by auto
qed

lemma completion_published:
  assumes ok: "releases_ok db" and "CompletePublication now y i at db = (Inr (), db')" and pub: "published db' x"
  shows "published db x \<or> x = y"
proof -
  consider "db' = db" | t where "settle_publication now y i StatusPublished AttemptStatusSucceeded None t db = (Inr (), db')"
    using CompletePublication_Inr [OF assms(2)] by blast
  then show ?thesis
  proof cases
    case 2
    then obtain old new where "replaced db old new db'" "rl_id old = y" using settle_publication_Inr by blast
    then show ?thesis using replaced_row [OF ok] pub by (auto simp: published_def split: if_splits)
  qed (use pub in simp)
qed

lemma failure_published:
  assumes ok: "releases_ok db" and "FailPublication now y i code at db = (Inr (), db')" and pub: "published db' x"
  shows "published db x"
proof -
  consider "db' = db" | c t where "settle_publication now y i StatusFailed AttemptStatusFailed (Some c) t db = (Inr (), db')"
    using FailPublication_Inr [OF assms(2)] by blast
  then show ?thesis
  proof cases
    case 2
    then obtain old new where "replaced db old new db'" "view new = (view old)\<lparr>wf_status := StatusFailed, wf_lock := rl_lock_version old + 1\<rparr>"
      using settle_publication_Inr by blast
    moreover from this have "rl_status new = StatusFailed" by (simp add: view_def)
    ultimately show ?thesis using replaced_published [OF ok, of old new db' x] pub by simp
  qed (use pub in simp)
qed

lemma published_tables: "tables db' = tables db \<Longrightarrow> published db' x \<longleftrightarrow> published db x"
  by (simp add: tables_def published_def)

lemma revocation_releases:
  "CompleteRevocation y i at db = (Inr (), db') \<Longrightarrow> rd_releases db' = rd_releases db"
  "FailRevocation y i code at db = (Inr (), db') \<Longrightarrow> rd_releases db' = rd_releases db"
  by (auto simp: CompleteRevocation_def FailRevocation_def act_simps Let_def split: if_splits dest!: settle_attempt_Inr)

text \<open>A step publishes a release only when it makes its catalog current.\<close>

lemma step_published:
  assumes step: "catalog_step u pg snaps db db'" and ok: "catalog_sound db" and snaps: "\<And>s. s \<in> snaps \<Longrightarrow> catalog_sound s \<and> catalog_later s db"
    and pub: "published (cb_release db') x"
  shows "published (cb_release db) x \<or> (\<exists>s r. s \<in> snaps \<and> release_at (cb_release s) x = Some r \<and> served db' r)"
proof -
  have rok: "releases_ok (cb_release db)" "catalog_ok db" using ok by (auto simp: catalog_sound_def sound_def)
  have eff: "effect (cb_release db) (cb_release db')"
    using ok snaps by (intro catalog_step_effect [OF step]) (auto simp: catalog_sound_def catalog_later_def)
  show ?thesis using step
  proof cases
    case (service rel)
    then show ?thesis using service_published [OF service(2)] eff rok pub by simp
  next
    case other
    then show ?thesis using pub by (simp add: published_def)
  next
    case create
    then have "cb_release db' = cb_release db" using create_frame by blast
    then show ?thesis using pub by simp
  next
    case (publish s y rel rec call job action a now at q)
    show ?thesis
    proof (cases q)
      case (Inl e)
      then show ?thesis using publish(5) pub by (auto dest!: switch_tx_Inl)
    next
      case (Inr z)
      obtain rl where rl: "CompletePublication now (release_id rel) a at (cb_release db) = (Inr (), rl)" "tables (cb_release db') = tables rl"
        using switch_tx_Inr [OF publish(5) [unfolded Inr]] by blast
      have "published (cb_release db) x \<or> x = release_id rel"
        using completion_published [OF rok(1) rl(1)] pub published_tables [OF rl(2)] by blast
      moreover have "held rec db" using held_later publish(1,3) snaps by (auto simp: catalog_later_def)
      then have "served db' (re_row rel)" using switch_serves [OF rok(2) publish(5) [unfolded Inr] _ publish(4)] by blast
      moreover have "releases_ok (cb_release s)" using snaps [OF publish(1)] by (simp add: catalog_sound_def sound_def)
      then have "release_at (cb_release s) (release_id rel) = Some (re_row rel)" using GetByID_row [OF _ publish(2)] by simp
      ultimately show ?thesis using publish(1) by blast
    qed
  next
    case (revoke s y rel rec call job action a at q)
    then have "rd_releases (cb_release db') = rd_releases (cb_release db)"
      by (cases q) (auto dest!: switch_tx_Inl switch_tx_Inr revocation_releases(1) simp: tables_def)
    then show ?thesis using pub by (simp add: published_def)
  next
    case (fail call job action rel attempt code now y a c at q)
    show ?thesis
    proof (cases q)
      case (Inl e)
      then show ?thesis using fail pub by (auto dest!: fail_tx_Inl)
    next
      case (Inr z)
      obtain rl where rl: "FailPublication now y a c at (cb_release db) = (Inr (), rl)" "tables (cb_release db') = tables rl"
        using fail_tx_Inr [OF fail [unfolded Inr]] by blast
      then show ?thesis using failure_published [OF rok(1) rl(1)] pub published_tables [OF rl(2)] by blast
    qed
  next
    case (revocation_failed call job action rel attempt code y a c at q)
    then have "rd_releases (cb_release db') = rd_releases (cb_release db)"
      by (cases q) (auto dest!: fail_tx_Inl fail_tx_Inr revocation_releases(2) simp: tables_def)
    then show ?thesis using pub by (simp add: published_def)
  qed
qed

lemma step_sound:
  assumes step: "catalog_step u pg snaps db db'" and ok: "catalog_sound db" and snaps: "\<And>s. s \<in> snaps \<Longrightarrow> catalog_sound s \<and> catalog_later s db"
  shows "catalog_sound db' \<and> catalog_later db db'"
proof -
  have "effect (cb_release db) (cb_release db')"
    using ok snaps by (intro catalog_step_effect [OF step]) (auto simp: catalog_sound_def catalog_later_def)
  then have rel: "sound (cb_release db')" "later (cb_release db) (cb_release db')"
    using effect_sound ok by (auto simp: catalog_sound_def)
  have cat: "catalog_evolves db db'" by (rule catalog_step_evolves [OF step])
  have fixed: "release_fixed r' = release_fixed r" if "catalog_later s db" "release_at (cb_release s) x = Some r" "release_at (cb_release db') x = Some r'" for s x r r'
  proof -
    have "later (cb_release s) (cb_release db')" using that(1) rel(2) la.R_trans by (auto simp: catalog_later_def)
    then show ?thesis using that(2,3) by (fastforce simp: later_def evolves_def)
  qed
  have "served db' r'" if r': "release_at (cb_release db') x = Some r'" "rl_status r' = StatusPublished" for x r'
  proof -
    have "published (cb_release db') x" using r' by (auto simp: published_def)
    then have "published (cb_release db) x \<or> (\<exists>s r. s \<in> snaps \<and> release_at (cb_release s) x = Some r \<and> served db' r)"
      using step_published [OF step ok] snaps by blast
    then show ?thesis
    proof (elim disjE exE conjE)
      assume "published (cb_release db) x"
      then obtain r where r: "release_at (cb_release db) x = Some r" "rl_status r = StatusPublished" by (auto simp: published_def)
      then have "served db' r" using ok served_later [OF cat] by (auto simp: catalog_sound_def published_served_def)
      then show ?thesis using served_fixed fixed [OF cl.R_refl r(1) r'(1)] by blast
    next
      fix s r assume "s \<in> snaps" "release_at (cb_release s) x = Some r" "served db' r"
      then show ?thesis using served_fixed fixed r'(1) snaps by blast
    qed
  qed
  then show ?thesis using rel cat catalog_step_ok [OF step] ok by (auto simp: catalog_sound_def catalog_later_def published_served_def)
qed

lemma catalog_history_ok:
  assumes "catalog_history u pg h"
  shows "h \<noteq> [] \<and> (\<forall>s\<in>set h. catalog_sound s \<and> catalog_later s (hd h))"
  using assms
proof (induction rule: catalog_history.induct)
  case (start db)
  then show ?case by (simp add: cl.R_refl)
next
  case (step db h db')
  have "catalog_sound db' \<and> catalog_later db db'" using step.IH by (intro step_sound [OF step.hyps(2)]) auto
  then show ?case using step.IH cl.R_refl cl.R_trans by fastforce
qed

lemma catalog_history_later:
  "catalog_history u pg (db' # h) \<Longrightarrow> db \<in> set (db' # h) \<Longrightarrow> catalog_sound db \<and> catalog_sound db' \<and> catalog_later db db'"
  using catalog_history_ok [of u pg "db' # h"] by auto

section \<open>The current catalog\<close>

lemma load_version_Inr:
  "load_version pg row db = Inr rec \<longleftrightarrow> complete db (cv_id row)
     \<and> rec = (scanVersionRecord row)\<lparr>vr_Roles := \<lambda>role. map_option (scan_document pg) (tbl_get document_key (cb_documents db) (cv_id row, role))\<rparr>"
  by (auto simp: load_version_def loadRoleDocuments_def res_elims Let_def each_role complete_def split: if_splits)

lemma Current_row:
  assumes "catalog_ok db"
  shows "Current pg p c db = Inr rec \<longleftrightarrow> pg_text p \<and> pg_text c \<and> (\<exists>row. current_row db (p, c) = Some row \<and> load_version pg row db = Inr rec)"
proof (cases "tbl_get pointer_key (cb_pointers db) (p, c)")
  case (Some ptr)
  then have "pointed db ptr" "pointer_key ptr = (p, c)" using assms by (auto simp: catalog_ok_def dest: tbl_get_Some)
  then obtain row where row: "tbl_get cv_id (cb_versions db) (po_version_id ptr) = Some row" "cv_product_id row = p" "cv_channel row = c"
    by (auto simp: pointed_def)
  moreover have "distinct (map (\<lambda>r. (cv_id r, cv_product_id r, cv_channel r)) (cb_versions db))"
    using assms unfolding catalog_ok_def keys_ok_def by (auto simp: distinct_map inj_on_def)
  then have "tbl_get (\<lambda>r. (cv_id r, cv_product_id r, cv_channel r)) (cb_versions db) (po_version_id ptr, p, c) = Some row"
    using tbl_get_unique [of "\<lambda>r. (cv_id r, cv_product_id r, cv_channel r)" "cb_versions db" row] row by (auto dest: tbl_get_Some)
  ultimately show ?thesis using Some by (auto simp: Current_def current_row_def)
qed (auto simp: Current_def current_row_def)

lemma current_complete:
  assumes "catalog_ok db" "current_row db k = Some row"
  shows "complete db (cv_id row)" "cv_published_at row \<noteq> None" "(cv_product_id row, cv_channel row) = k" "row \<in> set (cb_versions db)"
proof -
  obtain ptr where ptr: "tbl_get pointer_key (cb_pointers db) k = Some ptr" "tbl_get cv_id (cb_versions db) (po_version_id ptr) = Some row"
    using assms(2) by (auto simp: current_row_def split: option.splits)
  then have "pointed db ptr" "pointer_key ptr = k" using assms(1) by (auto simp: catalog_ok_def dest: tbl_get_Some)
  then show "complete db (cv_id row)" "cv_published_at row \<noteq> None" "(cv_product_id row, cv_channel row) = k" "row \<in> set (cb_versions db)"
    using ptr(2) tbl_get_Some [OF ptr(2)] by (auto simp: pointed_def)
qed

text \<open>C8. The current catalog of a channel never goes back. In every interleaving of the transactions of the
  release service and of the publication workers, a channel that serves a catalog serves, in every later state, the very
  same record or one whose targets, snapshot, timestamp and revocation versions are all greater and whose root version
  is not smaller.\<close>

theorem catalog_never_rolls_back:
  assumes "catalog_history u pg (db' # h)" "db \<in> set (db' # h)" "Current pg p c db = Inr rec"
  shows "\<exists>rec'. Current pg p c db' = Inr rec' \<and> (rec' = rec
     \<or> vs_Root (vr_Versions rec) \<le> vs_Root (vr_Versions rec')
       \<and> (\<forall>role. role \<noteq> RoleRoot \<longrightarrow> role_version (vr_Versions rec) role < role_version (vr_Versions rec') role))"
proof -
  have ok: "catalog_ok db" "catalog_ok db'" "catalog_evolves db db'"
    using catalog_history_later [OF assms(1,2)] by (auto simp: catalog_sound_def catalog_later_def)
  obtain row where row: "pg_text p" "pg_text c" "current_row db (p, c) = Some row" "load_version pg row db = Inr rec"
    using assms(3) Current_row [OF ok(1)] by blast
  obtain row' where row': "current_row db' (p, c) = Some row'" "versions_le (cv_versions row) (cv_versions row')"
    using evolves_current [OF ok(3) row(3)] by blast
  note cur = current_complete [OF ok(1) row(3)] and cur' = current_complete [OF ok(2) row'(1)]
  obtain rec' where rec': "load_version pg row' db' = Inr rec'" using cur'(1) load_version_Inr by blast
  have vs: "vr_Versions rec = cv_versions row" "vr_Versions rec' = cv_versions row'"
    using row(4) rec' by (auto simp: load_version_Inr scanVersionRecord_def)
  have kept: "row \<in> set (cb_versions db')"
    using evolves_version [OF ok(3) tbl_get_unique [of cv_id "cb_versions db", OF _ cur(4)]] ok(1) cur(2) version_kept_row(7)
    by (fastforce simp: catalog_ok_def keys_ok_def dest: tbl_get_Some)
  have "rec' = rec" if "row' = row"
  proof -
    have "tbl_get document_key (cb_documents db') (cv_id row, role) = tbl_get document_key (cb_documents db) (cv_id row, role)" for role
    proof -
      obtain d where d: "tbl_get document_key (cb_documents db) (cv_id row, role) = Some d" using cur(1) by (auto simp: complete_def)
      then show ?thesis using evolves_document [OF ok(3) d] by simp
    qed
    then show ?thesis using row(4) rec' that by (simp add: load_version_Inr)
  qed
  moreover have "role_version (cv_versions row) role \<noteq> role_version (cv_versions row') role" if "row' \<noteq> row" "role \<noteq> RoleRoot" for role
  proof -
    have "inj_on (\<lambda>r. (cv_product_id r, cv_channel r, role_version (cv_versions r) role)) (set (cb_versions db'))"
      using ok(2) that(2) by (simp add: catalog_ok_def keys_ok_def serial_roles_def distinct_map)
    then show ?thesis using that(1) kept cur(3) cur'(3,4) by (auto simp: inj_on_def)
  qed
  ultimately have "rec' = rec \<or> (\<forall>role. role \<noteq> RoleRoot \<longrightarrow> role_version (cv_versions row) role < role_version (cv_versions row') role)"
    using row'(2) le_neq_implies_less unfolding versions_le_def by blast
  moreover have "vs_Root (cv_versions row) \<le> vs_Root (cv_versions row')"
    using row'(2) unfolding versions_le_def by (metis role_version.simps(1))
  ultimately show ?thesis using Current_row [OF ok(2)] row(1,2) row'(1) rec' vs by auto
qed

text \<open>C10. A release is PUBLISHED only with its catalog. In every state of every such interleaving a
  release in state PUBLISHED has a complete catalog record of its product and channel that has been published.\<close>

theorem published_release_has_catalog:
  assumes "catalog_history u pg (db # h)" "release_at (cb_release db) x = Some r" "rl_status r = StatusPublished"
  shows "\<exists>i rec. catalog_Get pg i db = Inr rec \<and> vr_ReleaseID rec = x \<and> vr_ProductID rec = rl_product_id r
     \<and> vr_Channel rec = rl_channel r \<and> vr_PublishedAt rec \<noteq> None \<and> (\<forall>role. vr_Roles rec role \<noteq> None)"
proof -
  have "served db r" "rl_id r = x"
    using catalog_history_ok [OF assms(1)] assms(2,3) tbl_get_key [OF assms(2)] by (auto simp: catalog_sound_def published_served_def)
  then obtain row where row: "tbl_get cv_id (cb_versions db) (cv_id row) = Some row" "cv_release_id row = x" "cv_product_id row = rl_product_id r"
      "cv_channel row = rl_channel r" "cv_published_at row \<noteq> None" "complete db (cv_id row)"
    by (auto simp: served_def)
  then obtain rec where rec: "load_version pg row db = Inr rec" using load_version_Inr by blast
  then have "catalog_Get pg (cv_id row) db = Inr rec" using row(1) by (simp add: catalog_Get_def)
  moreover have "vr_ReleaseID rec = x" "vr_ProductID rec = rl_product_id r" "vr_Channel rec = rl_channel r" "vr_PublishedAt rec \<noteq> None"
    "\<forall>role. vr_Roles rec role \<noteq> None"
    using rec row by (auto simp: load_version_Inr scanVersionRecord_def complete_def)
  ultimately show ?thesis by blast
qed


section \<open>Witnesses\<close>

text \<open>A release with one recorded catalog of its channel.\<close>

definition sample_versions :: Versions where
  "sample_versions = \<lparr>vs_Root = 1, vs_Targets = 1, vs_Snapshot = 1, vs_Timestamp = 1, vs_Revocation = 1\<rparr>"

definition sample_document :: "catalog_role \<Rightarrow> document_row" where
  "sample_document role = \<lparr>dr_version_id = 50, dr_role = role, dr_version = 1, dr_sha256 = sample_digest,
     dr_object_key = ''catalogs/'' @ role_text role, dr_signatures = ''[]'', dr_envelope = Some ''x''\<rparr>"

definition sample_version_row :: "time option \<Rightarrow> version_row" where
  "sample_version_row at = \<lparr>cv_id = 50, cv_attempt = Some 30, cv_product_id = ''p1'', cv_channel = ''x'', cv_release_id = 20,
     cv_versions = sample_versions, cv_bundle_sha256 = zeroHash, cv_created_at = 1000, cv_published_at = at\<rparr>"

definition sample_catalogs :: "release_status \<Rightarrow> attempt_status \<Rightarrow> time option \<Rightarrow> catalog_db" where
  "sample_catalogs status attempt at = \<lparr>cb_release = sample_releases (sample_release status 5 (Some ''ana'') None) [sample_attempt AttemptKindPublish attempt],
     cb_counters = [\<lparr>ct_product_id = ''p1'', ct_channel = ''x'', ct_versions = sample_versions\<rparr>],
     cb_versions = [sample_version_row at], cb_documents = map sample_document publicationRoleOrder,
     cb_pointers = (case at of None \<Rightarrow> [] | Some t \<Rightarrow> [\<lparr>po_product_id = ''p1'', po_channel = ''x'', po_version_id = 50, po_switched_at = t\<rparr>])\<rparr>"

abbreviation "sample_pending \<equiv> sample_catalogs StatusPublishing AttemptStatusPending None"
abbreviation "sample_published \<equiv> sample_catalogs StatusPublished AttemptStatusSucceeded (Some 2000)"

lemma sample_document_ok: "document_ok (sample_document role)"
  by (cases role) (simp_all add: document_ok_def sample_document_def validCatalogObjectKey_def has_prefix_def
      maximumRoleEnvelopeBytes_def byte_val_def)

lemma sample_documents: "tbl_get document_key (map sample_document publicationRoleOrder) (50, role) = Some (sample_document role)"
  by (cases role) (simp_all add: tbl_get_def sample_document_def publicationRoleOrder_def)

lemma sample_catalog_ok: "catalog_ok (sample_catalogs status attempt at)"
proof -
  have "distinct (map document_key (map sample_document publicationRoleOrder))" by (simp add: sample_document_def publicationRoleOrder_def)
  then have "keys_ok (sample_catalogs status attempt at)"
    by (simp add: keys_ok_def sample_catalogs_def tbl_get_def split: option.splits)
  then show ?thesis using sample_document_ok sample_documents
    by (auto simp: catalog_ok_def sample_catalogs_def counted_def pointed_def complete_def tbl_get_def [of cv_id] tbl_get_def [of counter_key]
        sample_version_row_def split: option.splits)
qed

lemma sample_catalog_sound: "catalog_sound sample_pending" "catalog_sound sample_published"
proof -
  have "sound (cb_release sample_pending)" "sound (cb_release sample_published)"
    unfolding sample_catalogs_def catalog_db.select_convs
    by (rule sample_sound [OF sample_release_ok]; auto simp: sample_release_def)+
  moreover have "published_served sample_pending"
    by (auto simp: published_served_def sample_catalogs_def sample_releases_def tbl_get_def sample_release_def split: if_splits)
  moreover have "served sample_published r" if "release_at (cb_release sample_published) x = Some r" for x r
  proof -
    have "rl_id r = 20" "rl_product_id r = ''p1''" "rl_channel r = ''x''"
      using that by (auto simp: sample_catalogs_def sample_releases_def tbl_get_def sample_release_def split: if_splits)
    then show ?thesis unfolding served_def using sample_documents
      by (intro exI [of _ "sample_version_row (Some 2000)"])
        (auto simp: sample_catalogs_def tbl_get_def [of cv_id] sample_version_row_def complete_def)
  qed
  ultimately show "catalog_sound sample_pending" "catalog_sound sample_published"
    using sample_catalog_ok by (auto simp: catalog_sound_def published_served_def)
qed

lemma sample_catalog_history: "catalog_history u pg [sample_pending]" "catalog_history u pg [sample_published]"
  using sample_catalog_sound by (auto intro: catalog_history.start)

lemma sample_current: "\<exists>rec. Current plain_pg ''p1'' ''x'' sample_published = Inr rec \<and> vr_ID rec = 50"
proof -
  have row: "current_row sample_published (''p1'', ''x'') = Some (sample_version_row (Some 2000))"
    by (simp add: current_row_def sample_catalogs_def tbl_get_def sample_version_row_def)
  moreover obtain rec where rec: "load_version plain_pg (sample_version_row (Some 2000)) sample_published = Inr rec"
    using load_version_Inr current_complete(1) [OF sample_catalog_ok row] by blast
  moreover have "vr_ID rec = 50" using rec by (simp add: load_version_Inr scanVersionRecord_def sample_version_row_def)
  ultimately show ?thesis using Current_row [OF sample_catalog_ok] by (auto simp: sample_text)
qed

theorem catalog_never_rolls_back_witness:
  "\<exists>rec rec'. Current plain_pg ''p1'' ''x'' sample_published = Inr rec \<and> Current plain_pg ''p1'' ''x'' sample_published = Inr rec'
     \<and> (rec' = rec \<or> (\<forall>role. role \<noteq> RoleRoot \<longrightarrow> role_version (vr_Versions rec) role < role_version (vr_Versions rec') role))"
proof -
  obtain rec where "Current plain_pg ''p1'' ''x'' sample_published = Inr rec" using sample_current by blast
  then show ?thesis
    using catalog_never_rolls_back [OF sample_catalog_history(2), of sample_published plain_pg "''p1''" "''x''" rec] by auto
qed

theorem published_release_has_catalog_witness:
  "\<exists>i rec. catalog_Get plain_pg i sample_published = Inr rec \<and> vr_ReleaseID rec = 20 \<and> (\<forall>role. vr_Roles rec role \<noteq> None)"
proof -
  have "release_at (cb_release sample_published) 20 = Some (sample_release StatusPublished 5 (Some ''ana'') None)"
      "rl_status (sample_release StatusPublished 5 (Some ''ana'') None) = StatusPublished"
    by (simp_all add: sample_catalogs_def sample_releases_def tbl_get_def sample_release_def)
  then show ?thesis using published_release_has_catalog [OF sample_catalog_history(2)] by blast
qed


end
