(* ===== verification/CatalogText.thy ===== *)
theory CatalogText
  imports Catalog
begin

text \<open>
  Reading back what the catalog writes: the JSON value of a value built by the code, the members of an
  object by key, envelopes, hexadecimal digests and base64.
\<close>

section \<open>Signed values read back\<close>

lemma utf8_valid_unit: "utf8_width u = length u \<Longrightarrow> u \<noteq> [] \<Longrightarrow> utf8_valid u"
  using utf8_valid_rune [of u] by simp

lemma hex_digit_ascii: "hex_digit c = Some n \<Longrightarrow> byte_val c < 128"
  by (auto simp: hex_digit_def is_digit_def in_range_def split: if_splits)

lemma quotes_utf8: "quotes s b \<Longrightarrow> utf8_valid b"
proof (induction rule: quotes.induct)
  case (quotes_unicode h r s b)
  then have "list_all (\<lambda>c. byte_val c < 128) h"
    by (auto simp: hex4_def list_all_iff dest: hex_digit_ascii split: list.splits option.splits if_splits)
  then have "utf8_valid (h @ b)" using quotes_unicode.IH utf8_valid_append [OF utf8_valid_ascii] by blast
  then show ?case by (simp add: utf8_valid_Cons byte_val_def)
next
  case (quotes_escape e x s b)
  then have "byte_val e < 128" by (auto simp: simple_escape_def byte_val_def split: if_splits)
  with quotes_escape show ?case by (simp add: utf8_valid_Cons byte_val_def)
qed (auto simp: utf8_valid.simps [of "[]"] intro: utf8_valid_append utf8_valid_unit)

lemma prints_utf8: "prints b v \<Longrightarrow> utf8_valid b"
proof (induction rule: prints.induct)
  case (prints_arr bs vs)
  then have "\<forall>b \<in> set bs. utf8_valid b" by (auto simp: list_all2_conv_all_nth in_set_conv_nth)
  then show ?case using utf8_valid_bracket [OF utf8_valid_join, of bs "CHR ''[''" "CHR '']''"] by (simp add: byte_val_def)
next
  case (prints_obj bs ms)
  have "utf8_valid b" if "b \<in> set bs" for b
  proof -
    from that prints_obj obtain m kb vb where "b = quoted kb @ '':'' @ vb" "quotes (fst m) kb" "utf8_valid vb"
      by (auto simp: list_all2_conv_all_nth in_set_conv_nth)
    then show ?thesis using quotes_utf8
      by (auto simp: utf8_valid_Cons byte_val_def intro!: utf8_valid_append)
  qed
  then show ?case using utf8_valid_bracket [OF utf8_valid_join, of bs "CHR ''{''" "CHR ''}''"] by (simp add: byte_val_def)
next
  case (prints_str s b)
  then show ?case using utf8_valid_bracket [OF quotes_utf8, of s b "CHR 0x22" "CHR 0x22"] by (simp add: byte_val_def)
qed (auto simp: utf8_valid_int utf8_valid_graphic graphic_def in_range_def byte_val_def)

text \<open>The JSON value of a value built by the code.\<close>

fun json_of :: "go_value \<Rightarrow> json" where
  "json_of GoNil = JNull"
| "json_of (GoBool b) = JBool b"
| "json_of (GoNumber n) = JNum n"
| "json_of (GoString s) = JStr s"
| "json_of (GoSlice xs) = JArr (map json_of xs)"
| "json_of (GoMap ms) = JObj (sort_key fst (map (\<lambda>m. (fst m, json_of (snd m))) ms))"
| "json_of (GoStruct ms) = JObj (map (\<lambda>m. (fst m, json_of (snd m))) ms)"

text \<open>The values of the builder: no struct, and only integers.\<close>

fun numeric :: "go_value \<Rightarrow> bool" where
  "numeric (GoNumber n) \<longleftrightarrow> int_text n"
| "numeric (GoSlice xs) \<longleftrightarrow> list_all numeric xs"
| "numeric (GoMap ms) \<longleftrightarrow> list_all (\<lambda>m. numeric (snd m)) ms"
| "numeric (GoStruct ms) \<longleftrightarrow> False"
| "numeric _ \<longleftrightarrow> True"

lemma prints_marshal: "numeric v \<Longrightarrow> validateCanonicalInput v \<Longrightarrow> prints (marshal_go v) (json_of v)"
proof (induction v)
  case (GoMap ms)
  have val: "quotes (fst m) (marshal_body (fst m)) \<and> prints (marshal_go (snd m)) (json_of (snd m))" if "m \<in> set ms" for m
    using GoMap that by (cases m) (force simp: list_all_iff quotes_marshal)
  let ?b = "\<lambda>m. quoted (marshal_body (fst m)) @ '':'' @ marshal_go (snd m)"
  have "prints (''{'' @ join_comma (map ?b (sort_key fst ms)) @ ''}'') (JObj (map (\<lambda>m. (fst m, json_of (snd m))) (sort_key fst ms)))"
    by (rule prints_obj) (use val in \<open>auto simp: list_all2_map1 list_all2_map2 list_all2_same\<close>)
  then show ?case by (simp add: sort_key_map marshal_string_def comp_def)
next
  case (GoSlice es)
  then have "prints (''['' @ join_comma (map marshal_go es) @ '']'') (JArr (map json_of es))"
    by (intro prints_arr) (auto simp: list_all_iff list_all2_map1 list_all2_map2 list_all2_same)
  then show ?case by simp
qed (auto simp: prints.intros marshal_string_def quotes_marshal)

lemma printed_value: "prints b v \<Longrightarrow> strictJSONValue b = Inr w \<longleftrightarrow> w = v \<and> strict_value v"
proof -
  assume b: "prints b v"
  have "Token (new_decoder []) = Inl JEOF" by (subst Token.simps) (simp add: new_decoder_def skip_space_def)
  then show ?thesis using prints_read [OF b] prints_utf8 [OF b] by (auto simp: strictJSONValue_iff)
qed

lemma canonical_value:
  assumes "numeric v"
  shows "CanonicalJSON_value v = Inr b \<longleftrightarrow> validateCanonicalInput v \<and> strict_value (json_of v) \<and> b = encodeCanonicalValue (json_of v)"
proof (cases "validateCanonicalInput v")
  case True
  then show ?thesis using printed_value [OF prints_marshal [OF assms True]]
    by (auto simp: CanonicalJSON_value_def CanonicalJSON_def res_bind_Inr)
qed (simp add: CanonicalJSON_value_def)


section \<open>Members by key\<close>

lemma map_of_sort_key: "distinct (map fst ms) \<Longrightarrow> map_of (sort_key fst ms) = map_of ms"
  by (subst map_of_inject_set) (auto simp: distinct_map)

lemma map_of_snd: "map_of (map (\<lambda>m. (fst m, f (snd m))) ms) k = map_option f (map_of ms k)"
  by (induction ms) auto

definition sorted_members :: "members \<Rightarrow> members" where
  "sorted_members ms = sort_key fst (map (\<lambda>m. (fst m, sort_json (snd m))) ms)"

lemma map_of_sorted: "distinct (map fst ms) \<Longrightarrow> map_of (sorted_members ms) k = map_option sort_json (map_of ms k)"
  by (simp add: sorted_members_def map_of_sort_key comp_def map_of_snd)

text \<open>What the strict reader makes of the canonical text of a value.\<close>

abbreviation canon :: "go_value \<Rightarrow> json" where
  "canon v \<equiv> sort_json (json_of v)"

definition canon_members :: "(bytes \<times> go_value) list \<Rightarrow> members" where
  "canon_members ms = sort_key fst (map (\<lambda>m. (fst m, canon (snd m))) ms)"

lemma canon_map: "canon (GoMap ms) = JObj (canon_members ms)"
  by (simp add: canon_members_def sort_key_map comp_def)

lemma map_of_canon: "distinct (map fst ms) \<Longrightarrow> map_of (canon_members ms) k = map_option canon (map_of ms k)"
  by (simp add: canon_members_def map_of_sort_key comp_def map_of_snd [of "\<lambda>v. canon v"])

lemma canon_members_length [simp]: "length (canon_members ms) = length ms"
  by (simp add: canon_members_def)

lemma strict_map:
  "strict_value (json_of (GoMap ms)) \<longleftrightarrow> distinct (map fst ms) \<and> list_all (\<lambda>m. utf8_valid (fst m) \<and> strict_value (json_of (snd m))) ms"
proof -
  have "distinct (map fst (sort_key fst ms)) = distinct (map fst ms)" by (simp add: distinct_map)
  then show ?thesis by (auto simp: sort_key_map comp_def list_all_iff)
qed

section \<open>Envelopes\<close>

definition envelope_value :: "go_value \<Rightarrow> (string \<times> bytes) list \<Rightarrow> go_value" where
  "envelope_value content sigs = GoMap [(''signed'', content), (''signatures'', GoSlice (map signature_value (sort_key fst sigs)))]"

definition signature_ok :: "string \<times> bytes \<Rightarrow> bool" where
  "signature_ok s \<longleftrightarrow> matches keyIDPattern (fst s) \<and> matches base64URLPattern (RawURLEncode (snd s))"

lemma parse_built_signatures:
  "parse_signatures (map (\<lambda>s. canon (signature_value s)) sigs) =
     (if list_all signature_ok sigs then Inr (map (\<lambda>s. (fst s, RawURLEncode (snd s))) sigs) else Inl ErrEnvelopeInvalid)"
proof (induction sigs)
  case (Cons s sigs)
  have "canon (signature_value s) = JObj (canon_members [(''keyid'', GoString (fst s)), (''sig'', GoString (RawURLEncode (snd s)))])"
    unfolding signature_value_def by (rule canon_map)
  with Cons show ?case by (auto simp: map_of_canon signature_ok_def)
qed simp

lemma parse_built:
  assumes "strict_value (json_of (envelope_value (GoMap ms) sigs))"
  defines "raw \<equiv> encodeCanonicalValue (json_of (envelope_value (GoMap ms) sigs))"
  shows "parseEnvelope raw = (if sigs = [] \<or> \<not> list_all signature_ok sigs then Inl ErrEnvelopeInvalid
     else Inr \<lparr>pe_Signed = canon_members ms, pe_Signatures = map (\<lambda>s. (fst s, RawURLEncode (snd s))) (sort_key fst sigs),
               pe_SignedBytes = encodeCanonicalValue (json_of (GoMap ms)), pe_EnvelopeBytes = raw\<rparr>)"
proof -
  let ?ms = "[(''signed'', GoMap ms), (''signatures'', GoSlice (map signature_value (sort_key fst sigs)))]"
  have "strictJSONValue raw = Inr (JObj (canon_members ?ms))"
    using strict_canonical [OF assms(1)] by (simp only: raw_def envelope_value_def canon_map)
  moreover have "map_of (canon_members ?ms) ''signed'' = Some (JObj (canon_members ms))"
    by (simp add: map_of_canon canon_map del: json_of.simps)
  moreover have "map_of (canon_members ?ms) ''signatures'' = Some (JArr (map (\<lambda>s. canon (signature_value s)) (sort_key fst sigs)))"
    by (simp add: map_of_canon comp_def)
  moreover have "encodeCanonicalValue (JObj (canon_members xs)) = encodeCanonicalValue (json_of (GoMap xs))" for xs
    by (simp only: encode_sort flip: canon_map)
  moreover have "list_all signature_ok (sort_key fst sigs) = list_all signature_ok sigs" by (simp add: list_all_iff)
  moreover have "sort_key fst sigs = [] \<longleftrightarrow> sigs = []" by (metis set_empty set_sort)
  ultimately show ?thesis
    by (simp add: parseEnvelope_def present_def parse_built_signatures del: json_of.simps)
       (simp add: raw_def envelope_value_def del: json_of.simps)
qed

lemma numeric_envelope: "numeric content \<Longrightarrow> numeric (envelope_value content sigs)"
  by (simp add: envelope_value_def signature_value_def list_all_iff)

lemma signEnvelope_Inr:
  assumes "numeric content"
  shows "signEnvelope sign refs content = Inr raw \<longleftrightarrow>
    (\<exists>sigs. validateCanonicalInput content \<and> strict_value (json_of content)
       \<and> sign_all sign (encodeCanonicalValue (json_of content)) {} refs = Inr sigs
       \<and> validateCanonicalInput (envelope_value content sigs) \<and> strict_value (json_of (envelope_value content sigs))
       \<and> raw = encodeCanonicalValue (json_of (envelope_value content sigs)))"
  using canonical_value [OF assms] canonical_value [OF numeric_envelope [OF assms]]
  by (auto simp: signEnvelope_def res_bind_Inr envelope_value_def)

lemma signed_parse:
  assumes "numeric (GoMap ms)" "signEnvelope sign refs (GoMap ms) = Inr raw" "parseEnvelope raw = Inr env"
  shows "distinct (map fst ms) \<and> pe_Signed env = canon_members ms \<and> pe_EnvelopeBytes env = raw"
proof -
  from assms(2) obtain sigs where sigs: "strict_value (json_of (GoMap ms))" "strict_value (json_of (envelope_value (GoMap ms) sigs))"
    "raw = encodeCanonicalValue (json_of (envelope_value (GoMap ms) sigs))"
    unfolding signEnvelope_Inr [OF assms(1)] by blast
  from sigs(1) have "distinct (map fst ms)" unfolding strict_map by blast
  with parse_built [OF sigs(2)] assms(3) show ?thesis by (auto simp: sigs(3) split: if_splits)
qed


section \<open>Digests\<close>

lemma EncodeToString_Cons:
  "EncodeToString (c # bs) = hex_char (byte_val c div 16) # hex_char (byte_val c mod 16) # EncodeToString bs"
  by (simp add: EncodeToString_def)

lemma hex_char_inject: "m < 16 \<Longrightarrow> n < 16 \<Longrightarrow> hex_char m = hex_char n \<Longrightarrow> m = n"
  by (metis hex_digit_char option.inject)

lemma EncodeToString_inject: "EncodeToString xs = EncodeToString ys \<Longrightarrow> xs = ys"
proof (induction xs arbitrary: ys)
  case Nil
  then show ?case by (cases ys) (simp_all add: EncodeToString_def)
next
  case (Cons c xs)
  then obtain d zs where ys: "ys = d # zs" by (cases ys) (simp_all add: EncodeToString_def)
  have lt: "byte_val x div 16 < 16" for x using byte_val_less [of x] by linarith
  have eq: "hex_char (byte_val c div 16) = hex_char (byte_val d div 16)" "hex_char (byte_val c mod 16) = hex_char (byte_val d mod 16)"
    and rest: "EncodeToString xs = EncodeToString zs"
    using Cons.prems unfolding ys EncodeToString_Cons by simp_all
  have "byte_val c div 16 = byte_val d div 16" by (rule hex_char_inject [OF lt lt eq(1)])
  moreover have "byte_val c mod 16 = byte_val d mod 16" by (rule hex_char_inject [OF _ _ eq(2)]) simp_all
  ultimately have "byte_val c = byte_val d" by (metis div_mult_mod_eq)
  then have "c = d" using byte_of_val [of c] byte_of_val [of d] by metis
  with Cons.IH [OF rest] show ?case by (simp add: ys)
qed

lemma hex_not_upper: "is_hex c \<Longrightarrow> \<not> is_upper c \<and> byte_val c < 128"
  by (auto simp: is_hex_def is_upper_def is_digit_def in_range_def)

lemma hex_no_prefix: "\<not> has_prefix (sha256_hex m) ''sha256:''"
proof
  assume "has_prefix (sha256_hex m) ''sha256:''"
  then have "CHR ''s'' \<in> set (sha256_hex m)" by (metis has_prefix_def in_set_takeD length_Cons list.set_intros(1) list.size(3))
  with sha256_hex_hex [of m] show False by (auto simp: list_all_iff is_hex_def is_digit_def in_range_def byte_val_def)
qed

lemma trim_digest: "trim_prefix (to_lower (sha256_hex m)) ''sha256:'' = sha256_hex m"
proof -
  have "to_lower (sha256_hex m) = sha256_hex m"
    using sha256_hex_hex [of m] by (intro to_lower_id) (auto simp: list_all_iff dest: hex_not_upper)
  then show ?thesis by (simp add: trim_prefix_def hex_no_prefix)
qed

lemma equalDigest_unique:
  "equalDigest expected (sha256_hex a) \<Longrightarrow> equalDigest expected (sha256_hex b) \<Longrightarrow> Sum256 a = Sum256 b"
proof -
  assume "equalDigest expected (sha256_hex a)" "equalDigest expected (sha256_hex b)"
  then have "sha256_hex a = sha256_hex b" by (simp add: equalDigest_def trim_digest Let_def split: if_splits)
  then show "Sum256 a = Sum256 b" unfolding sha256_hex_def by (rule EncodeToString_inject)
qed

section \<open>Base64\<close>

lemma b64_char_value: "n < 64 \<Longrightarrow> b64_value (b64_char n) = Some n"
  by (auto simp: b64_char_def b64_value_def is_upper_def is_lower_def is_digit_def in_range_def byte_val_def byte_of_def)

lemma div_mod_sum: "w < k \<Longrightarrow> (m * k + w) div k = m \<and> (m * k + w) mod k = w" for m k w :: nat
  by simp

lemma split_byte:
  fixes a k :: nat
  assumes "0 < k"
  obtains x y where "a = x * k + y" "y < k"
  using that [of "a div k" "a mod k"] assms by simp

lemma base64_digits:
  fixes x y z w :: nat
  assumes "y < 64" "z < 64" "w < 64"
  defines "n \<equiv> ((x * 64 + y) * 64 + z) * 64 + w"
  shows "n div 262144 = x" "n div 4096 mod 64 = y" "n div 64 mod 64 = z" "n mod 64 = w"
proof -
  have n: "n div 64 = (x * 64 + y) * 64 + z" "n mod 64 = w" using div_mod_sum [OF assms(3)] unfolding n_def by blast+
  have "n div 4096 = n div 64 div 64" "n div 262144 = n div 64 div 64 div 64" by (simp_all flip: div_mult2_eq)
  then show "n div 262144 = x" "n div 4096 mod 64 = y" "n div 64 mod 64 = z" "n mod 64 = w"
    unfolding n using div_mod_sum [OF assms(1)] div_mod_sum [OF assms(2)] n(2) by (simp_all only:)
qed

lemma b64_quad:
  fixes a b c :: nat
  assumes "a < 256" "b < 256" "c < 256"
  defines "n \<equiv> (a * 256 + b) * 256 + c"
  shows "n div 262144 < 64" "n div 262144 * 4 + n div 4096 mod 64 div 16 = a" "n div 4096 mod 64 mod 16 * 16 + n div 64 mod 64 div 4 = b"
    "n div 64 mod 64 mod 4 * 64 + n mod 64 = c"
proof -
  obtain p q where a: "a = p * 4 + q" "q < 4" by (rule split_byte [of 4 a]) simp
  obtain r s where b: "b = r * 16 + s" "s < 16" by (rule split_byte [of 16 b]) simp
  obtain t w where c: "c = t * 64 + w" "w < 64" by (rule split_byte [of 64 c]) simp
  have lt: "q * 16 + r < 64" "s * 4 + t < 64" "r < 16" "t < 4" "p < 64" using a b c assms(1-3) by auto
  have n: "n = ((p * 64 + (q * 16 + r)) * 64 + (s * 4 + t)) * 64 + w"
    unfolding n_def a b c by (simp add: algebra_simps)
  note d = base64_digits [OF lt(1,2) c(2), of p, folded n]
  show "n div 262144 < 64" "n div 262144 * 4 + n div 4096 mod 64 div 16 = a" "n div 4096 mod 64 mod 16 * 16 + n div 64 mod 64 div 4 = b"
    "n div 64 mod 64 mod 4 * 64 + n mod 64 = c"
    unfolding d using lt a b c div_mod_sum [of r 16 q] div_mod_sum [of t 4 s] by simp_all
qed

lemma b64_triple:
  fixes a b :: nat
  assumes "a < 256" "b < 256"
  defines "n \<equiv> (a * 256 + b) * 4"
  shows "n div 4096 < 64" "n div 4096 * 4 + n div 64 mod 64 div 16 = a" "n div 64 mod 64 mod 16 * 16 + n mod 64 div 4 = b"
proof -
  have n: "1024 * a + 4 * b = n" by (simp add: n_def)
  have shift: "n * 64 = (a * 256 + b) * 256 + 0" "n * 64 div 262144 = n div 4096" "n * 64 div 4096 = n div 64" "n * 64 div 64 = n"
    using div_mult_mult2 [of 64 n 4096] div_mult_mult2 [of 64 n 64] by (simp_all add: n_def)
  note quad = b64_quad(1-3) [OF assms(1,2), of 0, folded shift(1), unfolded shift(2-4)]
  show "n div 4096 < 64" "n div 4096 * 4 + n div 64 mod 64 div 16 = a" "n div 64 mod 64 mod 16 * 16 + n mod 64 div 4 = b"
    using quad by simp_all
qed

lemma b64_pair: "n div 64 < 64" "n div 64 * 4 + n mod 64 div 16 = a" if "n = a * 16" "a < 256" for a n :: nat
proof -
  obtain p q where a: "a = p * 4 + q" "q < 4" by (rule split_byte [of 4 a]) simp
  have "n = p * 64 + q * 16" "q * 16 < 64" using that a by simp_all
  then have "n div 64 = p" "n mod 64 = q * 16" using div_mod_sum [of "q * 16" 64 p] by auto
  with a that show "n div 64 < 64" "n div 64 * 4 + n mod 64 div 16 = a" by simp_all
qed

lemma RawURL_roundtrip: "RawURLDecode (RawURLEncode bs) = Some bs"
proof (induction bs rule: RawURLEncode.induct)
  case (2 a)
  show ?case using b64_pair [OF refl byte_val_less [of a]] by (simp add: Let_def b64_char_value del: div_mult_self1_is_m)
next
  case (3 a b)
  show ?case using b64_triple [OF byte_val_less [of a] byte_val_less [of b]] by (simp only: RawURLEncode.simps RawURLDecode.simps Let_def)
     (simp add: b64_char_value)
next
  case (4 a b c r)
  then show ?case using b64_quad [OF byte_val_less [of a] byte_val_less [of b] byte_val_less [of c]]  by (simp only: RawURLEncode.simps RawURLDecode.simps Let_def append.simps)
     (simp add: b64_char_value)
qed simp


definition b64_letter :: "char \<Rightarrow> bool" where
  "b64_letter c \<longleftrightarrow> is_upper c \<or> is_lower c \<or> is_digit c \<or> c = CHR ''_'' \<or> c = CHR ''-''"

lemma b64_char_letter: "b64_letter (b64_char n)"
  by (auto simp: b64_letter_def b64_char_def is_upper_def is_lower_def is_digit_def in_range_def byte_val_def byte_of_def)

lemma RawURLEncode_letters: "list_all b64_letter (RawURLEncode bs)"
  by (induction bs rule: RawURLEncode.induct) (simp_all add: Let_def b64_char_letter)

lemma base64_iff: "matches base64URLPattern s \<longleftrightarrow> s \<noteq> [] \<and> list_all b64_letter s"
proof -
  have r: "base64URLPattern = Cat (Cls b64_letter) (Star (Cls b64_letter))"
    by (simp add: base64URLPattern_def plus_re_def b64_letter_def [abs_def])
  show ?thesis unfolding r matches_lang lang_Cat_Cls matches_Star_Cls [unfolded matches_lang] by (cases s) auto
qed

lemma RawURLEncode_matches: "bs \<noteq> [] \<Longrightarrow> matches base64URLPattern (RawURLEncode bs)"
  unfolding base64_iff by (cases bs rule: RawURLEncode.cases) (simp_all add: RawURLEncode_letters Let_def b64_char_letter)

lemma hex_digest: "catalog_validDigest (sha256_hex m)"
proof -
  have "in_range 97 102 c \<or> is_digit c" if "is_hex c" for c using that by (auto simp: is_hex_def)
  then have "sha256_hex m \<in> lang digest_re"
    using sha256_hex_hex [of m] unfolding digest_re_def lang_rep_Cls by (auto simp: list_all_iff)
  then have "sha256_hex m \<in> lang Catalog.digestPattern" unfolding Catalog.digestPattern_def by (auto simp: opt_def)
  then show ?thesis by (simp add: catalog_validDigest_def matches_lang)
qed

end
