(* ===== verification/CatalogRules.thy ===== *)
theory CatalogRules
  imports CatalogText ReleaseService
begin

text \<open>
  What the catalog guarantees: thresholds of signatures, what the verifier reads in a built bundle, the chain
  from a timestamp to its targets, revocation, and that the builder succeeds when its keys do.
\<close>

section \<open>Thresholds\<close>

definition accepts :: "ed25519 \<Rightarrow> rootMetadata \<Rightarrow> bytes \<Rightarrow> string \<Rightarrow> string \<Rightarrow> bool" where
  "accepts ed root payload k value \<longleftrightarrow> (\<exists>decoded public. RawURLDecode value = Some decoded \<and> length decoded = 64
     \<and> map_of (rm_Keys root) k = Some public \<and> ed public payload decoded)"

definition signed_by :: "ed25519 \<Rightarrow> rootMetadata \<Rightarrow> bytes \<Rightarrow> (string \<times> string) list \<Rightarrow> string \<Rightarrow> bool" where
  "signed_by ed root payload signatures k \<longleftrightarrow> (\<exists>value. (k, value) \<in> set signatures \<and> accepts ed root payload k value)"

lemma valid_keys_Cons:
  "valid_keys ed root allowed payload valid ((k, value) # rest) = valid_keys ed root allowed payload
     (if k \<in> set allowed \<and> k \<notin> set valid \<and> accepts ed root payload k value then k # valid else valid) rest"
  by (auto simp: accepts_def split: option.splits)

lemma valid_keys_set:
  "distinct valid \<Longrightarrow> distinct (valid_keys ed root allowed payload valid sigs)
     \<and> set (valid_keys ed root allowed payload valid sigs) = set valid \<union> {k \<in> set allowed. signed_by ed root payload sigs k}"
proof (induction sigs arbitrary: valid)
  case (Cons s sigs)
  obtain k v where s: "s = (k, v)" by (cases s)
  have "signed_by ed root payload (s # sigs) x \<longleftrightarrow> x = k \<and> accepts ed root payload k v \<or> signed_by ed root payload sigs x" for x
    by (auto simp: signed_by_def s)
  with Cons.prems Cons.IH [of valid] Cons.IH [of "k # valid"] show ?case
    unfolding s valid_keys_Cons by auto
qed (simp add: signed_by_def)

section \<open>A bundle that verifies\<close>

text \<open>Every check before the revocations.\<close>

definition passes :: "ed25519 \<Rightarrow> Bundle \<Rightarrow> time \<Rightarrow> rootMetadata \<Rightarrow> (catalog_role \<Rightarrow> parsedEnvelope) \<Rightarrow> verifiedTarget list \<Rightarrow> bool" where
  "passes ed catalog now root envs targets \<longleftrightarrow>
     (\<forall>role. Roles catalog role \<noteq> [] \<and> parseEnvelope (Roles catalog role) = Inr (envs role))
     \<and> parseRoot (envs RoleRoot) = Inr root
     \<and> (\<forall>role. \<exists>version. verify_role ed root now (envs role) role = Inr version)
     \<and> (\<exists>version. verify_role ed root now (envs RoleTargets) RoleTargets = Inr version
          \<and> verifyMetaBinding (envs RoleTargets) (envs RoleSnapshot) ''targets.json'' version = None)
     \<and> (\<exists>version. verify_role ed root now (envs RoleSnapshot) RoleSnapshot = Inr version
          \<and> verifyMetaBinding (envs RoleSnapshot) (envs RoleTimestamp) ''snapshot.json'' version = None)
     \<and> verifyTargets (envs RoleTargets) = Inr targets"

lemma all_roles: "(\<forall>role. P role) \<longleftrightarrow> P RoleRoot \<and> P RoleTargets \<and> P RoleSnapshot \<and> P RoleTimestamp \<and> P RoleRevocation"
  by (metis catalog_role.exhaust)

lemma Verify_Inr:
  "Verify ed catalog now = Inr () \<longleftrightarrow>
     (\<exists>root envs targets. passes ed catalog now root envs targets \<and> verifyRevocations (envs RoleRevocation) (envs RoleTargets) targets = None)"
proof
  assume "Verify ed catalog now = Inr ()"
  then obtain rootE root envs0 envs versions targets where
    "\<forall>role. Roles catalog role \<noteq> []" "parseEnvelope (bu_Root catalog) = Inr rootE" "parseRoot rootE = Inr root"
    and envs0: "parse_envelopes (Roles catalog) [RoleTargets, RoleSnapshot, RoleTimestamp, RoleRevocation] = Inr envs0"
    and envs: "envs = envs0(RoleRoot := rootE)"
    and "verify_roles ed root now envs publicationRoleOrder = Inr versions"
    "verifyMetaBinding (envs RoleTargets) (envs RoleSnapshot) ''targets.json'' (versions RoleTargets) = None"
    "verifyMetaBinding (envs RoleSnapshot) (envs RoleTimestamp) ''snapshot.json'' (versions RoleSnapshot) = None"
    "verifyTargets (envs RoleTargets) = Inr targets" "verifyRevocations (envs RoleRevocation) (envs RoleTargets) targets = None"
    by (auto simp: Verify_def Let_def res_bind_Inr check_err_Inr publicationRoleOrder_def all_roles simp del: parse_envelopes.simps verify_roles.simps
        split: if_splits)
  then show "\<exists>root envs targets. passes ed catalog now root envs targets \<and> verifyRevocations (envs RoleRevocation) (envs RoleTargets) targets = None"
    by (intro exI [of _ root] exI [of _ envs] exI [of _ targets])
       (auto simp: passes_def publicationRoleOrder_def all_roles res_bind_Inr)
next
  assume "\<exists>root envs targets. passes ed catalog now root envs targets \<and> verifyRevocations (envs RoleRevocation) (envs RoleTargets) targets = None"
  then show "Verify ed catalog now = Inr ()"
    by (auto simp: passes_def Verify_def publicationRoleOrder_def all_roles)
qed

lemma passes_Verify:
  "passes ed catalog now root envs targets \<Longrightarrow>
     Verify ed catalog now = check_err (verifyRevocations (envs RoleRevocation) (envs RoleTargets) targets)"
  by (auto simp: passes_def Verify_def publicationRoleOrder_def all_roles)


section \<open>From the timestamp to the targets\<close>

definition at_key :: "string \<Rightarrow> json option \<Rightarrow> json option" where
  "at_key k v = Option.bind (as_object v) (\<lambda>ms. map_of ms k)"

lemma strict_at_key: "at_key k (Some v) = Some w \<Longrightarrow> strict_value v \<Longrightarrow> strict_value w"
  by (cases v) (auto simp: at_key_def list_all_iff dest: map_of_SomeD)

lemma at_key_sort: "strict_value v \<Longrightarrow> at_key k (Some (sort_json v)) = map_option sort_json (at_key k (Some v))"
  by (cases v) (simp_all add: at_key_def map_of_sorted [unfolded sorted_members_def])

lemma parse_value:
  assumes "parseEnvelope raw = Inr env"
  obtains v where "strictJSONValue raw = Inr v" "strict_value v" "pe_EnvelopeBytes env = encodeCanonicalValue v"
    "at_key ''signed'' (Some v) = Some (JObj (pe_Signed env))"
proof -
  from assms obtain v where v: "strictJSONValue raw = Inr v" by (auto simp: parseEnvelope_def res_bind_Inr)
  moreover have "strict_value v" using v by (simp add: strictJSONValue_iff)
  moreover from v assms obtain obj where obj: "v = JObj obj" by (cases v) (auto simp: parseEnvelope_def)
  have "as_object x = Some y \<longleftrightarrow> x = Some (JObj y)" for x y by (cases x rule: as_object.cases) auto
  with v assms obj have "pe_EnvelopeBytes env = encodeCanonicalValue v \<and> map_of obj ''signed'' = Some (JObj (pe_Signed env))"
    by (auto simp: parseEnvelope_def res_bind_Inr split: if_splits option.splits)
  ultimately show ?thesis using that obj by (simp add: at_key_def)
qed

lemma canonical_parse: "parseEnvelope raw = Inr env \<Longrightarrow> CanonicalJSON raw = Inr (pe_EnvelopeBytes env)"
  by (erule parse_value) (simp add: CanonicalJSON_def)

text \<open>The digest a binding expects of a document.\<close>

definition expected_digest :: "string \<Rightarrow> json option \<Rightarrow> string option" where
  "expected_digest name doc = as_string (at_key ''sha256'' (at_key ''hashes'' (at_key name (at_key ''meta'' doc))))"

lemma binding_digest:
  assumes "verifyMetaBinding document env name version = None"
  obtains expected where "expected_digest name (Some (JObj (pe_Signed env))) = Some expected"
    "equalDigest expected (sha256_hex (pe_EnvelopeBytes document))"
  using assms by (auto simp: verifyMetaBinding_def expected_digest_def at_key_def split: option.splits bind_splits if_splits)

lemma as_string_sort: "as_string (map_option sort_json v) = as_string v"
  by (cases v rule: as_string.cases) auto

lemma at_key_None [simp]: "at_key k None = None"
  by (simp add: at_key_def)

definition strict_option :: "json option \<Rightarrow> bool" where
  "strict_option v \<longleftrightarrow> (\<forall>w. v = Some w \<longrightarrow> strict_value w)"

lemma strict_option_at: "strict_option v \<Longrightarrow> strict_option (at_key k v)"
  by (cases v) (auto simp: strict_option_def dest: strict_at_key)

lemma at_key_option: "strict_option v \<Longrightarrow> at_key k (map_option sort_json v) = map_option sort_json (at_key k v)"
  by (cases v) (auto simp: strict_option_def at_key_sort)

lemma expected_digest_sort:
  assumes "strict_value v"
  shows "expected_digest name (at_key ''signed'' (Some (sort_json v))) = expected_digest name (at_key ''signed'' (Some v))"
proof -
  have "strict_option (Some v)" using assms by (simp add: strict_option_def)
  then show ?thesis unfolding at_key_sort [OF assms] expected_digest_def
    by (simp add: at_key_option strict_option_at as_string_sort)
qed

lemma same_binding:
  assumes env: "parseEnvelope raw = Inr env" "parseEnvelope raw' = Inr env'" "pe_EnvelopeBytes env = pe_EnvelopeBytes env'"
    and binding: "verifyMetaBinding document env name version = None" "verifyMetaBinding document' env' name version' = None"
  shows "pe_EnvelopeBytes document = pe_EnvelopeBytes document' \<or> (\<exists>x y. x \<noteq> y \<and> Sum256 x = Sum256 y)"
proof -
  from env(1) obtain v where v: "strict_value v" "pe_EnvelopeBytes env = encodeCanonicalValue v" "at_key ''signed'' (Some v) = Some (JObj (pe_Signed env))"
    by (rule parse_value)
  from env(2) obtain w where w: "strict_value w" "pe_EnvelopeBytes env' = encodeCanonicalValue w" "at_key ''signed'' (Some w) = Some (JObj (pe_Signed env'))"
    by (rule parse_value)
  have "sort_json v = sort_json w" 
    using strict_canonical [OF v(1)] strict_canonical [OF w(1)] v(2) w(2) env(3) by (metis Inr_inject)
  then have "expected_digest name (at_key ''signed'' (Some v)) = expected_digest name (at_key ''signed'' (Some w))"
    using expected_digest_sort [OF v(1), of name] expected_digest_sort [OF w(1), of name] by metis
  then have "expected_digest name (Some (JObj (pe_Signed env))) = expected_digest name (Some (JObj (pe_Signed env')))"
    unfolding v(3) w(3) .
  moreover obtain d where "expected_digest name (Some (JObj (pe_Signed env))) = Some d" and d: "equalDigest d (sha256_hex (pe_EnvelopeBytes document))"
    using binding(1) by (rule binding_digest)
  moreover obtain d' where "expected_digest name (Some (JObj (pe_Signed env'))) = Some d'" and d': "equalDigest d' (sha256_hex (pe_EnvelopeBytes document'))"
    using binding(2) by (rule binding_digest)
  ultimately have "d' = d" by simp
  then have "Sum256 (pe_EnvelopeBytes document) = Sum256 (pe_EnvelopeBytes document')" using equalDigest_unique [OF d] d' by simp
  then show ?thesis by blast
qed

section \<open>What the builder signs\<close>

lemma dec_nat_digits: "list_all is_digit (dec_nat n) \<and> dec_nat n \<noteq> [] \<and> (hd (dec_nat n) = CHR ''0'' \<longleftrightarrow> n = 0)"
proof (induction n rule: dec_nat.induct)
  case (1 n)
  have digit: "is_digit (byte_of (48 + k))" "byte_of (48 + k) = CHR ''0'' \<longleftrightarrow> k = 0" if "k < 10" for k
  proof -
    have v: "byte_val (byte_of (48 + k)) = 48 + k" "byte_val (CHR ''0'') = 48" using that by (simp_all add: byte_val_def byte_of_def)
    then show "is_digit (byte_of (48 + k))" using that by (simp add: is_digit_def in_range_def)
    show "byte_of (48 + k) = CHR ''0'' \<longleftrightarrow> k = 0" using v by (metis add_cancel_right_right byte_of_val)
  qed
  show ?case
  proof (cases "n < 10")
    case True
    then show ?thesis using digit [of n] by (subst dec_nat.simps, simp)+
  next
    case False
    then have "dec_nat n = dec_nat (n div 10) @ [byte_of (48 + n mod 10)]" by (subst dec_nat.simps) simp
    then show ?thesis using 1 False digit(1) [of "n mod 10"] by auto
  qed
qed

lemma dec_value_snoc: "dec_value (s @ [c]) = 10 * dec_value s + (byte_val c - 48)"
  by (simp add: dec_value_def)

lemma dec_value_nat: "dec_value (dec_nat n) = n"
proof (induction n rule: dec_nat.induct)
  case (1 n)
  have byte: "byte_val (byte_of (48 + k)) = 48 + k" if "k < 10" for k using that by (simp add: byte_val_def byte_of_def)
  show ?case
  proof (cases "n < 10")
    case True
    then show ?thesis using byte [of n] by (subst dec_nat.simps) (simp add: dec_value_def)
  next
    case False
    then have "dec_nat n = dec_nat (n div 10) @ [byte_of (48 + n mod 10)]" by (subst dec_nat.simps) simp
    then show ?thesis using 1 False byte [of "n mod 10"] by (simp add: dec_value_snoc)
  qed
qed

lemma int_text_nat: "int_text (dec_nat n)"
proof (cases "n = 0")
  case True
  have "dec_nat 0 = ''0''" by code_simp
  with True show ?thesis by (simp add: int_text_def)
next
  case False
  obtain c r where cr: "dec_nat n = c # r" using dec_nat_digits [of n] by (cases "dec_nat n") auto
  have "\<not> is_digit (CHR ''-'')" by (simp add: is_digit_def in_range_def byte_val_def)
  with cr dec_nat_digits [of n] False show ?thesis by (auto simp: int_text_def)
qed

lemma positiveVersion_nat:
  "positiveVersion (Some (JNum (dec_nat n))) = Inr v \<longleftrightarrow> v = n \<and> 0 < n \<and> n < 2 ^ 64"
proof -
  have "\<not> is_digit (CHR ''-'')" by (simp add: is_digit_def in_range_def byte_val_def)
  then have "\<not> has_prefix (dec_nat n) ''-''"
    using dec_nat_digits [of n] by (cases "dec_nat n") (auto simp: has_prefix_def)
  then show ?thesis by (auto simp: positiveVersion_def integer_text int_text_nat dec_value_nat)
qed

lemma numeric_go_of: "strict_value v \<Longrightarrow> numeric (go_of v)"
  by (induction v) (force simp: list_all_iff)+

lemma numeric_must: "numeric (mustStrictValue raw)"
  by (auto simp: mustStrictValue_def strictJSONValue_iff numeric_go_of split: sum.split)

lemma numeric_header: "list_all (\<lambda>m. numeric (snd m)) (role_header role version expires)"
  by (simp add: role_header_def int_text_nat)

lemma numeric_binding: "numeric (metadataBinding version raw)"
  by (simp add: metadataBinding_def int_text_nat)

lemma numeric_custom: "numeric (custom_value target)"
  by (simp add: custom_value_def numeric_must list_all_iff)

lemma numeric_revocation: "list_all numeric (revocation_value record target)"
  by (simp add: revocation_value_def split: option.split)

abbreviation targets_members :: "TargetMetadata \<Rightarrow> Versions \<Rightarrow> time \<Rightarrow> (bytes \<times> go_value) list" where
  "targets_members target versions now \<equiv> role_header RoleTargets (vs_Targets versions) (now + targetsLifetime) @
     [(''targets'', GoMap [(tm_TargetName target, GoMap [
        (''hashes'', GoMap [(''sha256'', GoString (trim_prefix (tm_ArtifactDigest target) ''sha256:''))]),
        (''custom'', custom_value target)])])]"

abbreviation snapshot_members :: "Versions \<Rightarrow> time \<Rightarrow> bytes \<Rightarrow> (bytes \<times> go_value) list" where
  "snapshot_members versions now targets \<equiv> role_header RoleSnapshot (vs_Snapshot versions) (now + snapshotLifetime) @
     [(''meta'', GoMap [(''targets.json'', metadataBinding (vs_Targets versions) targets)])]"

abbreviation timestamp_members :: "Versions \<Rightarrow> time \<Rightarrow> bytes \<Rightarrow> (bytes \<times> go_value) list" where
  "timestamp_members versions now snapshot \<equiv> role_header RoleTimestamp (vs_Timestamp versions) (now + timestampLifetime) @
     [(''meta'', GoMap [(''snapshot.json'', metadataBinding (vs_Snapshot versions) snapshot)])]"

abbreviation revocation_members :: "Versions \<Rightarrow> time \<Rightarrow> Release \<Rightarrow> TargetMetadata \<Rightarrow> (bytes \<times> go_value) list" where
  "revocation_members versions now record target \<equiv> role_header RoleRevocation (vs_Revocation versions) (now + revocationLifetime) @
     [(''revocations'', GoSlice (revocation_value record target))]"

lemma numeric_members:
  "numeric (GoMap (targets_members target versions now))" "numeric (GoMap (snapshot_members versions now raw))"
  "numeric (GoMap (timestamp_members versions now raw))" "numeric (GoMap (revocation_members versions now record target))"
  by (simp_all add: numeric_header numeric_binding numeric_custom numeric_revocation)

text \<open>A bundle of the builder, with the envelopes signed for it.\<close>

definition built :: "Builder \<Rightarrow> time \<Rightarrow> Release \<Rightarrow> Versions \<Rightarrow> TargetMetadata \<Rightarrow> Bundle \<Rightarrow> bool" where
  "built builder now record versions target catalog \<longleftrightarrow>
     bu_Root catalog = pe_EnvelopeBytes (bd_root builder)
     \<and> signEnvelope (bd_sign builder) (kr_Targets (bd_keyRefs builder)) (GoMap (targets_members target versions now)) = Inr (bu_Targets catalog)
     \<and> signEnvelope (bd_sign builder) (kr_Snapshot (bd_keyRefs builder)) (GoMap (snapshot_members versions now (bu_Targets catalog))) = Inr (bu_Snapshot catalog)
     \<and> signEnvelope (bd_sign builder) (kr_Timestamp (bd_keyRefs builder)) (GoMap (timestamp_members versions now (bu_Snapshot catalog))) = Inr (bu_Timestamp catalog)
     \<and> signEnvelope (bd_sign builder) (kr_Revocation (bd_keyRefs builder)) (GoMap (revocation_members versions now record target)) = Inr (bu_Revocation catalog)"

lemma build_Inr:
  "build ed builder now later allowRevoked record versions = Inr catalog \<longleftrightarrow>
     versions_valid versions \<and> positiveVersion (map_of (pe_Signed (bd_root builder)) ''version'') = Inr (vs_Root versions)
     \<and> (\<exists>target. bd_resolve builder record = Inr target \<and> validateTargetMetadata target = None
          \<and> built builder (truncate_time second_ns now) record versions target catalog)
     \<and> (Verify ed catalog later = Inr () \<or> allowRevoked \<and> Verify ed catalog later = Inl ErrTargetRevoked)"
proof -
  have outcome: "(case Verify ed b later of Inr _ \<Rightarrow> Inr b | Inl e \<Rightarrow> if allowRevoked \<and> e = ErrTargetRevoked then Inr b else Inl e) = Inr c
     \<longleftrightarrow> b = c \<and> (Verify ed b later = Inr () \<or> allowRevoked \<and> Verify ed b later = Inl ErrTargetRevoked)" for b c
    by (auto split: sum.splits)
  show ?thesis
    by (cases catalog)
      (auto simp: build_def Let_def res_bind_Inr check_err_Inr outcome built_def targets_value_def)
qed

section \<open>Reading a built bundle\<close>

lemma header_keys: "map fst (role_header role version expires) = [''_type'', ''version'', ''expires'']"
  by (simp add: role_header_def)

lemma header_values:
  "map_of (canon_members (role_header role version expires @ [(k, v)])) ''_type'' = Some (JStr (role_text role))"
  "map_of (canon_members (role_header role version expires @ [(k, v)])) ''version'' = Some (JNum (dec_nat version))"
  "map_of (canon_members (role_header role version expires @ [(k, v)])) ''expires'' = Some (JStr (roleTime expires))"
  "map_of (canon_members (role_header role version expires @ [(k, v)])) k = Some (canon v)"
  if "k \<notin> {''_type'', ''version'', ''expires''}"
  using that by (auto simp: map_of_canon role_header_def)

lemma no_other_key: "map_of (canon_members (role_header role version expires @ [(''revocations'', v)])) ''revoked'' = None"
  by (simp add: map_of_canon role_header_def)

text \<open>What is signed for each online role.\<close>

definition role_members :: "Versions \<Rightarrow> time \<Rightarrow> Release \<Rightarrow> TargetMetadata \<Rightarrow> Bundle \<Rightarrow> catalog_role \<Rightarrow> (bytes \<times> go_value) list" where
  "role_members versions now record target catalog role = (case role of
       RoleTargets \<Rightarrow> targets_members target versions now
     | RoleSnapshot \<Rightarrow> snapshot_members versions now (bu_Targets catalog)
     | RoleTimestamp \<Rightarrow> timestamp_members versions now (bu_Snapshot catalog)
     | RoleRevocation \<Rightarrow> revocation_members versions now record target
     | RoleRoot \<Rightarrow> [])"

lemma built_signs:
  assumes "built builder now record versions target catalog" "role \<noteq> RoleRoot"
  shows "numeric (GoMap (role_members versions now record target catalog role))"
    and "\<exists>refs. signEnvelope (bd_sign builder) refs (GoMap (role_members versions now record target catalog role)) = Inr (Roles catalog role)"
proof -
  show "numeric (GoMap (role_members versions now record target catalog role))"
    using assms(2) numeric_members by (cases role) (simp_all add: role_members_def del: numeric.simps)
  show "\<exists>refs. signEnvelope (bd_sign builder) refs (GoMap (role_members versions now record target catalog role)) = Inr (Roles catalog role)"
    using assms by (cases role) (simp_all add: role_members_def built_def, blast+)
qed

lemma built_parse:
  assumes "built builder now record versions target catalog" "parseEnvelope (Roles catalog role) = Inr env" "role \<noteq> RoleRoot"
  shows "pe_Signed env = canon_members (role_members versions now record target catalog role) \<and> pe_EnvelopeBytes env = Roles catalog role"
  using signed_parse [OF built_signs(1) [OF assms(1,3)] _ assms(2)] built_signs(2) [OF assms(1,3)] by blast

abbreviation custom_members :: "TargetMetadata \<Rightarrow> (bytes \<times> go_value) list" where
  "custom_members target \<equiv> (case custom_value target of GoMap ms \<Rightarrow> ms | _ \<Rightarrow> [])"

lemma custom_lookup:
  "distinct (map fst (custom_members target))" "custom_value target = GoMap (custom_members target)"
  "map_of (custom_members target) ''release_id'' = Some (GoString (tm_ReleaseID target))"
  "map_of (custom_members target) ''manifest_digest'' = Some (GoString (tm_ManifestDigest target))"
  "map_of (custom_members target) ''release_key_id'' = None"
  by (simp_all add: custom_value_def)

definition built_target :: "TargetMetadata \<Rightarrow> verifiedTarget" where
  "built_target target = \<lparr>vt_Name = tm_TargetName target, vt_ReleaseID = tm_ReleaseID target,
     vt_ManifestDigest = tm_ManifestDigest target, vt_ReleaseKeyID = []\<rparr>"

abbreviation target_item :: "TargetMetadata \<Rightarrow> go_value" where
  "target_item target \<equiv> GoMap [(''hashes'', GoMap [(''sha256'', GoString (trim_prefix (tm_ArtifactDigest target) ''sha256:''))]),
        (''custom'', custom_value target)]"

lemma verify_built_target:
  assumes "verify_target (tm_TargetName target) (canon (target_item target)) = Inr t"
  shows "t = built_target target \<and> tm_ReleaseID target \<noteq> []"
proof -
  have item: "canon (target_item target) = JObj (canon_members [(''hashes'', GoMap [(''sha256'', GoString (trim_prefix (tm_ArtifactDigest target) ''sha256:''))]),
        (''custom'', custom_value target)])" by (rule canon_map)
  have custom: "map_of (canon_members [(''hashes'', h), (''custom'', custom_value target)]) ''custom'' = Some (JObj (canon_members (custom_members target)))" for h
    using canon_map [of "custom_members target"] unfolding custom_lookup(2) [symmetric] by (simp add: map_of_canon)
  have fields: "map_of (canon_members (custom_members target)) ''release_id'' = Some (JStr (tm_ReleaseID target))"
    "map_of (canon_members (custom_members target)) ''manifest_digest'' = Some (JStr (tm_ManifestDigest target))"
    "map_of (canon_members (custom_members target)) ''release_key_id'' = None"
    using map_of_canon [OF custom_lookup(1), of target] custom_lookup(3-5) [of target] by simp_all
  from assms show ?thesis
    unfolding item verify_target_def built_target_def by (auto simp: custom fields coalesce_def split: option.splits if_splits)
qed

lemma built_targets:
  assumes "built builder now record versions target catalog" "parseEnvelope (bu_Targets catalog) = Inr env" "verifyTargets env = Inr ts"
  shows "ts = [built_target target] \<and> tm_ReleaseID target \<noteq> []"
proof -
  have env: "pe_Signed env = canon_members (targets_members target versions now)"
    using built_parse [OF assms(1), of RoleTargets env] assms(2) by (simp add: role_members_def)
  have "map_of (pe_Signed env) ''targets'' = Some (JObj (canon_members [(tm_TargetName target, target_item target)]))"
    unfolding env by (subst header_values(4)) (simp_all add: canon_map del: json_of.simps)
  moreover have "canon_members [(tm_TargetName target, target_item target)] = [(tm_TargetName target, canon (target_item target))]"
    by (simp add: canon_members_def)
  ultimately show ?thesis using assms(3) verify_built_target
    by (auto simp: verifyTargets_def res_bind_Inr simp del: json_of.simps)
qed

lemma revoked_value:
  assumes "rl_revoked_at (re_row record) = Some at"
  obtains ms where "revocation_value record target = [GoMap ms]" "distinct (map fst ms)"
    "map_of ms ''release_id'' = Some (GoString (tm_ReleaseID target))" "map_of ms ''manifest_digest'' = Some (GoString (tm_ManifestDigest target))"
    "map_of ms ''key_id'' = Some (GoString [])"
  using assms that by (simp add: revocation_value_def)

lemma built_revocations:
  assumes "built builder now record versions target catalog" "parseEnvelope (bu_Revocation catalog) = Inr env"
  shows "rl_revoked_at (re_row record) = None \<Longrightarrow> verifyRevocations env targetsE ts = None"
    and "rl_revoked_at (re_row record) = Some at \<Longrightarrow> tm_ReleaseID target \<noteq> [] \<Longrightarrow> catalog_validDigest (tm_ManifestDigest target) \<Longrightarrow>
      verifyRevocations env targetsE [built_target target] = Some ErrTargetRevoked"
proof -
  have env: "pe_Signed env = canon_members (revocation_members versions now record target)"
    using built_parse [OF assms(1), of RoleRevocation env] assms(2) by (simp add: role_members_def)
  have r: "map_of (pe_Signed env) ''revoked'' = None"
    "map_of (pe_Signed env) ''revocations'' = Some (JArr (map (\<lambda>v. canon v) (revocation_value record target)))"
    unfolding env by (simp add: no_other_key, subst header_values(4)) (simp_all add: comp_def)
  show "rl_revoked_at (re_row record) = None \<Longrightarrow> verifyRevocations env targetsE ts = None"
  proof -
    have "list_ex (\<lambda>s. False) xs = False" for xs :: "(string \<times> string) list" by (simp add: list_ex_iff)
    moreover have "revoked_target \<lparr>rx_releases = {}, rx_manifests = {}, rx_keys = {}\<rparr> ts = None" by (induction ts) simp_all
    moreover assume "rl_revoked_at (re_row record) = None"
    ultimately show ?thesis by (simp add: verifyRevocations_def r revocation_value_def)
  qed
  assume at: "rl_revoked_at (re_row record) = Some at" and target: "tm_ReleaseID target \<noteq> []" "catalog_validDigest (tm_ManifestDigest target)"
  from at obtain ms where ms: "revocation_value record target = [GoMap ms]" "distinct (map fst ms)"
    "map_of ms ''release_id'' = Some (GoString (tm_ReleaseID target))" "map_of ms ''manifest_digest'' = Some (GoString (tm_ManifestDigest target))"
    "map_of ms ''key_id'' = Some (GoString [])" by (rule revoked_value)
  have item: "canon (GoMap ms) = JObj (canon_members ms)" by (rule canon_map)
  have "verifyRevocations env targetsE [built_target target] = Some ErrTargetRevoked"
    using target ms(3-5) unfolding verifyRevocations_def r ms(1) list.map item
    by (simp add: map_of_canon [OF ms(2)] coalesce_def built_target_def Let_def list_ex_iff)
  then show "verifyRevocations env targetsE [built_target target] = Some ErrTargetRevoked" .
qed

section \<open>The builder succeeds\<close>

fun sound_go :: "go_value \<Rightarrow> bool" where
  "sound_go (GoNumber n) \<longleftrightarrow> int_text n \<and> n \<noteq> ''-0''"
| "sound_go (GoString s) \<longleftrightarrow> utf8_valid s"
| "sound_go (GoSlice xs) \<longleftrightarrow> list_all sound_go xs"
| "sound_go (GoMap ms) \<longleftrightarrow> distinct (map fst ms) \<and> list_all (\<lambda>m. utf8_valid (fst m) \<and> sound_go (snd m)) ms"
| "sound_go (GoStruct ms) \<longleftrightarrow> False"
| "sound_go _ \<longleftrightarrow> True"

lemma sound_goD: "sound_go v \<Longrightarrow> numeric v \<and> validateCanonicalInput v \<and> strict_value (json_of v)"
proof (induction v)
  case (GoMap ms)
  then have "numeric (snd m) \<and> validateCanonicalInput (snd m) \<and> strict_value (json_of (snd m))" if "m \<in> set ms" for m
    using that by (cases m) (force simp: list_all_iff)
  with GoMap.prems show ?case unfolding strict_map by (simp add: list_all_iff)
qed (auto simp: list_all_iff utf8_valid_int)

lemma over_rep_upto: "over p r \<Longrightarrow> over p (rep_upto r n)"
  by (induction n) (simp_all add: opt_def)

lemma patterns_graphic: "over graphic keyIDPattern" "over graphic base64URLPattern"
proof -
  have c: "graphic (CHR ''.'')" "graphic (CHR ''_'')" "graphic (CHR '':'')" "graphic (CHR ''-'')"
    by (simp_all add: graphic_def in_range_def byte_val_def)
  then show "over graphic keyIDPattern" unfolding keyIDPattern_def over.simps
    by (intro conjI allI impI over_rep_upto) (auto simp: graphic_class)
  show "over graphic base64URLPattern" using c by (auto simp: base64URLPattern_def plus_re_def graphic_class)
qed

lemma signature_ok_utf8: "signature_ok s \<Longrightarrow> utf8_valid (fst s) \<and> utf8_valid (RawURLEncode (snd s))"
  using matches_over [OF _ patterns_graphic(1)] matches_over [OF _ patterns_graphic(2)]
  by (simp add: signature_ok_def utf8_valid_graphic)

lemma sound_envelope: "sound_go content \<Longrightarrow> list_all signature_ok sigs \<Longrightarrow> sound_go (envelope_value content sigs)"
proof -
  assume "sound_go content" "list_all signature_ok sigs"
  moreover have "utf8_valid ''signed''" "utf8_valid ''signatures''" "utf8_valid ''keyid''" "utf8_valid ''sig''" by code_simp+
  ultimately show ?thesis
    using signature_ok_utf8 by (auto simp: envelope_value_def signature_value_def list_all_iff)
qed

lemma sign_succeeds:
  assumes ms: "sound_go (GoMap ms)" and sigs: "sign_all sign (encodeCanonicalValue (json_of (GoMap ms))) {} refs = Inr sigs"
    "sigs \<noteq> []" "list_all signature_ok sigs"
  obtains raw where "signEnvelope sign refs (GoMap ms) = Inr raw" "raw \<noteq> []"
    "parseEnvelope raw = Inr \<lparr>pe_Signed = canon_members ms, pe_Signatures = map (\<lambda>s. (fst s, RawURLEncode (snd s))) (sort_key fst sigs),
       pe_SignedBytes = encodeCanonicalValue (json_of (GoMap ms)), pe_EnvelopeBytes = raw\<rparr>"
proof
  let ?raw = "encodeCanonicalValue (json_of (envelope_value (GoMap ms) sigs))"
  note sound = sound_goD [OF ms] sound_goD [OF sound_envelope [OF ms sigs(3)]]
  then show "signEnvelope sign refs (GoMap ms) = Inr ?raw" using sigs(1) signEnvelope_Inr [of "GoMap ms"] by blast
  show "?raw \<noteq> []" by (simp add: envelope_value_def)
  show "parseEnvelope ?raw = Inr \<lparr>pe_Signed = canon_members ms, pe_Signatures = map (\<lambda>s. (fst s, RawURLEncode (snd s))) (sort_key fst sigs),
       pe_SignedBytes = encodeCanonicalValue (json_of (GoMap ms)), pe_EnvelopeBytes = ?raw\<rparr>"
    using parse_built [of ms sigs] sound sigs(2,3) by simp
qed

text \<open>The online keys of a role meet its threshold, whatever they sign.\<close>

definition keys_meet :: "ed25519 \<Rightarrow> rootMetadata \<Rightarrow> signer \<Rightarrow> string list \<Rightarrow> catalog_role \<Rightarrow> bool" where
  "keys_meet ed root sign refs role \<longleftrightarrow> (\<forall>payload. \<exists>sigs. sign_all sign payload {} refs = Inr sigs \<and> sigs \<noteq> [] \<and> list_all signature_ok sigs
     \<and> (\<forall>env. pe_SignedBytes env = payload \<longrightarrow> pe_Signatures env = map (\<lambda>s. (fst s, RawURLEncode (snd s))) (sort_key fst sigs) \<longrightarrow>
          verifyRoleSignatures ed root env role = None))"

lemma role_succeeds:
  assumes keys: "keys_meet ed root sign refs role" and ms: "ms = role_header role version expires @ [(k, v)]" "sound_go (GoMap ms)"
    and version: "0 < version" "version < 2 ^ 64" and expires: "ParseRFC3339 (roleTime expires) = Some e" "now < e"
    and k: "k \<notin> {''_type'', ''version'', ''expires''}"
  obtains raw env where "signEnvelope sign refs (GoMap ms) = Inr raw" "raw \<noteq> []" "parseEnvelope raw = Inr env"
    "pe_Signed env = canon_members ms" "pe_EnvelopeBytes env = raw" "verify_role ed root now env role = Inr version"
proof -
  from keys obtain sigs where sigs: "sign_all sign (encodeCanonicalValue (json_of (GoMap ms))) {} refs = Inr sigs" "sigs \<noteq> []" "list_all signature_ok sigs"
    and meets: "\<And>env. pe_SignedBytes env = encodeCanonicalValue (json_of (GoMap ms)) \<Longrightarrow>
      pe_Signatures env = map (\<lambda>s. (fst s, RawURLEncode (snd s))) (sort_key fst sigs) \<Longrightarrow> verifyRoleSignatures ed root env role = None"
    unfolding keys_meet_def by blast
  from sign_succeeds [OF ms(2) sigs] obtain raw where raw: "signEnvelope sign refs (GoMap ms) = Inr raw" "raw \<noteq> []"
    "parseEnvelope raw = Inr \<lparr>pe_Signed = canon_members ms, pe_Signatures = map (\<lambda>s. (fst s, RawURLEncode (snd s))) (sort_key fst sigs),
       pe_SignedBytes = encodeCanonicalValue (json_of (GoMap ms)), pe_EnvelopeBytes = raw\<rparr>" (is "_ = Inr ?env") .
  have "positiveVersion (Some (JNum (dec_nat version))) = Inr version" using version by (simp add: positiveVersion_nat)
  moreover have "verifyRoleSignatures ed root ?env role = None" by (rule meets) simp_all
  ultimately have "verify_role ed root now ?env role = Inr version"
    using expires by (simp add: verify_role_def ms(1) header_values(1-3) [OF k] roleExpiry_def)
  with raw that [of raw ?env] show ?thesis by simp
qed

lemma json_go_of: "json_of (go_of v) = sort_json v"
proof (induction v)
  case (JObj ms)
  then have "json_of (go_of (snd m)) = sort_json (snd m)" if "m \<in> set ms" for m using that by (cases m) auto
  then show ?case by (auto simp: sort_key_map comp_def intro!: map_cong)
qed auto


lemma validated_target:
  assumes "validateTargetMetadata target = None"
  obtains v where "tm_ReleaseID target \<noteq> []" "strictJSONValue (tm_Compatibility target) = Inr v" "strict_value v"
    "equalDigest (tm_CompatibilityDigest target) (sha256_hex (encodeCanonicalValue v))"
    "equalDigest (tm_ReleaseNotesDigest target) (sha256_hex (tm_ReleaseNotesMarkdown target))"
    "list_all catalog_validDigest [tm_PlanDigest target, tm_ArtifactDigest target, tm_ManifestDigest target,
         tm_ReleaseNotesDigest target, tm_CompatibilityDigest target]"
proof -
  from assms obtain c where c: "CanonicalJSON (tm_Compatibility target) = Inr c"
    by (auto simp: validateTargetMetadata_def split: if_splits sum.splits)
  then obtain v where v: "strictJSONValue (tm_Compatibility target) = Inr v" "c = encodeCanonicalValue v"
    by (auto simp: CanonicalJSON_def res_bind_Inr)
  then have "strict_value v" by (simp add: strictJSONValue_iff)
  with that [of v] v c assms show ?thesis by (auto simp: validateTargetMetadata_def split: if_splits)
qed

lemma target_verifies:
  assumes "validateTargetMetadata target = None"
  shows "verify_target (tm_TargetName target) (canon (target_item target)) = Inr (built_target target)"
proof -
  from assms obtain v where v: "tm_ReleaseID target \<noteq> []" "strictJSONValue (tm_Compatibility target) = Inr v" "strict_value v"
    "equalDigest (tm_CompatibilityDigest target) (sha256_hex (encodeCanonicalValue v))"
    "equalDigest (tm_ReleaseNotesDigest target) (sha256_hex (tm_ReleaseNotesMarkdown target))"
    "list_all catalog_validDigest [tm_PlanDigest target, tm_ArtifactDigest target, tm_ManifestDigest target,
         tm_ReleaseNotesDigest target, tm_CompatibilityDigest target]" by (rule validated_target)
  have item: "canon (target_item target) = JObj (canon_members [(''hashes'', GoMap [(''sha256'', GoString (trim_prefix (tm_ArtifactDigest target) ''sha256:''))]),
        (''custom'', custom_value target)])" by (rule canon_map)
  have custom: "map_of (canon_members [(''hashes'', h), (''custom'', custom_value target)]) ''custom'' = Some (JObj (canon_members (custom_members target)))" for h
    using canon_map [of "custom_members target"] unfolding custom_lookup(2) [symmetric] by (simp add: map_of_canon)
  have look: "map_of (canon_members (custom_members target)) k = map_option canon (map_of (custom_members target) k)" for k
    by (rule map_of_canon [OF custom_lookup(1)])
  have "encodeCanonicalValue (canon (mustStrictValue (tm_Compatibility target))) = encodeCanonicalValue v"
    by (simp add: mustStrictValue_def v(2) json_go_of sort_sort encode_sort)
  then show ?thesis
    unfolding item verify_target_def json.case custom as_object.simps option.case look required_fields_def digest_fields_def
    using v by (simp add: custom_value_def built_target_def coalesce_def)
qed

text \<open>What a target needs to be encoded.\<close>

definition target_text :: "TargetMetadata \<Rightarrow> bool" where
  "target_text target \<longleftrightarrow> list_all utf8_valid ([tm_TargetName target, tm_ProductID target, tm_ReleaseID target, tm_Version target, tm_PlanDigest target,
     tm_ArtifactDigest target, trim_prefix (tm_ArtifactDigest target) ''sha256:'', tm_ManifestDigest target, tm_ReleaseNotesMarkdown target,
     tm_ReleaseNotesDigest target, tm_CompatibilityDigest target, tm_ImageMode target, tm_OfflineImageBundleDigest target] @ tm_TargetImages target)"

lemma sound_go_of: "strict_value v \<Longrightarrow> sound_go (go_of v)"
proof (induction v)
  case (JObj ms)
  then have "sound_go (go_of (snd m))" if "m \<in> set ms" for m using that by (cases m) (force simp: list_all_iff)
  with JObj.prems show ?case by (simp add: list_all_iff comp_def)
qed (auto simp: list_all_iff)

lemma sound_must: "sound_go (mustStrictValue raw)"
  by (auto simp: mustStrictValue_def strictJSONValue_iff sound_go_of split: sum.split)

lemma sound_number: "sound_go (GoNumber (dec_nat n))"
proof -
  have "\<not> is_digit (CHR ''-'')" by (simp add: is_digit_def in_range_def byte_val_def)
  then have "dec_nat n \<noteq> ''-0''" using dec_nat_digits [of n] by (metis list.pred_inject(2))
  then show ?thesis by (simp add: int_text_nat)
qed

lemma key_utf8:
  "list_all utf8_valid [''_type'', ''version'', ''expires'', ''targets'', ''hashes'', ''sha256'', ''custom'', ''meta'', ''targets.json'', ''snapshot.json'',
     ''revocations'', ''product_id'', ''release_id'', ''plan_digest'', ''artifact_digest'', ''manifest_digest'', ''release_notes_markdown'',
     ''release_notes_digest'', ''compatibility'', ''compatibility_digest'', ''target_images'', ''image_mode'', ''offline_image_bundle_digest'', ''key_id'',
     ''reason'', ''revoked_at'', ''root'', ''snapshot'', ''timestamp'', ''revocation'']"
  by code_simp

lemma sound_role:
  assumes "utf8_valid k" "k \<notin> {''_type'', ''version'', ''expires''}" "utf8_valid (roleTime expires)" "sound_go v"
  shows "sound_go (GoMap (role_header role version expires @ [(k, v)]))"
  using assms key_utf8 sound_number [of version] by (cases role) (auto simp: role_header_def)

lemma sound_custom: "target_text target \<Longrightarrow> sound_go (target_item target)"
  using key_utf8 sound_must [of "tm_Compatibility target"] by (auto simp: target_text_def custom_value_def list_all_iff)

lemma sound_binding: "sound_go (metadataBinding version raw)"
proof -
  have "utf8_valid (sha256_hex raw)" by (simp add: utf8_valid_graphic is_hex_graphic sha256_hex_hex)
  then show ?thesis using key_utf8 sound_number [of version] by (simp add: metadataBinding_def)
qed

lemma sound_revocation:
  assumes "target_text target" "\<And>at. rl_revoked_at (re_row record) = Some at \<Longrightarrow> utf8_valid (roleTime at)"
    "utf8_valid (coalesce (rl_revocation_reason (re_row record)))"
  shows "list_all sound_go (revocation_value record target)"
proof -
  have "utf8_valid []" by code_simp
  then show ?thesis using assms key_utf8 by (auto simp: revocation_value_def target_text_def split: option.split)
qed


fun lifetime :: "catalog_role \<Rightarrow> duration" where
  "lifetime RoleTargets = targetsLifetime"
| "lifetime RoleSnapshot = snapshotLifetime"
| "lifetime RoleTimestamp = timestampLifetime"
| "lifetime RoleRevocation = revocationLifetime"
| "lifetime RoleRoot = 0"

fun role_refs :: "RoleKeyRefs \<Rightarrow> catalog_role \<Rightarrow> string list" where
  "role_refs refs RoleTargets = kr_Targets refs"
| "role_refs refs RoleSnapshot = kr_Snapshot refs"
| "role_refs refs RoleTimestamp = kr_Timestamp refs"
| "role_refs refs RoleRevocation = kr_Revocation refs"
| "role_refs refs RoleRoot = []"

definition ready :: "ed25519 \<Rightarrow> Builder \<Rightarrow> rootMetadata \<Rightarrow> Versions \<Rightarrow> time \<Rightarrow> time \<Rightarrow> bool" where
  "ready ed builder root versions now later \<longleftrightarrow> (\<forall>role. role \<noteq> RoleRoot \<longrightarrow>
     keys_meet ed root (bd_sign builder) (role_refs (bd_keyRefs builder) role) role
     \<and> 0 < role_version versions role \<and> role_version versions role < 2 ^ 64 \<and> utf8_valid (roleTime (now + lifetime role))
     \<and> (\<exists>e. ParseRFC3339 (roleTime (now + lifetime role)) = Some e \<and> later < e))"

definition root_ready :: "ed25519 \<Rightarrow> Builder \<Rightarrow> rootMetadata \<Rightarrow> parsedEnvelope \<Rightarrow> time \<Rightarrow> bool" where
  "root_ready ed builder root rootE later \<longleftrightarrow> pe_EnvelopeBytes (bd_root builder) \<noteq> [] \<and> parseEnvelope (pe_EnvelopeBytes (bd_root builder)) = Inr rootE
     \<and> parseRoot rootE = Inr root \<and> (\<exists>v. verify_role ed root later rootE RoleRoot = Inr v)"

definition online :: "ed25519 \<Rightarrow> Builder \<Rightarrow> rootMetadata \<Rightarrow> Versions \<Rightarrow> time \<Rightarrow> catalog_role \<Rightarrow> (bytes \<times> go_value) list \<Rightarrow> bytes \<Rightarrow> parsedEnvelope \<Rightarrow> bool" where
  "online ed builder root versions later role ms raw env \<longleftrightarrow>
     signEnvelope (bd_sign builder) (role_refs (bd_keyRefs builder) role) (GoMap ms) = Inr raw \<and> raw \<noteq> [] \<and> parseEnvelope raw = Inr env
     \<and> pe_Signed env = canon_members ms \<and> pe_EnvelopeBytes env = raw \<and> verify_role ed root later env role = Inr (role_version versions role)"

lemma online_role:
  assumes "ready ed builder root versions now later" "role \<noteq> RoleRoot" "sound_go v" "utf8_valid k" "k \<notin> {''_type'', ''version'', ''expires''}"
  shows "\<exists>raw env. online ed builder root versions later role (role_header role (role_version versions role) (now + lifetime role) @ [(k, v)]) raw env"
proof -
  from assms(1,2) obtain e where keys: "keys_meet ed root (bd_sign builder) (role_refs (bd_keyRefs builder) role) role"
    and version: "0 < role_version versions role" "role_version versions role < 2 ^ 64" and u: "utf8_valid (roleTime (now + lifetime role))"
    and e: "ParseRFC3339 (roleTime (now + lifetime role)) = Some e" "later < e" unfolding ready_def by blast
  show ?thesis
    using role_succeeds [OF keys refl sound_role [OF assms(4,5) u assms(3)] version e assms(5)] unfolding online_def by blast
qed

lemma canon_single: "canon (GoMap [(k, v)]) = JObj [(k, canon v)]"
  by simp

lemma binding_verifies:
  assumes "pe_Signed env = canon_members (role_header role version expires @ [(''meta'', GoMap [(name, metadataBinding v (pe_EnvelopeBytes document))])])"
    "0 < v" "v < 2 ^ 64"
  shows "verifyMetaBinding document env name v = None"
proof -
  let ?b = "[(''version'', GoNumber (dec_nat v)), (''hashes'', GoMap [(''sha256'', GoString (sha256_hex (pe_EnvelopeBytes document)))])]"
  have "map_of (pe_Signed env) ''meta'' = Some (canon (GoMap [(name, GoMap ?b)]))"
    unfolding assms(1) metadataBinding_def by (rule header_values(4)) simp
  then have "map_of (pe_Signed env) ''meta'' = Some (JObj [(name, JObj (canon_members ?b))])"
    unfolding canon_single unfolding canon_map .
  moreover have "map_of (canon_members ?b) ''version'' = Some (JNum (dec_nat v))"
    "map_of (canon_members ?b) ''hashes'' = Some (JObj [(''sha256'', JStr (sha256_hex (pe_EnvelopeBytes document)))])"
    by (simp_all add: map_of_canon)
  moreover have "equalDigest (sha256_hex m) (sha256_hex m)" for m by (simp add: equalDigest_def trim_digest)
  ultimately show ?thesis
    using assms(2,3) positiveVersion_nat [of v v] by (simp add: verifyMetaBinding_def)
qed

lemma targets_verify:
  assumes "pe_Signed env = canon_members (targets_members target versions now)" "validateTargetMetadata target = None"
  shows "verifyTargets env = Inr [built_target target]"
proof -
  have "map_of (pe_Signed env) ''targets'' = Some (canon (GoMap [(tm_TargetName target, target_item target)]))"
    unfolding assms(1) by (rule header_values(4)) simp
  then have "map_of (pe_Signed env) ''targets'' = Some (JObj [(tm_TargetName target, canon (target_item target))])"
    unfolding canon_single .
  then show ?thesis using target_verifies [OF assms(2)] by (simp add: verifyTargets_def del: json_of.simps)
qed

lemma build_passes:
  assumes ready: "ready ed builder root versions now later" and root: "root_ready ed builder root rootE later"
    and target: "validateTargetMetadata target = None" "target_text target"
    and rec: "\<And>at. rl_revoked_at (re_row record) = Some at \<Longrightarrow> utf8_valid (roleTime at)"
      "utf8_valid (coalesce (rl_revocation_reason (re_row record)))"
  shows "\<exists>catalog envs. built builder now record versions target catalog \<and> passes ed catalog later root envs [built_target target]"
proof -
  have v: "0 < role_version versions role" "role_version versions role < 2 ^ 64" if "role \<noteq> RoleRoot" for role
    using ready that by (auto simp: ready_def)
  note role = online_role [OF ready]
  have "sound_go (GoMap [(tm_TargetName target, target_item target)])" using target(2) sound_custom [OF target(2)] by (simp add: target_text_def)
  from role [OF _ this, of RoleTargets "''targets''"] obtain targets et where t: "online ed builder root versions later RoleTargets (targets_members target versions now) targets et"
    using key_utf8 by auto
  have "sound_go (GoMap [(''targets.json'', metadataBinding (vs_Targets versions) targets)])" using key_utf8 sound_binding by simp
  from role [OF _ this, of RoleSnapshot "''meta''"] obtain snapshot es where s: "online ed builder root versions later RoleSnapshot (snapshot_members versions now targets) snapshot es"
    using key_utf8 by auto
  have "sound_go (GoMap [(''snapshot.json'', metadataBinding (vs_Snapshot versions) snapshot)])" using key_utf8 sound_binding by simp
  from role [OF _ this, of RoleTimestamp "''meta''"] obtain stamp ets where ts: "online ed builder root versions later RoleTimestamp (timestamp_members versions now snapshot) stamp ets"
    using key_utf8 by auto
  have "sound_go (GoSlice (revocation_value record target))" using sound_revocation [OF target(2) rec] by simp
  from role [OF _ this, of RoleRevocation "''revocations''"] obtain revocation er where r: "online ed builder root versions later RoleRevocation (revocation_members versions now record target) revocation er"
    using key_utf8 by auto
  let ?catalog = "\<lparr>bu_Root = pe_EnvelopeBytes (bd_root builder), bu_Targets = targets, bu_Snapshot = snapshot, bu_Timestamp = stamp, bu_Revocation = revocation\<rparr>"
  let ?envs = "(\<lambda>_. rootE)(RoleTargets := et, RoleSnapshot := es, RoleTimestamp := ets, RoleRevocation := er)"
  note o = t [unfolded online_def] s [unfolded online_def] ts [unfolded online_def] r [unfolded online_def]
  have "built builder now record versions target ?catalog" using o by (simp add: built_def)
  moreover have "verifyMetaBinding et es ''targets.json'' (vs_Targets versions) = None"
    using o v [of RoleTargets] by (intro binding_verifies) simp_all
  moreover have "verifyMetaBinding es ets ''snapshot.json'' (vs_Snapshot versions) = None"
    using o v [of RoleSnapshot] by (intro binding_verifies) simp_all
  moreover have "verifyTargets et = Inr [built_target target]" using o targets_verify [OF _ target(1)] by blast
  ultimately have "built builder now record versions target ?catalog \<and> passes ed ?catalog later root ?envs [built_target target]"
    using root o by (simp add: passes_def all_roles root_ready_def)
  then show ?thesis by blast
qed


section \<open>A sample builder\<close>

definition sample_ed :: ed25519 where
  "sample_ed public message signature \<longleftrightarrow> signature = replicate 64 (CHR ''s'')"

definition sample_sign :: signer where
  "sample_sign keyRef payload = Some \<lparr>sg_KeyID = keyRef, sg_Algorithm = ''ed25519'', sg_Value = replicate 64 (CHR ''s'')\<rparr>"

definition sample_roles :: "string list" where
  "sample_roles = [''revocation'', ''root'', ''snapshot'', ''targets'', ''timestamp'']"

definition sample_signed :: "string \<Rightarrow> members" where
  "sample_signed p = [(''_type'', JStr ''root''), (''expires'', JStr ''0002-01-01T00:00:00Z''),
     (''keys'', JObj [(''k1'', JObj [(''keytype'', JStr ''ed25519''), (''keyval'', JObj [(''public'', JStr p)]), (''scheme'', JStr ''ed25519'')])]),
     (''roles'', JObj (map (\<lambda>name. (name, JObj [(''keyids'', JArr [JStr ''k1'']), (''threshold'', JNum ''1'')])) sample_roles)),
     (''version'', JNum ''1'')]"

definition sample_value :: "string \<Rightarrow> string \<Rightarrow> json" where
  "sample_value p q = JObj [(''signatures'', JArr [JObj [(''keyid'', JStr ''k1''), (''sig'', JStr q)]]), (''signed'', JObj (sample_signed p))]"

definition sample_public :: string where
  "sample_public = RawURLEncode (replicate 32 (CHR ''p''))"

definition sample_signature :: string where
  "sample_signature = RawURLEncode (replicate 64 (CHR ''s''))"

definition sample_root_bytes :: bytes where
  "sample_root_bytes = encodeCanonicalValue (sample_value sample_public sample_signature)"

definition sample_root_envelope :: parsedEnvelope where
  "sample_root_envelope = \<lparr>pe_Signed = sample_signed sample_public, pe_Signatures = [(''k1'', sample_signature)],
     pe_SignedBytes = encodeCanonicalValue (JObj (sample_signed sample_public)), pe_EnvelopeBytes = sample_root_bytes\<rparr>"

definition sample_root :: rootMetadata where
  "sample_root = \<lparr>rm_Keys = [(''k1'', replicate 32 (CHR ''p''))],
     rm_Roles = map (\<lambda>name. (name, \<lparr>rr_KeyIDs = [''k1''], rr_Threshold = 1\<rparr>)) sample_roles\<rparr>"

lemma sample_texts:
  "matches base64URLPattern sample_public" "matches base64URLPattern sample_signature"
  "RawURLDecode sample_public = Some (replicate 32 (CHR ''p''))" "RawURLDecode sample_signature = Some (replicate 64 (CHR ''s''))"
  by (simp_all add: sample_public_def sample_signature_def RawURL_roundtrip RawURLEncode_matches numeral_eq_Suc del: RawURLEncode.simps)

lemma sample_key_id: "matches keyIDPattern ''k1''"
  unfolding matches_lang keyIDPattern_def lang_Cat_Cls lang_rep_upto_Cls
  by (simp add: is_lower_def is_digit_def in_range_def byte_val_def)

lemma sample_strict: "strictJSONValue sample_root_bytes = Inr (sample_value sample_public sample_signature)"
proof -
  have "utf8_valid sample_public" "utf8_valid sample_signature"
    using matches_over [OF sample_texts(1) patterns_graphic(2)] matches_over [OF sample_texts(2) patterns_graphic(2)] by (simp_all add: utf8_valid_graphic)
  moreover have "strict_value (sample_value p q)" if "utf8_valid p" "utf8_valid q" for p q
    using that by (simp add: sample_value_def sample_signed_def sample_roles_def) code_simp
  moreover have "sort_json (sample_value p q) = sample_value p q" for p q by code_simp
  ultimately show ?thesis unfolding sample_root_bytes_def by (simp add: strict_canonical)
qed

lemma sample_root_parsed: "parseEnvelope sample_root_bytes = Inr sample_root_envelope"
  unfolding parseEnvelope_def sample_strict
  by (simp add: sample_value_def present_def sample_key_id sample_texts sample_root_envelope_def sample_root_bytes_def
      del: encodeCanonicalValue.simps matches.simps)

lemma sample_one: "positiveVersion (Some (JNum ''1'')) = Inr 1" "positiveInt (Some (JNum ''1'')) = Inr 1"
proof -
  have "dec_value ''1'' = 1" "\<not> has_prefix ''1'' ''-''" "int_text ''1''" by code_simp+
  then show "positiveVersion (Some (JNum ''1'')) = Inr 1" by (simp add: positiveVersion_def integer_text del: matches.simps)
  then show "positiveInt (Some (JNum ''1'')) = Inr 1" by (simp add: positiveInt_def)
qed

lemma sample_root_policy: "map_of (rm_Roles sample_root) (role_text role) = Some \<lparr>rr_KeyIDs = [''k1''], rr_Threshold = 1\<rparr>"
  by (cases role) (simp_all add: sample_root_def sample_roles_def)

lemma sample_root_valid: "parseRoot sample_root_envelope = Inr sample_root"
  by (simp add: parseRoot_def sample_root_envelope_def sample_signed_def sample_roles_def sample_root_def root_key_def root_role_def sample_key_id
      sample_texts sample_one publicationRoleOrder_def del: matches.simps)

lemma sample_threshold: "pe_Signatures env = [(''k1'', sample_signature)] \<Longrightarrow> verifyRoleSignatures sample_ed sample_root env role = None"
  by (simp add: verifyRoleSignatures_def sample_root_policy sample_texts) (simp add: sample_root_def sample_ed_def)

lemma sample_keys: "keys_meet sample_ed sample_root sample_sign [''k1''] role"
  by (simp add: keys_meet_def sample_sign_def signature_ok_def sample_key_id sample_threshold sample_texts(2) del: matches.simps flip: sample_signature_def)


definition sample_now :: time where
  "sample_now = day_ns"

definition sample_versions :: Versions where
  "sample_versions = \<lparr>vs_Root = 1, vs_Targets = 2, vs_Snapshot = 3, vs_Timestamp = 4, vs_Revocation = 5\<rparr>"

definition sample_target :: TargetMetadata where
  "sample_target = \<lparr>tm_TargetName = ''r1'', tm_ProductID = ''p1'', tm_ReleaseID = ''r1'', tm_Version = ''1.0.0'', tm_PlanDigest = sha256_hex ''a'',
     tm_ArtifactDigest = sha256_hex ''a'', tm_ManifestDigest = sha256_hex ''a'', tm_ReleaseNotesMarkdown = ''n'', tm_ReleaseNotesDigest = sha256_hex ''n'',
     tm_Compatibility = ''{}'', tm_CompatibilityDigest = sha256_hex ''{}'', tm_TargetImages = [], tm_ImageMode = ''online'', tm_OfflineImageBundleDigest = []\<rparr>"

definition sample_catalog_release :: "time option \<Rightarrow> Release" where
  "sample_catalog_release revoked = \<lparr>re_row = \<lparr>rl_id = 20, rl_product_id = ''p1'', rl_channel = ''x'', rl_version = ''1.0.0'',
     rl_status = StatusPublished, rl_lock_version = 3, rl_notes = ''n'', rl_notes_sha256 = sha256_hex ''n'', rl_compatibility = ''{}'',
     rl_compatibility_sha256 = sha256_hex ''{}'',
     rl_source = \<lparr>so_Repository = ''x'', so_CommitSHA = ''x'', so_Tag = ''x'', so_PipelineRef = ''x''\<rparr>,
     rl_created_by = ''x'', rl_created_at = 1000, rl_updated_at = 1000, rl_submitted_by = Some ''x'', rl_submitted_at = Some 1000,
     rl_approved_by = Some ''y'', rl_approved_at = Some 1000, rl_rejected_by = None, rl_rejected_at = None,
     rl_rejection_reason = None, rl_revoked_at = revoked, rl_revoked_by = map_option (\<lambda>_. ''y'') revoked,
     rl_revocation_reason = map_option (\<lambda>_. ''bad'') revoked, rl_failure_code = None\<rparr>, re_Artifacts = []\<rparr>"

definition sample_builder :: Builder where
  "sample_builder = \<lparr>bd_root = sample_root_envelope, bd_sign = sample_sign,
     bd_keyRefs = \<lparr>kr_Targets = [''k1''], kr_Snapshot = [''k1''], kr_Timestamp = [''k1''], kr_Revocation = [''k1'']\<rparr>, bd_resolve = (\<lambda>_. Inr sample_target)\<rparr>"

lemma sample_builder_new:
  "NewBuilder sample_ed sample_root_bytes (Some sample_sign)
     \<lparr>kr_Targets = [''k1''], kr_Snapshot = [''k1''], kr_Timestamp = [''k1''], kr_Revocation = [''k1'']\<rparr> (Some (\<lambda>_. Inr sample_target)) = Inr sample_builder"
proof -
  have "sample_root_bytes \<noteq> []" by (simp add: sample_root_bytes_def sample_value_def)
  moreover have "map_of (pe_Signed sample_root_envelope) ''_type'' = Some (JStr ''root'')" by (simp add: sample_root_envelope_def sample_signed_def)
  moreover have "verifyRoleSignatures sample_ed sample_root sample_root_envelope RoleRoot = None"
    by (rule sample_threshold) (simp add: sample_root_envelope_def)
  ultimately show ?thesis by (simp add: NewBuilder_def sample_root_parsed sample_root_valid sample_builder_def)
qed

lemma midnight:
  assumes "year_of_days k = (y, yd)" "month_day (month_lengths y) 1 yd = (m, d)"
  shows "roleTime (int k * day_ns) = pad_left 4 (dec_nat y) @ ''-'' @ pad_left 2 (dec_nat m) @ ''-'' @ pad_left 2 (dec_nat d) @ ''T00:00:00Z''"
proof -
  have t: "int k * day_ns = int (k * 86400) * second_ns" by (simp add: day_ns_def)
  have "int (k * 86400) * second_ns div second_ns = int (k * 86400)" "int (k * 86400) * second_ns mod second_ns = 0"
    by (simp_all add: second_ns_def)
  moreover have "pad_left 2 (dec_nat 0) = ''00''" by code_simp
  ultimately show ?thesis
    unfolding t roleTime_def truncate_time_def format_time_def Let_def by (simp add: assms nano_fraction_def del: of_nat_mult One_nat_def)
qed

lemma first_year:
  assumes "k < 365" "month_day (month_lengths 1) 1 k = (m, d)"
  shows "roleTime (int k * day_ns) = ''0001-'' @ pad_left 2 (dec_nat m) @ ''-'' @ pad_left 2 (dec_nat d) @ ''T00:00:00Z''"
proof -
  have "year_of_days k = (1, k)" using assms(1) by (simp add: year_of_days_def Let_def)
  moreover have "pad_left 4 (dec_nat 1) = ''0001''" by code_simp
  ultimately show ?thesis using midnight [of k 1 k m d] assms(2) by (simp del: One_nat_def)
qed

lemma sample_clock:
  "roleTime (sample_now + targetsLifetime) = ''0001-02-01T00:00:00Z''" "roleTime (sample_now + snapshotLifetime) = ''0001-01-09T00:00:00Z''"
  "roleTime (sample_now + timestampLifetime) = ''0001-01-03T00:00:00Z''" "roleTime (sample_now + revocationLifetime) = ''0001-01-09T00:00:00Z''"
  "roleTime sample_now = ''0001-01-02T00:00:00Z''"
proof -
  have p: "pad_left 2 (dec_nat 1) = ''01''" "pad_left 2 (dec_nat 2) = ''02''" "pad_left 2 (dec_nat 3) = ''03''" "pad_left 2 (dec_nat 9) = ''09''"
    by code_simp+
  have m: "month_day (month_lengths 1) 1 31 = (2, 1)" "month_day (month_lengths 1) 1 8 = (1, 9)" "month_day (month_lengths 1) 1 2 = (1, 3)"
    "month_day (month_lengths 1) 1 1 = (1, 2)" by (simp_all add: month_lengths_def leap_year_def)
  note r = first_year [OF _ m(1)] first_year [OF _ m(2)] first_year [OF _ m(3)] first_year [OF _ m(4)]
  have d: "sample_now + targetsLifetime = int 31 * day_ns" "sample_now + snapshotLifetime = int 8 * day_ns" "sample_now + revocationLifetime = int 8 * day_ns"
    "sample_now + timestampLifetime = int 2 * day_ns" "sample_now = int 1 * day_ns"
    by (simp_all add: sample_now_def targetsLifetime_def snapshotLifetime_def timestampLifetime_def revocationLifetime_def)
  show "roleTime (sample_now + targetsLifetime) = ''0001-02-01T00:00:00Z''" unfolding d(1) by (subst r(1)) (simp_all add: p del: One_nat_def)
  show "roleTime (sample_now + snapshotLifetime) = ''0001-01-09T00:00:00Z''" unfolding d(2) by (subst r(2)) (simp_all add: p del: One_nat_def)
  show "roleTime (sample_now + timestampLifetime) = ''0001-01-03T00:00:00Z''" unfolding d(4) by (subst r(3)) (simp_all add: p del: One_nat_def)
  show "roleTime (sample_now + revocationLifetime) = ''0001-01-09T00:00:00Z''" unfolding d(3) by (subst r(2)) (simp_all add: p del: One_nat_def)
  show "roleTime sample_now = ''0001-01-02T00:00:00Z''" unfolding d(5) by (subst r(4)) (simp_all add: p del: One_nat_def)
qed

lemma sample_expiries:
  "case ParseRFC3339 ''0001-02-01T00:00:00Z'' of None \<Rightarrow> False | Some e \<Rightarrow> sample_now < e"
  "case ParseRFC3339 ''0001-01-03T00:00:00Z'' of None \<Rightarrow> False | Some e \<Rightarrow> sample_now < e"
  "case ParseRFC3339 ''0001-01-09T00:00:00Z'' of None \<Rightarrow> False | Some e \<Rightarrow> sample_now < e"
  "case ParseRFC3339 ''0002-01-01T00:00:00Z'' of None \<Rightarrow> False | Some e \<Rightarrow> sample_now < e"
  "list_all utf8_valid [''0001-02-01T00:00:00Z'', ''0001-01-03T00:00:00Z'', ''0001-01-09T00:00:00Z'', ''0001-01-02T00:00:00Z'']"
  by code_simp+

lemma sample_times:
  "utf8_valid (roleTime (sample_now + lifetime role)) \<and> (\<exists>e. ParseRFC3339 (roleTime (sample_now + lifetime role)) = Some e \<and> sample_now < e)"
  if "role \<noteq> RoleRoot"
  using that sample_expiries by (cases role) (auto simp: sample_clock split: option.splits)

lemma sample_ready: "ready sample_ed sample_builder sample_root sample_versions sample_now sample_now"
proof -
  have "keys_meet sample_ed sample_root (bd_sign sample_builder) (role_refs (bd_keyRefs sample_builder) role) role
     \<and> 0 < role_version sample_versions role \<and> role_version sample_versions role < 2 ^ 64" if "role \<noteq> RoleRoot" for role
    using that sample_keys by (cases role) (simp_all add: sample_builder_def sample_versions_def)
  then show ?thesis unfolding ready_def using sample_times by blast
qed

lemma sample_root_ready: "root_ready sample_ed sample_builder sample_root sample_root_envelope sample_now"
proof -
  have "sample_root_bytes \<noteq> []" by (simp add: sample_root_bytes_def sample_value_def)
  moreover obtain e where "ParseRFC3339 ''0002-01-01T00:00:00Z'' = Some e" "sample_now < e"
    using sample_expiries(4) by (auto split: option.splits)
  moreover have "verifyRoleSignatures sample_ed sample_root sample_root_envelope RoleRoot = None"
    by (rule sample_threshold) (simp add: sample_root_envelope_def)
  moreover have "map_of (pe_Signed sample_root_envelope) ''_type'' = Some (JStr ''root'')" "map_of (pe_Signed sample_root_envelope) ''version'' = Some (JNum ''1'')"
    "map_of (pe_Signed sample_root_envelope) ''expires'' = Some (JStr ''0002-01-01T00:00:00Z'')" "pe_EnvelopeBytes sample_root_envelope = sample_root_bytes"
    by (simp_all add: sample_root_envelope_def sample_signed_def)
  ultimately show ?thesis
    by (simp add: root_ready_def sample_builder_def sample_root_parsed sample_root_valid verify_role_def roleExpiry_def sample_one)
qed

lemma sample_target_valid: "validateTargetMetadata sample_target = None"
proof -
  have "CanonicalJSON ''{}'' = Inr ''{}''" by code_simp
  moreover have "equalDigest (sha256_hex m) (sha256_hex m)" for m by (simp add: equalDigest_def trim_digest)
  ultimately show ?thesis by (simp add: validateTargetMetadata_def sample_target_def hex_digest)
qed

lemma sample_target_text: "target_text sample_target"
proof -
  have hex: "utf8_valid (sha256_hex m)" for m by (simp add: utf8_valid_graphic is_hex_graphic sha256_hex_hex)
  have "trim_prefix (sha256_hex m) ''sha256:'' = sha256_hex m" for m
    by (simp add: trim_prefix_def hex_no_prefix)
  moreover have "list_all utf8_valid [''r1'', ''p1'', ''1.0.0'', ''n'', ''online'', []]" by code_simp
  ultimately show ?thesis using hex by (simp add: target_text_def sample_target_def)
qed

lemma sample_bundle:
  assumes "revoked = None \<or> revoked = Some sample_now"
  obtains catalog envs where "built sample_builder sample_now (sample_catalog_release revoked) sample_versions sample_target catalog"
    "passes sample_ed catalog sample_now sample_root envs [built_target sample_target]"
proof -
  have "utf8_valid ''bad''" "utf8_valid []" by code_simp+
  moreover have "utf8_valid (roleTime sample_now)" using sample_expiries(5) by (simp add: sample_clock)
  ultimately have "\<And>at. rl_revoked_at (re_row (sample_catalog_release revoked)) = Some at \<Longrightarrow> utf8_valid (roleTime at)"
    "utf8_valid (coalesce (rl_revocation_reason (re_row (sample_catalog_release revoked))))"
    using assms by (auto simp: sample_catalog_release_def coalesce_def)
  from build_passes [OF sample_ready sample_root_ready sample_target_valid sample_target_text this] that show ?thesis by blast
qed


section \<open>Properties\<close>

text \<open>C12. A role is accepted exactly when the root names a policy for it and at least its threshold, which
  is not zero, of different keys that the policy lists have put a valid Ed25519 signature of 64 bytes on the
  canonical bytes of the role. Repeated signatures of one key, unknown keys and malformed signatures do not
  count.\<close>

theorem threshold_exact:
  "verifyRoleSignatures ed root envelope role = None \<longleftrightarrow>
     (\<exists>policy. map_of (rm_Roles root) (role_text role) = Some policy \<and> 1 \<le> rr_Threshold policy
        \<and> rr_Threshold policy \<le> card {k \<in> set (rr_KeyIDs policy). signed_by ed root (pe_SignedBytes envelope) (pe_Signatures envelope) k})"
proof (cases "map_of (rm_Roles root) (role_text role)")
  case (Some policy)
  let ?valid = "valid_keys ed root (rr_KeyIDs policy) (pe_SignedBytes envelope) [] (pe_Signatures envelope)"
  have "length ?valid = card {k \<in> set (rr_KeyIDs policy). signed_by ed root (pe_SignedBytes envelope) (pe_Signatures envelope) k}"
    using valid_keys_set [of "[]" ed root "rr_KeyIDs policy" "pe_SignedBytes envelope" "pe_Signatures envelope"] distinct_card [of ?valid] by simp
  with Some show ?thesis by (auto simp: verifyRoleSignatures_def)
qed (simp add: verifyRoleSignatures_def)



text \<open>C14. A revocation takes effect. The catalog that \<open>BuildRevocation\<close> returns passes every check of the verifier
  except that its target is revoked, and no verifier, whatever its clock and its signature scheme, accepts it.\<close>

theorem revoked_catalog_rejected:
  assumes "BuildRevocation ed builder now later record versions = Inr catalog"
  shows "Verify ed catalog later = Inl ErrTargetRevoked \<and> (\<forall>ed' time. Verify ed' catalog time \<noteq> Inr ())"
proof -
  from assms have build: "build ed builder now later True record versions = Inr catalog" and "rl_revoked_at (re_row record) \<noteq> None"
    by (auto simp: BuildRevocation_def split: if_splits)
  then obtain target at where b: "built builder (truncate_time second_ns now) record versions target catalog"
    and target: "validateTargetMetadata target = None" and at: "rl_revoked_at (re_row record) = Some at"
    by (auto simp: build_Inr)
  have digest: "catalog_validDigest (tm_ManifestDigest target)" using target by (auto simp: validateTargetMetadata_def split: if_splits)
  have rejects: "Verify ed' catalog time \<noteq> Inr ()" for ed' time
  proof
    assume "Verify ed' catalog time = Inr ()"
    then obtain root envs ts where p: "passes ed' catalog time root envs ts" and "verifyRevocations (envs RoleRevocation) (envs RoleTargets) ts = None"
      by (auto simp: Verify_Inr)
    moreover have env: "parseEnvelope (Roles catalog role) = Inr (envs role)" for role using p by (simp add: passes_def)
    have ts: "ts = [built_target target] \<and> tm_ReleaseID target \<noteq> []"
      using built_targets [OF b] env [of RoleTargets] p by (simp add: passes_def)
    ultimately show False using built_revocations(2) [OF b, of "envs RoleRevocation"] env [of RoleRevocation] at digest by simp
  qed
  then show ?thesis using build by (auto simp: build_Inr)
qed


text \<open>The version of a role does not depend on the order of members.\<close>

lemma positiveVersion_sort: "positiveVersion (map_option sort_json v) = positiveVersion v"
proof (cases v)
  case (Some w)
  then show ?thesis by (cases w) (simp_all add: positiveVersion_def)
qed simp

lemma reparsed_version:
  assumes "parseEnvelope raw = Inr root" "parseEnvelope (pe_EnvelopeBytes root) = Inr env"
  shows "positiveVersion (map_of (pe_Signed env) k) = positiveVersion (map_of (pe_Signed root) k)"
proof -
  from assms(1) obtain v where v: "strict_value v" "pe_EnvelopeBytes root = encodeCanonicalValue v"
    "at_key ''signed'' (Some v) = Some (JObj (pe_Signed root))" by (rule parse_value)
  from assms(2) obtain w where w: "strictJSONValue (pe_EnvelopeBytes root) = Inr w" "at_key ''signed'' (Some w) = Some (JObj (pe_Signed env))"
    by (rule parse_value)
  have "w = sort_json v" using w(1) strict_canonical [OF v(1)] v(2) by simp
  then have "JObj (pe_Signed env) = sort_json (JObj (pe_Signed root))" using w(2) at_key_sort [OF v(1), of "''signed''"] v(3) by simp
  moreover have "distinct (map fst (pe_Signed root))" using strict_at_key [OF v(3) v(1)] by simp
  ultimately have "map_of (pe_Signed env) k = map_option sort_json (map_of (pe_Signed root) k)"
    using map_of_sorted [of "pe_Signed root" k] by (simp add: sorted_members_def)
  then show ?thesis by (simp add: positiveVersion_sort)
qed

lemma role_members_version:
  assumes "built builder now record versions target catalog" "parseEnvelope (Roles catalog role) = Inr env" "role \<noteq> RoleRoot"
  shows "map_of (pe_Signed env) ''version'' = Some (JNum (dec_nat (role_version versions role)))"
  using built_parse [OF assms] assms(3) by (cases role) (simp_all add: role_members_def header_values)

text \<open>C11. What \<open>Build\<close> returns verifies, carries the trusted root unchanged and, in every role, the version that
  was reserved for it, and its targets are exactly the target of the release. A revoked release is never
  built.\<close>

theorem built_catalog_faithful:
  assumes "NewBuilder ed rootBytes provider keyRefs resolver = Inr builder"
    and "Build ed builder now later record versions = Inr catalog"
  shows "Verify ed catalog later = Inr () \<and> rl_revoked_at (re_row record) = None \<and> CanonicalJSON rootBytes = Inr (bu_Root catalog)
    \<and> (\<forall>role. \<exists>env. parseEnvelope (Roles catalog role) = Inr env \<and> positiveVersion (map_of (pe_Signed env) ''version'') = Inr (role_version versions role))
    \<and> (\<exists>target env. bd_resolve builder record = Inr target \<and> parseEnvelope (bu_Targets catalog) = Inr env \<and> verifyTargets env = Inr [built_target target])"
proof -
  from assms(2) obtain target where v: "Verify ed catalog later = Inr ()" and b: "built builder (truncate_time second_ns now) record versions target catalog"
    and target: "bd_resolve builder record = Inr target" "validateTargetMetadata target = None"
    and root: "positiveVersion (map_of (pe_Signed (bd_root builder)) ''version'') = Inr (vs_Root versions)"
    by (auto simp: Build_def build_Inr)
  from assms(1) have new: "parseEnvelope rootBytes = Inr (bd_root builder)"
    by (auto simp: NewBuilder_def res_bind_Inr split: option.splits if_splits)
  from v obtain r envs ts where p: "passes ed catalog later r envs ts" and rev: "verifyRevocations (envs RoleRevocation) (envs RoleTargets) ts = None"
    by (auto simp: Verify_Inr)
  have env: "parseEnvelope (Roles catalog role) = Inr (envs role)" for role using p by (simp add: passes_def)
  have ts: "verifyTargets (envs RoleTargets) = Inr ts" "ts = [built_target target] \<and> tm_ReleaseID target \<noteq> []"
    using built_targets [OF b] env [of RoleTargets] p by (simp_all add: passes_def)
  have digest: "catalog_validDigest (tm_ManifestDigest target)" using target(2) by (auto simp: validateTargetMetadata_def split: if_splits)
  have "rl_revoked_at (re_row record) = None"
    using built_revocations(2) [OF b, of "envs RoleRevocation"] env [of RoleRevocation] rev ts digest by (cases "rl_revoked_at (re_row record)") auto
  moreover have "positiveVersion (map_of (pe_Signed (envs role)) ''version'') = Inr (role_version versions role)" for role
  proof (cases "role = RoleRoot")
    case True
    have "parseEnvelope (pe_EnvelopeBytes (bd_root builder)) = Inr (envs RoleRoot)" using env [of RoleRoot] b by (simp add: built_def)
    from reparsed_version [OF new this, of "''version''"] root True show ?thesis by simp
  next
    case False
    obtain n where "positiveVersion (map_of (pe_Signed (envs role)) ''version'') = Inr n"
      using p unfolding passes_def verify_role_def by (fastforce simp: res_bind_Inr split: if_splits)
    then show ?thesis unfolding role_members_version [OF b env False] by (simp add: positiveVersion_nat)
  qed
  moreover have "CanonicalJSON rootBytes = Inr (bu_Root catalog)" using canonical_parse [OF new] b by (simp add: built_def)
  moreover have "parseEnvelope (bu_Targets catalog) = Inr (envs RoleTargets)" using env [of RoleTargets] by simp
  ultimately show ?thesis using v env ts target(1) by blast
qed


section \<open>Witnesses\<close>

lemma sample_midnight: "truncate_time second_ns sample_now = sample_now"
  by (simp add: truncate_time_def sample_now_def day_ns_def)

lemma sample_root_version: "positiveVersion (map_of (pe_Signed (bd_root sample_builder)) ''version'') = Inr (vs_Root sample_versions)"
  by (simp add: sample_builder_def sample_root_envelope_def sample_signed_def sample_one sample_versions_def)


text \<open>A catalog of the sample release, and the one after its revocation.\<close>

lemma sample_built: "\<exists>catalog. Build sample_ed sample_builder sample_now sample_now (sample_catalog_release None) sample_versions = Inr catalog"
proof -
  obtain catalog envs where b: "built sample_builder sample_now (sample_catalog_release None) sample_versions sample_target catalog"
    and p: "passes sample_ed catalog sample_now sample_root envs [built_target sample_target]"
    by (rule sample_bundle [of None]) simp
  have "parseEnvelope (bu_Revocation catalog) = Inr (envs RoleRevocation)" using p by (auto simp: passes_def all_roles)
  then have "Verify sample_ed catalog sample_now = Inr ()"
    using passes_Verify [OF p] built_revocations(1) [OF b] by (simp add: sample_catalog_release_def)
  then have "Build sample_ed sample_builder sample_now sample_now (sample_catalog_release None) sample_versions = Inr catalog"
    using b sample_root_version sample_target_valid
    by (simp add: Build_def build_Inr sample_midnight) (simp add: sample_versions_def versions_valid_def sample_builder_def)
  then show ?thesis by blast
qed

lemma sample_revoked: "\<exists>catalog. BuildRevocation sample_ed sample_builder sample_now sample_now (sample_catalog_release (Some sample_now)) sample_versions = Inr catalog"
proof -
  let ?rel = "sample_catalog_release (Some sample_now)"
  obtain catalog envs where b: "built sample_builder sample_now ?rel sample_versions sample_target catalog"
    and p: "passes sample_ed catalog sample_now sample_root envs [built_target sample_target]"
    by (rule sample_bundle [of "Some sample_now"]) simp
  have "parseEnvelope (bu_Revocation catalog) = Inr (envs RoleRevocation)" using p by (auto simp: passes_def all_roles)
  moreover have "rl_revoked_at (re_row ?rel) = Some sample_now" "tm_ReleaseID sample_target \<noteq> []" "catalog_validDigest (tm_ManifestDigest sample_target)"
    by (simp_all add: sample_catalog_release_def sample_target_def hex_digest)
  ultimately have "Verify sample_ed catalog sample_now = Inl ErrTargetRevoked"
    using passes_Verify [OF p] built_revocations(2) [OF b] by simp
  moreover have "trim_space ''bad'' \<noteq> []" by code_simp
  ultimately have "BuildRevocation sample_ed sample_builder sample_now sample_now ?rel sample_versions = Inr catalog"
    using b sample_root_version sample_target_valid
    by (simp add: BuildRevocation_def build_Inr sample_midnight)
       (simp add: sample_versions_def versions_valid_def sample_builder_def sample_catalog_release_def coalesce_def)
  then show ?thesis by blast
qed

theorem built_catalog_faithful_witness:
  "\<exists>catalog. Build sample_ed sample_builder sample_now sample_now (sample_catalog_release None) sample_versions = Inr catalog
     \<and> Verify sample_ed catalog sample_now = Inr () \<and> CanonicalJSON sample_root_bytes = Inr (bu_Root catalog)"
  using sample_built built_catalog_faithful [OF sample_builder_new] by blast


theorem revoked_catalog_rejected_witness:
  "\<exists>catalog. BuildRevocation sample_ed sample_builder sample_now sample_now (sample_catalog_release (Some sample_now)) sample_versions = Inr catalog
     \<and> Verify sample_ed catalog sample_now = Inl ErrTargetRevoked"
  using sample_revoked revoked_catalog_rejected by blast

text \<open>The release service accepts compatibility documents that the catalog cannot encode.\<close>

lemma resolve_needs_canonical:
  "CanonicalJSON (rl_compatibility (re_row record)) = Inl e \<Longrightarrow> \<exists>e. Resolve_target u pg products record = Inl e"
  by (cases "repo_Get pg (rl_product_id (re_row record)) products") (auto simp: Resolve_target_def Let_def)


end
