(* ===== verification/PublicationRules.thy ===== *)
theory PublicationRules
  imports PublicationTables CatalogRules
begin

text \<open>
  What the runs of the publication worker do: they are histories of the tables, a successful
  publication leaves a current catalog whose five objects are in the store, and repeating it changes nothing.
\<close>

section \<open>The record of an attempt\<close>

lemma FindByAttempt_Inr:
  assumes ok: "catalog_ok db" and run: "FindByAttempt pg a db = Inr rec"
  shows "\<exists>row. tbl_get cv_id (cb_versions db) (vr_ID rec) = Some row \<and> cv_attempt row = Some a \<and> load_version pg row db = Inr rec"
    "held rec db"
proof -
  obtain row where row: "tbl_get cv_attempt (cb_versions db) (Some a) = Some row" "load_version pg row db = Inr rec"
    using run by (auto simp: FindByAttempt_def split: if_splits option.splits)
  have "row \<in> set (cb_versions db)" "cv_attempt row = Some a" using row(1) by (auto dest: tbl_get_Some)
  moreover from this have "tbl_get cv_id (cb_versions db) (cv_id row) = Some row"
    using ok by (intro tbl_get_unique) (simp_all add: catalog_ok_def keys_ok_def)
  ultimately show "\<exists>row. tbl_get cv_id (cb_versions db) (vr_ID rec) = Some row \<and> cv_attempt row = Some a \<and> load_version pg row db = Inr rec"
    "held rec db"
    using row(2) by (auto simp: load_version_Inr scanVersionRecord_def held_def)
qed

lemma created_row:
  assumes "catalog_Create rec db = (Inr x, db')"
  shows "tbl_get cv_id (cb_versions db') (vr_ID rec) = Some (version_of rec)"
proof -
  have "cv_id r \<noteq> vr_ID rec" if "r \<in> set (cb_versions db)" for r
    using catalog_Create_Inr(2) [OF assms that] by (simp add: version_conflict_def version_of_def)
  then have "tbl_get cv_id (cb_versions db) (vr_ID rec) = None" by (force simp: tbl_get_None)
  then show ?thesis using catalog_Create_Inr(1) [OF assms] by (simp add: tbl_simps version_of_def)
qed

lemma created_record:
  assumes "createPublicationRecordWithBuilder u pg service call mk rel a db = (Inr rec, db')"
  shows "held rec db'" "same_scope rec rel" "vr_AttemptID rec = a" "a \<noteq> uuid_Nil" "vr_ID rec \<noteq> uuid_Nil"
    "\<exists>mid. catalog_Create rec mid = (Inr (), db')"
    "\<And>role. \<exists>d. vr_Roles rec role = Some d \<and> do_EnvelopeSHA256 d = sha256_hex (do_Envelope d) \<and> validCatalogObjectKey (do_ObjectKey d)"
proof -
  obtain v x b now mid where new: "newPublicationRecord u x a rel v b now = Inr rec" and create: "catalog_Create rec mid = (Inr (), db')"
    using createPublicationRecord_Inr [OF assms] by blast
  show "\<exists>mid. catalog_Create rec mid = (Inr (), db')" using create by blast
  show "held rec db'" using created_row [OF create] by (auto simp: held_def version_of_def)
  show "same_scope rec rel" "vr_AttemptID rec = a" "a \<noteq> uuid_Nil" "vr_ID rec \<noteq> uuid_Nil"
    using new_record [OF new] by (simp_all add: same_scope_def)
  show "\<exists>d. vr_Roles rec role = Some d \<and> do_EnvelopeSHA256 d = sha256_hex (do_Envelope d) \<and> validCatalogObjectKey (do_ObjectKey d)" for role
  proof -
    obtain d where "vr_Roles rec role = Some d" "validCatalogObjectKey (do_ObjectKey d)"
      using catalog_Create_Inr(3) [OF create, of role] unfolding valid_document_def by (cases "vr_Roles rec role") simp_all
    then show ?thesis using new_record_documents [OF new] by blast
  qed
qed

lemma find_or_create_cases:
  assumes "find_or_create pg a m db = (Inr rec, db')"
  obtains (found) "FindByAttempt pg a db = Inr rec" "db' = db" | (created) "FindByAttempt pg a db = Inl ErrVersionRecordNotFound" "m db = (Inr rec, db')"
proof (cases "FindByAttempt pg a db")
  case (Inl e)
  then have "e = ErrVersionRecordNotFound \<and> m db = (Inr rec, db')" using assms
    by (cases "e = ErrVersionRecordNotFound") (simp_all add: find_or_create_def act_try_def act_read_def act_fail_def)
  then show ?thesis using that(2) Inl by blast
next
  case (Inr x)
  then have "x = rec \<and> db' = db" using assms by (simp add: find_or_create_def act_try_def act_read_def act_return_def)
  then show ?thesis using that(1) Inr by blast
qed

section \<open>A run is a history\<close>

text \<open>At most two transactions: the record of the attempt, and the switch of the current catalog.\<close>

definition steps_from :: "uuid_lib \<Rightarrow> pg_lib \<Rightarrow> catalog_db \<Rightarrow> catalog_db \<Rightarrow> bool" where
  "steps_from u pg db db' \<longleftrightarrow> (\<exists>mid. (mid = db \<or> catalog_step u pg {db} db mid) \<and> (db' = mid \<or> catalog_step u pg {db, mid} mid db'))"

lemma find_or_create_step:
  assumes "find_or_create pg a (if c then act_fail e else createPublicationRecordWithBuilder u pg service call mk rel a) db = (r, db')"
  shows "db' = db \<or> catalog_step u pg {db} db db'"
proof (cases "FindByAttempt pg a db")
  case (Inl e)
  then show ?thesis using assms
    by (cases "e = ErrVersionRecordNotFound"; cases c) (auto simp: find_or_create_def act_try_def act_read_def act_fail_def intro: catalog_step.create)
next
  case (Inr x)
  then show ?thesis using assms by (simp add: find_or_create_def act_try_def act_read_def act_return_def)
qed

lemma load_job_Inr:
  assumes "load_job u job kind db = Inr (payload, rel, attempt)"
  shows "decodeCatalogJob u job kind = Inr payload" "GetByID (pj_ReleaseID payload) (cb_release db) = Inr rel"
    "GetAttemptByID (pj_AttemptID payload) (cb_release db) = Inr attempt"
  using assms by (auto simp: load_job_def res_elims)

text \<open>The two handlers have the same shape: load, find or create the record, then either check that it is current or
  store it and switch.\<close>

lemma publish_shape:
  assumes run: "act_bind (with_db fc) (\<lambda>rec. if c1 rec then act_fail e1 else if c2 then with_db (act_read (chk rec))
      else if c3 then act_fail e3 else act_bind (with_store (per rec)) (\<lambda>_. with_db (sw rec))) (st, db) = (r, st', db')"
  obtains (missing) e where "fc db = (Inl e, db')" "r = Inl e" "st' = st"
  | (refused) rec e where "fc db = (Inr rec, db')" "r = Inl e" "st' = st"
  | (checked) rec where "fc db = (Inr rec, db')" "\<not> c1 rec" "c2" "r = chk rec db'" "st' = st"
  | (unstored) rec e where "fc db = (Inr rec, db')" "per rec st = (Inl e, st')" "r = Inl e"
  | (switched) rec mid x where "fc db = (Inr rec, mid)" "\<not> c1 rec" "\<not> c2" "\<not> c3" "per rec st = (Inr x, st')" "sw rec mid = (r, db')"
proof -
  obtain q mid where q: "fc db = (q, mid)" by (cases "fc db")
  show ?thesis
  proof (cases q)
    case (Inl e)
    then have "fc db = (Inl e, db')" "r = Inl e" "st' = st" using run q by (auto simp: act_bind_def with_db_def)
    then show ?thesis by (rule missing)
  next
    case (Inr rec)
    have rest: "(if c1 rec then act_fail e1 else if c2 then with_db (act_read (chk rec))
      else if c3 then act_fail e3 else act_bind (with_store (per rec)) (\<lambda>_. with_db (sw rec))) (st, mid) = (r, st', db')"
      using run q Inr by (simp add: act_bind_def with_db_def)
    have fc: "fc db = (Inr rec, mid)" using q Inr by simp
    consider "c1 rec \<or> \<not> c2 \<and> c3" | "\<not> c1 rec" "c2" | "\<not> c1 rec" "\<not> c2" "\<not> c3" by blast
    then show ?thesis
    proof cases
      case 1
      then have "db' = mid" "\<exists>e. r = Inl e" "st' = st" using rest by (auto simp: act_fail_def split: if_splits)
      then show ?thesis using refused fc by blast
    next
      case 2
      then have "db' = mid" "r = chk rec mid" "st' = st" using rest by (auto simp: with_db_def act_read_def)
      then show ?thesis using checked fc 2 by blast
    next
      case 3
      obtain q2 st2 where q2: "per rec st = (q2, st2)" by (cases "per rec st")
      show ?thesis
      proof (cases q2)
        case (Inl e)
        then have "db' = mid" "r = Inl e" "st' = st2" using rest q2 3 by (auto simp: act_bind_def with_store_def)
        then show ?thesis using unstored fc q2 Inl by blast
      next
        case (Inr x)
        then have "sw rec mid = (r, db')" "st' = st2" using rest q2 3
          by (auto simp: act_bind_def with_store_def with_db_def split: prod.splits)
        then show ?thesis using switched fc q2 Inr 3 by blast
      qed
    qed
  qed
qed

lemma load_bind: "act_bind (with_db (act_read f)) g (st, db) = (case f db of Inl e \<Rightarrow> (Inl e, st, db) | Inr x \<Rightarrow> g x (st, db))"
  by (simp add: act_bind_def with_db_def act_read_def split: sum.splits)

definition publish_record :: "uuid_lib \<Rightarrow> pg_lib \<Rightarrow> publication_service \<Rightarrow> publication_call \<Rightarrow> PublicationJobPayload \<Rightarrow> Release \<Rightarrow>
    (catalog_db, catalog_error, VersionRecord) action" where
  "publish_record u pg service call payload rel = find_or_create pg (pj_AttemptID payload)
     (if rl_status (re_row rel) \<noteq> StatusPublishing then act_fail ErrPublicationStateInvalid
      else createPublicationRecordWithBuilder u pg service call Build rel (pj_AttemptID payload))"

definition revoke_record :: "uuid_lib \<Rightarrow> pg_lib \<Rightarrow> publication_service \<Rightarrow> publication_call \<Rightarrow> PublicationJobPayload \<Rightarrow> Release \<Rightarrow>
    (catalog_db, catalog_error, VersionRecord) action" where
  "revoke_record u pg service call payload rel = find_or_create pg (pj_AttemptID payload)
     (createPublicationRecordWithBuilder u pg service call BuildRevocation rel (pj_AttemptID payload))"

lemma Publish_run:
  assumes "Publish u pg core service call job (st, db) = (r, st', db')"
    and "load_job u job JobKindCatalogPublish db = Inr (payload, rel, attempt)" "am_ReleaseID attempt = release_id rel" "am_Kind attempt = AttemptKindPublish"
  obtains (missing) e where "publish_record u pg service call payload rel db = (Inl e, db')" "r = Inl e" "st' = st"
  | (refused) rec e where "publish_record u pg service call payload rel db = (Inr rec, db')" "r = Inl e" "st' = st"
  | (checked) rec where "publish_record u pg service call payload rel db = (Inr rec, db')" "same_scope rec rel"
      "rl_status (re_row rel) = StatusPublished" "r = already_current pg rec db'" "st' = st"
  | (unstored) rec e where "publish_record u pg service call payload rel db = (Inr rec, db')"
      "persist_roles u core rec publicationRoleOrder st = (Inl e, st')" "r = Inl e"
  | (switched) rec mid where "publish_record u pg service call payload rel db = (Inr rec, mid)" "same_scope rec rel"
      "rl_status (re_row rel) = StatusPublishing" "persist_roles u core rec publicationRoleOrder st = (Inr (), st')"
      "switch_tx u call job rec ''catalog.publish.complete'' rel (pj_AttemptID payload)
        (CompletePublication (pc_db_now call) (release_id rel) (pj_AttemptID payload) (pub_time call)) mid = (r, db')"
proof -
  have "act_bind (with_db (publish_record u pg service call payload rel)) (\<lambda>rec.
       if \<not> same_scope rec rel then act_fail ErrPublicationJobInvalid
       else if rl_status (re_row rel) = StatusPublished then with_db (act_read (already_current pg rec))
       else if rl_status (re_row rel) \<noteq> StatusPublishing then act_fail ErrPublicationStateInvalid
       else act_bind (with_store (persist_roles u core rec publicationRoleOrder)) (\<lambda>_.
         with_db (switch_tx u call job rec ''catalog.publish.complete'' rel (pj_AttemptID payload)
           (CompletePublication (pc_db_now call) (release_id rel) (pj_AttemptID payload) (pub_time call))))) (st, db) = (r, st', db')"
    using assms(1) unfolding Publish_def load_bind assms(2) sum.case prod.case Let_def assms(3,4) publish_record_def by (simp only: simp_thms if_False)
  then show thesis
    by (rule publish_shape) (use missing refused checked unstored switched in auto)
qed

lemma Publish_refused:
  assumes "Publish u pg core service call job (st, db) = (r, st', db')"
    and "\<nexists>payload rel attempt. load_job u job JobKindCatalogPublish db = Inr (payload, rel, attempt) \<and> am_ReleaseID attempt = release_id rel \<and> am_Kind attempt = AttemptKindPublish"
  shows "(\<exists>e. r = Inl e) \<and> st' = st \<and> db' = db"
proof (cases "load_job u job JobKindCatalogPublish db")
  case (Inl e)
  then show ?thesis using assms(1) unfolding Publish_def load_bind by auto
next
  case (Inr x)
  then obtain payload rel attempt where "load_job u job JobKindCatalogPublish db = Inr (payload, rel, attempt)" by (cases x) auto
  then show ?thesis using assms unfolding Publish_def load_bind by (auto simp: act_fail_def)
qed

lemma Revoke_run:
  assumes "Revoke u pg core service call job (st, db) = (r, st', db')"
    and "load_job u job JobKindCatalogRevoke db = Inr (payload, rel, attempt)" "am_ReleaseID attempt = release_id rel" "am_Kind attempt = AttemptKindRevoke"
    "rl_status (re_row rel) = StatusPublished" "rl_revoked_at (re_row rel) \<noteq> None" "trim_space (coalesce (rl_revocation_reason (re_row rel))) \<noteq> []"
  obtains (missing) e where "revoke_record u pg service call payload rel db = (Inl e, db')" "r = Inl e" "st' = st"
  | (refused) rec e where "revoke_record u pg service call payload rel db = (Inr rec, db')" "r = Inl e" "st' = st"
  | (checked) rec where "revoke_record u pg service call payload rel db = (Inr rec, db')" "same_scope rec rel"
      "am_Status attempt = AttemptStatusSucceeded" "r = already_current pg rec db'" "st' = st"
  | (unstored) rec e where "revoke_record u pg service call payload rel db = (Inr rec, db')"
      "persist_roles u core rec publicationRoleOrder st = (Inl e, st')" "r = Inl e"
  | (switched) rec mid where "revoke_record u pg service call payload rel db = (Inr rec, mid)" "same_scope rec rel"
      "am_Status attempt = AttemptStatusPending" "persist_roles u core rec publicationRoleOrder st = (Inr (), st')"
      "switch_tx u call job rec ''catalog.revoke.complete'' rel (pj_AttemptID payload)
        (CompleteRevocation (release_id rel) (pj_AttemptID payload) (pub_time call)) mid = (r, db')"
proof -
  have "act_bind (with_db (revoke_record u pg service call payload rel)) (\<lambda>rec.
       if \<not> same_scope rec rel then act_fail ErrPublicationJobInvalid
       else if am_Status attempt = AttemptStatusSucceeded then with_db (act_read (already_current pg rec))
       else if am_Status attempt \<noteq> AttemptStatusPending then act_fail ErrPublicationStateInvalid
       else act_bind (with_store (persist_roles u core rec publicationRoleOrder)) (\<lambda>_.
         with_db (switch_tx u call job rec ''catalog.revoke.complete'' rel (pj_AttemptID payload)
           (CompleteRevocation (release_id rel) (pj_AttemptID payload) (pub_time call))))) (st, db) = (r, st', db')"
    using assms(1,6,7) unfolding Revoke_def load_bind assms(2) sum.case prod.case Let_def assms(3-5) revoke_record_def by (simp only: simp_thms if_False)
  then show thesis
    by (rule publish_shape) (use missing refused checked unstored switched in auto)
qed

lemma Revoke_refused:
  assumes "Revoke u pg core service call job (st, db) = (r, st', db')"
    and "\<nexists>payload rel attempt. load_job u job JobKindCatalogRevoke db = Inr (payload, rel, attempt) \<and> am_ReleaseID attempt = release_id rel \<and> am_Kind attempt = AttemptKindRevoke
      \<and> rl_status (re_row rel) = StatusPublished \<and> rl_revoked_at (re_row rel) \<noteq> None \<and> trim_space (coalesce (rl_revocation_reason (re_row rel))) \<noteq> []"
  shows "(\<exists>e. r = Inl e) \<and> st' = st \<and> db' = db"
proof (cases "load_job u job JobKindCatalogRevoke db")
  case (Inl e)
  then show ?thesis using assms(1) unfolding Revoke_def load_bind by auto
next
  case (Inr x)
  then obtain payload rel attempt where x: "load_job u job JobKindCatalogRevoke db = Inr (payload, rel, attempt)" by (cases x) auto
  then have "am_ReleaseID attempt \<noteq> release_id rel \<or> am_Kind attempt \<noteq> AttemptKindRevoke
        \<or> rl_status (re_row rel) \<noteq> StatusPublished \<or> rl_revoked_at (re_row rel) = None
        \<or> trim_space (coalesce (rl_revocation_reason (re_row rel))) = []" using assms(2) by blast
  then show ?thesis using assms(1) x unfolding Revoke_def load_bind by (auto simp: act_fail_def)
qed


text \<open>The worker's transactions, one after the other, extend a history.\<close>

lemma service_operation_mono: "service_operation u pg S db db' \<Longrightarrow> S \<subseteq> T \<Longrightarrow> service_operation u pg T db db'"
  by (induction rule: service_operation.induct) (blast intro: service_operation.intros)+

lemma catalog_step_mono:
  assumes "catalog_step u pg S db db'" "S \<subseteq> T"
  shows "catalog_step u pg T db db'"
  using assms
proof (induction rule: catalog_step.induct)
  case (service db rel)
  then show ?case using service_operation_mono [of u pg "cb_release ` S" _ _ "cb_release ` T"] by (blast intro: catalog_step.service)
qed (blast intro: catalog_step.intros)+

definition extends :: "uuid_lib \<Rightarrow> pg_lib \<Rightarrow> catalog_db list \<Rightarrow> catalog_db \<Rightarrow> bool" where
  "extends u pg h db' \<longleftrightarrow> (\<exists>h'. catalog_history u pg (h' @ h) \<and> hd (h' @ h) = db')"

lemma extends_refl: "catalog_history u pg (db # h) \<Longrightarrow> extends u pg (db # h) db"
  unfolding extends_def by (intro exI [of _ "[]"]) simp

lemma extends_step:
  assumes "extends u pg h db" "h \<noteq> []" "db' = db \<or> catalog_step u pg S db db'" "S \<subseteq> insert db (set h)"
  shows "extends u pg h db'"
  using assms(3)
proof
  assume step: "catalog_step u pg S db db'"
  obtain h' where h': "catalog_history u pg (h' @ h)" "hd (h' @ h) = db" using assms(1) by (auto simp: extends_def)
  then obtain t where t: "h' @ h = db # t" using assms(2) by (cases "h' @ h") auto
  then have "set (db # t) = set h' \<union> set h" by (metis set_append)
  then have "insert db (set h) \<subseteq> set (db # t)" by auto
  then have "S \<subseteq> set (db # t)" using assms(4) by blast
  then have "catalog_history u pg ((db' # h') @ h)" using catalog_history.step [OF h'(1) [unfolded t] catalog_step_mono [OF step]] t by simp
  then show ?thesis unfolding extends_def by (intro exI [of _ "db' # h'"]) simp
qed (use assms(1) in simp)

lemma attempt_record:
  assumes ok: "catalog_ok db" and step: "find_or_create pg a (if c then act_fail e else createPublicationRecordWithBuilder u pg service call mk rel a) db = (Inr rec, mid)"
  shows "held rec mid" "cb_release mid = cb_release db"
proof -
  have "held rec mid \<and> cb_release mid = cb_release db" using step
  proof (cases rule: find_or_create_cases)
    case found
    then show ?thesis using FindByAttempt_Inr(2) [OF ok] by simp
  next
    case created
    then show ?thesis using created_record(1) create_frame by (cases c) (auto simp: act_fail_def)
  qed
  then show "held rec mid" "cb_release mid = cb_release db" by auto
qed

lemma publish_extends_history:
  assumes hist: "catalog_history u pg (db # h)" and run: "Publish u pg core service call job (st, db) = (r, st', db')"
  shows "extends u pg (db # h) db'"
proof (cases "\<exists>payload rel attempt. load_job u job JobKindCatalogPublish db = Inr (payload, rel, attempt) \<and> am_ReleaseID attempt = release_id rel \<and> am_Kind attempt = AttemptKindPublish")
  case False
  then show ?thesis using Publish_refused [OF run] extends_refl [OF hist] by blast
next
  case True
  then obtain payload rel attempt where l: "load_job u job JobKindCatalogPublish db = Inr (payload, rel, attempt)"
      "am_ReleaseID attempt = release_id rel" "am_Kind attempt = AttemptKindPublish" by blast
  let ?fc = "publish_record u pg service call payload rel"
  have ok: "catalog_ok db" using catalog_history_later [OF hist] by (auto simp: catalog_sound_def)
  have mid: "extends u pg (db # h) mid" if "?fc db = (q, mid)" for q mid
    using extends_step [OF extends_refl [OF hist] _ find_or_create_step [OF that [unfolded publish_record_def]]] by simp
  show ?thesis using run l
  proof (cases rule: Publish_run)
    case (switched rec m)
    have "held rec m" "GetByID (pj_ReleaseID payload) (cb_release m) = Inr rel"
      using attempt_record [OF ok switched(1) [unfolded publish_record_def]] load_job_Inr(2) [OF l(1)] by simp_all
    then have "catalog_step u pg {m} m db'" using switched(2,5) catalog_step.publish [of m "{m}"] by blast
    then show ?thesis using extends_step [OF mid [OF switched(1)]] by blast
  qed (use mid in blast)+
qed

lemma revoke_extends_history:
  assumes hist: "catalog_history u pg (db # h)" and run: "Revoke u pg core service call job (st, db) = (r, st', db')"
  shows "extends u pg (db # h) db'"
proof (cases "\<exists>payload rel attempt. load_job u job JobKindCatalogRevoke db = Inr (payload, rel, attempt) \<and> am_ReleaseID attempt = release_id rel \<and> am_Kind attempt = AttemptKindRevoke
      \<and> rl_status (re_row rel) = StatusPublished \<and> rl_revoked_at (re_row rel) \<noteq> None \<and> trim_space (coalesce (rl_revocation_reason (re_row rel))) \<noteq> []")
  case False
  then show ?thesis using Revoke_refused [OF run] extends_refl [OF hist] by blast
next
  case True
  then obtain payload rel attempt where l: "load_job u job JobKindCatalogRevoke db = Inr (payload, rel, attempt)"
      "am_ReleaseID attempt = release_id rel" "am_Kind attempt = AttemptKindRevoke" "rl_status (re_row rel) = StatusPublished"
      "rl_revoked_at (re_row rel) \<noteq> None" "trim_space (coalesce (rl_revocation_reason (re_row rel))) \<noteq> []" by blast
  let ?fc = "revoke_record u pg service call payload rel"
  have ok: "catalog_ok db" using catalog_history_later [OF hist] by (auto simp: catalog_sound_def)
  have fc: "find_or_create pg (pj_AttemptID payload) (if False then act_fail ErrPublicationStateInvalid else
      createPublicationRecordWithBuilder u pg service call BuildRevocation rel (pj_AttemptID payload)) db = (q, mid)" if "?fc db = (q, mid)" for q mid
    using that by (simp add: revoke_record_def)
  have mid: "extends u pg (db # h) mid" if "?fc db = (q, mid)" for q mid
    using extends_step [OF extends_refl [OF hist] _ find_or_create_step [OF fc [OF that]]] by simp
  show ?thesis using run l
  proof (cases rule: Revoke_run)
    case (switched rec m)
    have "held rec m" "GetByID (pj_ReleaseID payload) (cb_release m) = Inr rel"
      using attempt_record [OF ok fc [OF switched(1)]] load_job_Inr(2) [OF l(1)] by simp_all
    then have "catalog_step u pg {m} m db'" using switched(2,5) catalog_step.revoke [of m "{m}"] by blast
    then show ?thesis using extends_step [OF mid [OF switched(1)]] by blast
  qed (use mid in blast)+
qed

lemma read_bind: "act_bind (act_read f) g db = (case f db of Inl e \<Rightarrow> (Inl e, db) | Inr x \<Rightarrow> g x db)"
  by (simp add: act_bind_def act_read_def split: sum.splits)

lemma dead_letter_step:
  assumes "HandleDeadLetter u call job code db = (r, db')"
  shows "db' = db \<or> catalog_step u pg {db} db db'"
proof -
  have revoke: "db' = db \<or> catalog_step u pg {db} db db'" if "handleRevocationDeadLetter u call job code db = (r, db')"
  proof (cases "load_job u job JobKindCatalogRevoke db")
    case (Inr x)
    then show ?thesis using that
      by (cases x) (auto simp: handleRevocationDeadLetter_def read_bind Let_def act_fail_def act_return_def split: if_splits intro: catalog_step.revocation_failed)
  qed (use that in \<open>simp add: handleRevocationDeadLetter_def read_bind\<close>)
  show ?thesis
  proof (cases "j_Kind job = JobKindCatalogRevoke")
    case False
    then show ?thesis
    proof (cases "load_job u job JobKindCatalogPublish db")
      case (Inr x)
      then show ?thesis using assms False
        by (cases x) (auto simp: HandleDeadLetter_def read_bind Let_def act_fail_def act_return_def split: if_splits intro: catalog_step.fail)
    qed (use assms False in \<open>simp add: HandleDeadLetter_def read_bind\<close>)
  qed (use assms revoke in \<open>simp add: HandleDeadLetter_def\<close>)
qed

text \<open>C16. The runs of the worker are histories. From the last state of a history, a run of the job
  handler or of the handler of dead letters, successful or not, ends in a state that extends the history, so that what
  holds of all histories of the catalog tables holds of the worker.\<close>

theorem worker_runs_are_histories:
  assumes "catalog_history u pg (db # h)"
  shows "(\<forall>r st' db'. Handle describe u pg core service call job (st, db) = (r, st', db') \<longrightarrow> extends u pg (db # h) db')
    \<and> (\<forall>r db'. HandleDeadLetter u call job code db = (r, db') \<longrightarrow> extends u pg (db # h) db')"
proof (intro conjI allI impI)
  fix r st' db' assume run: "Handle describe u pg core service call job (st, db) = (r, st', db')"
  then obtain q where "(if j_Kind job = JobKindCatalogPublish then Publish u pg core service call job
      else if j_Kind job = JobKindCatalogRevoke then Revoke u pg core service call job
      else act_fail ErrPublicationJobInvalid) (st, db) = (q, st', db')"
    unfolding Handle_def wrap_err_run by blast
  then show "extends u pg (db # h) db'"
    using publish_extends_history [OF assms] revoke_extends_history [OF assms] extends_refl [OF assms]
    by (auto simp: act_fail_def split: if_splits)
next
  fix r db' assume "HandleDeadLetter u call job code db = (r, db')"
  then show "extends u pg (db # h) db'"
    using extends_step [OF extends_refl [OF assms] _ dead_letter_step [where pg = pg]] by simp
qed

section \<open>The objects of a catalog\<close>

text \<open>What \<open>uuid.UUID.String\<close> documents, as far as it matters in a path.\<close>

definition uuid_text :: "uuid_lib \<Rightarrow> bool" where
  "uuid_text u \<longleftrightarrow> (\<forall>x. u_string u x \<noteq> [] \<and> list_all (\<lambda>c. is_hex c \<or> c = CHR ''-'') (u_string u x))"

lemma split_on_join:
  assumes "\<And>s. s \<in> set ss \<Longrightarrow> CHR ''/'' \<notin> set s" "ss \<noteq> []"
  shows "split_on (CHR ''/'') (join_slash ss) = ss"
proof -
  have one: "split_on (CHR ''/'') x = [x]" if "CHR ''/'' \<notin> set x" for x using that by (induction x) auto
  have app: "split_on (CHR ''/'') (x @ CHR ''/'' # y) = x # split_on (CHR ''/'') y" if "CHR ''/'' \<notin> set x" for x y
    using that by (induction x) auto
  show ?thesis using assms one app by (induction ss rule: join_slash.induct) auto
qed

lemma clean_plain: "list_all (\<lambda>s. s \<noteq> [] \<and> s \<noteq> ''.'' \<and> s \<noteq> ''..'') ss \<Longrightarrow> clean_segments b acc ss = rev acc @ ss"
  by (induction ss arbitrary: acc) auto

lemma hex_no_slash: "is_hex c \<or> c = CHR ''-'' \<Longrightarrow> c \<noteq> CHR ''/'' \<and> c \<noteq> CHR ''.''"
  by (auto simp: is_hex_def is_digit_def in_range_def byte_val_def)

lemma staging_key_form:
  assumes "uuid_text u"
  shows "staging_key u x d = ''uploads/catalogs/'' @ u_string u x @ ''/'' @ role_text (do_Role d) @ ''.json''"
proof -
  let ?ss = "[''uploads'', ''catalogs'', u_string u x, role_text (do_Role d) @ ''.json'']"
  have x: "u_string u x \<noteq> []" "CHR ''/'' \<notin> set (u_string u x)" "CHR ''.'' \<notin> set (u_string u x)"
    using assms hex_no_slash by (fastforce simp: uuid_text_def list_all_iff)+
  have "CHR ''/'' \<notin> set (role_text (do_Role d) @ ''.json'')" "role_text (do_Role d) @ ''.json'' \<notin> {[], ''.'', ''..''}"
    by (cases "do_Role d"; simp)+
  then have "split_on (CHR ''/'') (join_slash ?ss) = ?ss" "clean_segments False [] ?ss = ?ss"
    using x by (intro split_on_join clean_plain, auto)+
  moreover have "filter (\<lambda>e. e \<noteq> []) ?ss = ?ss" using x(1) by simp
  ultimately show ?thesis by (simp add: staging_key_def path_Join_def path_Clean_def Let_def has_prefix_def)
qed

text \<open>Nothing a worker does removes or overwrites an object below \<open>catalogs/\<close>.\<close>

definition catalogs_kept :: "'s contents \<Rightarrow> 's \<Rightarrow> 's \<Rightarrow> bool" where
  "catalogs_kept objects st st' \<longleftrightarrow> (\<forall>k. has_prefix k ''catalogs/'' \<longrightarrow> objects st k \<noteq> None \<longrightarrow> objects st' k = objects st k)"

interpretation ck: evolution "catalogs_kept objects" for objects :: "'s contents"
  by unfold_locales (auto simp: catalogs_kept_def)

lemma quiet_kept: "quiet objects m \<Longrightarrow> keeps (catalogs_kept objects) m"
  by (rule keepsI) (auto simp: catalogs_kept_def dest: quietD)

lemma prefix_apart: "has_prefix k ''uploads/'' \<Longrightarrow> \<not> has_prefix k ''catalogs/''"
  by (cases k) (auto simp: has_prefix_def)

lemma touches_kept:
  assumes "touches objects key m" "has_prefix key ''uploads/''"
  shows "keeps (catalogs_kept objects) m"
proof (rule keepsI)
  fix s r s' assume "m s = (r, s')"
  then have "objects s' k = objects s k" if "k \<noteq> key" for k using touchesD [OF assms(1)] that by blast
  then show "catalogs_kept objects s s'" using prefix_apart [OF assms(2)] unfolding catalogs_kept_def by metis
qed

lemma wrap_err_kept: "keeps R m \<Longrightarrow> keeps R (wrap_err f m)"
  by (auto simp: keeps_def wrap_err_run)

lemma Promote_kept:
  assumes "s3_laws core objects" "has_prefix src ''uploads/''" "has_prefix dst ''catalogs/''"
  shows "keeps (catalogs_kept objects) (Promote core src dst)"
proof (rule keepsI)
  fix s r s' assume run: "Promote core src dst s = (r, s')"
  have ne: "src \<noteq> dst" using assms(2,3) prefix_apart by blast
  show "catalogs_kept objects s s'" using Promote_objects [OF assms(1) run ne] prefix_apart [OF assms(2)] unfolding catalogs_kept_def by metis
qed

lemma verifyRoleObject_quiet: "s3_laws core objects \<Longrightarrow> quiet objects (verifyRoleObject core d)"
  unfolding verifyRoleObject_def Let_def quiet_def
  by (intro qt.keeps_rules wrap_err_kept) (auto intro!: qt.keeps_rules wrap_err_kept simp: Open_quiet [unfolded quiet_def])

definition object_stored :: "'s contents \<Rightarrow> 's \<Rightarrow> RoleDocument \<Rightarrow> bool" where
  "object_stored objects st d \<longleftrightarrow> (\<exists>c. objects st (do_ObjectKey d) = Some c \<and> length c = length (do_Envelope d)
     \<and> equal_fold (sha256_hex c) (do_EnvelopeSHA256 d))"

lemma stored_kept: "catalogs_kept objects st st' \<Longrightarrow> has_prefix (do_ObjectKey d) ''catalogs/'' \<Longrightarrow> object_stored objects st d \<Longrightarrow> object_stored objects st' d"
  by (auto simp: catalogs_kept_def object_stored_def)

lemma verifyRoleObject_Inr:
  assumes laws: "s3_laws core objects" and run: "verifyRoleObject core d s = (Inr x, s')"
  shows "object_stored objects s' d"
proof -
  obtain rd info t where op: "Open core (do_ObjectKey d) 0 (-1) s = (Inr (rd, info), t)"
      and sz: "oi_Size info = int (length (do_Envelope d))" "oi_Size info \<le> int maximumRoleEnvelopeBytes"
      and w: "int (length (take (maximumRoleEnvelopeBytes + 1) (rd_bytes rd))) = oi_Size info"
        "equal_fold (sha256_hex (take (maximumRoleEnvelopeBytes + 1) (rd_bytes rd))) (do_EnvelopeSHA256 d)"
      and fails: "\<not> (rd_fails rd \<and> length (rd_bytes rd) < maximumRoleEnvelopeBytes + 1)"
    using run by (auto simp: verifyRoleObject_def act_simps Let_def split: if_splits)
  have "length (rd_bytes rd) \<le> maximumRoleEnvelopeBytes" using w(1) sz(2) by (simp add: min_def split: if_splits)
  moreover from this obtain c where "objects s (do_ObjectKey d) = Some c" "rd_bytes rd = c"
    using Open_Inr [OF laws op] fails by fastforce
  moreover have "objects s' = objects s" using quietD [OF verifyRoleObject_quiet [OF laws] run] .
  ultimately show ?thesis using w sz(1) by (auto simp: object_stored_def)
qed

lemma staging_prefix: "uuid_text u \<Longrightarrow> has_prefix (staging_key u x d) ''uploads/''"
  by (simp add: staging_key_form has_prefix_def)

text \<open>A document that a worker may store, at a server that keeps its promises.\<close>

definition storable :: "'s minio_core \<Rightarrow> 's contents \<Rightarrow> uuid_lib \<Rightarrow> RoleDocument \<Rightarrow> bool" where
  "storable core objects u d \<longleftrightarrow> s3_laws core objects \<and> uuid_text u \<and> has_prefix (do_ObjectKey d) ''catalogs/''"

lemma role_calls:
  assumes "storable core objects u d"
  shows "keeps (catalogs_kept objects) (BeginMultipart core key ct)" "keeps (catalogs_kept objects) (store_PutPart core key uid n body sz digest)"
    "keeps (catalogs_kept objects) (AbortMultipart core key uid)" "keeps (catalogs_kept objects) (Stat core key)"
    "keeps (catalogs_kept objects) (verifyRoleObject core d)" "keeps (catalogs_kept objects) (CompleteMultipart core (staging_key u x d) uid parts)"
    "keeps (catalogs_kept objects) (store_Delete core (staging_key u x d))"
    "keeps (catalogs_kept objects) (Promote core (staging_key u x d) (do_ObjectKey d))"
proof -
  have d: "s3_laws core objects" "uuid_text u" "has_prefix (do_ObjectKey d) ''catalogs/''" using assms by (auto simp: storable_def)
  note pre = staging_prefix [OF d(2)]
  show "keeps (catalogs_kept objects) (BeginMultipart core key ct)" by (rule quiet_kept [OF BeginMultipart_quiet [OF d(1)]])
  show "keeps (catalogs_kept objects) (store_PutPart core key uid n body sz digest)" by (rule quiet_kept [OF store_PutPart_quiet [OF d(1)]])
  show "keeps (catalogs_kept objects) (AbortMultipart core key uid)" by (rule quiet_kept [OF AbortMultipart_quiet [OF d(1)]])
  show "keeps (catalogs_kept objects) (Stat core key)" by (rule quiet_kept [OF Stat_quiet [OF d(1)]])
  show "keeps (catalogs_kept objects) (verifyRoleObject core d)" by (rule quiet_kept [OF verifyRoleObject_quiet [OF d(1)]])
  show "keeps (catalogs_kept objects) (CompleteMultipart core (staging_key u x d) uid parts)" by (rule touches_kept [OF CompleteMultipart_touches [OF d(1)] pre])
  show "keeps (catalogs_kept objects) (store_Delete core (staging_key u x d))" by (rule touches_kept [OF store_Delete_touches [OF d(1)] pre])
  show "keeps (catalogs_kept objects) (Promote core (staging_key u x d) (do_ObjectKey d))" by (rule Promote_kept [OF d(1) pre d(3)])
qed

lemmas role_keeps = ck.keeps_rules wrap_err_kept role_calls

lemma promote_role_kept: "storable core objects u d \<Longrightarrow> keeps (catalogs_kept objects) (promote_role core (staging_key u x d) d)"
  unfolding promote_role_def by (intro role_keeps) (auto intro!: role_keeps split: sum.splits)

lemma persistRole_kept: "storable core objects u d \<Longrightarrow> keeps (catalogs_kept objects) (persistRole u core x d)"
  unfolding persistRole_def upload_role_def Let_def
  by (auto intro!: role_keeps promote_role_kept split: sum.splits)

lemma promote_role_Inr:
  assumes d: "storable core objects u d" and run: "promote_role core (staging_key u x d) d s = (Inr y, s')"
  shows "object_stored objects s' d"
proof -
  have laws: "s3_laws core objects" and key: "has_prefix (do_ObjectKey d) ''catalogs/''" using d by (auto simp: storable_def)
  obtain t q where t: "object_stored objects t d" "store_Delete core (staging_key u x d) t = (q, s')"
    using run verifyRoleObject_Inr [OF laws] unfolding promote_role_def by (fastforce simp: act_simps split: sum.splits if_splits)
  then show ?thesis using stored_kept [OF keepsD [OF role_calls(7) [OF d] t(2)] key] by blast
qed

lemma persistRole_Inr:
  assumes d: "storable core objects u d" and run: "persistRole u core x d s = (Inr y, s')"
  shows "object_stored objects s' d"
proof -
  have laws: "s3_laws core objects" using d by (simp add: storable_def)
  obtain t where "verifyRoleObject core d t = (Inr y, s') \<or> promote_role core (staging_key u x d) d t = (Inr y, s')"
    using run unfolding persistRole_def upload_role_def Let_def by (fastforce simp: act_simps split: sum.splits if_splits)
  then show ?thesis using verifyRoleObject_Inr [OF laws] promote_role_Inr [OF d] by blast
qed

lemma persist_roles_Inr:
  assumes "\<And>role d. role \<in> set roles \<Longrightarrow> vr_Roles rec role = Some d \<Longrightarrow> storable core objects u d"
    and "persist_roles u core rec roles st = (Inr y, st')"
  shows "catalogs_kept objects st st' \<and> (\<forall>role\<in>set roles. \<exists>d. vr_Roles rec role = Some d \<and> object_stored objects st' d)"
  using assms
proof (induction roles arbitrary: st)
  case Nil
  then show ?case by (simp add: act_simps ck.R_refl)
next
  case (Cons role roles)
  obtain d t where d: "vr_Roles rec role = Some d" "persistRole u core (vr_ID rec) d st = (Inr (), t)" "persist_roles u core rec roles t = (Inr y, st')"
    using Cons.prems(2) by (auto simp: act_simps split: option.splits)
  have ok: "storable core objects u d" using Cons.prems(1) [of role d] d(1) by simp
  have rest: "catalogs_kept objects t st' \<and> (\<forall>role\<in>set roles. \<exists>d. vr_Roles rec role = Some d \<and> object_stored objects st' d)"
    by (rule Cons.IH [OF _ d(3)]) (rule Cons.prems(1), auto)
  have "object_stored objects st' d"
    using stored_kept persistRole_Inr [OF ok d(2)] rest ok by (auto simp: storable_def)
  moreover have "catalogs_kept objects st st'" by (rule ck.R_trans [OF keepsD [OF persistRole_kept [OF ok] d(2)] rest [THEN conjunct1]])
  ultimately show ?case using rest d(1) by auto
qed

section \<open>A successful publication\<close>

text \<open>The rows of the documents of the record that the worker holds.\<close>

definition document_row_of :: "catalog_db \<Rightarrow> VersionRecord \<Rightarrow> catalog_role \<Rightarrow> RoleDocument \<Rightarrow> bool" where
  "document_row_of db rec role d \<longleftrightarrow> (\<exists>row. tbl_get document_key (cb_documents db) (vr_ID rec, role) = Some row \<and> document_ok row
     \<and> dr_object_key row = do_ObjectKey d \<and> dr_envelope row = Some (do_Envelope d) \<and> dr_sha256 row = do_EnvelopeSHA256 d)"

lemma found_documents:
  assumes "catalog_ok db" "load_version pg row db = Inr rec"
  shows "\<exists>d. vr_Roles rec role = Some d \<and> document_row_of db rec role d"
proof -
  obtain drow where drow: "tbl_get document_key (cb_documents db) (cv_id row, role) = Some drow" "vr_ID rec = cv_id row"
      "vr_Roles rec role = Some (scan_document pg drow)"
    using assms(2) by (fastforce simp: load_version_Inr complete_def scanVersionRecord_def)
  moreover have "document_ok drow" using assms(1) drow(1) by (auto simp: catalog_ok_def dest: tbl_get_Some)
  ultimately show ?thesis by (auto simp: document_row_of_def document_ok_def scan_document_def)
qed

lemma created_documents:
  assumes ok: "catalog_ok db'" and run: "catalog_Create rec db = (Inr x, db')" and a: "vr_AttemptID rec \<noteq> uuid_Nil"
  shows "\<exists>d. vr_Roles rec role = Some d \<and> document_row_of db' rec role d"
proof -
  obtain d where d: "vr_Roles rec role = Some d" "do_Role d = role" "do_Envelope d \<noteq> []"
    using catalog_Create_Inr(3) [OF run, of role] a by (auto simp: valid_document_def split: option.splits)
  let ?row = "document_of (vr_ID rec) d"
  have "cb_documents db' = cb_documents db @ map (\<lambda>role. document_of (vr_ID rec) (the (vr_Roles rec role))) publicationRoleOrder"
    using catalog_Create_Inr(1) [OF run] by simp
  then have mem: "?row \<in> set (cb_documents db')" using d(1) by (auto intro!: image_eqI [of _ _ role])
  then have "tbl_get document_key (cb_documents db') (vr_ID rec, role) = Some ?row"
    using tbl_get_unique [of document_key "cb_documents db'" ?row] ok d(2) by (simp add: catalog_ok_def keys_ok_def document_of_def)
  moreover have "document_ok ?row" using ok mem by (auto simp: catalog_ok_def)
  ultimately show ?thesis using d by (auto simp: document_row_of_def document_of_def)
qed

text \<open>The record of an attempt, found or just created.\<close>

definition attempt_of :: "pg_lib \<Rightarrow> uuid \<Rightarrow> VersionRecord \<Rightarrow> catalog_db \<Rightarrow> bool" where
  "attempt_of pg a rec db \<longleftrightarrow> held rec db \<and> (\<exists>row. tbl_get cv_id (cb_versions db) (vr_ID rec) = Some row \<and> cv_attempt row = Some a)
     \<and> (\<forall>role. \<exists>d. vr_Roles rec role = Some d \<and> document_row_of db rec role d)"

lemma found_attempt:
  assumes "catalog_ok db" "find_or_create pg a (if c then act_fail e else createPublicationRecordWithBuilder u pg service call mk rel a) db = (Inr rec, mid)"
  shows "catalog_ok mid" "attempt_of pg a rec mid"
proof -
  have "catalog_ok mid \<and> attempt_of pg a rec mid" using assms(2)
  proof (cases rule: find_or_create_cases)
    case found
    then obtain row where "load_version pg row db = Inr rec" "tbl_get cv_id (cb_versions db) (vr_ID rec) = Some row" "cv_attempt row = Some a"
      using FindByAttempt_Inr(1) [OF assms(1)] by blast
    then show ?thesis using found FindByAttempt_Inr(2) [OF assms(1) found(1)] found_documents [OF assms(1)] assms(1) by (auto simp: attempt_of_def)
  next
    case created
    then have run: "createPublicationRecordWithBuilder u pg service call mk rel a db = (Inr rec, mid)" by (cases c) (auto simp: act_fail_def)
    note rec = created_record [OF run]
    obtain t where t: "catalog_Create rec t = (Inr (), mid)" using rec(6) by blast
    have ok: "catalog_ok mid" by (rule createPublicationRecord_ok [OF assms(1) run])
    have "cv_attempt (version_of rec) = Some a" using rec(3,4) by (simp add: version_of_def)
    then show ?thesis using rec ok created_row [OF t] created_documents [OF ok t] by (auto simp: attempt_of_def)
  qed
  then show "catalog_ok mid" "attempt_of pg a rec mid" by auto
qed

lemma SetCurrent_text: "SetCurrent p c x at db = (Inr y, db') \<Longrightarrow> pg_text p \<and> pg_text c"
  by (auto simp: SetCurrent_def act_simps split: if_splits)

text \<open>After the switch the record is the current one.\<close>

lemma switch_current:
  assumes ok: "catalog_ok mid" and rec: "attempt_of pg a rec mid" and sw: "switch_tx u call job rec action rel b m mid = (Inr x, db')"
  shows "\<exists>rec' row. Current pg (vr_ProductID rec) (vr_Channel rec) db' = Inr rec' \<and> vr_ID rec' = vr_ID rec \<and> vr_ReleaseID rec' = vr_ReleaseID rec
     \<and> vr_ProductID rec' = vr_ProductID rec \<and> vr_Channel rec' = vr_Channel rec \<and> vr_AttemptID rec' = a
     \<and> tbl_get cv_id (cb_versions db') (vr_ID rec) = Some row \<and> cv_attempt row = Some a \<and> load_version pg row db' = Inr rec'
     \<and> (\<forall>role d. vr_Roles rec role = Some d \<longrightarrow> document_row_of mid rec role d \<longrightarrow>
          (\<exists>d'. vr_Roles rec' role = Some d' \<and> do_ObjectKey d' = do_ObjectKey d \<and> do_Envelope d' = do_Envelope d
             \<and> do_EnvelopeSHA256 d' = do_EnvelopeSHA256 d))"
proof -
  obtain t where t: "SetCurrent (vr_ProductID rec) (vr_Channel rec) (vr_ID rec) (pub_time call) mid = (Inr (), t)" "catalog_tables db' = catalog_tables t"
    using switch_tx_Inr [OF sw] by blast
  have ok': "catalog_ok db'" by (rule switch_ok [OF ok sw])
  have ev: "catalog_evolves mid db'" using keepsD [OF tx_evolves(1) sw] .
  obtain ptr where ptr: "tbl_get pointer_key (cb_pointers db') (vr_ProductID rec, vr_Channel rec) = Some ptr" "po_version_id ptr = vr_ID rec"
    using SetCurrent_ok(3) [OF ok t(1)] t(2) by (auto simp: catalog_tables_def)
  obtain row where row: "tbl_get cv_id (cb_versions db') (vr_ID rec) = Some row" "cv_attempt row = Some a" "cv_id row = vr_ID rec"
      "cv_release_id row = vr_ReleaseID rec" "cv_product_id row = vr_ProductID rec" "cv_channel row = vr_Channel rec"
  proof -
    obtain old where old: "tbl_get cv_id (cb_versions mid) (vr_ID rec) = Some old" "cv_attempt old = Some a" "cv_release_id old = vr_ReleaseID rec"
        "cv_product_id old = vr_ProductID rec" "cv_channel old = vr_Channel rec"
      using rec by (auto simp: attempt_of_def held_def)
    obtain row where "tbl_get cv_id (cb_versions db') (vr_ID rec) = Some row" "version_kept old row" using evolves_version [OF ev old(1)] by blast
    moreover from this have "cv_attempt row = Some a" "cv_id row = vr_ID rec" "cv_release_id row = vr_ReleaseID rec"
        "cv_product_id row = vr_ProductID rec" "cv_channel row = vr_Channel rec"
      using old version_kept_row(1-4,6) [of old row] tbl_get_key [OF old(1)] by simp_all
    ultimately show thesis using that by blast
  qed
  have cur: "current_row db' (vr_ProductID rec, vr_Channel rec) = Some row" using ptr row(1) by (simp add: current_row_def)
  obtain rec' where rec': "load_version pg row db' = Inr rec'" using load_version_Inr current_complete(1) [OF ok' cur] by blast
  then have "Current pg (vr_ProductID rec) (vr_Channel rec) db' = Inr rec'"
    using Current_row [OF ok'] cur SetCurrent_text [OF t(1)] by blast
  moreover have "\<exists>d'. vr_Roles rec' role = Some d' \<and> do_ObjectKey d' = do_ObjectKey d \<and> do_Envelope d' = do_Envelope d
      \<and> do_EnvelopeSHA256 d' = do_EnvelopeSHA256 d" if "document_row_of mid rec role d" for role d
    using that rec' row(3) evolves_document [OF ev] by (fastforce simp: document_row_of_def load_version_Inr scan_document_def)
  moreover have "vr_ID rec' = vr_ID rec" "vr_ReleaseID rec' = vr_ReleaseID rec" "vr_ProductID rec' = vr_ProductID rec"
      "vr_Channel rec' = vr_Channel rec" "vr_AttemptID rec' = a"
    using rec' row unfolding load_version_Inr by (simp_all add: scanVersionRecord_def)
  ultimately show ?thesis using rec' row(1,2) by blast
qed

lemma completion_publishes:
  assumes ok: "releases_ok db" and run: "CompletePublication now y i at db = (Inr (), db')"
  shows "published db' y"
proof -
  obtain a where a: "lock_attempt AttemptKindPublish y i db = Inr a"
    using run unfolding CompletePublication_def by (cases "lock_attempt AttemptKindPublish y i db") (simp_all add: read_bind act_fail_def split: if_splits)
  have "published db y \<and> db' = db" if "am_Status a = AttemptStatusSucceeded"
    using run that a unfolding CompletePublication_def by (simp add: act_simps published_def split: option.splits if_splits)
  then consider "settle_publication now y i StatusPublished AttemptStatusSucceeded None (truncate_time microsecond at) db = (Inr (), db')"
    | "published db y" "db' = db"
    using run a unfolding CompletePublication_def by (cases "am_Status a") (simp_all add: read_bind act_fail_def split: if_splits)
  then show ?thesis
  proof cases
    case 1
    then obtain old new where rep: "replaced db old new db'" "rl_id old = y" "view new = (view old)\<lparr>wf_status := StatusPublished, wf_lock := rl_lock_version old + 1\<rparr>"
      using settle_publication_Inr by blast
    then have "release_at db' y = Some new" "rl_status new = StatusPublished" using replaced_row [OF ok rep(1)] by (simp_all add: view_def)
    then show ?thesis by (auto simp: published_def)
  qed simp
qed

lemma lower_hex: "list_all is_hex s \<Longrightarrow> map lower_char s = s"
  by (induction s) (auto simp: lower_char_def is_hex_def is_digit_def is_upper_def in_range_def)

lemma same_digest: "equal_fold (sha256_hex c) (sha256_hex e) \<Longrightarrow> sha256_hex c = sha256_hex e"
  by (simp add: equal_fold_def lower_hex sha256_hex_hex)

text \<open>C9. A successful publication is stored and current. When \<open>Publish\<close> succeeds on a release in state PUBLISHING, the
  release is PUBLISHED, the current catalog of its channel is the one of this release and attempt, and the object store holds under the key
  of each of its five roles an object with the length and the SHA-256 digest of the signed envelope in the table.\<close>

theorem published_catalog_stored:
  assumes "s3_laws core objects" "uuid_text u" "catalog_history u pg (db # h)"
    and run: "Publish u pg core service call job (st, db) = (Inr x, st', db')"
    and job: "load_job u job JobKindCatalogPublish db = Inr (payload, rel, attempt)" "rl_status (re_row rel) = StatusPublishing"
  shows "published (cb_release db') (release_id rel)
    \<and> (\<exists>rec. Current pg (rl_product_id (re_row rel)) (rl_channel (re_row rel)) db' = Inr rec \<and> vr_ReleaseID rec = release_id rel
         \<and> vr_AttemptID rec = pj_AttemptID payload
         \<and> (\<forall>role. \<exists>d c. vr_Roles rec role = Some d \<and> objects st' (do_ObjectKey d) = Some c
              \<and> length c = length (do_Envelope d) \<and> sha256_hex c = sha256_hex (do_Envelope d)))"
proof -
  have ok: "catalog_ok db" "releases_ok (cb_release db)" using catalog_history_later [OF assms(3)] by (auto simp: catalog_sound_def sound_def)
  have "am_ReleaseID attempt = release_id rel \<and> am_Kind attempt = AttemptKindPublish" using Publish_refused [OF run] job(1) by fastforce
  then obtain rec mid where rec: "publish_record u pg service call payload rel db = (Inr rec, mid)" "same_scope rec rel"
      and per: "persist_roles u core rec publicationRoleOrder st = (Inr (), st')"
      and sw: "switch_tx u call job rec ''catalog.publish.complete'' rel (pj_AttemptID payload)
        (CompletePublication (pc_db_now call) (release_id rel) (pj_AttemptID payload) (pub_time call)) mid = (Inr x, db')"
    using job by (auto elim: Publish_run [OF run])
  note mid = found_attempt [OF ok(1) rec(1) [unfolded publish_record_def]]
  have "cb_release mid = cb_release db" using attempt_record(2) [OF ok(1) rec(1) [unfolded publish_record_def]] .
  then have "published (cb_release db') (release_id rel)"
    using completion_publishes [OF ok(2)] switch_tx_Inr [OF sw] published_tables by metis
  moreover obtain rec' where cur: "Current pg (vr_ProductID rec) (vr_Channel rec) db' = Inr rec'" "vr_ReleaseID rec' = vr_ReleaseID rec"
      "vr_AttemptID rec' = pj_AttemptID payload"
      and docs: "\<And>role d. vr_Roles rec role = Some d \<Longrightarrow> document_row_of mid rec role d \<Longrightarrow>
          \<exists>d'. vr_Roles rec' role = Some d' \<and> do_ObjectKey d' = do_ObjectKey d \<and> do_Envelope d' = do_Envelope d \<and> do_EnvelopeSHA256 d' = do_EnvelopeSHA256 d"
    using switch_current [OF mid sw] by blast
  have row: "\<exists>d. vr_Roles rec role = Some d \<and> document_row_of mid rec role d" for role using mid(2) by (simp add: attempt_of_def)
  have "storable core objects u d" if "vr_Roles rec role = Some d" for role d
    using that assms(1,2) row [of role] by (auto simp: storable_def document_row_of_def document_ok_def validCatalogObjectKey_def)
  then have st: "\<forall>role. \<exists>d. vr_Roles rec role = Some d \<and> object_stored objects st' d" using persist_roles_Inr [OF _ per] by simp
  have "\<exists>d c. vr_Roles rec' role = Some d \<and> objects st' (do_ObjectKey d) = Some c
      \<and> length c = length (do_Envelope d) \<and> sha256_hex c = sha256_hex (do_Envelope d)" for role
  proof -
    obtain d where d: "vr_Roles rec role = Some d" "object_stored objects st' d" "document_row_of mid rec role d" using st [rule_format, of role] row [of role] by auto
    moreover have "do_EnvelopeSHA256 d = sha256_hex (do_Envelope d)" using d(3) by (auto simp: document_row_of_def document_ok_def)
    ultimately obtain c where "objects st' (do_ObjectKey d) = Some c" "length c = length (do_Envelope d)" "sha256_hex c = sha256_hex (do_Envelope d)"
      using same_digest by (auto simp: object_stored_def)
    then show ?thesis using docs [OF d(1,3)] by auto
  qed
  ultimately show ?thesis using cur rec(2) by (auto simp: same_scope_def)
qed

section \<open>Repeating a publication\<close>

lemma extends_later:
  assumes "extends u pg (db # h) db'"
  shows "catalog_sound db" "catalog_sound db'" "catalog_later db db'"
proof -
  obtain h' where h': "catalog_history u pg (h' @ db # h)" "hd (h' @ db # h) = db'" using assms by (auto simp: extends_def)
  have "catalog_sound s \<and> catalog_later s db'" if "s \<in> set (h' @ db # h)" for s
    using catalog_history_ok [OF h'(1)] h'(2) that by blast
  moreover have "db' \<in> set (h' @ db # h)" using h'(2) by (metis append_is_Nil_conv hd_in_set list.distinct(1))
  ultimately show "catalog_sound db" "catalog_sound db'" "catalog_later db db'" by simp_all
qed

lemma find_release_row:
  assumes "releases_ok db" "release_at db x = Some r"
  shows "find_release (rl_product_id r) x db = Some r"
proof -
  have r: "r \<in> set (rd_releases db)" "rl_id r = x" using assms(2) by (auto dest: tbl_get_Some)
  then obtain r' where r': "find_release (rl_product_id r) x db = Some r'"
    unfolding find_release_def by (metis (mono_tags, lifting) find_None_iff2 not_None_eq)
  then show ?thesis using find_release_at [OF assms(1) r'] assms(2) by simp
qed

lemma GetByID_again:
  assumes "releases_ok db" "releases_ok db'" "evolves db db'" "GetByID x db = Inr rel"
  shows "\<exists>rel'. GetByID x db' = Inr rel' \<and> release_fixed (re_row rel') = release_fixed (re_row rel) \<and> release_at db' x = Some (re_row rel')"
proof -
  have row: "release_at db x = Some (re_row rel)" using GetByID_row [OF assms(1,4)] by simp
  then obtain r' where r': "release_at db' x = Some r'" "release_fixed r' = release_fixed (re_row rel)" using assms(3) by (auto simp: evolves_def)
  moreover have "pg_text (rl_product_id (re_row rel))" using assms(4) row by (auto simp: GetByID_def loadRelease_def split: if_splits)
  moreover have "rl_product_id r' = rl_product_id (re_row rel)" using r'(2) by (simp add: release_fixed_def)
  ultimately show ?thesis using find_release_row [OF assms(2) r'(1)] by (auto simp: GetByID_def loadRelease_def with_artifacts_def)
qed

lemma GetAttempt_again:
  assumes "attempts_ok db" "attempts_ok db'" "attempts_evolve db db'" "GetAttemptByID i db = Inr a"
  shows "\<exists>a'. GetAttemptByID i db' = Inr a' \<and> attempt_ident a' = attempt_ident a"
proof -
  have a: "a \<in> set (rd_attempts db)" "am_ID a = i" using assms(4) by (auto simp: GetAttemptByID_def dest: tbl_get_Some)
  then have "tbl_get attempt_key (rd_attempts db) (attempt_key a) = Some a" using assms(1) by (intro tbl_get_unique) (simp_all add: attempts_ok_def)
  then obtain a' where a': "tbl_get attempt_key (rd_attempts db') (attempt_key a) = Some a'" "attempt_ident a' = attempt_ident a"
    using assms(3) unfolding attempts_evolve_def by blast
  then have "a' \<in> set (rd_attempts db')" "am_ID a' = i" using a(2) by (auto simp: attempt_ident_def dest: tbl_get_Some)
  then have "tbl_get am_ID (rd_attempts db') i = Some a'" using tbl_get_unique [of am_ID "rd_attempts db'" a'] assms(2) by (simp add: attempts_ok_def)
  then show ?thesis using a'(2) by (simp add: GetAttemptByID_def)
qed

lemma load_job_again:
  assumes "catalog_sound db" "catalog_sound db'" "catalog_later db db'" "load_job u job kind db = Inr (payload, rel, attempt)"
  shows "\<exists>rel' attempt'. load_job u job kind db' = Inr (payload, rel', attempt') \<and> release_fixed (re_row rel') = release_fixed (re_row rel)
     \<and> release_at (cb_release db') (release_id rel) = Some (re_row rel') \<and> attempt_ident attempt' = attempt_ident attempt"
proof -
  note l = load_job_Inr [OF assms(4)]
  have ok: "releases_ok (cb_release db)" "releases_ok (cb_release db')" "attempts_ok (cb_release db)" "attempts_ok (cb_release db')"
      "evolves (cb_release db) (cb_release db')" "attempts_evolve (cb_release db) (cb_release db')"
    using assms(1-3) by (auto simp: catalog_sound_def sound_def catalog_later_def later_def)
  obtain rel' attempt' where "GetByID (pj_ReleaseID payload) (cb_release db') = Inr rel'" "release_fixed (re_row rel') = release_fixed (re_row rel)"
      "release_at (cb_release db') (pj_ReleaseID payload) = Some (re_row rel')"
      "GetAttemptByID (pj_AttemptID payload) (cb_release db') = Inr attempt'" "attempt_ident attempt' = attempt_ident attempt"
    using GetByID_again [OF ok(1,2,5) l(2)] GetAttempt_again [OF ok(3,4,6) l(3)] by blast
  then show ?thesis using l(1) GetByID_row(2) [OF ok(1) l(2)] by (simp add: load_job_def)
qed

lemma Publish_current:
  assumes "load_job u job JobKindCatalogPublish db = Inr (payload, rel, attempt)" "am_ReleaseID attempt = release_id rel" "am_Kind attempt = AttemptKindPublish"
    "FindByAttempt pg (pj_AttemptID payload) db = Inr rec" "same_scope rec rel" "rl_status (re_row rel) = StatusPublished"
    "Current pg (vr_ProductID rec) (vr_Channel rec) db = Inr rec'" "vr_ID rec' = vr_ID rec"
  shows "Publish u pg core service call job (st, db) = (Inr (), st, db)"
  unfolding Publish_def load_bind assms(1) sum.case prod.case Let_def assms(2,3,6)
  using assms(4,5,7,8)
  by (simp add: find_or_create_def act_bind_def with_db_def act_try_def act_read_def act_return_def already_current_def)


section \<open>The payload of a job\<close>

definition uuid_roundtrip :: "uuid_lib \<Rightarrow> bool" where
  "uuid_roundtrip u \<longleftrightarrow> (\<forall>x. u_parse u (u_string u x) = Some x)"

lemma marshal_two:
  assumes "utf8_valid k1" "utf8_valid v1" "utf8_valid k2" "utf8_valid v2" "sort_key fst [(k2, v2), (k1, v1)] = [(k1, v1), (k2, v2)]"
  shows "parse_json (marshal_string_map [(k2, v2), (k1, v1)]) = Some (JObj [(k1, JStr v1), (k2, JStr v2)])"
proof -
  have str: "prints (marshal_string v) (JStr v)" if "utf8_valid v" for v
    using prints_str [OF quotes_marshal [OF that]] by (simp add: marshal_string_def)
  have mem: "\<exists>kb vb. marshal_string k @ '':'' @ marshal_string v = quoted kb @ '':'' @ vb \<and> quotes k kb \<and> prints vb (JStr v)"
    if "utf8_valid k" "utf8_valid v" for k v
    using quotes_marshal [OF that(1)] str [OF that(2)]
    by (intro exI [of _ "marshal_body k"] exI [of _ "marshal_string v"]) (simp add: marshal_string_def)
  have "prints (marshal_string_map [(k2, v2), (k1, v1)]) (JObj [(k1, JStr v1), (k2, JStr v2)])"
    unfolding marshal_string_map_def assms(5) using mem assms(1-4) by (intro prints_obj) simp
  then show ?thesis using prints_read by (simp add: parse_json_def new_decoder_def skip_space_def)
qed

lemma fold_field: "fold_name ''release_id'' = ''release_id''" "fold_name ''attempt_id'' = ''attempt_id''"
  by code_simp+

lemma uuid_utf8: "uuid_text u \<Longrightarrow> utf8_valid (u_string u x)"
  by (rule utf8_valid_ascii)
    (fastforce simp: uuid_text_def list_all_iff is_hex_def is_digit_def in_range_def byte_val_def)

lemma payload_parses:
  assumes "uuid_text u" "uuid_roundtrip u"
  shows "decode_payload u (marshal_string_map [(''release_id'', u_string u r), (''attempt_id'', u_string u a)])
    = Some \<lparr>pj_ReleaseID = r, pj_AttemptID = a\<rparr>"
proof -
  have "utf8_valid ''release_id''" "utf8_valid ''attempt_id''" by code_simp+
  moreover have "sort_key fst [(''release_id'', x), (''attempt_id'', y)] = [(''attempt_id'', y), (''release_id'', x)]" for x y :: string
    by code_simp
  ultimately have "parse_json (marshal_string_map [(''release_id'', u_string u r), (''attempt_id'', u_string u a)])
      = Some (JObj [(''attempt_id'', JStr (u_string u a)), (''release_id'', JStr (u_string u r))])"
    by (intro marshal_two uuid_utf8 [OF assms(1)])
  then show ?thesis using assms(2) by (simp add: decode_payload_def payload_field_def fold_field decode_uuid_def uuid_roundtrip_def)
qed


definition decimal_uuid :: uuid_lib where
  "decimal_uuid = \<lparr>u_string = (\<lambda>x. dec_nat (unat x)), u_parse = (\<lambda>s. Some (of_nat (dec_value s)))\<rparr>"

lemma decimal_uuid_laws: "uuid_text decimal_uuid" "uuid_roundtrip decimal_uuid"
  using dec_nat_digits
  by (auto simp: uuid_text_def uuid_roundtrip_def decimal_uuid_def dec_value_nat is_hex_def list_all_iff)

lemma decimal_payload: "json_object (marshal_string_map [(''release_id'', u_string decimal_uuid 20), (''attempt_id'', u_string decimal_uuid 30)])"
  by code_simp


section \<open>Sample runs\<close>

definition sample_catalog_job :: Job where
  "sample_catalog_job = \<lparr>j_ID = 2, j_Kind = JobKindCatalogPublish, j_AggregateID = 20,
     j_Payload = marshal_string_map [(''release_id'', u_string decimal_uuid 20), (''attempt_id'', u_string decimal_uuid 30)],
     j_Status = StatusPending, j_Attempts = 0, j_AvailableAt = 5000, j_LeaseOwner = [], j_LeaseExpiresAt = None, j_LastErrorCode = [],
     j_CreatedAt = 5000, j_UpdatedAt = 5000\<rparr>"

lemma sample_job_loaded:
  "load_job decimal_uuid sample_catalog_job JobKindCatalogPublish (sample_catalogs status attempt at)
    = Inr (\<lparr>pj_ReleaseID = 20, pj_AttemptID = 30\<rparr>, with_artifacts (sample_release status 5 (Some ''ana'') None) (cb_release (sample_catalogs status attempt at)),
        sample_attempt AttemptKindPublish attempt)"
proof -
  have "j_Payload sample_catalog_job \<noteq> []" by (simp add: sample_catalog_job_def marshal_string_map_def)
  then have "decodeCatalogJob decimal_uuid sample_catalog_job JobKindCatalogPublish = Inr \<lparr>pj_ReleaseID = 20, pj_AttemptID = 30\<rparr>"
    using payload_parses [OF decimal_uuid_laws] by (simp add: decodeCatalogJob_def sample_catalog_job_def)
  moreover have "GetByID 20 (cb_release (sample_catalogs status attempt at))
      = Inr (with_artifacts (sample_release status 5 (Some ''ana'') None) (cb_release (sample_catalogs status attempt at)))"
    by (simp add: GetByID_def loadRelease_def find_release_def sample_catalogs_def sample_releases_def tbl_get_def sample_release_def sample_text)
  moreover have "GetAttemptByID 30 (cb_release (sample_catalogs status attempt at)) = Inr (sample_attempt AttemptKindPublish attempt)"
    by (simp add: GetAttemptByID_def sample_catalogs_def sample_releases_def tbl_get_def sample_attempt_def)
  ultimately show ?thesis by (simp add: load_job_def)
qed

abbreviation sample_found :: "time option \<Rightarrow> VersionRecord" where
  "sample_found at \<equiv> (scanVersionRecord (sample_version_row at))\<lparr>vr_Roles := \<lambda>role. Some (scan_document plain_pg (sample_document role))\<rparr>"

lemma sample_loaded: "load_version plain_pg (sample_version_row at) (sample_catalogs status attempt at) = Inr (sample_found at)"
proof -
  have "tbl_get document_key (cb_documents (sample_catalogs status attempt at)) (50, role) = Some (sample_document role)" for role
    using sample_documents by (simp add: sample_catalogs_def)
  then show ?thesis by (simp add: load_version_Inr complete_def sample_version_row_def)
qed

lemma sample_find_attempt: "FindByAttempt plain_pg 30 (sample_catalogs status attempt at) = Inr (sample_found at)"
  using sample_loaded by (simp add: FindByAttempt_def sample_catalogs_def tbl_get_def sample_version_row_def)

lemma sample_scope: "same_scope (sample_found at) (with_artifacts (sample_release status 5 (Some ''ana'') None) db)"
  by (simp add: same_scope_def scanVersionRecord_def sample_version_row_def sample_release_def with_artifacts_def)

definition sample_publication_call :: publication_call where
  "sample_publication_call = \<lparr>pc_build_now = 5000, pc_verify_now = 5000, pc_created_now = 5000, pc_now = 5000, pc_db_now = 5000, pc_id = Some 51,
     pc_audit = cl_audit sample_call\<rparr>"

lemma sample_publish_again:
  "Publish decimal_uuid plain_pg sample_core service call sample_catalog_job (st, sample_published) = (Inr (), st, sample_published)"
proof -
  obtain rec where cur: "Current plain_pg ''p1'' ''x'' sample_published = Inr rec" "vr_ID rec = 50" using sample_current by blast
  have find: "FindByAttempt plain_pg (pj_AttemptID \<lparr>pj_ReleaseID = 20, pj_AttemptID = 30\<rparr>) sample_published = Inr (sample_found (Some 2000))"
    using sample_find_attempt by simp
  from cur show ?thesis
    by (intro Publish_current [OF sample_job_loaded _ _ find sample_scope, where rec' = rec])
      (simp_all add: sample_attempt_def sample_release_def with_artifacts_def scanVersionRecord_def sample_version_row_def)
qed


theorem worker_runs_are_histories_witness:
  "\<forall>describe service st. \<exists>r st' db'. Handle describe decimal_uuid plain_pg sample_core service sample_publication_call sample_catalog_job (st, sample_pending) = (r, st', db')
     \<and> extends decimal_uuid plain_pg [sample_pending] db'"
proof (intro allI)
  fix describe service st
  obtain r st' db' where run: "Handle describe decimal_uuid plain_pg sample_core service sample_publication_call sample_catalog_job (st, sample_pending) = (r, st', db')"
    by (cases rule: prod_cases3)
  have "extends decimal_uuid plain_pg [sample_pending] db'"
    by (rule worker_runs_are_histories [OF sample_catalog_history(1), THEN conjunct1, rule_format, OF run])
  with run show "\<exists>r st' db'. Handle describe decimal_uuid plain_pg sample_core service sample_publication_call sample_catalog_job (st, sample_pending) = (r, st', db')
     \<and> extends decimal_uuid plain_pg [sample_pending] db'" by blast
qed

lemma sample_object_keys: "validateObjectKey (''catalogs/'' @ role_text role) = None"
proof -
  have "list_all (\<lambda>role. validateObjectKey (''catalogs/'' @ role_text role) = None) publicationRoleOrder" by code_simp
  then show ?thesis by (cases role) (simp_all add: publicationRoleOrder_def)
qed

lemma present_role:
  assumes "validateObjectKey (do_ObjectKey d) = None" "do_Envelope d = ''x''" "do_EnvelopeSHA256 d = sample_digest"
  shows "persistRole u sample_core x d (\<lambda>_. Some ''x'') = (Inr (), \<lambda>_. Some ''x'')"
proof -
  have "Open sample_core (do_ObjectKey d) 0 (-1) (\<lambda>_. Some ''x'')
      = (Inr (\<lparr>rd_bytes = ''x'', rd_fails = False\<rparr>, fromMinIOObjectInfo (do_ObjectKey d)
          \<lparr>mi_Size = 1, mi_ETag = ''e1'', mi_ContentType = [], mi_LastModified = 0\<rparr>), \<lambda>_. Some ''x'')"
    using assms(1) by (simp add: Open_def open_range_def checked_def client_def act_bind_def act_lift_def act_return_def sample_core_def Let_def)
  then have "verifyRoleObject sample_core d (\<lambda>_. Some ''x'') = (Inr (), \<lambda>_. Some ''x'')"
    using assms(2,3) by (simp add: verifyRoleObject_def act_bind_def wrap_err_def fromMinIOObjectInfo_def Let_def act_return_def equal_fold_def
        maximumRoleEnvelopeBytes_def)
  moreover have "Stat sample_core (do_ObjectKey d) (\<lambda>_. Some ''x'')
      = (Inr (fromMinIOObjectInfo (do_ObjectKey d) \<lparr>mi_Size = 1, mi_ETag = ''e1'', mi_ContentType = [], mi_LastModified = 0\<rparr>), \<lambda>_. Some ''x'')"
    using assms(1) by (simp add: Stat_def checked_def client_def act_bind_def act_return_def sample_core_def)
  ultimately show ?thesis using assms(2) by (simp add: persistRole_def act_try_def maximumRoleEnvelopeBytes_def)
qed

lemma sample_persist: "persist_roles decimal_uuid sample_core (sample_found at) roles (\<lambda>_. Some ''x'') = (Inr (), \<lambda>_. Some ''x'')"
proof (induction roles)
  case (Cons role roles)
  have "validateObjectKey (do_ObjectKey (scan_document plain_pg (sample_document role))) = None"
    unfolding scan_document_def sample_document_def document_row.select_convs RoleDocument.select_convs by (rule sample_object_keys)
  then have "persistRole decimal_uuid sample_core x (scan_document plain_pg (sample_document role)) (\<lambda>_. Some ''x'') = (Inr (), \<lambda>_. Some ''x'')" for x
    by (rule present_role) (simp_all add: scan_document_def sample_document_def)
  then show ?case using Cons by (simp add: act_bind_def)
qed (simp add: act_return_def)

lemma sample_complete:
  "\<exists>db'. CompletePublication 5000 20 30 5000 (cb_release sample_pending) = (Inr (), db') \<and> rd_platform db' = snd sample_platform"
proof -
  let ?row = "sample_release StatusPublishing 5 (Some ''ana'') None"
  let ?new = "(set_publication StatusPublished None 5000 ?row)"
  have "protect_release_transition 5000 ?row ?new = Some ?new"
    by (simp add: protect_release_transition_def set_publication_def release_fixed_def revocation_of_def sample_release_def)
  moreover have "release_row_ok ?new"
    using sample_release_ok [of StatusPublished "Some ''ana''" None 5]
    by (simp add: release_row_ok_def set_publication_def submission_consistent_def decision_consistent_def revocation_consistent_def sample_release_def
        int8_max_def)
  ultimately have up: "update_release 5000 (\<lambda>r. rl_id r = 20 \<and> rl_status r = StatusPublishing) (set_publication StatusPublished None 5000) (cb_release sample_pending)
      = (Inr (Some ?new), sample_releases ?new [sample_attempt AttemptKindPublish AttemptStatusPending])"
    unfolding sample_catalogs_def catalog_db.select_convs by (intro sample_update) (simp_all add: sample_release_def set_publication_def)
  have "lock_attempt AttemptKindPublish 20 30 (cb_release sample_pending) = Inr (sample_attempt AttemptKindPublish AttemptStatusPending)"
    by (simp add: lock_attempt_def GetAttemptByID_def sample_catalogs_def sample_releases_def tbl_get_def sample_attempt_def)
  then show ?thesis using up
    by (simp add: CompletePublication_def settle_publication_def settle_attempt_def act_bind_def act_read_def act_write_def truncate_time_def microsecond_def
        sample_releases_def rows_affected_def sample_attempt_def Let_def)
qed

lemma sample_switch:
  "\<exists>db'. SetCurrent ''p1'' ''x'' 50 5000 sample_pending = (Inr (), db') \<and> cb_release db' = cb_release sample_pending"
  by (simp add: SetCurrent_def act_write_def sample_text switch_candidate_def sample_catalogs_def tbl_get_def sample_version_row_def
      sample_document_def publicationRoleOrder_def Let_def sample_call_values)

lemma catalog_words:
  "list_all graphic ''2''" "list_all graphic ''50''" "list_all graphic ''catalog''" "list_all graphic ''catalog.publish.complete''"
  "list_all graphic ''release-worker''" "list_all graphic ''publisher''"
  by (simp_all add: graphic_def in_range_def byte_val_def)

lemmas catalog_text = catalog_words [THEN trim_space_graphic] catalog_words [THEN pg_text_graphic] catalog_words [THEN pg_length_graphic]

lemma catalog_patterns: "matches auditActionPattern ''catalog.publish.complete''" "matches resourceTypePattern ''catalog''"
  by (simp_all add: auditActionPattern_def resourceTypePattern_def name_segment_def plus_re_def
      name_separator_def is_lower_def is_digit_def in_range_def byte_val_def)

abbreviation "sample_publish_metadata_values \<equiv> [(''release_id'', AnyString (u_string decimal_uuid 20)), (''attempt_id'', AnyString (u_string decimal_uuid 30)),
   (''bundle_sha256'', AnyString zeroHash)]"

lemma sample_catalog_metadata:
  "\<exists>js. encodeRedactedMetadata sample_publish_metadata_values = Inr js \<and> json_object js"
proof -
  let ?js = "marshal_any (AnyMap (redactMap sample_publish_metadata_values))"
  have "json_object ?js" by code_simp
  moreover have "length ?js \<le> 199" by code_simp
  ultimately show ?thesis by (simp add: encodeRedactedMetadata_def maximumMetadataBytes_def Let_def del: marshal_any.simps)
qed

lemma decimal_ids: "u_string decimal_uuid 2 = ''2''" "u_string decimal_uuid 50 = ''50''" "u_parse decimal_uuid ''2'' = Some 2"
proof -
  show "u_string decimal_uuid 2 = ''2''" "u_string decimal_uuid 50 = ''50''" by code_simp+
  show "u_parse decimal_uuid ''2'' = Some 2" by (simp add: decimal_uuid_def dec_value_def byte_val_def)
qed

lemma sample_catalog_audit:
  assumes "pl_audit (rd_platform (cb_release db)) = empty_audit"
  shows "\<exists>e db'. catalog_audit decimal_uuid sample_publication_call sample_catalog_job ''catalog.publish.complete'' ''p1'' ''catalog'' (u_string decimal_uuid 50)
     OutcomeSuccess sample_publish_metadata_values db = (Inr e, db')"
proof -
  let ?c = "\<lparr>ac_Actor = workerPrincipal ''p1'', ac_Action = ''catalog.publish.complete'', ac_ProductID = ''p1'', ac_ResourceType = ''catalog'',
    ac_ResourceID = ''50'', ac_Outcome = OutcomeSuccess, ac_RequestID = ''2'', ac_SourceIP = [], ac_Metadata = sample_publish_metadata_values\<rparr>"
  obtain js where js: "encodeRedactedMetadata sample_publish_metadata_values = Inr js" "json_object js" using sample_catalog_metadata by blast
  let ?e = "\<lparr>ev_ID = 1, ev_OccurredAt = 5000, ev_ProductID = ''p1'', ev_ActorSubject = ''release-worker'', ev_ActorKind = ''workload'',
    ev_ActorProvider = ''api-token'', ev_ActorRoles = [''publisher''], ev_ActorProductIDs = [''p1''], ev_TokenID = [],
    ev_Action = ''catalog.publish.complete'', ev_ResourceType = ''catalog'', ev_ResourceID = ''50'', ev_Outcome = OutcomeSuccess, ev_RequestID = 2,
    ev_SourceIP = [], ev_Metadata = js, ev_PreviousHash = [], ev_EventHash = []\<rparr>"
  have "new_event decimal_uuid (cl_audit sample_call) ?c = Inr ?e"
    using js(1) catalog_patterns
    by (simp add: new_event_def workerPrincipal_def sample_call_def sample_text catalog_text Let_def Identity.Validate_def decimal_ids)
  moreover have "event_insertable [] (?e\<lparr>ev_PreviousHash := zeroHash, ev_OccurredAt := t, ev_EventHash := h\<rparr>)" if "hash_format h" for h t
    using that js(2) by (simp add: event_insertable_def pg_length_between_def sample_text catalog_text tbl_has_def zeroHash_format inet_ok_def)
  moreover have "pg_text (partition_key (ev_ProductID ?e))"
    by (simp add: partition_key_def sample_text)
  ultimately have "\<exists>e au. Append decimal_uuid \<lparr>as_repository = True, as_jobEnqueuer = True\<rparr> (cl_audit sample_call) ?c empty_audit = (Inr e, au)"
    by (intro append_first [where ?e0.0 = ?e]) auto
  moreover have "u_string decimal_uuid (j_ID sample_catalog_job) = ''2''" by (simp add: sample_catalog_job_def decimal_ids)
  ultimately show ?thesis using assms
    by (auto simp: catalog_audit_def on_log_def on_platform_def on_release_def sample_publication_call_def decimal_ids(2))
qed

lemma sample_publish:
  "\<exists>db'. Publish decimal_uuid plain_pg sample_core service sample_publication_call sample_catalog_job (\<lambda>_. Some ''x'', sample_pending)
     = (Inr (), \<lambda>_. Some ''x'', db')"
proof -
  let ?rel = "with_artifacts (sample_release StatusPublishing 5 (Some ''ana'') None) (cb_release sample_pending)"
  have now: "pub_time sample_publication_call = 5000" "pc_db_now sample_publication_call = 5000"
    by (simp_all add: sample_publication_call_def truncate_time_def microsecond_def)
  have rec: "vr_ProductID (sample_found None) = ''p1''" "vr_Channel (sample_found None) = ''x''" "vr_ID (sample_found None) = 50"
      "vr_BundleSHA256 (sample_found None) = zeroHash" "release_id ?rel = 20" "rl_status (re_row ?rel) = StatusPublishing"
    by (simp_all add: scanVersionRecord_def sample_version_row_def sample_release_def with_artifacts_def)
  obtain db1 where set: "SetCurrent ''p1'' ''x'' 50 5000 sample_pending = (Inr (), db1)" "cb_release db1 = cb_release sample_pending"
    using sample_switch by blast
  obtain rel where rel: "CompletePublication 5000 20 30 5000 (cb_release sample_pending) = (Inr (), rel)" "rd_platform rel = snd sample_platform"
    using sample_complete by blast
  have "pl_audit (rd_platform (cb_release (db1\<lparr>cb_release := rel\<rparr>))) = empty_audit" using rel(2) by (simp add: sample_platform_def)
  then obtain e db2 where au: "catalog_audit decimal_uuid sample_publication_call sample_catalog_job ''catalog.publish.complete'' ''p1'' ''catalog''
      (u_string decimal_uuid 50) OutcomeSuccess sample_publish_metadata_values (db1\<lparr>cb_release := rel\<rparr>) = (Inr e, db2)"
    using sample_catalog_audit by blast
  have "switch_tx decimal_uuid sample_publication_call sample_catalog_job (sample_found None) ''catalog.publish.complete'' ?rel 30
      (CompletePublication 5000 20 30 5000) sample_pending = (Inr (), db2)"
    unfolding switch_tx_def rec now using set rel(1) au
    by (simp add: within_tx_def act_bind_def on_release_def wrap_err_def act_return_def)
  moreover have "find_or_create plain_pg 30 m sample_pending = (Inr (sample_found None), sample_pending)" for m
    by (simp add: find_or_create_def act_try_def act_read_def sample_find_attempt act_return_def)
  moreover have "am_ReleaseID (sample_attempt AttemptKindPublish AttemptStatusPending) = 20" "am_Kind (sample_attempt AttemptKindPublish AttemptStatusPending) = AttemptKindPublish"
    by (simp_all add: sample_attempt_def)
  ultimately show ?thesis
    unfolding Publish_def load_bind sample_job_loaded sum.case prod.case Let_def rec now
    using sample_persist sample_scope
    by (simp add: act_bind_def with_db_def with_store_def)
qed

theorem published_catalog_stored_witness:
  "\<forall>service. \<exists>db' rec. Publish decimal_uuid plain_pg sample_core service sample_publication_call sample_catalog_job (\<lambda>_. Some ''x'', sample_pending)
       = (Inr (), \<lambda>_. Some ''x'', db')
     \<and> Current plain_pg ''p1'' ''x'' db' = Inr rec \<and> vr_ReleaseID rec = 20 \<and> vr_AttemptID rec = 30"
proof
  fix service
  obtain db' where run: "Publish decimal_uuid plain_pg sample_core service sample_publication_call sample_catalog_job (\<lambda>_. Some ''x'', sample_pending)
     = (Inr (), \<lambda>_. Some ''x'', db')" using sample_publish by blast
  have "rl_status (re_row (with_artifacts (sample_release StatusPublishing 5 (Some ''ana'') None) (cb_release sample_pending))) = StatusPublishing"
    by (simp add: with_artifacts_def sample_release_def)
  from published_catalog_stored [OF sample_core_laws decimal_uuid_laws(1) sample_catalog_history(1) run sample_job_loaded this] run
  show "\<exists>db' rec. Publish decimal_uuid plain_pg sample_core service sample_publication_call sample_catalog_job (\<lambda>_. Some ''x'', sample_pending)
       = (Inr (), \<lambda>_. Some ''x'', db')
     \<and> Current plain_pg ''p1'' ''x'' db' = Inr rec \<and> vr_ReleaseID rec = 20 \<and> vr_AttemptID rec = 30"
    by (auto simp: with_artifacts_def sample_release_def)
qed

end
