(* ===== verification/Spec2Isabelle.thy ===== *)
theory Spec2Isabelle
  imports PublicationRules
begin

text \<open>
  A verification development of the release platform, a set of Go services that register products, take
  in their artifacts, move releases through an approval workflow and publish signed catalogs.

  \<^bold>\<open>The program and its theories.\<close> Every source path is below \<open>src/internal\<close>.

  \<^item> \<open>Prelude\<close>, \<open>GoStd\<close>, \<open>GoJson\<close>, \<open>Postgres\<close>: what the sources use of Go and of the database. A Go \<open>string\<close>
    and a \<open>[]byte\<close> are both \<open>string\<close>; an error is a value of a datatype per package that wraps the errors
    of the packages below it; code that works on the database is an \<open>action\<close>, from a state to a result and
    a state, composed by \<open>act_bind\<close> and \<open>act_try\<close>, and \<open>within_tx\<close> is \<open>database.WithTx\<close>. SHA-256, hexadecimal
    and base64 text, RFC 3339 times, UTF-8, the token stream of \<open>encoding/json\<close>, \<open>strings\<close> and \<open>regexp\<close>
    (derivatives) are concrete definitions.
  \<^item> \<open>Identity\<close> (\<open>identity\<close>): principals, the authorizer with its scopes, the audit read scope.
  \<^item> \<open>Jobs\<close> (\<open>platform/jobs\<close>): the outbox table with leases, and the worker, whose goroutines are
    schedules of events.
  \<^item> \<open>AuditLog\<close> (\<open>audit\<close>): events, redaction, the hash chain per partition, exports.
  \<^item> \<open>Product\<close> (\<open>product\<close>): manifests, the registry, product lists.
  \<^item> \<open>ObjectStore\<close> (\<open>platform/objectstore\<close>): the store port over the calls of \<open>minio.Core\<close>.
  \<^item> \<open>Artifact\<close> (\<open>artifact\<close>): uploads, completion with verification, deduplication, clean-up.
  \<^item> \<open>Release\<close>, \<open>ReleaseService\<close> (\<open>release\<close>): the state machine, the tables with their constraints and
    triggers, and the service. A request takes its clock and identifiers from an \<open>artifact_call\<close>.
  \<^item> \<open>JsonText\<close>, \<open>CanonicalJson\<close>, \<open>Catalog\<close> (\<open>catalog\<close>): reading back what the encoders print, canonical
    JSON, the verifier of a bundle of five signed roles, the resolver of targets and the builder.
  \<^item> \<open>Publication\<close> (\<open>catalog/repository.go\<close>, \<open>postgres_repository.go\<close>, \<open>publication_service.go\<close>): the tables of
    catalog versions, role documents and current pointers with their triggers, and the worker that
    publishes and revokes. A run takes its clock readings and identifiers from a \<open>publication_call\<close>.

  \<^bold>\<open>Interaction.\<close> The release service reads products and artifacts, writes its tables, enqueues a job and
  appends an audit event in one transaction; the worker leases the job and hands it to the publication
  service, whose builder resolves the release into a target, signs the roles and verifies the bundle. The
  service records the catalog of an attempt once, stores its roles and reads them back, and in one transaction
  makes it current, completes the release and appends an audit event.

  \<^bold>\<open>What the lemmas show.\<close> \<open>Workflow\<close> defines an abstract workflow of one release and the histories of the
  release tables in which each operation may have decided on any earlier state; \<open>ReleaseRules\<close> proves that
  the histories refine the workflow, separation of duties, optimistic locking, idempotent requests, atomic
  publication, final revocation and what a governed reader sees. The component theories prove their own
  invariants: leases are exclusive, settled jobs are final, the audit chain verifies and is evident to
  tampering, redaction is complete, stored artifacts have their declared digest, products are immutable.
  \<open>CanonicalJson\<close> proves that canonical JSON is a normal form, \<open>CatalogRules\<close> what a built or verified bundle
  guarantees. \<open>PublicationTables\<close> extends the histories by the steps of the worker and proves that catalogs never
  roll back, that a published release has its catalog and that the tables stay well formed; \<open>PublicationRules\<close>
  that the runs of the worker are such histories, what a successful publication leaves in the tables and in
  the store, that it may be repeated, and that a queued job is read back as it was written.

  \<^bold>\<open>Interfaces.\<close> \<open>transactor\<close>, \<open>evolution\<close>, \<open>lease_transition\<close>, \<open>audit_log\<close> and \<open>versioned\<close> are locales,
  each interpreted on the definitions of the model; \<open>s3_laws\<close> names what is relied on of the object server.

  \<^bold>\<open>Bounds and fuel.\<close> The readers of JSON count the bytes of their input as fuel (\<open>fuel_for\<close>); it always
  suffices, which \<open>strict_reader_ends\<close> and the lemmas on \<open>read_value\<close> show. Machine integers carry their
  bounds where the code or the database checks them.

  \<^bold>\<open>Parameters.\<close> \<open>google/uuid\<close> (\<open>uuid_lib\<close>), the text PostgreSQL prints (\<open>pg_lib\<close>), \<open>minio.Core\<close>,
  Ed25519 verification and the signing provider.

  \<^bold>\<open>Not modelled.\<close> HTTP handlers and servers, OIDC and API tokens, configuration and wiring, the signing key
  files, the browser client: input and output around libraries. Identity governance (\<open>iam\<close>), source control
  (\<open>scm\<close>), product logs (\<open>logcenter\<close>) and endpoints (\<open>endpoint\<close>) are not modelled yet.
\<close>

end
